(* ===== verification/Prelude.thy ===== *)
theory Prelude
  imports
    Main
    "HOL-Library.Word"
    "HOL-Library.Sublist"
    "HOL-Library.Char_ord"
    "HOL-Library.List_Lexorder"
    "HOL-Library.Multiset"
begin

text \<open>
  Shared vocabulary of the development.

  \<^item> the integer types of the program (\<open>u8\<close>, \<open>u16\<close>, \<open>u32\<close>, \<open>u64\<close>, \<open>i32\<close>, \<open>i64\<close>, \<open>usize\<close>) and the
    byte strings of the DNS wire format;
  \<^item> \<open>'a result\<close>-style errors: a fallible function returns \<open>'e + 'a\<close> with \<open>Inl\<close> for Rust's
    \<open>Err\<close> and \<open>Inr\<close> for \<open>Ok\<close>; \<open>res_bind\<close> is the \<open>?\<close> operator, \<open>res_map_list\<close> is
    \<open>iter().map(f).collect::<Result<Vec<_>>>()\<close>;
  \<^item> the collections \<open>norm_simps\<close> (normal forms of the string functions), \<open>inv_intros\<close>
    (invariant preservation) and \<open>codec_simps\<close> (wire-format laws), which the component theories
    extend and their proofs use;
  \<^item> association lists as the model of \<open>HashMap\<close>: the list order stands for the iteration order,
    which Rust leaves unspecified, so that every theorem quantifies over it.
\<close>

named_theorems norm_simps "normal forms of string functions"
named_theorems inv_intros "preservation of component invariants"
named_theorems codec_simps "laws of the DNS message codec"

subsection \<open>Integer and byte types\<close>

type_synonym u8 = "8 word"
type_synonym u16 = "16 word"
type_synonym u32 = "32 word"
type_synonym u64 = "64 word"
type_synonym i32 = "32 word"
type_synonym i64 = "64 word"
type_synonym usize = "64 word"
type_synonym bytes = "8 word list"

subsection \<open>Results\<close>

fun res_bind :: "'e + 'a \<Rightarrow> ('a \<Rightarrow> 'e + 'b) \<Rightarrow> 'e + 'b" where
  "res_bind (Inl e) f = Inl e"
| "res_bind (Inr a) f = f a"

fun map_err :: "('e \<Rightarrow> 'f) \<Rightarrow> 'e + 'a \<Rightarrow> 'f + 'a" where
  "map_err f (Inl e) = Inl (f e)"
| "map_err f (Inr a) = Inr a"

fun map_ok :: "('a \<Rightarrow> 'b) \<Rightarrow> 'e + 'a \<Rightarrow> 'e + 'b" where
  "map_ok f (Inl e) = Inl e"
| "map_ok f (Inr a) = Inr (f a)"

fun res_ok :: "'e + 'a \<Rightarrow> 'a option" where
  "res_ok (Inl e) = None"
| "res_ok (Inr a) = Some a"

fun ok_or :: "'e \<Rightarrow> 'a option \<Rightarrow> 'e + 'a" where
  "ok_or e None = Inl e"
| "ok_or e (Some a) = Inr a"

fun transpose_opt :: "('e + 'a) option \<Rightarrow> 'e + 'a option" where
  "transpose_opt None = Inr None"
| "transpose_opt (Some (Inl e)) = Inl e"
| "transpose_opt (Some (Inr a)) = Inr (Some a)"

fun res_map_list :: "('a \<Rightarrow> 'e + 'b) \<Rightarrow> 'a list \<Rightarrow> 'e + 'b list" where
  "res_map_list f [] = Inr []"
| "res_map_list f (x # xs) =
     res_bind (f x) (\<lambda>y. res_bind (res_map_list f xs) (\<lambda>ys. Inr (y # ys)))"

lemma res_bind_Inr [simp]:
  "res_bind r f = Inr b \<longleftrightarrow> (\<exists>a. r = Inr a \<and> f a = Inr b)"
  by (cases r) auto

lemma res_bind_Inl:
  "res_bind r f = Inl e \<longleftrightarrow> r = Inl e \<or> (\<exists>a. r = Inr a \<and> f a = Inl e)"
  by (cases r) auto

lemma map_err_Inr [simp]: "map_err f r = Inr a \<longleftrightarrow> r = Inr a"
  by (cases r) auto

lemma map_err_Inl: "map_err f r = Inl e \<longleftrightarrow> (\<exists>e'. r = Inl e' \<and> e = f e')"
  by (cases r) auto

lemma map_ok_Inr [simp]: "map_ok f r = Inr b \<longleftrightarrow> (\<exists>a. r = Inr a \<and> b = f a)"
  by (cases r) auto

lemma ok_or_Inr [simp]: "ok_or e x = Inr a \<longleftrightarrow> x = Some a"
  by (cases x) auto

lemma ok_or_Inl [simp]: "ok_or e x = Inl e' \<longleftrightarrow> x = None \<and> e' = e"
  by (cases x) auto

lemma transpose_opt_Inr:
  "transpose_opt x = Inr y \<longleftrightarrow>
     (x = None \<and> y = None) \<or> (\<exists>a. x = Some (Inr a) \<and> y = Some a)"
  by (cases x; cases "the x") auto

lemma res_map_list_Inr:
  "res_map_list f xs = Inr ys \<longleftrightarrow> list_all2 (\<lambda>x y. f x = Inr y) xs ys"
  by (induction xs arbitrary: ys) (auto simp: list_all2_Cons1)

lemma res_map_list_Inr_set:
  assumes "res_map_list f xs = Inr ys" and "y \<in> set ys"
  obtains x where "x \<in> set xs" and "f x = Inr y"
proof -
  from assms(2) obtain i where "i < length ys" and "y = ys ! i"
    by (auto simp: in_set_conv_nth)
  with assms(1) have "i < length xs" and "f (xs ! i) = Inr y"
    by (auto simp: res_map_list_Inr list_all2_conv_all_nth)
  then show ?thesis by (intro that [of "xs ! i"]) auto
qed

lemma res_map_list_total:
  assumes "\<forall>x\<in>set xs. f x = Inr (g x)"
  shows "res_map_list f xs = Inr (map g xs)"
  using assms by (induction xs) auto

subsection \<open>Hash maps as association lists\<close>

type_synonym ('k, 'v) hash_map = "('k \<times> 'v) list"

fun hm_insert :: "'k \<Rightarrow> 'v \<Rightarrow> ('k, 'v) hash_map \<Rightarrow> ('k, 'v) hash_map" where
  "hm_insert k v [] = [(k, v)]"
| "hm_insert k v ((k', v') # m) = (if k = k' then (k, v) # m else (k', v') # hm_insert k v m)"

definition hm_remove :: "'k \<Rightarrow> ('k, 'v) hash_map \<Rightarrow> ('k, 'v) hash_map" where
  "hm_remove k m = filter (\<lambda>p. fst p \<noteq> k) m"

lemma map_of_hm_insert [simp]: "map_of (hm_insert k v m) = (map_of m)(k \<mapsto> v)"
  by (induction k v m rule: hm_insert.induct) (auto simp: fun_eq_iff)

lemma keys_hm_insert [simp]: "fst ` set (hm_insert k v m) = insert k (fst ` set m)"
  by (induction k v m rule: hm_insert.induct) auto

lemma set_hm_insert:
  "distinct (map fst m) \<Longrightarrow>
   set (hm_insert k v m) = insert (k, v) {p \<in> set m. fst p \<noteq> k}"
  by (induction k v m rule: hm_insert.induct) (auto simp: rev_image_eqI)

lemma distinct_hm_insert [simp]:
  "distinct (map fst m) \<Longrightarrow> distinct (map fst (hm_insert k v m))"
proof (induction k v m rule: hm_insert.induct)
  case (2 k v k' v' m)
  then show ?case
    using keys_hm_insert [of k v m] by (auto simp del: keys_hm_insert simp flip: set_map)
qed simp

lemma length_hm_insert:
  "length (hm_insert k v m) = (if k \<in> fst ` set m then length m else Suc (length m))"
  by (induction k v m rule: hm_insert.induct) auto

lemma length_hm_insert_le: "length (hm_insert k v m) \<le> Suc (length m)"
  by (simp add: length_hm_insert)

lemma map_of_hm_remove [simp]: "map_of (hm_remove k m) = (map_of m)(k := None)"
  by (induction m) (auto simp: hm_remove_def fun_eq_iff)

lemma distinct_hm_remove [simp]:
  "distinct (map fst m) \<Longrightarrow> distinct (map fst (hm_remove k m))"
  by (auto simp: hm_remove_def distinct_map_filter)

subsection \<open>Lists\<close>

lemma find_SomeD: "find P xs = Some x \<Longrightarrow> x \<in> set xs \<and> P x"
  by (induction xs) (auto split: if_splits)

lemma find_None: "find P xs = None \<longleftrightarrow> (\<forall>x\<in>set xs. \<not> P x)"
  by (induction xs) auto

lemma find_append:
  "find P (xs @ ys) = (case find P xs of Some x \<Rightarrow> Some x | None \<Rightarrow> find P ys)"
  by (induction xs) auto

lemma find_split:
  "find P xs = Some x \<Longrightarrow>
   \<exists>pre post. xs = pre @ x # post \<and> P x \<and> (\<forall>y\<in>set pre. \<not> P y)"
proof (induction xs)
  case (Cons a xs)
  show ?case
  proof (cases "P a")
    case True
    with Cons.prems have "a # xs = [] @ x # xs" and "P x" by auto
    then show ?thesis by (metis empty_iff list.set(1))
  next
    case False
    with Cons obtain pre post
      where "xs = pre @ x # post" "P x" "\<forall>y\<in>set pre. \<not> P y" by auto
    with False have "a # xs = (a # pre) @ x # post" and "\<forall>y\<in>set (a # pre). \<not> P y"
      by auto
    with \<open>P x\<close> show ?thesis by blast
  qed
qed simp

lemma suffix_iff_rev_prefix: "suffix p s \<longleftrightarrow> prefix (rev p) (rev s)"
  by (simp add: suffix_to_prefix)

end
