(* ===== verification/RustStd.thy ===== *)
theory RustStd
  imports Prelude
begin

text \<open>
  The parts of Rust's standard library that the sources call: the methods of \<open>str\<close>, integer
  parsing and printing, and the parsers of \<open>std::net\<close>.

  A Rust string is the \<open>string\<close> (list of 8-bit characters) of its UTF-8 encoding, so \<open>length\<close> is
  \<open>str::len\<close>. A search or a trim for an ASCII character is a search among the bytes, because no byte
  of a multi-byte character is ASCII. \<open>char::is_whitespace\<close> is the Unicode property White_Space; its
  25 characters are listed in \<open>utf8_ws\<close> by their encodings.
\<close>

unbundle bit_operations_syntax

subsection \<open>Stripping repeated patterns\<close>

text \<open>
  \<open>strip_words ps s\<close> removes words of \<open>ps\<close> from the front of \<open>s\<close> while one of them is there: the
  common core of \<open>trim\<close>, \<open>trim_start_matches\<close> and (on reversed strings) \<open>trim_end_matches\<close>.
\<close>

function strip_words :: "string list \<Rightarrow> string \<Rightarrow> string" where
  "strip_words ps s =
     (case find (\<lambda>p. p \<noteq> [] \<and> prefix p s) ps of
        None \<Rightarrow> s
      | Some p \<Rightarrow> strip_words ps (drop (length p) s))"
  by pat_completeness auto
termination
proof (relation "measure (\<lambda>(ps, s). length s)")
  fix ps :: "string list" and s p
  assume "find (\<lambda>p. p \<noteq> [] \<and> prefix p s) ps = Some p"
  then have "p \<noteq> []" and "prefix p s" by (auto dest: find_SomeD)
  then have "0 < length p" and "length p \<le> length s" by (auto dest: prefix_length_le)
  then have "length s - length p < length s" by linarith
  then show "((ps, drop (length p) s), (ps, s)) \<in> measure (\<lambda>(ps, s). length s)" by simp
qed simp

declare strip_words.simps [simp del]

definition starts_with_any :: "string list \<Rightarrow> string \<Rightarrow> bool" where
  "starts_with_any ps s \<longleftrightarrow> (\<exists>p\<in>set ps. p \<noteq> [] \<and> prefix p s)"

lemma strip_words_id: "\<not> starts_with_any ps s \<Longrightarrow> strip_words ps s = s"
  by (subst strip_words.simps) (auto simp: starts_with_any_def find_None split: option.splits
      dest: find_SomeD)

lemma strip_words_not_starts: "\<not> starts_with_any ps (strip_words ps s)"
proof (induction ps s rule: strip_words.induct)
  case (1 ps s)
  show ?case
  proof (cases "find (\<lambda>p. p \<noteq> [] \<and> prefix p s) ps")
    case None
    then have "strip_words ps s = s" by (simp add: strip_words.simps [of ps s])
    with None show ?thesis by (auto simp: starts_with_any_def find_None)
  next
    case (Some p)
    with "1" show ?thesis by (simp add: strip_words.simps [of ps s])
  qed
qed

lemma strip_words_suffix: "suffix (strip_words ps s) s"
proof (induction ps s rule: strip_words.induct)
  case (1 ps s)
  show ?case
  proof (cases "find (\<lambda>p. p \<noteq> [] \<and> prefix p s) ps")
    case None
    then show ?thesis by (simp add: strip_words.simps [of ps s])
  next
    case (Some p)
    then have "suffix (strip_words ps (drop (length p) s)) (drop (length p) s)"
      by (rule "1.IH")
    then have "suffix (strip_words ps (drop (length p) s)) s"
      by (meson suffix_drop suffix_order.order_trans)
    with Some show ?thesis by (simp add: strip_words.simps [of ps s])
  qed
qed

lemma strip_words_idem [simp]: "strip_words ps (strip_words ps s) = strip_words ps s"
  by (simp add: strip_words_id strip_words_not_starts)

lemma starts_with_any_prefix:
  "starts_with_any ps t \<Longrightarrow> prefix t s \<Longrightarrow> starts_with_any ps s"
  by (auto simp: starts_with_any_def intro: prefix_order.order_trans)

lemma strip_words_Nil [simp]: "strip_words ps [] = []"
  by (rule strip_words_id) (simp add: starts_with_any_def)

definition strip_words_end :: "string list \<Rightarrow> string \<Rightarrow> string" where
  "strip_words_end ps s = rev (strip_words (map rev ps) (rev s))"

definition ends_with_any :: "string list \<Rightarrow> string \<Rightarrow> bool" where
  "ends_with_any ps s \<longleftrightarrow> starts_with_any (map rev ps) (rev s)"

lemma strip_words_end_prefix: "prefix (strip_words_end ps s) s"
  using strip_words_suffix [of "map rev ps" "rev s"]
  by (simp add: strip_words_end_def suffix_to_prefix)

lemma strip_words_end_not_ends: "\<not> ends_with_any ps (strip_words_end ps s)"
  by (simp add: ends_with_any_def strip_words_end_def strip_words_not_starts)

lemma strip_words_end_id: "\<not> ends_with_any ps s \<Longrightarrow> strip_words_end ps s = s"
  by (simp add: ends_with_any_def strip_words_end_def strip_words_id)

lemma ends_with_any_suffix:
  "ends_with_any ps t \<Longrightarrow> suffix t s \<Longrightarrow> ends_with_any ps s"
  by (auto simp: ends_with_any_def suffix_to_prefix intro: starts_with_any_prefix)

lemma strip_words_end_idem [simp]:
  "strip_words_end ps (strip_words_end ps s) = strip_words_end ps s"
  by (simp add: strip_words_end_id strip_words_end_not_ends)

lemma strip_words_end_Nil [simp]: "strip_words_end ps [] = []"
  by (simp add: strip_words_end_def)

subsection \<open>Whitespace\<close>

definition utf8_ws :: "string list" where
  "utf8_ws =
     [[CHR 0x20], [CHR 0x09], [CHR 0x0A], [CHR 0x0D], [CHR 0x0B], [CHR 0x0C],
      [CHR 0xC2, CHR 0x85], [CHR 0xC2, CHR 0xA0], [CHR 0xE1, CHR 0x9A, CHR 0x80],
      [CHR 0xE2, CHR 0x80, CHR 0x80], [CHR 0xE2, CHR 0x80, CHR 0x81],
      [CHR 0xE2, CHR 0x80, CHR 0x82], [CHR 0xE2, CHR 0x80, CHR 0x83],
      [CHR 0xE2, CHR 0x80, CHR 0x84], [CHR 0xE2, CHR 0x80, CHR 0x85],
      [CHR 0xE2, CHR 0x80, CHR 0x86], [CHR 0xE2, CHR 0x80, CHR 0x87],
      [CHR 0xE2, CHR 0x80, CHR 0x88], [CHR 0xE2, CHR 0x80, CHR 0x89],
      [CHR 0xE2, CHR 0x80, CHR 0x8A], [CHR 0xE2, CHR 0x80, CHR 0xA8],
      [CHR 0xE2, CHR 0x80, CHR 0xA9], [CHR 0xE2, CHR 0x80, CHR 0xAF],
      [CHR 0xE2, CHR 0x81, CHR 0x9F], [CHR 0xE3, CHR 0x80, CHR 0x80]]"

definition trim_start :: "string \<Rightarrow> string" where
  "trim_start s = strip_words utf8_ws s"

definition trim_end :: "string \<Rightarrow> string" where
  "trim_end s = strip_words_end utf8_ws s"

definition trim :: "string \<Rightarrow> string" where
  "trim s = trim_end (trim_start s)"

definition starts_ws :: "string \<Rightarrow> bool" where
  "starts_ws s \<longleftrightarrow> starts_with_any utf8_ws s"

definition ends_ws :: "string \<Rightarrow> bool" where
  "ends_ws s \<longleftrightarrow> ends_with_any utf8_ws s"

lemma trim_not_starts_ws: "\<not> starts_ws (trim s)"
proof
  assume "starts_ws (trim s)"
  then have "starts_with_any utf8_ws (trim_start s)"
    unfolding starts_ws_def trim_def trim_end_def
    by (rule starts_with_any_prefix) (rule strip_words_end_prefix)
  then show False
    by (simp add: trim_start_def strip_words_not_starts)
qed

lemma trim_not_ends_ws: "\<not> ends_ws (trim s)"
  by (simp add: ends_ws_def trim_def trim_end_def strip_words_end_not_ends)

lemma trim_id: "\<not> starts_ws s \<Longrightarrow> \<not> ends_ws s \<Longrightarrow> trim s = s"
  by (simp add: trim_def trim_start_def trim_end_def starts_ws_def ends_ws_def
      strip_words_id strip_words_end_id)

lemma trim_idem [simp]: "trim (trim s) = trim s"
  by (simp add: trim_id trim_not_starts_ws trim_not_ends_ws)

lemma trim_sublist: "sublist (trim s) s"
  unfolding trim_def trim_end_def trim_start_def
  using strip_words_end_prefix strip_words_suffix
  by (meson prefix_imp_sublist sublist_order.order_trans suffix_imp_sublist)

lemma starts_ws_Nil [simp]: "\<not> starts_ws []"
  by (simp add: starts_ws_def starts_with_any_def)

lemma ends_ws_Nil [simp]: "\<not> ends_ws []"
  by (simp add: ends_ws_def ends_with_any_def starts_with_any_def)

lemma trim_Nil [simp]: "trim [] = []"
  by (simp add: trim_id)


subsection \<open>Prefixes, suffixes, searching\<close>

definition starts_with :: "string \<Rightarrow> string \<Rightarrow> bool" where
  "starts_with s p \<longleftrightarrow> prefix p s"

definition ends_with_char :: "string \<Rightarrow> char \<Rightarrow> bool" where
  "ends_with_char s c \<longleftrightarrow> s \<noteq> [] \<and> last s = c"

definition strip_prefix :: "string \<Rightarrow> string \<Rightarrow> string option" where
  "strip_prefix s p = (if prefix p s then Some (drop (length p) s) else None)"

definition strip_suffix :: "string \<Rightarrow> string \<Rightarrow> string option" where
  "strip_suffix s p = (if suffix p s then Some (take (length s - length p) s) else None)"

definition trim_end_char :: "string \<Rightarrow> char \<Rightarrow> string" where
  "trim_end_char s c = strip_words_end [[c]] s"

definition trim_start_char :: "string \<Rightarrow> char \<Rightarrow> string" where
  "trim_start_char s c = strip_words [[c]] s"

definition trim_start_str :: "string \<Rightarrow> string \<Rightarrow> string" where
  "trim_start_str s p = strip_words [p] s"

fun str_contains :: "string \<Rightarrow> string \<Rightarrow> bool" where
  "str_contains [] p \<longleftrightarrow> p = []"
| "str_contains (c # s) p \<longleftrightarrow> prefix p (c # s) \<or> str_contains s p"

text \<open>\<open>s.find(c)\<close>, returning the parts before and after the first occurrence.\<close>

fun split_at_char :: "char \<Rightarrow> string \<Rightarrow> (string \<times> string) option" where
  "split_at_char c [] = None"
| "split_at_char c (d # s) =
     (if d = c then Some ([], s)
      else map_option (\<lambda>(a, b). (d # a, b)) (split_at_char c s))"

definition split_once :: "string \<Rightarrow> char \<Rightarrow> (string \<times> string) option" where
  "split_once s c = split_at_char c s"

lemma str_contains_sublist: "str_contains s p \<longleftrightarrow> sublist p s"
  by (induction s) (auto simp: sublist_Cons_right)

lemma strip_prefix_Some [simp]: "strip_prefix s p = Some r \<longleftrightarrow> s = p @ r"
  by (auto simp: strip_prefix_def prefix_def)

lemma strip_prefix_None [simp]: "strip_prefix s p = None \<longleftrightarrow> \<not> prefix p s"
  by (auto simp: strip_prefix_def)

lemma strip_suffix_Some [simp]: "strip_suffix s p = Some r \<longleftrightarrow> s = r @ p"
  by (auto simp: strip_suffix_def suffix_def)

lemma strip_suffix_None [simp]: "strip_suffix s p = None \<longleftrightarrow> \<not> suffix p s"
  by (auto simp: strip_suffix_def)

lemma split_at_char_Some:
  "split_at_char c s = Some (a, b) \<longleftrightarrow> s = a @ c # b \<and> c \<notin> set a"
proof (induction s arbitrary: a)
  case (Cons d s)
  show ?case
  proof (cases "d = c")
    case True
    then show ?thesis by (cases a) auto
  next
    case False
    then show ?thesis using Cons by (cases a) auto
  qed
qed simp

lemma split_at_char_None: "split_at_char c s = None \<longleftrightarrow> c \<notin> set s"
  by (induction s) auto

lemma ends_with_any_char: "ends_with_any [[c]] s \<longleftrightarrow> ends_with_char s c"
  by (cases s rule: rev_cases)
    (auto simp: ends_with_any_def starts_with_any_def ends_with_char_def)

lemma trim_end_char_not_ends: "\<not> ends_with_char (trim_end_char s c) c"
  using strip_words_end_not_ends [of "[[c]]" s]
  by (simp add: trim_end_char_def ends_with_any_char)

lemma trim_end_char_id: "\<not> ends_with_char s c \<Longrightarrow> trim_end_char s c = s"
  by (simp add: trim_end_char_def strip_words_end_id ends_with_any_char)

lemma trim_end_char_snoc [simp]: "trim_end_char (s @ [c]) c = trim_end_char s c"
  by (simp add: trim_end_char_def strip_words_end_def strip_words.simps [of "[[c]]" "c # rev s"])

lemma trim_end_char_prefix: "prefix (trim_end_char s c) s"
  by (simp add: trim_end_char_def strip_words_end_prefix)

lemma trim_end_char_Nil [simp]: "trim_end_char [] c = []"
  by (simp add: trim_end_char_def)

lemma trim_start_str_id: "\<not> prefix p s \<Longrightarrow> trim_start_str s p = s"
  by (simp add: trim_start_str_def strip_words_id starts_with_any_def)

lemma trim_start_str_not_prefix: "p \<noteq> [] \<Longrightarrow> \<not> prefix p (trim_start_str s p)"
  using strip_words_not_starts [of "[p]" s] by (auto simp: trim_start_str_def starts_with_any_def)

lemma trim_start_str_suffix: "suffix (trim_start_str s p) s"
  by (simp add: trim_start_str_def strip_words_suffix)

lemma trim_start_str_step [simp]:
  "p \<noteq> [] \<Longrightarrow> trim_start_str (p @ s) p = trim_start_str s p"
  by (simp add: trim_start_str_def strip_words.simps [of "[p]" "p @ s"])

subsection \<open>ASCII case\<close>

definition ascii_lower :: "char \<Rightarrow> char" where
  "ascii_lower c =
     (let n = (of_char c :: int) in if 65 \<le> n \<and> n \<le> 90 then char_of (n + 32) else c)"

definition ascii_upper :: "char \<Rightarrow> char" where
  "ascii_upper c =
     (let n = (of_char c :: int) in if 97 \<le> n \<and> n \<le> 122 then char_of (n - 32) else c)"

definition to_ascii_lowercase :: "string \<Rightarrow> string" where
  "to_ascii_lowercase s = map ascii_lower s"

definition to_ascii_uppercase :: "string \<Rightarrow> string" where
  "to_ascii_uppercase s = map ascii_upper s"

definition eq_ignore_ascii_case :: "string \<Rightarrow> string \<Rightarrow> bool" where
  "eq_ignore_ascii_case a b \<longleftrightarrow> to_ascii_lowercase a = to_ascii_lowercase b"

definition is_ascii_digit :: "char \<Rightarrow> bool" where
  "is_ascii_digit c \<longleftrightarrow> (let n = (of_char c :: int) in 48 \<le> n \<and> n \<le> 57)"

lemma of_char_ascii_lower:
  "(of_char (ascii_lower c) :: int) =
     (let n = of_char c in if 65 \<le> n \<and> n \<le> 90 then n + 32 else n)"
  by (auto simp: ascii_lower_def Let_def)

lemma ascii_lower_idem [simp]: "ascii_lower (ascii_lower c) = ascii_lower c"
proof -
  have "\<not> (65 \<le> (of_char (ascii_lower c) :: int) \<and> (of_char (ascii_lower c) :: int) \<le> 90)"
    by (auto simp: of_char_ascii_lower Let_def)
  then show ?thesis by (auto simp: ascii_lower_def [of "ascii_lower c"] Let_def)
qed

lemma to_ascii_lowercase_idem [simp]:
  "to_ascii_lowercase (to_ascii_lowercase s) = to_ascii_lowercase s"
  by (simp add: to_ascii_lowercase_def)

lemma to_ascii_lowercase_Nil [simp]: "to_ascii_lowercase s = [] \<longleftrightarrow> s = []"
  by (simp add: to_ascii_lowercase_def)

lemma to_ascii_lowercase_append [simp]:
  "to_ascii_lowercase (s @ t) = to_ascii_lowercase s @ to_ascii_lowercase t"
  by (simp add: to_ascii_lowercase_def)

lemma length_to_ascii_lowercase [simp]: "length (to_ascii_lowercase s) = length s"
  by (simp add: to_ascii_lowercase_def)

definition is_ascii_upper :: "char \<Rightarrow> bool" where
  "is_ascii_upper c \<longleftrightarrow> 65 \<le> (of_char c :: int) \<and> (of_char c :: int) \<le> 90"

lemma ascii_lower_not_upper [simp]: "\<not> is_ascii_upper (ascii_lower c)"
  by (auto simp: is_ascii_upper_def of_char_ascii_lower Let_def)

lemma ascii_lower_id: "\<not> is_ascii_upper c \<Longrightarrow> ascii_lower c = c"
  by (auto simp: ascii_lower_def is_ascii_upper_def Let_def)

lemma to_ascii_lowercase_id: "\<forall>c\<in>set s. \<not> is_ascii_upper c \<Longrightarrow> to_ascii_lowercase s = s"
  by (simp add: to_ascii_lowercase_def map_idI ascii_lower_id)

text \<open>A character that is not an ASCII letter is only the lower case of itself.\<close>

definition is_ascii_alpha :: "char \<Rightarrow> bool" where
  "is_ascii_alpha c \<longleftrightarrow> is_ascii_upper c \<or> 97 \<le> (of_char c :: int) \<and> (of_char c :: int) \<le> 122"

lemma ascii_lower_eq_iff:
  assumes "\<not> is_ascii_alpha d"
  shows "ascii_lower c = d \<longleftrightarrow> c = d"
proof
  assume eq: "ascii_lower c = d"
  show "c = d"
  proof (cases "is_ascii_upper c")
    case True
    then have "is_ascii_alpha (ascii_lower c)"
      by (auto simp: is_ascii_alpha_def is_ascii_upper_def of_char_ascii_lower Let_def)
    with eq assms show ?thesis by simp
  next
    case False
    with eq show ?thesis by (simp add: ascii_lower_id)
  qed
next
  assume "c = d"
  with assms show "ascii_lower c = d"
    by (simp add: ascii_lower_id is_ascii_alpha_def)
qed

lemma set_to_ascii_lowercase:
  "\<not> is_ascii_alpha d \<Longrightarrow> d \<in> set (to_ascii_lowercase s) \<longleftrightarrow> d \<in> set s"
  using ascii_lower_eq_iff [of d] by (force simp: to_ascii_lowercase_def image_iff)

lemma prefix_to_ascii_lowercase:
  assumes "\<forall>c\<in>set p. \<not> is_ascii_alpha c"
  shows "prefix p (to_ascii_lowercase s) \<longleftrightarrow> prefix p s"
  using assms
proof (induction p arbitrary: s)
  case (Cons c p)
  note prems = Cons.prems and IH = Cons.IH
  show ?case
  proof (cases s)
    case (Cons a t)
    have "c = ascii_lower a \<longleftrightarrow> c = a"
      using prems ascii_lower_eq_iff [of c a] by auto
    with Cons prems IH [of t] show ?thesis by (simp add: to_ascii_lowercase_def)
  qed (simp add: to_ascii_lowercase_def)
qed simp

lemma ends_with_char_lowercase:
  "\<not> is_ascii_alpha c \<Longrightarrow> ends_with_char (to_ascii_lowercase s) c \<longleftrightarrow> ends_with_char s c"
  by (cases s rule: rev_cases)
    (auto simp: ends_with_char_def to_ascii_lowercase_def ascii_lower_eq_iff)


subsection \<open>Splitting and joining\<close>

text \<open>\<open>str::split\<close> on a character: never empty, one part more than there are separators.\<close>

fun split_char :: "char \<Rightarrow> string \<Rightarrow> string list" where
  "split_char c [] = [[]]"
| "split_char c (d # s) =
     (if d = c then [] # split_char c s
      else (case split_char c s of
              [] \<Rightarrow> [[d]]
            | w # ws \<Rightarrow> (d # w) # ws))"

fun join_char :: "char \<Rightarrow> string list \<Rightarrow> string" where
  "join_char c [] = []"
| "join_char c [w] = w"
| "join_char c (w # v # ws) = w @ c # join_char c (v # ws)"

lemma split_char_ne [simp]: "split_char c s \<noteq> []"
  by (induction s) (auto split: list.splits)

lemma join_char_Cons: "ws \<noteq> [] \<Longrightarrow> join_char c (w # ws) = w @ c # join_char c ws"
  by (cases ws) auto

lemma join_split_char [simp]: "join_char c (split_char c s) = s"
proof (induction s)
  case (Cons d s)
  obtain w ws where w: "split_char c s = w # ws"
    by (cases "split_char c s") auto
  show ?case
  proof (cases "d = c")
    case True
    then show ?thesis using Cons by (simp add: join_char_Cons)
  next
    case False
    with w Cons show ?thesis by (cases ws) auto
  qed
qed simp

lemma split_char_no_sep: "w \<in> set (split_char c s) \<Longrightarrow> c \<notin> set w"
proof (induction s arbitrary: w)
  case (Cons d s)
  obtain v ws where "split_char c s = v # ws"
    by (cases "split_char c s") auto
  with Cons show ?case by (auto split: if_splits)
qed simp

lemma split_char_free: "c \<notin> set s \<Longrightarrow> split_char c s = [s]"
  by (induction s) auto

lemma split_char_append_sep:
  "split_char c (s @ c # t) = split_char c s @ split_char c t"
proof (induction s)
  case (Cons d s)
  obtain v ws where "split_char c s = v # ws"
    by (cases "split_char c s") auto
  with Cons show ?case by (auto split: list.splits)
qed simp

lemma split_join_char:
  assumes "ws \<noteq> []" and "\<forall>w\<in>set ws. c \<notin> set w"
  shows "split_char c (join_char c ws) = ws"
  using assms
proof (induction c ws rule: join_char.induct)
  case (3 c w v ws)
  then show ?case by (simp add: split_char_append_sep split_char_free)
qed (auto simp: split_char_free)

text \<open>
  \<open>str::lines\<close>: the pieces ended by a line feed, each without its line ending (a line feed, or a
  carriage return and a line feed), and the rest of the text unless it is empty.
\<close>

definition strip_cr :: "string \<Rightarrow> string" where
  "strip_cr s = (if s \<noteq> [] \<and> last s = CHR 0x0D then butlast s else s)"

function str_lines :: "string \<Rightarrow> string list" where
  "str_lines s =
     (if s = [] then []
      else (case split_at_char (CHR 0x0A) s of
              None \<Rightarrow> [s]
            | Some (a, b) \<Rightarrow> strip_cr a # str_lines b))"
  by pat_completeness auto
termination
  by (relation "measure length") (auto simp: split_at_char_Some)

declare str_lines.simps [simp del]

text \<open>\<open>str::split_whitespace\<close>: the maximal runs of characters that are not whitespace.\<close>

fun take_token :: "string \<Rightarrow> string \<times> string" where
  "take_token [] = ([], [])"
| "take_token (c # s) =
     (if starts_ws (c # s) then ([], c # s)
      else (case take_token s of (a, b) \<Rightarrow> (c # a, b)))"

lemma take_token_append: "take_token s = (a, b) \<Longrightarrow> s = a @ b"
  by (induction s arbitrary: a) (auto split: if_splits prod.splits)

lemma take_token_rest: "take_token s = (a, b) \<Longrightarrow> b = [] \<or> starts_ws b"
  by (induction s arbitrary: a) (auto split: if_splits prod.splits)

function split_whitespace :: "string \<Rightarrow> string list" where
  "split_whitespace s =
     (let t = trim_start s in
      if t = [] then []
      else (case take_token t of (a, b) \<Rightarrow> a # split_whitespace b))"
  by pat_completeness auto
termination
proof (relation "measure length")
  fix s t a b
  assume t: "t = trim_start s" and ne: "t \<noteq> []" and x: "(a, b) = take_token t"
  have "\<not> starts_ws t"
    by (simp add: t trim_start_def starts_ws_def strip_words_not_starts)
  with ne x have "a \<noteq> []" by (cases t) (auto split: prod.splits)
  moreover from x have "t = a @ b" by (auto dest: take_token_append sym)
  moreover have "length t \<le> length s"
    by (simp add: t trim_start_def strip_words_suffix suffix_length_le)
  ultimately show "(b, s) \<in> measure length" by (cases a) auto
qed simp

declare split_whitespace.simps [simp del]

definition ws_free :: "string \<Rightarrow> bool" where
  "ws_free s \<longleftrightarrow> (\<forall>t. suffix t s \<longrightarrow> \<not> starts_ws t)"

lemma ws_free_suffix: "ws_free s \<Longrightarrow> suffix t s \<Longrightarrow> ws_free t"
  by (auto simp: ws_free_def intro: suffix_order.order_trans)

lemma ws_free_prefix: "ws_free s \<Longrightarrow> prefix t s \<Longrightarrow> ws_free t"
proof -
  assume s: "ws_free s" and "prefix t s"
  then obtain r where r: "s = t @ r" by (auto simp: prefix_def)
  have "\<not> starts_ws u" if "suffix u t" for u
  proof
    assume "starts_ws u"
    then have "starts_ws (u @ r)"
      unfolding starts_ws_def by (rule starts_with_any_prefix) simp
    moreover from that r have "suffix (u @ r) s" by (auto simp: suffix_def)
    ultimately show False using s by (auto simp: ws_free_def)
  qed
  then show "ws_free t" by (simp add: ws_free_def)
qed

lemma ws_free_Nil [simp]: "ws_free []"
  by (simp add: ws_free_def)

lemma take_token_free:
  assumes "take_token s = (a, b)"
  shows "\<forall>t. suffix t a \<and> t \<noteq> [] \<longrightarrow> \<not> starts_ws (t @ b)"
  using assms
proof (induction s arbitrary: a)
  case (Cons c s)
  show ?case
  proof (cases "starts_ws (c # s)")
    case True
    with Cons.prems show ?thesis by simp
  next
    case False
    with Cons.prems obtain a' where a': "take_token s = (a', b)" and a: "a = c # a'"
      by (auto split: prod.splits)
    from a' have "s = a' @ b" by (rule take_token_append)
    with False a Cons.IH [OF a'] show ?thesis by (auto simp: suffix_Cons)
  qed
qed simp

lemma take_token_ws_free:
  assumes "take_token s = (a, b)"
  shows "ws_free a"
proof -
  have "\<not> starts_ws t" if "suffix t a" for t
  proof (cases "t = []")
    case False
    with take_token_free [OF assms] that have "\<not> starts_ws (t @ b)" by simp
    then show ?thesis
      unfolding starts_ws_def using starts_with_any_prefix [of utf8_ws t "t @ b"] by auto
  qed simp
  then show ?thesis by (simp add: ws_free_def)
qed

lemma split_whitespace_tokens:
  "w \<in> set (split_whitespace s) \<Longrightarrow> w \<noteq> [] \<and> ws_free w"
proof (induction s rule: split_whitespace.induct)
  case (1 s)
  obtain a b where ab: "take_token (trim_start s) = (a, b)" by fastforce
  show ?case
  proof (cases "trim_start s = []")
    case True
    with "1.prems" show ?thesis by (simp add: split_whitespace.simps [of s])
  next
    case False
    have "\<not> starts_ws (trim_start s)"
      by (simp add: trim_start_def starts_ws_def strip_words_not_starts)
    with False ab have "a \<noteq> []" by (cases "trim_start s") (auto split: prod.splits)
    moreover from ab have "ws_free a" by (rule take_token_ws_free)
    moreover from False ab "1.prems" have "w = a \<or> w \<in> set (split_whitespace b)"
      by (simp add: split_whitespace.simps [of s])
    ultimately show ?thesis using "1.IH" False ab by auto
  qed
qed


lemma ws_free_not_starts: "ws_free s \<Longrightarrow> \<not> starts_ws s"
  by (simp add: ws_free_def)

lemma ws_free_not_ends: "ws_free s \<Longrightarrow> \<not> ends_ws s"
proof
  assume s: "ws_free s" and "ends_ws s"
  then obtain w where w: "w \<in> set utf8_ws" "w \<noteq> []" "suffix w s"
    by (auto simp: ends_ws_def ends_with_any_def starts_with_any_def suffix_to_prefix)
  then have "starts_ws w"
    by (auto simp: starts_ws_def starts_with_any_def)
  with s w(3) show False by (simp add: ws_free_def)
qed

lemma trim_ws_free: "ws_free s \<Longrightarrow> trim s = s"
  by (simp add: trim_id ws_free_not_starts ws_free_not_ends)

lemma ws_free_Cons: "ws_free (c # s) \<longleftrightarrow> \<not> starts_ws (c # s) \<and> ws_free s"
  by (auto simp: ws_free_def suffix_Cons)

lemma take_token_ws_free_all: "ws_free s \<Longrightarrow> take_token s = (s, [])"
  by (induction s) (auto simp: ws_free_Cons)

lemma split_whitespace_Nil [simp]: "split_whitespace [] = []"
  by (simp add: split_whitespace.simps [of "[]"] trim_start_def)

lemma split_whitespace_ws_free: "ws_free s \<Longrightarrow> s \<noteq> [] \<Longrightarrow> split_whitespace s = [s]"
  by (subst split_whitespace.simps)
    (simp add: trim_start_def strip_words_id ws_free_not_starts [unfolded starts_ws_def]
      take_token_ws_free_all)

lemma ws_free_code [code]: "ws_free s \<longleftrightarrow> list_all (\<lambda>t. \<not> starts_ws t) (suffixes s)"
  by (auto simp: ws_free_def list_all_iff)

definition ws_lead :: "char \<Rightarrow> bool" where
  "ws_lead c \<longleftrightarrow> c \<in> hd ` set utf8_ws"

lemma starts_ws_lead: "starts_ws (c # s) \<Longrightarrow> ws_lead c"
proof -
  assume "starts_ws (c # s)"
  then obtain w where w: "w \<in> set utf8_ws" "w \<noteq> []" "prefix w (c # s)"
    by (auto simp: starts_ws_def starts_with_any_def)
  from w(2,3) have "hd w = c" by (auto simp: prefix_Cons)
  with w(1) show "ws_lead c" unfolding ws_lead_def by (metis image_eqI)
qed

lemma ws_free_no_lead: "\<forall>c\<in>set s. \<not> ws_lead c \<Longrightarrow> ws_free s"
  by (induction s) (auto simp: ws_free_Cons dest: starts_ws_lead)

lemma ws_lead_range:
  "ws_lead c \<Longrightarrow> (of_char c :: int) \<le> 32 \<or> 192 \<le> (of_char c :: int)"
  by (auto simp: ws_lead_def utf8_ws_def)

lemma digit_not_ws_lead: "is_ascii_digit c \<Longrightarrow> \<not> ws_lead c"
  by (auto simp: is_ascii_digit_def Let_def dest!: ws_lead_range)

text \<open>Two words separated by a space.\<close>

lemma take_token_space:
  assumes "ws_free a"
  shows "take_token (a @ CHR '' '' # b) = (a, CHR '' '' # b)"
proof -
  have sp: "starts_ws (CHR '' '' # b)"
    by (auto simp: starts_ws_def starts_with_any_def utf8_ws_def)
  have sep: "\<not> starts_ws (x @ CHR '' '' # b)" if "ws_free x" "x \<noteq> []" for x
  proof
    assume "starts_ws (x @ CHR '' '' # b)"
    then obtain w where w: "w \<in> set utf8_ws" "w \<noteq> []" "prefix w (x @ CHR '' '' # b)"
      by (auto simp: starts_ws_def starts_with_any_def)
    have "prefix w x \<or> CHR '' '' \<in> set (tl w)"
    proof (cases "length w \<le> length x")
      case True
      with w(3) show ?thesis using prefix_length_prefix by fastforce
    next
      case False
      with w(3) have "w ! length x = CHR '' ''"
        by (auto simp: prefix_def nth_append) (metis le_refl less_le_not_le linorder_not_le nth_append nth_append_length)
      moreover from that(2) obtain k where "length x = Suc k" by (cases x) auto
      ultimately have "k < length (tl w)" and "tl w ! k = CHR '' ''"
        using False by (auto simp: nth_tl)
      then have "CHR '' '' \<in> set (tl w)" by (metis nth_mem)
      then show ?thesis ..
    qed
    moreover have "CHR '' '' \<notin> set (tl w)"
      using w(1) by (auto simp: utf8_ws_def)
    ultimately have "starts_ws x"
      using w by (auto simp: starts_ws_def starts_with_any_def)
    with that(1) show False by (simp add: ws_free_not_starts)
  qed
  show ?thesis using assms
  proof (induction a)
    case Nil
    with sp show ?case by simp
  next
    case (Cons c a)
    with sep [of "c # a"] show ?case by (simp add: ws_free_Cons)
  qed
qed

lemma split_whitespace_two:
  assumes "ws_free a" "a \<noteq> []" "ws_free b" "b \<noteq> []"
  shows "split_whitespace (a @ CHR '' '' # b) = [a, b]"
proof -
  have "\<not> starts_ws (a @ CHR '' '' # b)"
    using take_token_space [OF assms(1), of b] assms(2) by (cases a) (auto split: if_splits)
  then have "trim_start (a @ CHR '' '' # b) = a @ CHR '' '' # b"
    by (simp add: trim_start_def starts_ws_def strip_words_id)
  then have "split_whitespace (a @ CHR '' '' # b) = a # split_whitespace (CHR '' '' # b)"
    by (subst split_whitespace.simps) (simp add: take_token_space assms(1))
  moreover have "find (\<lambda>p. p \<noteq> [] \<and> prefix p (CHR '' '' # b)) utf8_ws = Some '' ''"
    by (simp add: utf8_ws_def)
  then have "trim_start (CHR '' '' # b) = b"
    using ws_free_not_starts [OF assms(3)]
    by (simp add: trim_start_def strip_words.simps [of utf8_ws "CHR '' '' # b"] starts_ws_def
        strip_words_id)
  then have "split_whitespace (CHR '' '' # b) = [b]"
    using assms(3,4)
    by (subst split_whitespace.simps) (simp add: take_token_ws_free_all)
  ultimately show ?thesis by simp
qed

lemma ws_chars_free: "ws_free s \<Longrightarrow> CHR 0x0A \<notin> set s \<and> CHR 0x20 \<notin> set s \<and> CHR 0x0D \<notin> set s"
proof -
  assume s: "ws_free s"
  have "c \<notin> set s" if c: "[c] \<in> set utf8_ws" for c
  proof
    assume "c \<in> set s"
    then obtain a b where "s = a @ c # b" by (auto simp: in_set_conv_decomp)
    then have "suffix (c # b) s" by (auto simp: suffix_def)
    moreover have "starts_ws (c # b)"
      using c by (auto simp: starts_ws_def starts_with_any_def intro: bexI [of _ "[c]"])
    ultimately show False using s by (simp add: ws_free_def)
  qed
  then show ?thesis by (simp add: utf8_ws_def)
qed

subsection \<open>Parsing and printing integers\<close>

definition digit_val :: "char \<Rightarrow> int" where
  "digit_val c = of_char c - 48"

definition digits_val :: "int \<Rightarrow> string \<Rightarrow> int" where
  "digits_val acc s = foldl (\<lambda>n c. 10 * n + digit_val c) acc s"

definition parse_digits :: "string \<Rightarrow> int option" where
  "parse_digits s = (if s \<noteq> [] \<and> list_all is_ascii_digit s then Some (digits_val 0 s) else None)"

text \<open>
  \<open>str::parse\<close> for an unsigned type with largest value \<open>m\<close>, and for a signed type with largest
  value \<open>m\<close>: an optional sign, then at least one digit, and no overflow.
\<close>

definition parse_unsigned :: "int \<Rightarrow> string \<Rightarrow> int option" where
  "parse_unsigned m s =
     (case parse_digits (case s of c # r \<Rightarrow> if c = CHR ''+'' then r else s | [] \<Rightarrow> []) of
        None \<Rightarrow> None
      | Some n \<Rightarrow> if n \<le> m then Some n else None)"

definition parse_signed :: "int \<Rightarrow> string \<Rightarrow> int option" where
  "parse_signed m s =
     (case s of
        [] \<Rightarrow> None
      | c # r \<Rightarrow>
          if c = CHR ''-'' then
            (case parse_digits r of
               None \<Rightarrow> None
             | Some n \<Rightarrow> if n \<le> m + 1 then Some (- n) else None)
          else parse_unsigned m s)"

definition parse_u64 :: "string \<Rightarrow> u64 option" where
  "parse_u64 s = map_option word_of_int (parse_unsigned (2 ^ 64 - 1) s)"

definition parse_u32 :: "string \<Rightarrow> u32 option" where
  "parse_u32 s = map_option word_of_int (parse_unsigned (2 ^ 32 - 1) s)"

definition parse_i64 :: "string \<Rightarrow> int option" where
  "parse_i64 s = parse_signed (2 ^ 63 - 1) s"

text \<open>\<open>to_string\<close> of an unsigned and of a signed integer.\<close>

function show_nat :: "int \<Rightarrow> string" where
  "show_nat n =
     (if n < 10 then [char_of (48 + n)] else show_nat (n div 10) @ [char_of (48 + n mod 10)])"
  by pat_completeness auto
termination
  by (relation "measure nat") auto

declare show_nat.simps [simp del]

definition show_int :: "int \<Rightarrow> string" where
  "show_int i = (if i < 0 then CHR ''-'' # show_nat (- i) else show_nat i)"

lemma digit_char:
  assumes "0 \<le> d" and "d < 10"
  shows "is_ascii_digit (char_of (48 + d))" and "digit_val (char_of (48 + d)) = d"
proof -
  from assms have "(of_char (char_of (48 + d) :: char) :: int) = 48 + d" by simp
  with assms show "is_ascii_digit (char_of (48 + d))" "digit_val (char_of (48 + d)) = d"
    by (auto simp: is_ascii_digit_def digit_val_def Let_def)
qed

lemma show_nat_ne [simp]: "show_nat n \<noteq> []"
  by (subst show_nat.simps) simp

lemma show_nat_digits: "0 \<le> n \<Longrightarrow> list_all is_ascii_digit (show_nat n)"
proof (induction n rule: show_nat.induct)
  case (1 n)
  show ?case
  proof (cases "n < 10")
    case True
    with "1.prems" show ?thesis by (simp add: show_nat.simps [of n] digit_char)
  next
    case False
    with "1" show ?thesis by (simp add: show_nat.simps [of n] digit_char)
  qed
qed

lemma digits_val_append:
  "digits_val acc (s @ [c]) = 10 * digits_val acc s + digit_val c"
  by (simp add: digits_val_def)

lemma digits_val_show_nat: "0 \<le> n \<Longrightarrow> digits_val 0 (show_nat n) = n"
proof (induction n rule: show_nat.induct)
  case (1 n)
  show ?case
  proof (cases "n < 10")
    case True
    with "1.prems" show ?thesis
      by (simp add: show_nat.simps [of n] digits_val_def digit_char)
  next
    case False
    with "1" show ?thesis
      by (simp add: show_nat.simps [of n] digits_val_append digit_char)
  qed
qed

lemma parse_digits_show_nat [simp]: "0 \<le> n \<Longrightarrow> parse_digits (show_nat n) = Some n"
  by (simp add: parse_digits_def show_nat_digits digits_val_show_nat)

lemma is_ascii_digit_neq:
  "is_ascii_digit c \<Longrightarrow> c \<noteq> CHR ''+'' \<and> c \<noteq> CHR ''-''"
  by (auto simp: is_ascii_digit_def Let_def)

lemma show_nat_hd: "0 \<le> n \<Longrightarrow> \<exists>c r. show_nat n = c # r \<and> is_ascii_digit c"
  using show_nat_digits [of n] by (cases "show_nat n") auto

lemma parse_unsigned_show_nat:
  assumes "0 \<le> n"
  shows "parse_unsigned m (show_nat n) = (if n \<le> m then Some n else None)"
proof -
  obtain c r where c: "show_nat n = c # r" "is_ascii_digit c"
    using show_nat_hd [OF assms] by blast
  then have "(case show_nat n of c # r \<Rightarrow> if c = CHR ''+'' then r else show_nat n | [] \<Rightarrow> [])
    = show_nat n"
    by (auto dest: is_ascii_digit_neq)
  with assms show ?thesis by (simp add: parse_unsigned_def)
qed

lemma parse_u64_show: "0 \<le> n \<Longrightarrow> n < 2 ^ 64 \<Longrightarrow> parse_u64 (show_nat n) = Some (word_of_int n)"
  by (simp add: parse_u64_def parse_unsigned_show_nat)

lemma digit_val_nonneg: "is_ascii_digit c \<Longrightarrow> 0 \<le> digit_val c"
  by (auto simp: is_ascii_digit_def digit_val_def Let_def)

lemma digits_val_nonneg:
  "0 \<le> acc \<Longrightarrow> list_all is_ascii_digit s \<Longrightarrow> 0 \<le> digits_val acc s"
  by (induction s arbitrary: acc) (auto simp: digits_val_def digit_val_nonneg)

lemma parse_unsigned_bounds: "parse_unsigned m s = Some n \<Longrightarrow> 0 \<le> n \<and> n \<le> m"
  by (auto simp: parse_unsigned_def parse_digits_def digits_val_nonneg
      split: option.splits if_splits)

subsection \<open>The address parsers of std::net\<close>

text \<open>
  The scanner of \<open>core::net::parser\<close>: every reader takes the input and returns the value with the
  rest of the input, or \<open>None\<close> having consumed nothing. \<open>read_number radix max_digits allow_zero limit\<close>
  reads at most \<open>max_digits\<close> digits of a number below \<open>limit\<close>.
\<close>

type_synonym 'a reader = "string \<Rightarrow> ('a \<times> string) option"

definition digit_of :: "int \<Rightarrow> char \<Rightarrow> int option" where
  "digit_of radix c =
     (let n = (of_char c :: int);
          v = (if 48 \<le> n \<and> n \<le> 57 then Some (n - 48)
               else if 97 \<le> n \<and> n \<le> 122 then Some (n - 87)
               else if 65 \<le> n \<and> n \<le> 90 then Some (n - 55) else None)
      in case v of None \<Rightarrow> None | Some d \<Rightarrow> if d < radix then Some d else None)"

fun take_digits :: "int \<Rightarrow> string \<Rightarrow> int list \<times> string" where
  "take_digits radix [] = ([], [])"
| "take_digits radix (c # s) =
     (case digit_of radix c of
        None \<Rightarrow> ([], c # s)
      | Some d \<Rightarrow> (case take_digits radix s of (ds, r) \<Rightarrow> (d # ds, r)))"

definition read_number :: "int \<Rightarrow> nat option \<Rightarrow> bool \<Rightarrow> int \<Rightarrow> int reader" where
  "read_number radix max_digits allow_zero limit s =
     (case take_digits radix s of (ds, r) \<Rightarrow>
        if ds = [] then None
        else if (case max_digits of None \<Rightarrow> False | Some m \<Rightarrow> m < length ds) then None
        else if \<not> allow_zero \<and> hd ds = 0 \<and> 1 < length ds then None
        else (let v = foldl (\<lambda>n d. radix * n + d) 0 ds in
              if v < limit then Some (v, r) else None))"

fun read_given_char :: "char \<Rightarrow> unit reader" where
  "read_given_char c [] = None"
| "read_given_char c (d # s) = (if d = c then Some ((), s) else None)"

definition read_separator :: "char \<Rightarrow> nat \<Rightarrow> 'a reader \<Rightarrow> 'a reader" where
  "read_separator sep idx inner s =
     (if 0 < idx then (case read_given_char sep s of None \<Rightarrow> None | Some (_, r) \<Rightarrow> inner r)
      else inner s)"

fun read_ipv4_groups :: "nat \<Rightarrow> nat \<Rightarrow> int list reader" where
  "read_ipv4_groups idx 0 s = Some ([], s)"
| "read_ipv4_groups idx (Suc k) s =
     (case read_separator (CHR ''.'') idx (read_number 10 (Some 3) False 256) s of
        None \<Rightarrow> None
      | Some (g, r) \<Rightarrow>
          (case read_ipv4_groups (Suc idx) k r of
             None \<Rightarrow> None
           | Some (gs, r') \<Rightarrow> Some (g # gs, r')))"

type_synonym ipv4_addr = "32 word"
type_synonym ipv6_addr = "128 word"

definition read_ipv4_addr :: "int list reader" where
  "read_ipv4_addr s = read_ipv4_groups 0 4 s"

definition ipv4_of_octets :: "int list \<Rightarrow> ipv4_addr" where
  "ipv4_of_octets gs = word_of_int (foldl (\<lambda>n g. 256 * n + g) 0 gs)"

text \<open>
  \<open>read_ipv6_groups i k s\<close> reads groups \<open>i, \<dots>\<close> into the remaining \<open>k\<close> slots: the groups read,
  whether the last two came from an embedded IPv4 address, and the rest of the input. An embedded
  IPv4 address needs two slots.
\<close>

fun read_ipv6_groups :: "nat \<Rightarrow> nat \<Rightarrow> string \<Rightarrow> int list \<times> bool \<times> string" where
  "read_ipv6_groups i 0 s = ([], False, s)"
| "read_ipv6_groups i (Suc k) s =
     (case (if 0 < k then read_separator (CHR '':'') i read_ipv4_addr s else None) of
        Some (o4, r) \<Rightarrow>
          ([256 * (o4 ! 0) + o4 ! 1, 256 * (o4 ! 2) + o4 ! 3], True, r)
      | None \<Rightarrow>
          (case read_separator (CHR '':'') i (read_number 16 (Some 4) True 65536) s of
             None \<Rightarrow> ([], False, s)
           | Some (g, r) \<Rightarrow>
               (case read_ipv6_groups (Suc i) k r of (gs, v4, r') \<Rightarrow> (g # gs, v4, r'))))"

definition read_ipv6_addr :: "int list reader" where
  "read_ipv6_addr s =
     (case read_ipv6_groups 0 8 s of (head, head_ipv4, r) \<Rightarrow>
        if length head = 8 then Some (head, r)
        else if head_ipv4 then None
        else
          (case read_given_char (CHR '':'') r of
             None \<Rightarrow> None
           | Some (_, r1) \<Rightarrow>
               (case read_given_char (CHR '':'') r1 of
                  None \<Rightarrow> None
                | Some (_, r2) \<Rightarrow>
                    (case read_ipv6_groups 0 (7 - length head) r2 of (tail, _, r3) \<Rightarrow>
                       Some (head @ replicate (8 - length head - length tail) 0 @ tail, r3)))))"

definition ipv6_of_groups :: "int list \<Rightarrow> ipv6_addr" where
  "ipv6_of_groups gs = word_of_int (foldl (\<lambda>n g. 65536 * n + g) 0 gs)"

definition parse_with :: "'a reader \<Rightarrow> string \<Rightarrow> 'a option" where
  "parse_with p s = (case p s of Some (a, []) \<Rightarrow> Some a | _ \<Rightarrow> None)"

definition parse_ipv4 :: "string \<Rightarrow> ipv4_addr option" where
  "parse_ipv4 s =
     (if 15 < length s then None else map_option ipv4_of_octets (parse_with read_ipv4_addr s))"

definition parse_ipv6 :: "string \<Rightarrow> ipv6_addr option" where
  "parse_ipv6 s = map_option ipv6_of_groups (parse_with read_ipv6_addr s)"

datatype ip_addr = V4 ipv4_addr | V6 ipv6_addr

definition parse_ip_addr :: "string \<Rightarrow> ip_addr option" where
  "parse_ip_addr s =
     (case parse_with read_ipv4_addr s of
        Some o4 \<Rightarrow> Some (V4 (ipv4_of_octets o4))
      | None \<Rightarrow> map_option V6 (parse_ipv6 s))"

text \<open>A socket address; the scope identifier of an IPv6 address is kept apart from its port.\<close>

datatype socket_addr =
    SocketV4 ipv4_addr u16
  | SocketV6 ipv6_addr u16 u32

definition read_port :: "int reader" where
  "read_port s =
     (case read_given_char (CHR '':'') s of
        None \<Rightarrow> None
      | Some (_, r) \<Rightarrow> read_number 10 None True 65536 r)"

definition read_scope_id :: "string \<Rightarrow> int \<times> string" where
  "read_scope_id s =
     (case read_given_char (CHR ''%'') s of
        None \<Rightarrow> (0, s)
      | Some (_, r) \<Rightarrow>
          (case read_number 10 None True (2 ^ 32) r of
             None \<Rightarrow> (0, s)
           | Some (n, r') \<Rightarrow> (n, r')))"

definition read_socket_v4 :: "socket_addr reader" where
  "read_socket_v4 s =
     (case read_ipv4_addr s of
        None \<Rightarrow> None
      | Some (o4, r) \<Rightarrow>
          (case read_port r of
             None \<Rightarrow> None
           | Some (p, r') \<Rightarrow> Some (SocketV4 (ipv4_of_octets o4) (word_of_int p), r')))"

definition read_socket_v6 :: "socket_addr reader" where
  "read_socket_v6 s =
     (case read_given_char (CHR ''['') s of
        None \<Rightarrow> None
      | Some (_, r) \<Rightarrow>
          (case read_ipv6_addr r of
             None \<Rightarrow> None
           | Some (gs, r1) \<Rightarrow>
               (case read_scope_id r1 of (scope, r2) \<Rightarrow>
                  (case read_given_char (CHR '']'') r2 of
                     None \<Rightarrow> None
                   | Some (_, r3) \<Rightarrow>
                       (case read_port r3 of
                          None \<Rightarrow> None
                        | Some (p, r4) \<Rightarrow>
                            Some (SocketV6 (ipv6_of_groups gs) (word_of_int p) (word_of_int scope), r4))))))"

definition parse_socket_addr :: "string \<Rightarrow> socket_addr option" where
  "parse_socket_addr s =
     (case parse_with read_socket_v4 s of
        Some a \<Rightarrow> Some a
      | None \<Rightarrow> parse_with read_socket_v6 s)"

definition socket_addr_new :: "ip_addr \<Rightarrow> u16 \<Rightarrow> socket_addr" where
  "socket_addr_new ip port = (case ip of V4 a \<Rightarrow> SocketV4 a port | V6 a \<Rightarrow> SocketV6 a port 0)"

end
