(* ===== verification/CertTime.thy ===== *)
theory CertTime
  imports RustStd
begin

unbundle bit_operations_syntax

text \<open>
  How the certificate manager reads the expiry of a certificate and its own settings
  (\<open>src/frameworks/acme/mod.rs\<close>, from \<open>cert_time_remaining\<close> to the end): the minimal reader of DER, the times of
  X.509, the day count of a civil date, and durations such as \<open>30d\<close>.

  Positions are natural numbers: a length has at most four bytes, so no sum of the source leaves 64 bits. The day of
  the year is computed in \<open>u64\<close>, which wraps in a release build, and is kept modulo \<open>2 ^ 64\<close>. A point in time is its
  seconds since 1970. The main result reads the expiry back from every certificate of the given shape, against an
  encoder of DER and a calendar that counts days one by one.
\<close>

section \<open>Reading\<close>

subsection \<open>DER\<close>

definition byte_at :: "bytes \<Rightarrow> nat \<Rightarrow> u8 option" where
  "byte_at der pos = (if pos < length der then Some (der ! pos) else None)"

fun read_length_bytes :: "bytes \<Rightarrow> nat \<Rightarrow> nat \<Rightarrow> nat \<Rightarrow> (nat \<times> nat) option" where
  "read_length_bytes der 0 len pos = Some (len, pos)"
| "read_length_bytes der (Suc k) len pos =
     (case byte_at der pos of
        None \<Rightarrow> None
      | Some b \<Rightarrow> read_length_bytes der k (len * 256 + unat b) (Suc pos))"

definition parse_asn1_length :: "bytes \<Rightarrow> nat \<Rightarrow> (nat \<times> nat) option" where
  "parse_asn1_length der pos =
     (case byte_at der pos of
        None \<Rightarrow> None
      | Some first \<Rightarrow>
          if first < 0x80 then Some (unat first, Suc pos)
          else
            (let num_bytes = unat (first AND 0x7F)
             in if num_bytes > 4 then None else read_length_bytes der num_bytes 0 (Suc pos)))"

definition skip_tag_and_length :: "bytes \<Rightarrow> nat \<Rightarrow> u8 \<Rightarrow> nat option" where
  "skip_tag_and_length der pos expected_tag =
     (if byte_at der pos = Some expected_tag then map_option snd (parse_asn1_length der (Suc pos)) else None)"

definition skip_tlv :: "bytes \<Rightarrow> nat \<Rightarrow> nat option" where
  "skip_tlv der pos = map_option (\<lambda>(len, pos). pos + len) (parse_asn1_length der (Suc pos))"

subsection \<open>Times\<close>

text \<open>Civil date to day count.\<close>

definition days_from_civil :: "int \<Rightarrow> int \<Rightarrow> int \<Rightarrow> int" where
  "days_from_civil year month day =
     (let y = (if month \<le> 2 then year - 1 else year);
          era = (if y \<ge> 0 then y div 400 else - ((399 - y) div 400));
          yoe = y - era * 400;
          m = month;
          doy = (if m > 2 then (153 * (m - 3) + 2) div 5 + day - 1
                 else (153 * (m + 9) + 2) div 5 + day - 1) mod 2 ^ 64;
          doe = (yoe * 365 + yoe div 4 - yoe div 100 + doy) mod 2 ^ 64
      in era * 146097 + (if doe < 2 ^ 63 then doe else doe - 2 ^ 64))"

text \<open>\<open>std::str::from_utf8\<close>: the byte sequences that are UTF-8.\<close>

definition cont_byte :: "u8 \<Rightarrow> bool" where
  "cont_byte b \<longleftrightarrow> 0x80 \<le> b \<and> b \<le> 0xBF"

fun valid_utf8 :: "bytes \<Rightarrow> bool" where
  "valid_utf8 [] = True"
| "valid_utf8 (a # bs) =
     (if a < 0x80 then valid_utf8 bs
      else if 0xC2 \<le> a \<and> a \<le> 0xDF then (case bs of b # r \<Rightarrow> cont_byte b \<and> valid_utf8 r | _ \<Rightarrow> False)
      else if 0xE0 \<le> a \<and> a \<le> 0xEF then
        (case bs of
           b # c # r \<Rightarrow>
             (if a = 0xE0 then 0xA0 \<le> b \<and> b \<le> 0xBF else if a = 0xED then 0x80 \<le> b \<and> b \<le> 0x9F else cont_byte b) \<and>
             cont_byte c \<and> valid_utf8 r
         | _ \<Rightarrow> False)
      else if 0xF0 \<le> a \<and> a \<le> 0xF4 then
        (case bs of
           b # c # d # r \<Rightarrow>
             (if a = 0xF0 then 0x90 \<le> b \<and> b \<le> 0xBF else if a = 0xF4 then 0x80 \<le> b \<and> b \<le> 0x8F else cont_byte b) \<and>
             cont_byte c \<and> cont_byte d \<and> valid_utf8 r
         | _ \<Rightarrow> False)
      else False)"

definition from_utf8 :: "bytes \<Rightarrow> string option" where
  "from_utf8 bs = (if valid_utf8 bs then Some (map (\<lambda>b. char_of (unat b)) bs) else None)"

text \<open>\<open>str::get\<close> of a range, which also fails inside a character.\<close>

definition char_boundary :: "string \<Rightarrow> nat \<Rightarrow> bool" where
  "char_boundary s i \<longleftrightarrow>
     i = 0 \<or> i = length s \<or> i < length s \<and> \<not> (128 \<le> (of_char (s ! i) :: nat) \<and> (of_char (s ! i) :: nat) < 192)"

definition str_get :: "string \<Rightarrow> nat \<Rightarrow> nat \<Rightarrow> string option" where
  "str_get s a b =
     (if a \<le> b \<and> b \<le> length s \<and> char_boundary s a \<and> char_boundary s b then Some (take (b - a) (drop a s)) else None)"

definition get_number :: "string \<Rightarrow> nat \<Rightarrow> nat \<Rightarrow> int option" where
  "get_number s a b = map_option uint (Option.bind (str_get s a b) parse_u32)"

definition parse_year :: "u8 \<Rightarrow> string \<Rightarrow> (int \<times> string) option" where
  "parse_year tag s =
     (if tag = 0x17 then
        Option.bind (get_number s 0 2) (\<lambda>y.
        Option.bind (str_get s 2 (length s)) (\<lambda>rest. Some (if y \<ge> 50 then 1900 + y else 2000 + y, rest)))
      else if tag = 0x18 then
        Option.bind (get_number s 0 4) (\<lambda>year.
        Option.bind (str_get s 4 (length s)) (\<lambda>rest. Some (year, rest)))
      else None)"

definition parse_asn1_time :: "u8 \<Rightarrow> bytes \<Rightarrow> int option" where
  "parse_asn1_time tag bs =
     Option.bind (from_utf8 bs) (\<lambda>s.
     Option.bind (parse_year tag s) (\<lambda>(year, rest).
     Option.bind (get_number rest 0 2) (\<lambda>month.
     Option.bind (get_number rest 2 4) (\<lambda>day.
     Option.bind (get_number rest 4 6) (\<lambda>hour.
     Option.bind (get_number rest 6 8) (\<lambda>minute.
     Option.bind (get_number rest 8 10) (\<lambda>second.
       let days = days_from_civil year month day;
           secs = days * 86400 + hour * 3600 + minute * 60 + second;
           unix_epoch_days = days_from_civil 1970 1 1;
           unix_secs = secs - unix_epoch_days * 86400
       in if unix_secs < 0 then None else Some unix_secs)))))))"

subsection \<open>The expiry of a certificate\<close>

text \<open>
  Outer sequence, sequence of the body, the optional version, serial number, signature algorithm, issuer, and the
  validity with its second time.
\<close>

definition parse_x509_not_after :: "bytes \<Rightarrow> int option" where
  "parse_x509_not_after der =
     Option.bind (skip_tag_and_length der 0 0x30) (\<lambda>tbs_start.
     Option.bind (skip_tag_and_length der tbs_start 0x30) (\<lambda>pos.
     Option.bind (byte_at der pos) (\<lambda>b.
     Option.bind (if b = 0xA0 then skip_tlv der pos else Some pos) (\<lambda>pos.
     Option.bind (skip_tlv der pos) (\<lambda>pos.
     Option.bind (skip_tlv der pos) (\<lambda>pos.
     Option.bind (skip_tlv der pos) (\<lambda>pos.
     Option.bind (skip_tag_and_length der pos 0x30) (\<lambda>pos.
     Option.bind (skip_tlv der pos) (\<lambda>pos.
     Option.bind (byte_at der pos) (\<lambda>tag.
     Option.bind (parse_asn1_length der (Suc pos)) (\<lambda>(len, pos).
       if pos + len \<le> length der then parse_asn1_time tag (take len (drop pos der)) else None)))))))))))"

text \<open>\<open>cert_time_remaining\<close>: the time left until the expiry, unless it is past or unknown.\<close>

definition cert_time_remaining :: "int \<Rightarrow> bytes list \<Rightarrow> int option" where
  "cert_time_remaining now chain =
     (case chain of
        [] \<Rightarrow> None
      | cert # _ \<Rightarrow> Option.bind (parse_x509_not_after cert) (\<lambda>expiry. if now \<le> expiry then Some (expiry - now) else None))"

subsection \<open>Durations\<close>

datatype duration_error = EmptyDuration | NoDurationUnit string | NoDurationNumber string

definition parse_duration :: "string \<Rightarrow> duration_error + u64" where
  "parse_duration text =
     (let s = trim text;
          number = (\<lambda>num_str unit. case parse_u64 num_str of
             None \<Rightarrow> Inl (NoDurationNumber s) | Some num \<Rightarrow> Inr (num * unit))
      in if s = [] then Inl EmptyDuration
         else case strip_suffix s ''d'' of Some n \<Rightarrow> number n 86400
         | None \<Rightarrow> (case strip_suffix s ''h'' of Some n \<Rightarrow> number n 3600
         | None \<Rightarrow> (case strip_suffix s ''m'' of Some n \<Rightarrow> number n 60
         | None \<Rightarrow> (case strip_suffix s ''s'' of Some n \<Rightarrow> number n 1
         | None \<Rightarrow> Inl (NoDurationUnit s)))))"

section \<open>The calendar\<close>

definition leap_year :: "int \<Rightarrow> bool" where
  "leap_year y \<longleftrightarrow> 4 dvd y \<and> (\<not> 100 dvd y \<or> 400 dvd y)"

definition month_days :: "int \<Rightarrow> int \<Rightarrow> int" where
  "month_days y m = (if m = 2 then if leap_year y then 29 else 28 else if m \<in> {4, 6, 9, 11} then 30 else 31)"

type_synonym date = "int \<times> int \<times> int"

definition valid_date :: "date \<Rightarrow> bool" where
  "valid_date d = (case d of (y, m, d) \<Rightarrow> 1 \<le> m \<and> m \<le> 12 \<and> 1 \<le> d \<and> d \<le> month_days y m)"

definition next_date :: "date \<Rightarrow> date" where
  "next_date d =
     (case d of (y, m, d) \<Rightarrow>
        if d < month_days y m then (y, m, d + 1) else if m < 12 then (y, m + 1, 1) else (y + 1, 1, 1))"

lemma div_quotient: "0 < b \<Longrightarrow> (b * a * q + r) div b = a * q + (r::int) div b"
  by (metis div_mult_self3 less_irrefl mult.assoc add.commute mult.commute)

text \<open>The month's offset within a year that begins in March.\<close>

definition month_offset :: "int \<Rightarrow> int" where
  "month_offset m = (153 * (if m > 2 then m - 3 else m + 9) + 2) div 5"

definition year_days :: "int \<Rightarrow> int" where
  "year_days y = 365 * y + y div 4 - y div 100 + y div 400"

lemma days_shape:
  assumes "1 \<le> m" and "m \<le> 12" and "1 \<le> d" and "d \<le> 31"
  shows "days_from_civil y m d =
    year_days (if m \<le> 2 then y - 1 else y) + month_offset m + d - 1"
proof -
  define y' where "y' = (if m \<le> 2 then y - 1 else y)"
  define doy where "doy = month_offset m + d - 1"
  have doy: "0 \<le> doy" "doy < 400" using assms unfolding doy_def month_offset_def by auto
  have era: "(if y' \<ge> 0 then y' div 400 else - ((399 - y') div 400)) = y' div 400"
  proof -
    have "399 - y' = 400 * (- (y' div 400)) + (399 - y' mod 400)" using mult_div_mod_eq [of 400 y'] by linarith
    also have "\<dots> div 400 = - (y' div 400) + (399 - y' mod 400) div 400" by (rule div_mult_self4) simp
    finally show ?thesis by simp
  qed
  define r where "r = y' - y' div 400 * 400"
  have r: "0 \<le> r" "r < 400" unfolding r_def by presburger+
  have doe: "0 \<le> r * 365 + r div 4 - r div 100 + doy" "r * 365 + r div 4 - r div 100 + doy < 2 ^ 63"
    using r doy zdiv_mono1 [of r 399 4] zdiv_mono1 [of 0 r 4] zdiv_mono1 [of r 399 100] zdiv_mono1 [of 0 r 100] by simp_all
  then have small: "(r * 365 + r div 4 - r div 100 + doy) mod 2 ^ 64 = r * 365 + r div 4 - r div 100 + doy" by simp
  have doymod: "(if m > 2 then (153 * (m - 3) + 2) div 5 + d - 1 else (153 * (m + 9) + 2) div 5 + d - 1) mod 2 ^ 64 = doy"
    using doy by (auto simp: doy_def month_offset_def)
  have "days_from_civil y m d = y' div 400 * 146097 + (r * 365 + r div 4 - r div 100 + doy)"
    unfolding days_from_civil_def Let_def y'_def [symmetric] era r_def [symmetric] doymod small using doe(2) by simp
  also have "\<dots> = year_days y' + doy"
  proof -
    define q where "q = y' div 400"
    have y: "y' = 400 * q + r" unfolding r_def q_def by simp
    have "(400 * q + r) div 4 = 100 * q + r div 4" "(400 * q + r) div 100 = 4 * q + r div 100"
      "(400 * q + r) div 400 = q + r div 400"
      using div_quotient [of 4 100 q r] div_quotient [of 100 4 q r] div_quotient [of 400 1 q r] by auto
    moreover have "r div 400 = 0" using r by (intro div_pos_pos_trivial)
    moreover have "(q + 0) * 146097 + (r * 365 + a - b + doy) = 365 * (400 * q + r) + (100 * q + a) - (4 * q + b) + (q + 0) + doy"
      for a b by simp
    ultimately show ?thesis unfolding year_days_def y by (simp only:)
  qed
  finally show ?thesis unfolding y'_def [symmetric] doy_def by simp
qed

lemma month_days_bounds: "28 \<le> month_days y m" "month_days y m \<le> 31"
  by (auto simp: month_days_def)

lemma div_step:
  assumes "0 < (k::int)"
  shows "y div k = (y - 1) div k + (if k dvd y then 1 else 0)"
proof (cases "k dvd y")
  case True
  then obtain c where y: "y = k * c" ..
  have "(k * (c - 1) + (k - 1)) div k = (c - 1) + (k - 1) div k" using assms by (intro div_mult_self4) blast
  moreover have "(k - 1) div k = 0" using assms by (intro div_pos_pos_trivial) linarith+
  moreover have "k * (c - 1) + (k - 1) = y - 1" unfolding y by (simp add: algebra_simps)
  moreover have "y div k = c" using y assms by (metis less_irrefl nonzero_mult_div_cancel_left)
  ultimately show ?thesis using True by (metis add.right_neutral diff_add_cancel)
next
  case False
  define q r where "q = y div k" and "r = y mod k"
  have "r \<noteq> 0" "0 \<le> r" "r < k" using False assms by (auto simp: r_def dvd_eq_mod_eq_0)
  then have "(k * q + (r - 1)) div k = q + (r - 1) div k" "(r - 1) div k = 0" by (intro div_mult_self4, auto)
  moreover have "k * q + (r - 1) = y - 1" unfolding q_def r_def by simp
  ultimately have "(y - 1) div k = q" by (metis add.right_neutral)
  then show ?thesis using False q_def by simp
qed

lemma leap_step: "year_days y = year_days (y - 1) + (if leap_year y then 366 else 365)"
proof -
  have "100 dvd y" if "400 dvd y" by (rule dvd_trans [OF _ that]) simp
  moreover have "4 dvd y" if "100 dvd y" by (rule dvd_trans [OF _ that]) simp
  ultimately consider "\<not> 4 dvd y" "\<not> 100 dvd y" "\<not> 400 dvd y" | "4 dvd y" "\<not> 100 dvd y" "\<not> 400 dvd y"
    | "4 dvd y" "100 dvd y" "\<not> 400 dvd y" | "4 dvd y" "100 dvd y" "400 dvd y" by blast
  then show ?thesis
    by cases (simp_all only: year_days_def leap_year_def div_step [of 4 y] div_step [of 100 y] div_step [of 400 y]
        zero_less_numeral if_True if_False simp_thms, simp_all)
qed

lemma month_offsets:
  "month_offset 1 = 306" "month_offset 2 = 337" "month_offset 3 = 0" "month_offset 4 = 31" "month_offset 5 = 61"
  "month_offset 6 = 92" "month_offset 7 = 122" "month_offset 8 = 153" "month_offset 9 = 184" "month_offset 10 = 214"
  "month_offset 11 = 245" "month_offset 12 = 275"
  by (simp_all add: month_offset_def)

lemma month_cases: "1 \<le> (m::int) \<Longrightarrow> m \<le> 12 \<Longrightarrow>
    m = 1 \<or> m = 2 \<or> m = 3 \<or> m = 4 \<or> m = 5 \<or> m = 6 \<or> m = 7 \<or> m = 8 \<or> m = 9 \<or> m = 10 \<or> m = 11 \<or> m = 12"
  by presburger

lemma next_date_valid: "valid_date d \<Longrightarrow> valid_date (next_date d)"
  using month_days_bounds by (auto simp: valid_date_def next_date_def split: prod.splits) (smt (verit))+

lemma days_next_date:
  assumes "valid_date (y, m, d)" and "next_date (y, m, d) = (y', m', d')"
  shows "days_from_civil y' m' d' = days_from_civil y m d + 1"
proof -
  have b: "1 \<le> m" "m \<le> 12" "1 \<le> d" "d \<le> month_days y m" "d \<le> 31"
    using assms(1) month_days_bounds [of y m] by (auto simp: valid_date_def)
  show ?thesis
  proof (cases "d < month_days y m")
    case True
    then have "y' = y" "m' = m" "d' = d + 1" using assms(2) by (auto simp: next_date_def)
    moreover have "d + 1 \<le> 31" using True month_days_bounds [of y m] by simp
    ultimately show ?thesis using b by (simp add: days_shape)
  next
    case False
    then have d: "d = month_days y m" using b by simp
    have n: "(y', m', d') = (if m < 12 then (y, m + 1, 1) else (y + 1, 1, 1))"
      using assms(2) False by (simp add: next_date_def)
    have "days_from_civil y m d = year_days (if m \<le> 2 then y - 1 else y) + month_offset m + month_days y m - 1"
      using days_shape [OF b(1,2,3,5)] d by simp
    moreover have "days_from_civil y' m' d' = year_days (if m' \<le> 2 then y' - 1 else y') + month_offset m'"
      using n b(1,2) by (subst days_shape) (auto split: if_splits)
    ultimately show ?thesis using month_cases [OF b(1,2)] n
      by (elim disjE) (simp_all add: month_days_def month_offsets leap_step [of y])
  qed
qed

lemma days_after:
  assumes "(next_date ^^ n) (1970, 1, 1) = (y, m, d)"
  shows "valid_date (y, m, d) \<and> 1970 \<le> y \<and> days_from_civil y m d = days_from_civil 1970 1 1 + int n"
  using assms
proof (induction n arbitrary: y m d)
  case 0
  then show ?case by (auto simp: valid_date_def month_days_def)
next
  case (Suc n)
  obtain y0 m0 d0 where p: "(next_date ^^ n) (1970, 1, 1) = (y0, m0, d0)" by (metis prod_cases3)
  from Suc.IH [OF p] have "valid_date (y0, m0, d0)" "1970 \<le> y0" "days_from_civil y0 m0 d0 = days_from_civil 1970 1 1 + int n" by auto
  moreover have n: "next_date (y0, m0, d0) = (y, m, d)" using Suc.prems p by simp
  moreover have "y0 \<le> y" using n by (auto simp: next_date_def split: if_splits)
  ultimately show ?case using days_next_date [of y0 m0 d0 y m d] next_date_valid [of "(y0, m0, d0)"] by simp
qed

section \<open>Certificates\<close>

subsection \<open>An encoder\<close>

fun be_bytes :: "nat \<Rightarrow> bytes" where
  "be_bytes n = (if n = 0 then [] else be_bytes (n div 256) @ [of_nat (n mod 256)])"

declare be_bytes.simps [simp del]

definition der_length :: "nat \<Rightarrow> bytes" where
  "der_length n = (if n < 128 then [of_nat n] else of_nat (128 + length (be_bytes n)) # be_bytes n)"

definition der_tlv :: "u8 \<Rightarrow> bytes \<Rightarrow> bytes" where
  "der_tlv tag content = tag # der_length (length content) @ content"

text \<open>
  A certificate: its version if it has one, serial number, signature algorithm, issuer, validity, and what follows in
  the body and after it.
\<close>

definition certificate_body ::
  "bytes option \<Rightarrow> (u8 \<times> bytes) \<Rightarrow> bytes \<Rightarrow> bytes \<Rightarrow> (u8 \<times> bytes) \<Rightarrow> (u8 \<times> bytes) \<Rightarrow> bytes \<Rightarrow> bytes" where
  "certificate_body version serial algorithm issuer not_before not_after rest =
     (case version of None \<Rightarrow> [] | Some v \<Rightarrow> der_tlv 0xA0 v) @ der_tlv (fst serial) (snd serial) @
     der_tlv 0x30 algorithm @ der_tlv 0x30 issuer @
     der_tlv 0x30 (der_tlv (fst not_before) (snd not_before) @ der_tlv (fst not_after) (snd not_after)) @ rest"

definition certificate :: "bytes \<Rightarrow> bytes \<Rightarrow> bytes" where
  "certificate body signature = der_tlv 0x30 (der_tlv 0x30 body @ signature)"

subsection \<open>The reader inverts the encoder\<close>

lemma byte_at_append [simp]: "byte_at (pre @ b # rest) (length pre) = Some b"
  by (simp add: byte_at_def)

lemma byte_at_here: "byte_at (pre @ bs) (length pre) = (case bs of [] \<Rightarrow> None | b # _ \<Rightarrow> Some b)"
  by (cases bs) (auto simp: byte_at_def)

lemma be_bytes_0 [simp]: "be_bytes 0 = []"
  by (simp add: be_bytes.simps)

lemma be_bytes_length: "n < 256 ^ k \<Longrightarrow> length (be_bytes n) \<le> k"
proof (induction k arbitrary: n)
  case (Suc k)
  show ?case
  proof (cases "n = 0")
    case False
    have "n div 256 < 256 ^ k" using Suc.prems by (simp add: less_mult_imp_div_less mult.commute)
    then show ?thesis using Suc.IH False by (subst be_bytes.simps) simp
  qed (simp add: be_bytes.simps)
qed (simp add: be_bytes.simps)

lemma read_length_append:
  "read_length_bytes (pre @ bs @ rest) (length bs) acc (length pre) =
     Some (foldl (\<lambda>n b. n * 256 + unat b) acc bs, length pre + length bs)"
proof (induction bs arbitrary: pre acc)
  case (Cons b bs)
  from Cons [of "pre @ [b]"] show ?case by simp
qed simp

lemma be_bytes_value: "foldl (\<lambda>n b. n * 256 + unat (b :: u8)) 0 (be_bytes n) = n"
proof (induction n rule: be_bytes.induct)
  case (1 n)
  have "unat (of_nat (n mod 256) :: u8) = n mod 256" by (simp add: unat_of_nat)
  then show ?case using 1 by (cases "n = 0") (simp_all add: be_bytes.simps [of n] div_mult_mod_eq)
qed

lemma long_form:
  assumes "k \<le> 4"
  shows "\<not> (of_nat (128 + k) :: u8) < 0x80" "unat ((of_nat (128 + k) :: u8) AND 0x7F) = k"
proof -
  have "k = 0 \<or> k = 1 \<or> k = 2 \<or> k = 3 \<or> k = 4" using assms by auto
  then show "\<not> (of_nat (128 + k) :: u8) < 0x80" "unat ((of_nat (128 + k) :: u8) AND 0x7F) = k" by auto
qed

lemma parse_length_append:
  assumes "n < 2 ^ 32"
  shows "parse_asn1_length (pre @ der_length n @ rest) (length pre) = Some (n, length pre + length (der_length n))"
proof (cases "n < 128")
  case True
  then have "(of_nat n :: u8) < 0x80" "unat (of_nat n :: u8) = n"
    by (simp_all add: word_less_nat_alt unat_of_nat)
  then show ?thesis using True by (simp add: parse_asn1_length_def der_length_def)
next
  case False
  have "length (be_bytes n) \<le> 4" using assms by (intro be_bytes_length) simp
  from long_form [OF this] False this show ?thesis
    using read_length_append [of "pre @ [of_nat (128 + length (be_bytes n))]" "be_bytes n" rest 0]
    by (simp add: parse_asn1_length_def der_length_def be_bytes_value)
qed

lemma skip_append:
  assumes "length content < 2 ^ 32"
  shows "skip_tlv (pre @ der_tlv tag content @ rest) (length pre) = Some (length pre + length (der_tlv tag content))"
    and "skip_tag_and_length (pre @ der_tlv tag content @ rest) (length pre) tag =
      Some (length pre + Suc (length (der_length (length content))))"
  using parse_length_append [OF assms, of "pre @ [tag]" "content @ rest"]
  by (simp_all add: skip_tlv_def skip_tag_and_length_def der_tlv_def)

lemma skip_at:
  assumes "der = pre @ der_tlv tag content @ rest" and "length content < 2 ^ 32"
  shows "skip_tlv der (length pre) = Some (length (pre @ der_tlv tag content))"
    and "skip_tag_and_length der (length pre) tag = Some (length (pre @ tag # der_length (length content)))"
  using skip_append [OF assms(2), of pre tag rest] by (simp_all add: assms(1))

lemma read_at:
  assumes "der = pre @ der_tlv tag content @ rest" and "length content < 2 ^ 32"
  shows "byte_at der (length pre) = Some tag"
    and "parse_asn1_length der (Suc (length pre)) = Some (length content, length (pre @ tag # der_length (length content)))"
    and "length (pre @ tag # der_length (length content)) + length content \<le> length der"
    and "take (length content) (drop (length (pre @ tag # der_length (length content))) der) = content"
  using parse_length_append [OF assms(2), of "pre @ [tag]" "content @ rest"] by (simp_all add: assms(1) der_tlv_def)

lemma parse_certificate:
  assumes "length (certificate (certificate_body version (stag, serial) algorithm issuer (btag, not_before) (tag, not_after) rest)
      signature) < 2 ^ 32"
    and "version = None \<Longrightarrow> stag \<noteq> 0xA0"
  shows "parse_x509_not_after
      (certificate (certificate_body version (stag, serial) algorithm issuer (btag, not_before) (tag, not_after) rest) signature) =
    parse_asn1_time tag not_after"
proof -
  let ?body = "certificate_body version (stag, serial) algorithm issuer (btag, not_before) (tag, not_after) rest"
  define der where "der = certificate ?body signature"
  define ver where "ver = (case version of None \<Rightarrow> [] | Some v \<Rightarrow> der_tlv 0xA0 v)"
  define validity where "validity = der_tlv btag not_before @ der_tlv tag not_after"
  define p1 where "p1 = 0x30 # der_length (length (der_tlv 0x30 ?body @ signature))"
  define p2 where "p2 = p1 @ 0x30 # der_length (length ?body)"
  define p3 where "p3 = p2 @ ver"
  define p4 where "p4 = p3 @ der_tlv stag serial"
  define p5 where "p5 = p4 @ der_tlv 0x30 algorithm"
  define p6 where "p6 = p5 @ der_tlv 0x30 issuer"
  define p7 where "p7 = p6 @ 0x30 # der_length (length validity)"
  define p8 where "p8 = p7 @ der_tlv btag not_before"
  note ps = p8_def p7_def p6_def p5_def p4_def p3_def p2_def p1_def
  have parts: "?body = ver @ der_tlv stag serial @ der_tlv 0x30 algorithm @ der_tlv 0x30 issuer @ der_tlv 0x30 validity @ rest"
    by (simp add: certificate_body_def ver_def validity_def)
  have d0: "der = [] @ der_tlv 0x30 (der_tlv 0x30 ?body @ signature) @ []" by (simp add: der_def certificate_def)
  have d1: "der = p1 @ der_tlv 0x30 ?body @ signature" by (simp add: d0 p1_def der_tlv_def)
  have d2: "der = p2 @ ?body @ signature" by (simp add: d1 p2_def der_tlv_def)
  have d3: "der = p3 @ der_tlv stag serial @ der_tlv 0x30 algorithm @ der_tlv 0x30 issuer @ der_tlv 0x30 validity @ rest @ signature"
    by (simp add: d2 p3_def parts)
  have d4: "der = p4 @ der_tlv 0x30 algorithm @ der_tlv 0x30 issuer @ der_tlv 0x30 validity @ rest @ signature"
    by (simp add: d3 p4_def)
  have d5: "der = p5 @ der_tlv 0x30 issuer @ der_tlv 0x30 validity @ rest @ signature" by (simp add: d4 p5_def)
  have d6: "der = p6 @ der_tlv 0x30 validity @ rest @ signature" by (simp add: d5 p6_def)
  have d7: "der = p7 @ der_tlv btag not_before @ der_tlv tag not_after @ rest @ signature"
    by (simp add: d6 p7_def der_tlv_def [of _ validity]) (simp add: validity_def)
  have d8: "der = p8 @ der_tlv tag not_after @ rest @ signature" by (simp add: d7 p8_def)
  have tlv: "length c \<le> length (der_tlv t c)" for t c by (simp add: der_tlv_def)
  have len: "length der < 2 ^ 32" using assms(1) by (simp add: der_def)
  have small: "length c < 2 ^ 32" if "der = pre @ der_tlv t c @ r" for pre t c r
    using len tlv [of c t] that by simp
  note go = skip_at [OF _ small]
  have s2: "byte_at der (length p2) \<noteq> None \<and>
      (if byte_at der (length p2) = Some 0xA0 then skip_tlv der (length p2) else Some (length p2)) = Some (length p3)"
  proof (cases version)
    case None
    then show ?thesis using d3 assms(2) by (simp add: p3_def ver_def der_tlv_def)
  next
    case (Some v)
    then have "der = p2 @ der_tlv 0xA0 v @ der_tlv stag serial @ der_tlv 0x30 algorithm @ der_tlv 0x30 issuer @
        der_tlv 0x30 validity @ rest @ signature" using d3 by (simp add: p3_def ver_def)
    from go(1) [OF this this] read_at(1) [OF this small [OF this]] Some show ?thesis by (simp add: p3_def ver_def)
  qed
  then obtain b where b: "byte_at der (length p2) = Some b" by auto
  have "skip_tag_and_length der 0 0x30 = Some (length p1)" using go(2) [OF d0 d0] by (simp add: p1_def)
  moreover have "skip_tag_and_length der (length p1) 0x30 = Some (length p2)" using go(2) [OF d1 d1] by (simp add: p2_def)
  moreover have "skip_tlv der (length p3) = Some (length p4)" using go(1) [OF d3 d3] by (simp add: p4_def)
  moreover have "skip_tlv der (length p4) = Some (length p5)" using go(1) [OF d4 d4] by (simp add: p5_def)
  moreover have "skip_tlv der (length p5) = Some (length p6)" using go(1) [OF d5 d5] by (simp add: p6_def)
  moreover have "skip_tag_and_length der (length p6) 0x30 = Some (length p7)" using go(2) [OF d6 d6] by (simp add: p7_def)
  moreover have "skip_tlv der (length p7) = Some (length p8)" using go(1) [OF d7 d7] by (simp add: p8_def)
  ultimately show ?thesis
    using s2 b read_at [OF d8 small [OF d8]] unfolding der_def [symmetric] parse_x509_not_after_def by simp
qed

subsection \<open>Times as text\<close>

definition two_digits :: "int \<Rightarrow> string" where
  "two_digits n = [char_of (48 + n div 10), char_of (48 + n mod 10)]"

text \<open>UTCTime (tag \<open>0x17\<close>) has two digits for the year, GeneralizedTime four; both end in \<open>Z\<close>.\<close>

definition time_text :: "u8 \<Rightarrow> date \<Rightarrow> int \<Rightarrow> int \<Rightarrow> int \<Rightarrow> string" where
  "time_text tag day hour minute second =
     (case day of (y, m, d) \<Rightarrow>
        (if tag = 0x18 then two_digits (y div 100) else []) @ two_digits (y mod 100) @ two_digits m @ two_digits d @
        two_digits hour @ two_digits minute @ two_digits second @ ''Z'')"

definition text_bytes :: "string \<Rightarrow> bytes" where
  "text_bytes = map (\<lambda>c. of_nat (of_char c))"

definition ascii_text :: "string \<Rightarrow> bool" where
  "ascii_text s \<longleftrightarrow> (\<forall>c\<in>set s. (of_char c :: nat) < 128)"

lemma from_utf8_ascii: "ascii_text s \<Longrightarrow> from_utf8 (text_bytes s) = Some s"
proof -
  assume s: "ascii_text s"
  have u: "unat (of_nat (of_char c) :: u8) = of_char c" for c :: char
    by (simp add: unat_of_nat)
  have "valid_utf8 (text_bytes t)" if "ascii_text t" for t
    using that
  proof (induction t)
    case (Cons c t)
    then have "(of_nat (of_char c) :: u8) < 0x80" by (simp add: word_less_nat_alt u ascii_text_def)
    then show ?case using Cons by (simp add: text_bytes_def ascii_text_def)
  qed (simp add: text_bytes_def)
  then show ?thesis using s by (auto simp: from_utf8_def text_bytes_def u o_def)
qed

lemma str_get_append:
  assumes "ascii_text (pre @ w @ rest)"
  shows "str_get (pre @ w @ rest) (length pre) (length pre + length w) = Some w"
proof -
  have "char_boundary (pre @ w @ rest) i" if "i \<le> length (pre @ w @ rest)" for i
    using assms that unfolding char_boundary_def ascii_text_def
    by (metis le_neq_implies_less linorder_not_le nth_mem)
  then show ?thesis by (simp add: str_get_def)
qed

lemma two_digits_facts:
  assumes "0 \<le> n" and "n < 100"
  shows "ascii_text (two_digits n)" and "length (two_digits n) = 2" and "parse_u32 (two_digits n) = Some (word_of_int n)"
proof -
  have r: "0 \<le> n div 10" "n div 10 < 10" "0 \<le> n mod 10" "n mod 10 < 10" using assms by auto
  have c: "(of_char (char_of (48 + k) :: char) :: nat) = nat (48 + k)" if "0 \<le> k" "k < 10" for k :: int
  proof -
    have "(of_char (char_of (48 + k) :: char) :: int) = 48 + k" using that by simp
    then have "int (of_char (char_of (48 + k) :: char)) = 48 + k" by (simp only: of_nat_of_char)
    then show ?thesis by linarith
  qed
  then show "ascii_text (two_digits n)" using r by (auto simp: ascii_text_def two_digits_def)
  show "length (two_digits n) = 2" by (simp add: two_digits_def)
  note dg = digit_char [OF r(1,2)] digit_char [OF r(3,4)]
  have "char_of (48 + n div 10) \<noteq> CHR ''+''" using is_ascii_digit_neq [OF dg(1)] by simp
  then have "parse_unsigned (2 ^ 32 - 1) (two_digits n) = Some n"
    using dg assms by (simp add: parse_unsigned_def two_digits_def parse_digits_def digits_val_def)
  then show "parse_u32 (two_digits n) = Some (word_of_int n)" by (simp add: parse_u32_def)
qed

lemma ascii_text_Nil [simp]: "ascii_text []"
  by (simp add: ascii_text_def)

lemma ascii_text_append [simp]: "ascii_text (a @ b) \<longleftrightarrow> ascii_text a \<and> ascii_text b"
  by (auto simp: ascii_text_def)

lemma get_two_digits:
  assumes "s = pre @ two_digits n @ rest" and "ascii_text s" and "0 \<le> n" and "n < 100"
    and "a = length pre" and "b = length pre + 2"
  shows "get_number s a b = Some n"
proof -
  have "uint (word_of_int n :: u32) = n" using assms(3,4) by (simp add: uint_word_of_int)
  then show ?thesis
    using str_get_append [of pre "two_digits n" rest] two_digits_facts [OF assms(3,4)] assms(1,2,5,6)
    by (simp add: get_number_def)
qed

lemma str_get_rest:
  assumes "s = pre @ rest" and "ascii_text s" and "a = length pre"
  shows "str_get s a (length s) = Some rest"
  using str_get_append [of pre rest "[]"] assms by simp

lemma parse_four_digits:
  assumes "0 \<le> y" and "y < 10000"
  shows "parse_u32 (two_digits (y div 100) @ two_digits (y mod 100)) = Some (word_of_int y)"
proof -
  define a b where "a = y div 100" and "b = y mod 100"
  have r: "0 \<le> a div 10" "a div 10 < 10" "0 \<le> a mod 10" "a mod 10 < 10" "0 \<le> b div 10" "b div 10 < 10"
    "0 \<le> b mod 10" "b mod 10 < 10" using assms by (auto simp: a_def b_def)
  note dg = digit_char [OF r(1,2)] digit_char [OF r(3,4)] digit_char [OF r(5,6)] digit_char [OF r(7,8)]
  have y: "y = 100 * a + b" unfolding a_def b_def by simp
  have "char_of (48 + a div 10) \<noteq> CHR ''+''" using is_ascii_digit_neq [OF dg(1)] by simp
  then have "parse_unsigned (2 ^ 32 - 1) (two_digits a @ two_digits b) = Some y"
    using dg assms y by (simp add: parse_unsigned_def two_digits_def parse_digits_def digits_val_def)
  then show ?thesis by (simp add: parse_u32_def a_def b_def)
qed

lemma parse_year_text:
  assumes "ascii_text rest" and "1970 \<le> y" and "tag = 0x17 \<and> y < 2050 \<or> tag = 0x18 \<and> y < 10000"
  shows "parse_year tag ((if tag = 0x18 then two_digits (y div 100) else []) @ two_digits (y mod 100) @ rest) = Some (y, rest)"
proof -
  have d: "0 \<le> y mod 100" "y mod 100 < 100" by auto
  note two = two_digits_facts [OF d]
  from assms(3) show ?thesis
  proof
    assume t: "tag = 0x17 \<and> y < 2050"
    let ?s = "two_digits (y mod 100) @ rest"
    have a: "ascii_text ?s" using two assms(1) by simp
    have "get_number ?s 0 2 = Some (y mod 100)"
      by (rule get_two_digits [where pre = "[]" and rest = rest]) (use a d in auto)
    moreover have "str_get ?s 2 (length ?s) = Some rest" by (rule str_get_rest [OF refl a]) (simp add: two)
    moreover have "(if y mod 100 \<ge> 50 then 1900 + y mod 100 else 2000 + y mod 100) = y"
      using conjunct2 [OF t] assms(2) by presburger
    ultimately show ?thesis using t by (simp add: parse_year_def)
  next
    assume t: "tag = 0x18 \<and> y < 10000"
    let ?h = "two_digits (y div 100) @ two_digits (y mod 100)" let ?s = "?h @ rest"
    have c: "0 \<le> y div 100" "y div 100 < 100" using assms(2) t by auto
    have a: "ascii_text ?s" using two two_digits_facts [OF c] assms(1) by simp
    have l: "length ?h = 4" using two two_digits_facts [OF c] by simp
    have "uint (word_of_int y :: u32) = y" using assms(2) t by (simp add: uint_word_of_int)
    then have "get_number ?s 0 4 = Some y"
      using str_get_append [of "[]" ?h rest] a l parse_four_digits [of y] assms(2) t by (simp add: get_number_def)
    moreover have "str_get ?s 4 (length ?s) = Some rest" by (rule str_get_rest [OF refl a]) (simp only: l)
    ultimately show ?thesis using t by (simp add: parse_year_def)
  qed
qed

lemma parse_time_text:
  assumes "(next_date ^^ n) (1970, 1, 1) = (y, m, d)" and "tag = 0x17 \<and> y < 2050 \<or> tag = 0x18 \<and> y < 10000"
    and "0 \<le> hour" "hour < 24" and "0 \<le> minute" "minute < 60" and "0 \<le> second" "second < 60"
  shows "parse_asn1_time tag (text_bytes (time_text tag (y, m, d) hour minute second)) =
    Some (int n * 86400 + hour * 3600 + minute * 60 + second)"
proof -
  have days: "1970 \<le> y" "days_from_civil y m d = days_from_civil 1970 1 1 + int n" and v: "valid_date (y, m, d)"
    using days_after [OF assms(1)] by auto
  have b: "0 \<le> m" "m < 100" "0 \<le> d" "d < 100" using v month_days_bounds(2) [of y m] by (auto simp: valid_date_def)
  define rest where "rest = two_digits m @ two_digits d @ two_digits hour @ two_digits minute @ two_digits second @ ''Z''"
  note tf = two_digits_facts
  have lens: "length (two_digits m) = 2" "length (two_digits d) = 2" "length (two_digits hour) = 2"
    "length (two_digits minute) = 2" by (simp_all add: two_digits_def)
  have a: "ascii_text rest"
    unfolding rest_def using tf(1) [OF b(1,2)] tf(1) [OF b(3,4)] tf(1) [of hour] tf(1) [of minute] tf(1) [of second] assms(3-8)
    by (simp add: ascii_text_def [of "''Z''"])
  have num: "get_number rest (length pre) (length pre + 2) = Some k" if "rest = pre @ two_digits k @ r" "0 \<le> k" "k < 100" for pre k r
    by (rule get_two_digits [OF that(1) a that(2,3) refl refl])
  have nums: "get_number rest 0 2 = Some m" "get_number rest 2 4 = Some d" "get_number rest 4 6 = Some hour"
      "get_number rest 6 8 = Some minute" "get_number rest 8 10 = Some second"
    using num [of "[]" m "two_digits d @ two_digits hour @ two_digits minute @ two_digits second @ ''Z''"]
      num [of "two_digits m" d "two_digits hour @ two_digits minute @ two_digits second @ ''Z''"]
      num [of "two_digits m @ two_digits d" hour "two_digits minute @ two_digits second @ ''Z''"]
      num [of "two_digits m @ two_digits d @ two_digits hour" minute "two_digits second @ ''Z''"]
      num [of "two_digits m @ two_digits d @ two_digits hour @ two_digits minute" second "''Z''"] b assms(3-8)
    by (simp_all add: rest_def lens del: add_2_eq_Suc add_2_eq_Suc')
  have full: "time_text tag (y, m, d) hour minute second =
      (if tag = 0x18 then two_digits (y div 100) else []) @ two_digits (y mod 100) @ rest"
    by (simp add: time_text_def rest_def)
  have "ascii_text (time_text tag (y, m, d) hour minute second)"
    using a tf(1) [of "y mod 100"] tf(1) [of "y div 100"] days(1) assms(2) by (auto simp: full)
  then show ?thesis
    using parse_year_text [OF a days(1) assms(2)] nums days(2) assms(3,5,7)
    by (simp add: parse_asn1_time_def from_utf8_ascii full Let_def)
qed

section \<open>Properties\<close>

text \<open>
  C29. The expiry of a certificate is read back exactly: for every certificate with the structure of X.509 (with or
  without a version, any serial number, algorithm, issuer and remaining content, of any size below four gigabytes) whose
  validity ends on the \<open>n\<close>-th day after 1 January 1970, counted one day after another in the Gregorian calendar, at a
  given time of day, written as a UTCTime before 2050 or as a GeneralizedTime before the year 10000, the reader returns
  exactly the seconds of that moment. The time remaining is what is left of it, and nothing once it has passed.
\<close>

theorem not_after_read:
  assumes "(next_date ^^ n) (1970, 1, 1) = (y, m, d)" and "tag = 0x17 \<and> y < 2050 \<or> tag = 0x18 \<and> y < 10000"
    and "0 \<le> hour" "hour < 24" and "0 \<le> minute" "minute < 60" and "0 \<le> second" "second < 60"
    and "cert = certificate (certificate_body version (stag, serial) algorithm issuer (btag, not_before)
        (tag, text_bytes (time_text tag (y, m, d) hour minute second)) rest) signature"
    and "length cert < 2 ^ 32" and "version = None \<Longrightarrow> stag \<noteq> 0xA0"
    and "expiry = int n * 86400 + hour * 3600 + minute * 60 + second"
  shows "parse_x509_not_after cert = Some expiry \<and>
    cert_time_remaining now (cert # chain) = (if now \<le> expiry then Some (expiry - now) else None)"
proof -
  have "parse_x509_not_after cert = Some expiry"
    using parse_certificate [OF assms(10) [unfolded assms(9)] assms(11)] parse_time_text [OF assms(1-8)] assms(9,12) by simp
  then show ?thesis by (simp add: cert_time_remaining_def)
qed

lemma example_day: "(next_date ^^ 59) (1970, 1, 1) = (1970, 3, 1)"
  by code_simp

theorem not_after_read_witness:
  "parse_x509_not_after (certificate (certificate_body (Some [2, 1, 2]) (2, [5]) [6, 0] []
       (0x17, text_bytes ''700101000000Z'') (0x17, text_bytes (time_text 0x17 (1970, 3, 1) 12 30 0)) [1, 2, 3]) [0]) =
     Some (59 * 86400 + 12 * 3600 + 30 * 60)"
proof -
  have "length (certificate (certificate_body (Some [2, 1, 2]) (2, [5]) [6, 0] []
       (0x17, text_bytes ''700101000000Z'') (0x17, text_bytes (time_text 0x17 (1970, 3, 1) 12 30 0)) [1, 2, 3]) [0]) < 2 ^ 32"
    by (simp add: certificate_def certificate_body_def der_tlv_def der_length_def text_bytes_def time_text_def two_digits_def)
  from not_after_read [OF example_day _ _ _ _ _ _ _ refl this] show ?thesis by simp
qed

text \<open>
  The number of a duration is multiplied by its unit in 64 bits without a check: \<open>213503982334602d\<close> is read as a
  little less than seventeen hours instead of being rejected.
\<close>

theorem duration_wraps: "parse_duration ''213503982334602d'' = Inr 61184"
proof -
  have "trim ''213503982334602d'' = ''213503982334602d''" by code_simp
  moreover have "parse_u64 ''213503982334602'' = Some 213503982334602"
    by (simp add: parse_u64_def parse_unsigned_def parse_digits_def digits_val_def digit_val_def is_ascii_digit_def)
  moreover have "strip_suffix ''213503982334602d'' ''d'' = Some ''213503982334602''"
    by (simp only: strip_suffix_Some) simp
  ultimately show ?thesis by (simp add: parse_duration_def Let_def del: strip_suffix_Some)
qed

end
