(* ===== verification/Acme.thy ===== *)
theory Acme
  imports CertTime
begin

text \<open>
  The certificate manager: \<open>src/frameworks/acme/mod.rs\<close> (the manager), \<open>cloudflare.rs\<close> (the DNS provider for the
  challenges) and \<open>cert_resolver.rs\<close> (the certificate in use).

  What the manager calls outside is the parameter \<open>acme_env\<close> over a state \<open>'o\<close> of the world: the HTTP client and its
  JSON decoders, the protocol library, the file system, the reader of PEM files and environment variables. An
  operation is a function on \<open>acme_state\<close>, which also keeps the calls made so far (with the replies of the provider, of
  the authority to the end of an order, and of the file system to a write), the certificate in use and the clock, and it may fail at every call. The clock advances with the sleeps of the manager.
\<close>

section \<open>The manager\<close>

subsection \<open>State, errors, calls\<close>

record acme_dns_provider_config =
  dp_provider_type :: string
  dp_api_token :: string
  dp_zone_id :: "string option"

record acme_config =
  acm_enabled :: bool
  acm_directory_url :: string
  acm_domains :: "string list"
  acm_email :: string
  acm_cert_path :: string
  acm_key_path :: string
  acm_account_credentials_path :: string
  acm_renew_before_expiry :: string
  acm_dns_provider :: acme_dns_provider_config

datatype dns_provider_error =
    DpHttp string
  | DpApi u16 string
  | DpZoneNotFound string
  | DpConfig string

datatype acme_error =
    AeProtocol string
  | AeDnsProvider dns_provider_error
  | AeIo string
  | AeKey string
  | AeExpired
  | AeConfig string

record certified_key =
  ck_chain :: "bytes list"
  ck_signing_key :: string

text \<open>Requests to the provider carry the token; a POST also the name and the content of the record.\<close>

datatype cf_request =
    CfGet string string
  | CfPost string string string string
  | CfDelete string string

datatype acme_call =
    Sent cf_request "string + (u16 \<times> string)"
  | NewOrder "string list"
  | FetchAuthorization string
  | SetReady string
  | PollReady
  | Finalize nat "string + string"
  | PollCertificate nat "string + string"
  | RestoreAccount
  | CreateAccount string string
  | WriteFile string string "string + unit"
  | SleepSecs int

record 'o acme_state =
  am_world :: 'o
  am_calls :: "acme_call list"
  am_resolver :: certified_key
  am_clock :: int

type_synonym ('o, 'e, 'a) acme = "'o acme_state \<Rightarrow> ('e + 'a) \<times> 'o acme_state"

definition am_result :: "'e + 'a \<Rightarrow> ('o, 'e, 'a) acme" where
  "am_result r st = (r, st)"

definition am_bind :: "('o, 'e, 'a) acme \<Rightarrow> ('a \<Rightarrow> ('o, 'e, 'b) acme) \<Rightarrow> ('o, 'e, 'b) acme" where
  "am_bind m f st = (case m st of (Inl e, st) \<Rightarrow> (Inl e, st) | (Inr a, st) \<Rightarrow> f a st)"

definition am_map_err :: "('e \<Rightarrow> 'f) \<Rightarrow> ('o, 'e, 'a) acme \<Rightarrow> ('o, 'f, 'a) acme" where
  "am_map_err g m st = (case m st of (r, st) \<Rightarrow> (map_err g r, st))"

text \<open>A call to the outside, kept in the list of calls.\<close>

definition external :: "(string + 'a \<Rightarrow> acme_call) \<Rightarrow> ('o \<Rightarrow> (string + 'a) \<times> 'o) \<Rightarrow> (string \<Rightarrow> 'e) \<Rightarrow> ('o, 'e, 'a) acme" where
  "external call f err st =
     (case f (am_world st) of (r, w) \<Rightarrow> (map_err err r, st\<lparr>am_world := w, am_calls := am_calls st @ [call r]\<rparr>))"

definition sleep_secs :: "int \<Rightarrow> ('o, 'e, unit) acme" where
  "sleep_secs n st = (Inr (), st\<lparr>am_clock := am_clock st + n, am_calls := am_calls st @ [SleepSecs n]\<rparr>)"

subsection \<open>What is outside\<close>

record cf_list_response =
  cl_success :: bool
  cl_errors :: "string list"
  cl_result :: "(string \<times> string) list"

record cf_record_response =
  cr_success :: bool
  cr_errors :: "string list"
  cr_result :: "string option"

datatype authorization_status = AuthorizationValid | AuthorizationPending | AuthorizationOther string

text \<open>An authorization: its status and, if it offers DNS-01, the domain and the value for the record.\<close>

record authorization =
  au_status :: authorization_status
  au_dns01 :: "(string \<times> string) option"

datatype order_status = OrderReady | OrderOther string

record 'o acme_env =
  ae_send :: "cf_request \<Rightarrow> 'o \<Rightarrow> (string + (u16 \<times> string)) \<times> 'o"
  ae_list_response :: "string \<Rightarrow> string + cf_list_response"
  ae_record_response :: "string \<Rightarrow> string + cf_record_response"
  ae_base_errors :: "string \<Rightarrow> string + string list"
  ae_var :: "string \<Rightarrow> string option"
  ae_build_client :: "string option"
  ae_exists :: "string \<Rightarrow> 'o \<Rightarrow> bool"
  ae_read :: "string \<Rightarrow> 'o \<Rightarrow> string + string"
  ae_parent :: "string \<Rightarrow> string option"
  ae_create_dir_all :: "string \<Rightarrow> 'o \<Rightarrow> (string + unit) \<times> 'o"
  ae_write :: "string \<Rightarrow> string \<Rightarrow> 'o \<Rightarrow> (string + unit) \<times> 'o"
  ae_parse_credentials :: "string \<Rightarrow> string + string"
  ae_show_credentials :: "string \<Rightarrow> string + string"
  ae_from_credentials :: "string \<Rightarrow> 'o \<Rightarrow> (string + nat) \<times> 'o"
  ae_create_account :: "string \<Rightarrow> string \<Rightarrow> 'o \<Rightarrow> (string + (nat \<times> string)) \<times> 'o"
  ae_new_order :: "nat \<Rightarrow> string list \<Rightarrow> 'o \<Rightarrow> (string + (nat \<times> string list)) \<times> 'o"
  ae_authorization :: "string \<Rightarrow> 'o \<Rightarrow> (string + authorization) \<times> 'o"
  ae_set_ready :: "string \<Rightarrow> 'o \<Rightarrow> (string + unit) \<times> 'o"
  ae_poll_ready :: "nat \<Rightarrow> 'o \<Rightarrow> (string + order_status) \<times> 'o"
  ae_finalize :: "nat \<Rightarrow> 'o \<Rightarrow> (string + string) \<times> 'o"
  ae_poll_certificate :: "nat \<Rightarrow> 'o \<Rightarrow> (string + string) \<times> 'o"
  ae_certs :: "string \<Rightarrow> string + bytes list"
  ae_private_key :: "string \<Rightarrow> string + string option"
  ae_signing_key :: "string \<Rightarrow> string + string"

subsection \<open>The DNS provider\<close>

record cloudflare_provider =
  cp_api_token :: string
  cp_zone_id :: "string option"

definition expand_env_var :: "(string \<Rightarrow> string option) \<Rightarrow> string \<Rightarrow> string" where
  "expand_env_var var v =
     (let trimmed = trim v in
      if starts_with trimmed ''${'' \<and> ends_with_char trimmed (CHR ''}'') then
        (case var (take (length trimmed - 3) (drop 2 trimmed)) of Some val \<Rightarrow> val | None \<Rightarrow> [])
      else v)"

definition cloudflare_new :: "'o acme_env \<Rightarrow> string \<Rightarrow> string option \<Rightarrow> dns_provider_error + cloudflare_provider" where
  "cloudflare_new E api_token zone_id =
     (let resolved_token = expand_env_var (ae_var E) api_token in
      if resolved_token = [] then Inl (DpConfig ''api_token is empty (check environment variable)'')
      else case ae_build_client E of
        Some e \<Rightarrow> Inl (DpHttp e)
      | None \<Rightarrow> Inr \<lparr>cp_api_token = resolved_token, cp_zone_id = zone_id\<rparr>)"

fun join_with :: "string \<Rightarrow> string list \<Rightarrow> string" where
  "join_with sep [] = []"
| "join_with sep [x] = x"
| "join_with sep (x # xs) = x @ sep @ join_with sep xs"

definition zones_url :: string where
  "zones_url = ''https://api.cloudflare.com/client/v4/zones''"

definition records_url :: "string \<Rightarrow> string" where
  "records_url zone_id = zones_url @ ''/'' @ zone_id @ ''/dns_records''"

definition send_request :: "'o acme_env \<Rightarrow> cf_request \<Rightarrow> ('o, dns_provider_error, u16 \<times> string) acme" where
  "send_request E req = external (Sent req) (ae_send E req) DpHttp"

text \<open>The loop over the domain and its parents, except the last label alone.\<close>

fun find_zone :: "'o acme_env \<Rightarrow> string \<Rightarrow> string \<Rightarrow> string list \<Rightarrow> ('o, dns_provider_error, string) acme" where
  "find_zone E token domain (p # q # parts) =
     am_bind (send_request E
       (CfGet (zones_url @ ''?name='' @ join_char (CHR ''.'') (p # q # parts) @ ''&status=active'') token)) (\<lambda>(status, body).
     am_bind (am_result (map_err DpHttp (ae_list_response E body))) (\<lambda>resp.
     if \<not> cl_success resp then am_result (Inl (DpApi status (join_with ''; '' (cl_errors resp))))
     else case cl_result resp of
       (ident, _) # _ \<Rightarrow> am_result (Inr ident)
     | [] \<Rightarrow> find_zone E token domain (q # parts)))"
| "find_zone E token domain _ = am_result (Inl (DpZoneNotFound domain))"

definition find_zone_id :: "'o acme_env \<Rightarrow> cloudflare_provider \<Rightarrow> string \<Rightarrow> ('o, dns_provider_error, string) acme" where
  "find_zone_id E p domain = find_zone E (cp_api_token p) domain (split_char (CHR ''.'') domain)"

definition resolve_zone_id :: "'o acme_env \<Rightarrow> cloudflare_provider \<Rightarrow> string \<Rightarrow> ('o, dns_provider_error, string) acme" where
  "resolve_zone_id E p domain =
     (case cp_zone_id p of Some zone_id \<Rightarrow> am_result (Inr zone_id) | None \<Rightarrow> find_zone_id E p domain)"

text \<open>The identifier of a created record in the reply.\<close>

definition record_of_reply :: "'o acme_env \<Rightarrow> u16 \<Rightarrow> string \<Rightarrow> dns_provider_error + string" where
  "record_of_reply E status body =
     res_bind (map_err DpHttp (ae_record_response E body)) (\<lambda>resp.
     if \<not> cr_success resp then Inl (DpApi status (join_with ''; '' (cr_errors resp)))
     else ok_or (DpApi status ''no record ID in response'') (cr_result resp))"

definition create_txt_record ::
  "'o acme_env \<Rightarrow> cloudflare_provider \<Rightarrow> string \<Rightarrow> string \<Rightarrow> ('o, dns_provider_error, string) acme" where
  "create_txt_record E p domain val =
     am_bind (resolve_zone_id E p domain) (\<lambda>zone_id.
     am_bind (send_request E
       (CfPost (records_url zone_id) (cp_api_token p) (''_acme-challenge.'' @ domain) val)) (\<lambda>(status, body).
     am_result (map_ok (\<lambda>record_id. zone_id @ ''/'' @ record_id) (record_of_reply E status body))))"

definition delete_txt_record :: "'o acme_env \<Rightarrow> cloudflare_provider \<Rightarrow> string \<Rightarrow> ('o, dns_provider_error, unit) acme" where
  "delete_txt_record E p record_id =
     (case split_once record_id (CHR ''/'') of
        None \<Rightarrow> am_result (Inl (DpConfig ''invalid record_id format''))
      | Some (zone_id, actual_record_id) \<Rightarrow>
          am_bind (send_request E (CfDelete (records_url zone_id @ ''/'' @ actual_record_id) (cp_api_token p))) (\<lambda>(status, body).
          if 200 \<le> status \<and> status < 300 then am_result (Inr ())
          else am_bind (am_result (map_err DpHttp (ae_base_errors E body))) (\<lambda>errors.
            am_result (Inl (DpApi status (join_with ''; '' errors))))))"

subsection \<open>The certificate in use\<close>

definition resolver_update :: "certified_key \<Rightarrow> ('o, 'e, unit) acme" where
  "resolver_update key st = (Inr (), st\<lparr>am_resolver := key\<rparr>)"

definition load_certified_key_from_pem :: "'o acme_env \<Rightarrow> string \<Rightarrow> string \<Rightarrow> acme_error + certified_key" where
  "load_certified_key_from_pem E cert_pem key_pem =
     res_bind (map_err AeKey (ae_certs E cert_pem)) (\<lambda>cert_chain.
     if cert_chain = [] then Inl (AeKey ''certificate PEM contains no certificates'')
     else res_bind (map_err AeKey (ae_private_key E key_pem)) (\<lambda>key.
       res_bind (ok_or (AeKey ''key PEM contains no private key'') key) (\<lambda>key.
       res_bind (map_err AeKey (ae_signing_key E key)) (\<lambda>signing_key.
       Inr \<lparr>ck_chain = cert_chain, ck_signing_key = signing_key\<rparr>))))"

subsection \<open>Files\<close>

definition save_file :: "'o acme_env \<Rightarrow> string \<Rightarrow> string \<Rightarrow> ('o, acme_error, unit) acme" where
  "save_file E path content =
     am_bind (case ae_parent E path of
         None \<Rightarrow> am_result (Inr ())
       | Some parent \<Rightarrow> (\<lambda>st. case ae_create_dir_all E parent (am_world st) of (r, w) \<Rightarrow> (map_err AeIo r, st\<lparr>am_world := w\<rparr>))) (\<lambda>_.
     external (WriteFile path content) (ae_write E path content) AeIo)"

definition save_cert_to_disk :: "'o acme_env \<Rightarrow> acme_config \<Rightarrow> string \<Rightarrow> string \<Rightarrow> ('o, acme_error, unit) acme" where
  "save_cert_to_disk E c cert_pem key_pem =
     am_bind (save_file E (acm_cert_path c) cert_pem) (\<lambda>_. save_file E (acm_key_path c) key_pem)"

definition load_cert_from_disk :: "'o acme_env \<Rightarrow> acme_config \<Rightarrow> ('o, acme_error, certified_key) acme" where
  "load_cert_from_disk E c st =
     (res_bind (map_err AeIo (ae_read E (acm_cert_path c) (am_world st))) (\<lambda>cert_pem.
      res_bind (map_err AeIo (ae_read E (acm_key_path c) (am_world st))) (\<lambda>key_pem.
      load_certified_key_from_pem E cert_pem key_pem)), st)"

subsection \<open>The protocol\<close>

record manager =
  mg_config :: acme_config
  mg_provider :: cloudflare_provider

definition manager_new :: "'o acme_env \<Rightarrow> acme_config \<Rightarrow> acme_error + manager" where
  "manager_new E config =
     (let d = acm_dns_provider config in
      if dp_provider_type d = ''cloudflare'' then
        map_ok (\<lambda>p. \<lparr>mg_config = config, mg_provider = p\<rparr>)
          (map_err AeDnsProvider (cloudflare_new E (dp_api_token d) (dp_zone_id d)))
      else Inl (AeConfig (''unsupported DNS provider type: '' @ dp_provider_type d)))"

definition get_or_create_account :: "'o acme_env \<Rightarrow> acme_config \<Rightarrow> ('o, acme_error, nat) acme" where
  "get_or_create_account E c st =
     (if ae_exists E (acm_account_credentials_path c) (am_world st) then
        am_bind (\<lambda>st. (map_err AeIo (ae_read E (acm_account_credentials_path c) (am_world st)), st)) (\<lambda>creds_json.
        am_bind (am_result (map_err AeConfig (ae_parse_credentials E creds_json))) (\<lambda>credentials.
        external (\<lambda>_. RestoreAccount) (ae_from_credentials E credentials) AeProtocol)) st
      else
        (let contact = ''mailto:'' @ acm_email c in
         am_bind (external (\<lambda>_. CreateAccount contact (acm_directory_url c))
           (ae_create_account E contact (acm_directory_url c)) AeProtocol) (\<lambda>(account, credentials).
         am_bind (am_result (map_err AeConfig (ae_show_credentials E credentials))) (\<lambda>creds_json.
         am_bind (save_file E (acm_account_credentials_path c) creds_json) (\<lambda>_. am_result (Inr account)))) st))"

text \<open>
  The challenges of an order, one authorization after another. The list of the records created survives a failure: it
  is an argument that the source passes by mutable reference.
\<close>

fun process_authorizations ::
  "'o acme_env \<Rightarrow> cloudflare_provider \<Rightarrow> string list \<Rightarrow> string list \<Rightarrow> 'o acme_state \<Rightarrow>
   ((acme_error + unit) \<times> string list) \<times> 'o acme_state" where
  "process_authorizations E p [] record_ids st = ((Inr (), record_ids), st)"
| "process_authorizations E p (url # urls) record_ids st =
     (case external (\<lambda>_. FetchAuthorization url) (ae_authorization E url) AeProtocol st of
        (Inl e, st) \<Rightarrow> ((Inl e, record_ids), st)
      | (Inr authz, st) \<Rightarrow>
          (case au_status authz of
             AuthorizationValid \<Rightarrow> process_authorizations E p urls record_ids st
           | AuthorizationOther s \<Rightarrow> ((Inl (AeProtocol (''unexpected authorization status: '' @ s)), record_ids), st)
           | AuthorizationPending \<Rightarrow>
               (case au_dns01 authz of
                  None \<Rightarrow> ((Inl (AeProtocol ''no DNS-01 challenge available''), record_ids), st)
                | Some (domain, dns_value) \<Rightarrow>
                    (case am_map_err AeDnsProvider (create_txt_record E p domain dns_value) st of
                       (Inl e, st) \<Rightarrow> ((Inl e, record_ids), st)
                     | (Inr record_id, st) \<Rightarrow>
                         (case am_bind (sleep_secs 60)
                             (\<lambda>_. external (\<lambda>_. SetReady url) (ae_set_ready E url) AeProtocol) st of
                            (Inl e, st) \<Rightarrow> ((Inl e, record_ids @ [record_id]), st)
                          | (Inr _, st) \<Rightarrow> process_authorizations E p urls (record_ids @ [record_id]) st)))))"

text \<open>Removing the records; a failure is only logged.\<close>

definition clean_up :: "'o acme_env \<Rightarrow> cloudflare_provider \<Rightarrow> string list \<Rightarrow> 'o acme_state \<Rightarrow> 'o acme_state" where
  "clean_up E p record_ids st = fold (\<lambda>r st. snd (delete_txt_record E p r st)) record_ids st"

text \<open>Waiting for the order, then the certificate chain and the private key.\<close>

definition fetch_certificate :: "'o acme_env \<Rightarrow> nat \<Rightarrow> ('o, acme_error, string \<times> string) acme" where
  "fetch_certificate E order =
     am_bind (external (\<lambda>_. PollReady) (ae_poll_ready E order) AeProtocol) (\<lambda>status.
     case status of
       OrderOther s \<Rightarrow> am_result (Inl (AeProtocol (''unexpected order status: '' @ s)))
     | OrderReady \<Rightarrow>
         am_bind (external (Finalize order) (ae_finalize E order) AeProtocol) (\<lambda>private_key_pem.
         am_bind (external (PollCertificate order) (ae_poll_certificate E order) AeProtocol) (\<lambda>cert_chain_pem.
         am_result (Inr (cert_chain_pem, private_key_pem)))))"

definition finish_order :: "'o acme_env \<Rightarrow> acme_config \<Rightarrow> nat \<Rightarrow> ('o, acme_error, unit) acme" where
  "finish_order E c order =
     am_bind (fetch_certificate E order) (\<lambda>(cert_chain_pem, private_key_pem).
     am_bind (save_cert_to_disk E c cert_chain_pem private_key_pem) (\<lambda>_.
     am_bind (am_result (load_certified_key_from_pem E cert_chain_pem private_key_pem)) (\<lambda>certified_key.
     resolver_update certified_key)))"

definition open_order :: "'o acme_env \<Rightarrow> acme_config \<Rightarrow> ('o, acme_error, nat \<times> string list) acme" where
  "open_order E c =
     am_bind (get_or_create_account E c) (\<lambda>account.
     external (\<lambda>_. NewOrder (acm_domains c)) (ae_new_order E account (acm_domains c)) AeProtocol)"

definition run_acme_flow :: "'o acme_env \<Rightarrow> manager \<Rightarrow> ('o, acme_error, unit) acme" where
  "run_acme_flow E m =
     am_bind (open_order E (mg_config m)) (\<lambda>(order, urls) st.
     case process_authorizations E (mg_provider m) urls [] st of
       ((cleanup_result, record_ids), st) \<Rightarrow>
         am_bind (am_result cleanup_result) (\<lambda>_. finish_order E (mg_config m) order)
           (clean_up E (mg_provider m) record_ids st))"

subsection \<open>Start and renewal\<close>

definition duration_error_text :: "duration_error \<Rightarrow> string" where
  "duration_error_text e =
     (case e of
        EmptyDuration \<Rightarrow> ''empty duration string''
      | NoDurationUnit s \<Rightarrow> ''invalid duration '' @ s @ '': must end with d, h, m, or s''
      | NoDurationNumber s \<Rightarrow> ''invalid duration '' @ s @ '': not a valid number'')"

definition obtain_or_load_certificate :: "'o acme_env \<Rightarrow> manager \<Rightarrow> ('o, acme_error, unit) acme" where
  "obtain_or_load_certificate E m st =
     (let c = mg_config m in
      if ae_exists E (acm_cert_path c) (am_world st) \<and> ae_exists E (acm_key_path c) (am_world st) then
        (case fst (load_cert_from_disk E c st) of
           Inl _ \<Rightarrow> run_acme_flow E m st
         | Inr certified_key \<Rightarrow>
             (case parse_duration (acm_renew_before_expiry c) of
                Inl e \<Rightarrow> (Inl (AeConfig (duration_error_text e)), st)
              | Inr renewal_duration \<Rightarrow>
                  (case cert_time_remaining (am_clock st) (ck_chain certified_key) of
                     Some remaining \<Rightarrow>
                       if remaining > uint renewal_duration then resolver_update certified_key st
                       else run_acme_flow E m st
                   | None \<Rightarrow> run_acme_flow E m st)))
      else run_acme_flow E m st)"

definition renewal_window :: "acme_config \<Rightarrow> int" where
  "renewal_window c = (case parse_duration (acm_renew_before_expiry c) of Inr d \<Rightarrow> uint d | Inl _ \<Rightarrow> 30 * 86400)"

definition needs_renewal :: "acme_config \<Rightarrow> 'o acme_state \<Rightarrow> bool" where
  "needs_renewal c st =
     (case cert_time_remaining (am_clock st) (ck_chain (am_resolver st)) of
        Some remaining \<Rightarrow> remaining \<le> renewal_window c
      | None \<Rightarrow> True)"

text \<open>One turn of the renewal task that the shutdown does not interrupt: the new backoff and state.\<close>

definition renewal_turn :: "'o acme_env \<Rightarrow> manager \<Rightarrow> int \<times> 'o acme_state \<Rightarrow> int \<times> 'o acme_state" where
  "renewal_turn E m bs =
     (case bs of (backoff, st) \<Rightarrow>
        let st = snd (sleep_secs (12 * 3600) st :: (unit + unit) \<times> _) in
        if \<not> needs_renewal (mg_config m) st then (3600, st)
        else case run_acme_flow E m st of
          (Inr _, st) \<Rightarrow> (3600, st)
        | (Inl _, st) \<Rightarrow> (min (backoff * 2) (24 * 3600), snd (sleep_secs backoff st :: (unit + unit) \<times> _)))"

definition renewal_task :: "'o acme_env \<Rightarrow> manager \<Rightarrow> nat \<Rightarrow> 'o acme_state \<Rightarrow> int \<times> 'o acme_state" where
  "renewal_task E m turns st = (renewal_turn E m ^^ turns) (3600, st)"

section \<open>Challenge records\<close>

text \<open>
  A record of the provider: created when it answers a POST with success and an identifier; its removal is requested by
  a DELETE of its address.
\<close>

fun creates :: "'o acme_env \<Rightarrow> string \<Rightarrow> string \<Rightarrow> string \<Rightarrow> acme_call \<Rightarrow> bool" where
  "creates E token zone rid (Sent (CfPost url t name val) (Inr (status, body))) \<longleftrightarrow>
     url = records_url zone \<and> t = token \<and> record_of_reply E status body = Inr rid"
| "creates E token zone rid _ \<longleftrightarrow> False"

definition created :: "'o acme_env \<Rightarrow> string \<Rightarrow> acme_call list \<Rightarrow> string \<Rightarrow> string \<Rightarrow> bool" where
  "created E token calls zone rid \<longleftrightarrow> list_ex (creates E token zone rid) calls"

definition removal_requested :: "string \<Rightarrow> acme_call list \<Rightarrow> string \<Rightarrow> string \<Rightarrow> bool" where
  "removal_requested token calls zone rid \<longleftrightarrow>
     (\<exists>r. Sent (CfDelete (records_url zone @ ''/'' @ rid) token) r \<in> set calls)"

fun is_post :: "acme_call \<Rightarrow> bool" where
  "is_post (Sent (CfPost _ _ _ _) _) = True"
| "is_post _ = False"

fun is_sent :: "acme_call \<Rightarrow> bool" where
  "is_sent (Sent _ _) = True"
| "is_sent _ = False"

lemma is_post_sent: "\<not> is_sent c \<Longrightarrow> \<not> is_post c"
  by (cases c rule: is_post.cases) auto

lemma created_append [simp]: "created E t (a @ b) z r \<longleftrightarrow> created E t a z r \<or> created E t b z r"
  by (auto simp: created_def)

lemma created_Nil [simp]: "\<not> created E t [] z r"
  by (simp add: created_def)

lemma created_post: "created E t calls z r \<Longrightarrow> \<exists>c\<in>set calls. is_post c"
proof -
  have "is_post c" if "creates E t z r c" for c using that by (cases "(E, t, z, r, c)" rule: creates.cases) auto
  then show "created E t calls z r \<Longrightarrow> ?thesis" by (auto simp: created_def list_ex_iff)
qed

lemma records_url_inj: "records_url a = records_url b \<Longrightarrow> a = b"
  by (simp add: records_url_def)

subsection \<open>What operations do\<close>

text \<open>An operation that only makes calls of one kind and leaves the certificate in use alone.\<close>

definition only :: "(acme_call \<Rightarrow> bool) \<Rightarrow> ('o, 'e, 'a) acme \<Rightarrow> bool" where
  "only P m \<longleftrightarrow> (\<forall>st r st'. m st = (r, st') \<longrightarrow>
     (\<exists>new. am_calls st' = am_calls st @ new \<and> list_all P new) \<and> am_resolver st' = am_resolver st)"

lemma onlyD: "only P m \<Longrightarrow> m st = (r, st') \<Longrightarrow>
    \<exists>new. am_calls st' = am_calls st @ new \<and> list_all P new \<and> am_resolver st' = am_resolver st"
  unfolding only_def by blast

lemma only_mono: "only P m \<Longrightarrow> (\<And>c. P c \<Longrightarrow> Q c) \<Longrightarrow> only Q m"
  unfolding only_def list_all_iff by meson

lemma only_if: "only P m1 \<Longrightarrow> only P m2 \<Longrightarrow> (\<And>st. m st = (if b st then m1 st else m2 st)) \<Longrightarrow> only P m"
  unfolding only_def by (simp split: if_splits)

lemma only_result [intro]: "only P (am_result r)"
  by (auto simp: only_def am_result_def)

lemma only_external [intro]: "(\<And>r. P (call r)) \<Longrightarrow> only P (external call f err)"
  by (auto simp: only_def external_def split: prod.splits)

lemma only_sleep [intro]: "P (SleepSecs n) \<Longrightarrow> only P (sleep_secs n)"
  by (auto simp: only_def sleep_secs_def)

lemma only_bind [intro]:
  assumes "only P m" and "\<And>a. only P (f a)"
  shows "only P (am_bind m f)"
  unfolding only_def
proof (intro allI impI)
  fix st r st'
  assume b: "am_bind m f st = (r, st')"
  obtain x st1 where m: "m st = (x, st1)" by fastforce
  from onlyD [OF assms(1) m] obtain new where n: "am_calls st1 = am_calls st @ new" "list_all P new"
      "am_resolver st1 = am_resolver st" by blast
  show "(\<exists>new. am_calls st' = am_calls st @ new \<and> list_all P new) \<and> am_resolver st' = am_resolver st"
  proof (cases x)
    case (Inl e)
    then show ?thesis using b m n by (auto simp: am_bind_def)
  next
    case (Inr a)
    then have "f a st1 = (r, st')" using b m by (simp add: am_bind_def)
    from onlyD [OF assms(2) this] n show ?thesis by auto
  qed
qed

lemma only_map_err [intro]: "only P m \<Longrightarrow> only P (am_map_err g m)"
  unfolding only_def am_map_err_def by (auto split: prod.splits)

lemma am_bind_iff:
  "am_bind m f st = (r, st') \<longleftrightarrow>
     (\<exists>x st1. m st = (x, st1) \<and> (case x of Inl e \<Rightarrow> r = Inl e \<and> st' = st1 | Inr a \<Rightarrow> f a st1 = (r, st')))"
  by (auto simp: am_bind_def split: prod.splits sum.splits)

lemma only_send: "(\<And>r. P (Sent req r)) \<Longrightarrow> only P (send_request E req)"
  unfolding send_request_def by auto

lemma only_find_zone: "only (\<lambda>c. \<not> is_post c \<and> c \<noteq> PollReady) (find_zone E token domain parts)"
proof (induction E token domain parts rule: find_zone.induct)
  case (1 E token domain p q parts)
  then show ?case
    by (auto intro!: only_bind only_send split: prod.splits list.splits)
qed auto

lemma only_resolve_zone: "only (\<lambda>c. \<not> is_post c \<and> c \<noteq> PollReady) (resolve_zone_id E p domain)"
  unfolding resolve_zone_id_def find_zone_id_def using only_find_zone by (auto split: option.split)

text \<open>Creating a record: whatever is created is what it returns, and nothing is created twice.\<close>

lemma create_txt_record_effect:
  assumes "create_txt_record E p domain val st = (r, st')"
  obtains new where "am_calls st' = am_calls st @ new" and "PollReady \<notin> set new" and "am_resolver st' = am_resolver st"
    and "\<And>z rid. created E (cp_api_token p) new z rid \<Longrightarrow> r = Inr (z @ ''/'' @ rid)"
proof -
  obtain x st1 where z: "resolve_zone_id E p domain st = (x, st1)" by fastforce
  from onlyD [OF only_resolve_zone z] obtain gets where gets: "am_calls st1 = am_calls st @ gets"
      "list_all (\<lambda>c. \<not> is_post c \<and> c \<noteq> PollReady) gets" "am_resolver st1 = am_resolver st" by blast
  then have none: "\<not> created E t gets zone rid" "PollReady \<notin> set gets" for t zone rid
    using created_post [of E t gets zone rid] by (auto simp: list_all_iff)
  show thesis
  proof (cases x)
    case (Inl e)
    then have "st' = st1" using assms z by (simp add: create_txt_record_def am_bind_def)
    then show ?thesis using that [of gets] gets none by blast
  next
    case (Inr zone)
    let ?req = "CfPost (records_url zone) (cp_api_token p) (''_acme-challenge.'' @ domain) val"
    obtain reply w where s: "ae_send E ?req (am_world st1) = (reply, w)" by fastforce
    have run: "r = res_bind (map_err DpHttp reply) (\<lambda>(status, body). map_ok (\<lambda>i. zone @ ''/'' @ i) (record_of_reply E status body))"
      "st' = st1\<lparr>am_world := w, am_calls := am_calls st1 @ [Sent ?req reply]\<rparr>"
      using assms z Inr s
      by (cases reply; simp add: create_txt_record_def am_bind_def send_request_def external_def am_result_def split: prod.splits)+
    moreover have "r = Inr (z @ ''/'' @ rid)" if "created E (cp_api_token p) (gets @ [Sent ?req reply]) z rid" for z rid
      using that none(1) [of "cp_api_token p" z rid] run(1)
      by (cases reply) (auto simp: created_def dest!: records_url_inj)
    ultimately show ?thesis
      using that [of "gets @ [Sent ?req reply]"] gets none run(2) by auto
  qed
qed

text \<open>A run in which every record that is created ends up in a given list.\<close>

definition recorded :: "'o acme_env \<Rightarrow> cloudflare_provider \<Rightarrow> string list \<Rightarrow> 'o acme_state \<Rightarrow> 'o acme_state \<Rightarrow> bool" where
  "recorded E p ids st st' \<longleftrightarrow>
     (\<exists>new. am_calls st' = am_calls st @ new \<and> PollReady \<notin> set new \<and> am_resolver st' = am_resolver st \<and>
        (\<forall>z rid. created E (cp_api_token p) new z rid \<longrightarrow> z @ ''/'' @ rid \<in> set ids))"

lemma recorded_refl [simp]: "recorded E p ids st st"
  unfolding recorded_def by (intro exI [of _ "[]"]) simp

lemma recorded_trans:
  assumes "recorded E p ids st st1" and "recorded E p ids' st1 st2" and "set ids \<subseteq> set ids'"
  shows "recorded E p ids' st st2"
proof -
  from assms(1) obtain a where "am_calls st1 = am_calls st @ a" "PollReady \<notin> set a" "am_resolver st1 = am_resolver st"
    "\<forall>z rid. created E (cp_api_token p) a z rid \<longrightarrow> z @ ''/'' @ rid \<in> set ids" unfolding recorded_def by blast
  moreover from assms(2) obtain b where "am_calls st2 = am_calls st1 @ b" "PollReady \<notin> set b" "am_resolver st2 = am_resolver st1"
    "\<forall>z rid. created E (cp_api_token p) b z rid \<longrightarrow> z @ ''/'' @ rid \<in> set ids'" unfolding recorded_def by blast
  ultimately show ?thesis using assms(3) unfolding recorded_def by (intro exI [of _ "a @ b"]) auto
qed

lemma recorded_quiet:
  assumes "only (\<lambda>c. \<not> is_post c \<and> c \<noteq> PollReady) m" and "m st = (r, st')"
  shows "recorded E p [] st st'"
  using onlyD [OF assms] created_post unfolding recorded_def list_all_iff by (metis (full_types))

lemma recorded_create:
  assumes "create_txt_record E p domain val st = (r, st')"
  shows "recorded E p (case r of Inr record_id \<Rightarrow> [record_id] | Inl _ \<Rightarrow> []) st st'"
proof -
  obtain new where "am_calls st' = am_calls st @ new" "PollReady \<notin> set new" "am_resolver st' = am_resolver st"
    "\<And>z rid. created E (cp_api_token p) new z rid \<Longrightarrow> r = Inr (z @ ''/'' @ rid)"
    by (rule create_txt_record_effect [OF assms]) (rule that)
  then show ?thesis unfolding recorded_def by (intro exI [of _ new]) fastforce
qed

lemma process_authorizations_effect:
  assumes "process_authorizations E p urls ids st = ((r, ids'), st')"
  shows "recorded E p ids' st st' \<and> set ids \<subseteq> set ids'"
  using assms
proof (induction urls arbitrary: ids st)
  case (Cons url urls)
  let ?fetch = "external (\<lambda>_. FetchAuthorization url) (ae_authorization E url) AeProtocol"
  let ?wait = "am_bind (sleep_secs 60) (\<lambda>_. external (\<lambda>_. SetReady url) (ae_set_ready E url) AeProtocol)"
  obtain x st1 where f: "?fetch st = (x, st1)" by fastforce
  have one: "recorded E p [] st st1" by (rule recorded_quiet [where m = ?fetch, OF _ f]) auto
  have stop: ?case if "ids' = ids" "st' = st1"
    using that recorded_trans [OF one recorded_refl, of ids] by simp
  have go_on: ?case if "process_authorizations E p urls ids st1 = ((r, ids'), st')"
    using Cons.IH [OF that] recorded_trans [OF one] by auto
  have pending: ?case if a: "x = Inr authz" "au_status authz = AuthorizationPending" "au_dns01 authz = Some (domain, val)" for authz domain val
  proof -
    obtain rec st2 where c: "create_txt_record E p domain val st1 = (rec, st2)" by fastforce
    obtain y st3 where w: "?wait st2 = (y, st3)" by fastforce
    have wait: "recorded E p [] st2 st3" by (rule recorded_quiet [where m = ?wait, OF _ w]) (intro only_bind only_sleep only_external; simp)
    note two = recorded_trans [OF one recorded_create [OF c]]
    show ?thesis
    proof (cases rec)
      case (Inl e)
      then have "ids' = ids" "st' = st2" using Cons.prems f a c by (auto simp: am_map_err_def)
      then show ?thesis using recorded_trans [OF two recorded_refl, of ids] Inl by simp
    next
      case (Inr record_id)
      have made: "recorded E p (ids @ [record_id]) st st3"
        by (rule recorded_trans [OF two recorded_trans [OF wait recorded_refl]]) (auto simp: Inr)
      have "(case y of Inl e \<Rightarrow> ((Inl e, ids @ [record_id]), st3)
          | Inr _ \<Rightarrow> process_authorizations E p urls (ids @ [record_id]) st3) = ((r, ids'), st')"
        using Cons.prems f a c Inr w by (simp add: am_map_err_def split: sum.splits)
      then show ?thesis using made Cons.IH [of "ids @ [record_id]" st3] recorded_trans [OF made]
        by (cases y) auto
    qed
  qed
  show ?case using Cons.prems f stop go_on pending
    by (auto split: sum.splits authorization_status.splits option.splits)
qed auto

text \<open>Cleaning up asks for the removal of every record with a well-formed identifier, and sends nothing else.\<close>

lemma delete_txt_record_effect:
  assumes "delete_txt_record E p (zone @ ''/'' @ rid) st = (r, st')" and "CHR ''/'' \<notin> set zone"
  shows "\<exists>reply. am_calls st' = am_calls st @ [Sent (CfDelete (records_url zone @ ''/'' @ rid) (cp_api_token p)) reply]"
proof -
  have "split_once (zone @ ''/'' @ rid) (CHR ''/'') = Some (zone, rid)"
    using assms(2) by (simp add: split_once_def split_at_char_Some)
  then show ?thesis using assms(1)
    by (auto simp: delete_txt_record_def am_bind_def send_request_def external_def am_result_def
        split: prod.splits sum.splits if_splits)
qed

lemma only_delete: "only (\<lambda>c. \<not> is_post c \<and> c \<noteq> PollReady) (delete_txt_record E p record_id)"
  unfolding delete_txt_record_def by (auto intro!: only_bind only_send split: option.split prod.split)

lemma clean_up_effect:
  "\<exists>new. am_calls (clean_up E p ids st) = am_calls st @ new \<and> list_all (\<lambda>c. \<not> is_post c \<and> c \<noteq> PollReady) new \<and>
     am_resolver (clean_up E p ids st) = am_resolver st \<and>
     (\<forall>zone rid. zone @ ''/'' @ rid \<in> set ids \<and> CHR ''/'' \<notin> set zone \<longrightarrow> removal_requested (cp_api_token p) new zone rid)"
proof (induction ids arbitrary: st)
  case (Cons i ids)
  obtain r st1 where d: "delete_txt_record E p i st = (r, st1)" by fastforce
  from onlyD [OF only_delete d] obtain new where new: "am_calls st1 = am_calls st @ new"
    "list_all (\<lambda>c. \<not> is_post c \<and> c \<noteq> PollReady) new" "am_resolver st1 = am_resolver st" by blast
  from Cons [of st1] obtain more where more: "am_calls (clean_up E p ids st1) = am_calls st1 @ more"
    "list_all (\<lambda>c. \<not> is_post c \<and> c \<noteq> PollReady) more" "am_resolver (clean_up E p ids st1) = am_resolver st1"
    "\<forall>zone rid. zone @ ''/'' @ rid \<in> set ids \<and> CHR ''/'' \<notin> set zone \<longrightarrow> removal_requested (cp_api_token p) more zone rid"
    by blast
  have "removal_requested (cp_api_token p) new zone rid" if "i = zone @ ''/'' @ rid" "CHR ''/'' \<notin> set zone" for zone rid
    using delete_txt_record_effect [OF d [unfolded that(1)] that(2)] new(1) by (auto simp: removal_requested_def)
  moreover have "removal_requested t (new @ more) zone rid \<longleftrightarrow>
      removal_requested t new zone rid \<or> removal_requested t more zone rid" for t zone rid
    by (auto simp: removal_requested_def)
  ultimately show ?case using d new more
    by (intro exI [of _ "new @ more"]) (auto simp: clean_up_def)
qed (simp add: clean_up_def)

subsection \<open>The whole flow\<close>

lemma only_save_file: "only (\<lambda>c. \<not> is_sent c \<and> c \<noteq> PollReady) (save_file E path content)"
proof -
  have "only P (\<lambda>st. case ae_create_dir_all E parent (am_world st) of (r, w) \<Rightarrow> (map_err AeIo r, st\<lparr>am_world := w\<rparr>))" for P parent
    by (auto simp: only_def split: prod.splits)
  then show ?thesis unfolding save_file_def by (auto intro!: only_bind split: option.split)
qed

lemma only_account: "only (\<lambda>c. \<not> is_sent c \<and> c \<noteq> PollReady) (get_or_create_account E c)"
proof -
  have "only P (\<lambda>st. (map_err AeIo (ae_read E path (am_world st)), st))" for P path by (auto simp: only_def)
  then have a: "only (\<lambda>c. \<not> is_sent c \<and> c \<noteq> PollReady)
      (am_bind (\<lambda>st. (map_err AeIo (ae_read E (acm_account_credentials_path c) (am_world st)), st)) (\<lambda>creds_json.
        am_bind (am_result (map_err AeConfig (ae_parse_credentials E creds_json))) (\<lambda>credentials.
        external (\<lambda>_. RestoreAccount) (ae_from_credentials E credentials) AeProtocol)))"
    by (intro only_bind only_result only_external) auto
  have b: "only (\<lambda>c. \<not> is_sent c \<and> c \<noteq> PollReady)
      (am_bind (external (\<lambda>_. CreateAccount contact url) (ae_create_account E contact url) AeProtocol) (\<lambda>(account, credentials).
       am_bind (am_result (map_err AeConfig (ae_show_credentials E credentials))) (\<lambda>creds_json.
       am_bind (save_file E path creds_json) (\<lambda>_. am_result (Inr account)))))" for contact url path
    using only_save_file by (auto intro!: only_bind split: prod.split)
  show ?thesis by (rule only_if [OF a b]) (simp only: get_or_create_account_def Let_def)
qed

text \<open>
  A certificate that was issued and saved: the authority returned its key when an order was finalized and its chain for
  the same order, and both files were then written with success.
\<close>

definition issued_and_saved :: "acme_config \<Rightarrow> nat \<Rightarrow> string \<Rightarrow> string \<Rightarrow> acme_call list" where
  "issued_and_saved c order cert_pem key_pem =
     [Finalize order (Inr key_pem), PollCertificate order (Inr cert_pem),
      WriteFile (acm_cert_path c) cert_pem (Inr ()), WriteFile (acm_key_path c) key_pem (Inr ())]"

definition installed :: "'o acme_env \<Rightarrow> acme_config \<Rightarrow> acme_call list \<Rightarrow> certified_key \<Rightarrow> bool" where
  "installed E c calls key \<longleftrightarrow>
     (\<exists>order cert_pem key_pem. load_certified_key_from_pem E cert_pem key_pem = Inr key \<and>
        sublist (issued_and_saved c order cert_pem key_pem) calls)"

text \<open>The end of an order: no request to the provider, and the new certificate only if all went well.\<close>

lemma fetch_certificate_calls:
  assumes "fetch_certificate E order st = (Inr (cert_pem, key_pem), st')"
  shows "am_calls st' = am_calls st @ [PollReady, Finalize order (Inr key_pem), PollCertificate order (Inr cert_pem)]"
  using assms
  by (auto simp: fetch_certificate_def am_bind_def am_result_def external_def split: prod.splits sum.splits order_status.splits)

lemma save_file_writes:
  assumes "save_file E path content st = (Inr u, st')"
  shows "am_calls st' = am_calls st @ [WriteFile path content (Inr ())] \<and> am_resolver st' = am_resolver st"
  using assms by (auto simp: save_file_def am_bind_def am_result_def external_def split: option.splits prod.splits sum.splits)

lemma only_save_cert: "only (\<lambda>c. \<not> is_sent c) (save_cert_to_disk E c cert_pem key_pem)"
  unfolding save_cert_to_disk_def
  by (intro only_bind; rule only_save_file [THEN only_mono]) auto

lemma installed_append: "installed E c a key \<Longrightarrow> installed E c (xs @ a @ ys) key"
  unfolding installed_def by (meson sublist_append sublist_order.order_trans sublist_appendI)

lemma finish_order_effect:
  assumes "finish_order E c order st = (r, st')"
  shows "\<exists>new. am_calls st' = am_calls st @ new \<and> list_all (\<lambda>c. \<not> is_sent c) new \<and>
    (case r of Inl _ \<Rightarrow> am_resolver st' = am_resolver st | Inr _ \<Rightarrow> installed E c new (am_resolver st'))"
proof -
  have "only (\<lambda>c. \<not> is_sent c) (fetch_certificate E order)" unfolding fetch_certificate_def
    by (auto intro!: only_bind only_result only_external split: order_status.split)
  moreover obtain x st1 where a: "fetch_certificate E order st = (x, st1)" by fastforce
  ultimately obtain pre where pre: "am_calls st1 = am_calls st @ pre" "list_all (\<lambda>c. \<not> is_sent c) pre"
    "am_resolver st1 = am_resolver st" using onlyD by blast
  show ?thesis
  proof (cases x)
    case (Inl e)
    then show ?thesis using assms a pre by (auto simp: finish_order_def am_bind_def)
  next
    case (Inr pems)
    obtain cert_pem key_pem where pems: "pems = (cert_pem, key_pem)" by fastforce
    obtain y st2 where s: "save_cert_to_disk E c cert_pem key_pem st1 = (y, st2)" by fastforce
    from onlyD [OF only_save_cert s] obtain saved where saved: "am_calls st2 = am_calls st1 @ saved"
      "list_all (\<lambda>c. \<not> is_sent c) saved" "am_resolver st2 = am_resolver st1" by blast
    show ?thesis
    proof (cases y)
      case (Inl e)
      then show ?thesis using assms a Inr pems s pre saved by (auto simp: finish_order_def am_bind_def)
    next
      case (Inr u)
      obtain v st3 where f: "save_file E (acm_cert_path c) cert_pem st1 = (v, st3)" by fastforce
      then obtain w where "v = Inr w" "save_file E (acm_key_path c) key_pem st3 = (Inr u, st2)"
        using s Inr by (cases v) (auto simp: save_cert_to_disk_def am_bind_def)
      then have "saved = [WriteFile (acm_cert_path c) cert_pem (Inr ()), WriteFile (acm_key_path c) key_pem (Inr ())]"
        using f saved(1) by (auto dest!: save_file_writes)
      moreover have "pre = [PollReady, Finalize order (Inr key_pem), PollCertificate order (Inr cert_pem)]"
        using fetch_certificate_calls [of E order st cert_pem key_pem st1] a \<open>x = Inr pems\<close> pems pre(1) by simp
      ultimately have "pre @ saved = [PollReady] @ issued_and_saved c order cert_pem key_pem @ []"
        by (simp add: issued_and_saved_def)
      then have inst: "load_certified_key_from_pem E cert_pem key_pem = Inr key \<Longrightarrow> installed E c (pre @ saved) key" for key
        unfolding installed_def sublist_def by metis
      have "am_calls st2 = am_calls st @ pre @ saved" "list_all (\<lambda>c. \<not> is_sent c) (pre @ saved)" "am_resolver st2 = am_resolver st"
        using pre saved by simp_all
      then show ?thesis using assms a \<open>x = Inr pems\<close> pems s Inr inst
        by (intro exI [of _ "pre @ saved"], cases "load_certified_key_from_pem E cert_pem key_pem")
          (auto simp: finish_order_def am_bind_def am_result_def resolver_update_def)
    qed
  qed
qed

lemma run_acme_flow_effect:
  assumes "run_acme_flow E m st = (r, st')"
  shows "\<exists>before removals after. am_calls st' = am_calls st @ before @ removals @ after \<and>
    PollReady \<notin> set (before @ removals) \<and> list_all (\<lambda>c. \<not> is_post c) removals \<and> list_all (\<lambda>c. \<not> is_sent c) after \<and>
    (\<forall>zone rid. created E (cp_api_token (mg_provider m)) before zone rid \<and> CHR ''/'' \<notin> set zone \<longrightarrow>
       removal_requested (cp_api_token (mg_provider m)) removals zone rid) \<and>
    (case r of Inl _ \<Rightarrow> am_resolver st' = am_resolver st | Inr _ \<Rightarrow> installed E (mg_config m) after (am_resolver st'))"
proof -
  let ?p = "mg_provider m" and ?c = "mg_config m"
  have "only (\<lambda>c. \<not> is_sent c \<and> c \<noteq> PollReady) (open_order E ?c)"
    unfolding open_order_def using only_account by (auto intro!: only_bind only_external)
  then have quiet: "only (\<lambda>c. \<not> is_post c \<and> c \<noteq> PollReady) (open_order E ?c)" by (rule only_mono) (auto dest: is_post_sent)
  obtain x st1 where s: "open_order E ?c st = (x, st1)" by fastforce
  note opened = recorded_quiet [OF quiet s, of E ?p]
  show ?thesis
  proof (cases x)
    case (Inl e)
    then have "r = Inl e" "st' = st1" using assms s by (auto simp: run_acme_flow_def am_bind_def)
    moreover obtain new where "am_calls st1 = am_calls st @ new" "PollReady \<notin> set new" "am_resolver st1 = am_resolver st"
      "\<forall>z rid. \<not> created E (cp_api_token ?p) new z rid" using opened unfolding recorded_def by auto
    ultimately show ?thesis by (intro exI [of _ new] exI [of _ "[]"]) auto
  next
    case (Inr ou)
    obtain order urls where ou: "ou = (order, urls)" by fastforce
    obtain cleanup_result ids st2 where p: "process_authorizations E ?p urls [] st1 = ((cleanup_result, ids), st2)"
      by (metis prod.exhaust)
    obtain before where before: "am_calls st2 = am_calls st @ before" "PollReady \<notin> set before" "am_resolver st2 = am_resolver st"
      "\<forall>z rid. created E (cp_api_token ?p) before z rid \<longrightarrow> z @ ''/'' @ rid \<in> set ids"
      using recorded_trans [OF opened conjunct1 [OF process_authorizations_effect [OF p]]] unfolding recorded_def by auto
    obtain removals where rem: "am_calls (clean_up E ?p ids st2) = am_calls st2 @ removals"
      "list_all (\<lambda>c. \<not> is_post c \<and> c \<noteq> PollReady) removals" "am_resolver (clean_up E ?p ids st2) = am_resolver st2"
      "\<forall>zone rid. zone @ ''/'' @ rid \<in> set ids \<and> CHR ''/'' \<notin> set zone \<longrightarrow> removal_requested (cp_api_token ?p) removals zone rid"
      using clean_up_effect [of E ?p ids st2] by blast
    have run: "am_bind (am_result cleanup_result) (\<lambda>_. finish_order E ?c order) (clean_up E ?p ids st2) = (r, st')"
      using assms s Inr ou p by (simp add: run_acme_flow_def am_bind_def)
    have "\<exists>after. am_calls st' = am_calls (clean_up E ?p ids st2) @ after \<and> list_all (\<lambda>c. \<not> is_sent c) after \<and>
        (case r of Inl _ \<Rightarrow> am_resolver st' = am_resolver (clean_up E ?p ids st2) | Inr _ \<Rightarrow> installed E ?c after (am_resolver st'))"
    proof (cases cleanup_result)
      case (Inl e)
      then show ?thesis using run by (auto simp: am_bind_def am_result_def)
    next
      case (Inr u)
      then have "finish_order E ?c order (clean_up E ?p ids st2) = (r, st')" using run by (simp add: am_bind_def am_result_def)
      from finish_order_effect [OF this] show ?thesis .
    qed
    then obtain after where after: "am_calls st' = am_calls (clean_up E ?p ids st2) @ after" "list_all (\<lambda>c. \<not> is_sent c) after"
        "case r of Inl _ \<Rightarrow> am_resolver st' = am_resolver (clean_up E ?p ids st2) | Inr _ \<Rightarrow> installed E ?c after (am_resolver st')"
      by blast
    have "am_calls st' = am_calls st @ before @ removals @ after" using before(1) rem(1) after(1) by simp
    moreover have "PollReady \<notin> set (before @ removals)" "list_all (\<lambda>c. \<not> is_post c) removals"
      using before(2) rem(2) by (auto simp: list_all_iff)
    moreover have "\<forall>zone rid. created E (cp_api_token ?p) before zone rid \<and> CHR ''/'' \<notin> set zone \<longrightarrow>
        removal_requested (cp_api_token ?p) removals zone rid" using before(4) rem(4) by blast
    moreover have "case r of Inl _ \<Rightarrow> am_resolver st' = am_resolver st | Inr _ \<Rightarrow> installed E ?c after (am_resolver st')"
      using after(3) rem(3) before(3) by (simp split: sum.splits)
    ultimately show ?thesis using after(2) by blast
  qed
qed

section \<open>Properties\<close>

text \<open>
  C16. In every run of the protocol, however it ends, the removal of each challenge record is requested whose creation
  the provider has confirmed with an identifier, in a zone whose identifier has no slash: after the challenges and
  before anything else happens. The certificate in use changes only if the run succeeds, to the one whose key and chain
  the authority returned for the order and which was written to disk with success.

  The requests come before the order is polled for the first time, that is, before the certificate authority has
  reported that it looked the records up. A record whose confirmation is lost is not removed
  (\<open>lost_confirmation_leaves_record\<close>).
\<close>

theorem challenge_records_removed:
  assumes "run_acme_flow E m st = (r, st')" and "token = cp_api_token (mg_provider m)"
  shows "\<exists>before removals after. am_calls st' = am_calls st @ before @ removals @ after \<and>
    PollReady \<notin> set (before @ removals) \<and> list_all (\<lambda>c. \<not> is_post c) removals \<and> list_all (\<lambda>c. \<not> is_sent c) after \<and>
    (\<forall>zone rid. created E token before zone rid \<and> CHR ''/'' \<notin> set zone \<longrightarrow> removal_requested token removals zone rid) \<and>
    (case r of Inl _ \<Rightarrow> am_resolver st' = am_resolver st | Inr _ \<Rightarrow> installed E (mg_config m) after (am_resolver st'))"
  using run_acme_flow_effect [OF assms(1)] unfolding assms(2) .


text \<open>
  What the renewal task does, as a history: one entry per turn with its outcome and the calls of the protocol, if it
  ran. Every turn begins with a wait of twelve hours; a turn that fails ends with a pause, which doubles with every
  failure in a row from one hour to at most one day.
\<close>

datatype turn_outcome = NotDue | Renewed | Failed

fun turn_calls :: "nat \<Rightarrow> turn_outcome \<times> acme_call list \<Rightarrow> acme_call list" where
  "turn_calls k (NotDue, flow) = [SleepSecs (12 * 3600)]"
| "turn_calls k (Renewed, flow) = SleepSecs (12 * 3600) # flow"
| "turn_calls k (Failed, flow) = SleepSecs (12 * 3600) # flow @ [SleepSecs (min (3600 * 2 ^ k) (24 * 3600))]"

text \<open>The failures in a row at the end of a history, and the calls of all its turns.\<close>

definition failures_in_row :: "(turn_outcome \<times> acme_call list) list \<Rightarrow> nat" where
  "failures_in_row hist = length (takeWhile (\<lambda>t. fst t = Failed) (rev hist))"

definition history_calls :: "(turn_outcome \<times> acme_call list) list \<Rightarrow> acme_call list" where
  "history_calls hist = concat (map (\<lambda>i. turn_calls (failures_in_row (take i hist)) (hist ! i)) [0..<length hist])"

text \<open>The certificate in use after a history that began with a given one.\<close>

inductive in_use :: "'o acme_env \<Rightarrow> acme_config \<Rightarrow> certified_key \<Rightarrow> (turn_outcome \<times> acme_call list) list \<Rightarrow> certified_key \<Rightarrow> bool"
  for E :: "'o acme_env" and c :: acme_config and key0 :: certified_key where
  in_use_start: "in_use E c key0 [] key0"
| in_use_kept: "in_use E c key0 hist key \<Longrightarrow> outcome \<noteq> Renewed \<Longrightarrow> in_use E c key0 (hist @ [(outcome, flow)]) key"
| in_use_renewed: "in_use E c key0 hist key \<Longrightarrow> installed E c flow key' \<Longrightarrow> in_use E c key0 (hist @ [(Renewed, flow)]) key'"

lemma failures_in_row_snoc [simp]:
  "failures_in_row (hist @ [t]) = (if fst t = Failed then Suc (failures_in_row hist) else 0)"
  by (simp add: failures_in_row_def)

lemma history_calls_snoc [simp]:
  "history_calls (hist @ [t]) = history_calls hist @ turn_calls (failures_in_row hist) t"
proof -
  have "map (\<lambda>i. turn_calls (failures_in_row (take i (hist @ [t]))) ((hist @ [t]) ! i)) [0..<length hist] =
      map (\<lambda>i. turn_calls (failures_in_row (take i hist)) (hist ! i)) [0..<length hist]"
    by (rule map_cong) (auto simp: nth_append)
  from arg_cong [where f = concat, OF this] show ?thesis
    unfolding history_calls_def by (simp del: take_append map_eq_conv) simp
qed

lemma history_start [simp]: "history_calls [] = []" "failures_in_row [] = 0"
  by (simp_all add: history_calls_def failures_in_row_def)

lemma pause_doubles: "min (min (3600 * 2 ^ k) (24 * 3600) * 2) (24 * 3600) = min (3600 * 2 ^ Suc k) (24 * 3600 :: int)"
  by (auto simp: min_def)

text \<open>One turn after \<open>k\<close> failures in a row.\<close>

lemma renewal_turn_effect:
  assumes "renewal_turn E m (min (3600 * 2 ^ k) (24 * 3600), st) = (b', st')"
  shows "\<exists>outcome flow. am_calls st' = am_calls st @ turn_calls k (outcome, flow) \<and>
    b' = min (3600 * 2 ^ (if outcome = Failed then Suc k else 0)) (24 * 3600) \<and>
    (if outcome = Renewed then installed E (mg_config m) flow (am_resolver st') else am_resolver st' = am_resolver st)"
proof -
  define b :: int where "b = min (3600 * 2 ^ k) (24 * 3600)"
  define st1 where "st1 = st\<lparr>am_clock := am_clock st + 43200, am_calls := am_calls st @ [SleepSecs 43200]\<rparr>"
  obtain r st2 where f: "run_acme_flow E m st1 = (r, st2)" by fastforce
  have run: "(b', st') = (if \<not> needs_renewal (mg_config m) st1 then (3600, st1)
      else case r of Inr _ \<Rightarrow> (3600, st2) | Inl _ \<Rightarrow>
        (min (b * 2) 86400, st2\<lparr>am_clock := am_clock st2 + b, am_calls := am_calls st2 @ [SleepSecs b]\<rparr>))"
    using assms f unfolding b_def [symmetric]
    by (auto simp: renewal_turn_def sleep_secs_def st1_def Let_def split: sum.splits)
  obtain flow where flow: "am_calls st2 = am_calls st1 @ flow"
      "case r of Inl _ \<Rightarrow> am_resolver st2 = am_resolver st1 | Inr _ \<Rightarrow> installed E (mg_config m) flow (am_resolver st2)"
    using run_acme_flow_effect [OF f] installed_append
    by (smt (verit) append.assoc append.right_neutral old.sum.exhaust old.sum.simps(5,6))
  have calls: "am_calls st1 = am_calls st @ [SleepSecs 43200]" "am_resolver st1 = am_resolver st" by (simp_all add: st1_def)
  show ?thesis
  proof (cases "needs_renewal (mg_config m) st1")
    case False
    then show ?thesis using run calls by (intro exI [of _ NotDue] exI [of _ "[]"]) simp
  next
    case due: True
    show ?thesis
    proof (cases r)
      case (Inl e)
      then show ?thesis using run due flow calls pause_doubles [of k]
        by (intro exI [of _ Failed] exI [of _ flow]) (simp add: b_def)
    next
      case (Inr u)
      then show ?thesis using run due flow calls by (intro exI [of _ Renewed] exI [of _ flow]) simp
    qed
  qed
qed

lemma renewal_history:
  assumes "renewal_task E m turns st = (backoff, st')"
  shows "\<exists>hist. length hist = turns \<and> am_calls st' = am_calls st @ history_calls hist \<and>
    in_use E (mg_config m) (am_resolver st) hist (am_resolver st') \<and>
    backoff = min (3600 * 2 ^ failures_in_row hist) (24 * 3600)"
  using assms unfolding renewal_task_def
proof (induction turns arbitrary: backoff st')
  case 0
  then show ?case by (intro exI [of _ "[]"]) (auto intro: in_use.intros)
next
  case (Suc n)
  obtain b1 st1 where one: "(renewal_turn E m ^^ n) (3600, st) = (b1, st1)" by fastforce
  from Suc.IH [OF one] obtain hist where hist: "length hist = n" "am_calls st1 = am_calls st @ history_calls hist"
    "in_use E (mg_config m) (am_resolver st) hist (am_resolver st1)" "b1 = min (3600 * 2 ^ failures_in_row hist) (24 * 3600)" by blast
  have "renewal_turn E m (min (3600 * 2 ^ failures_in_row hist) (24 * 3600), st1) = (backoff, st')"
    using Suc.prems one hist(4) by simp
  from renewal_turn_effect [OF this] obtain outcome flow where turn:
    "am_calls st' = am_calls st1 @ turn_calls (failures_in_row hist) (outcome, flow)"
    "backoff = min (3600 * 2 ^ (if outcome = Failed then Suc (failures_in_row hist) else 0)) (24 * 3600)"
    "if outcome = Renewed then installed E (mg_config m) flow (am_resolver st') else am_resolver st' = am_resolver st1" by blast
  then have "in_use E (mg_config m) (am_resolver st) (hist @ [(outcome, flow)]) (am_resolver st')"
    using hist(3) by (cases outcome) (auto intro: in_use.intros)
  then show ?case using hist turn by (intro exI [of _ "hist @ [(outcome, flow)]"]) simp
qed

lemma turn_without_calls:
  "am_calls (snd (renewal_turn E m (backoff, st))) = am_calls st @ [SleepSecs (12 * 3600)] \<longleftrightarrow>
     \<not> needs_renewal (mg_config m) (snd (sleep_secs (12 * 3600) st :: (unit + unit) \<times> _))"
proof -
  define st1 where "st1 = snd (sleep_secs (12 * 3600) st :: (unit + unit) \<times> _)"
  obtain r st2 where f: "run_acme_flow E m st1 = (r, st2)" by fastforce
  obtain flow where flow: "am_calls st2 = am_calls st1 @ flow" "\<not> isl r \<longrightarrow> flow \<noteq> []"
    using run_acme_flow_effect [OF f] by (cases r) (force simp: installed_def issued_and_saved_def)+
  have "am_calls st1 = am_calls st @ [SleepSecs (12 * 3600)]" by (simp add: st1_def sleep_secs_def)
  moreover have "renewal_turn E m (backoff, st) = (if \<not> needs_renewal (mg_config m) st1 then (3600, st1)
      else case r of Inr _ \<Rightarrow> (3600, st2)
        | Inl _ \<Rightarrow> (min (backoff * 2) (24 * 3600), snd (sleep_secs backoff st2 :: (unit + unit) \<times> _)))"
    using f by (simp add: renewal_turn_def Let_def st1_def split: sum.split)
  ultimately show ?thesis using flow unfolding st1_def [symmetric] by (cases r) (auto simp: sleep_secs_def)
qed

text \<open>
  C19. The renewal task, after any number of turns and whatever fails in them. Its calls are those of a history: each
  turn waits twelve hours, then runs the protocol if the certificate is due, and a turn whose run fails ends with a
  pause of one hour, doubled with every failure in a row and at most one day. The pause comes in addition to the
  twelve hours of the next turn. The certificate in use is the one of the last turn that renewed, which the authority
  issued and which was written to disk with success together with its key, and the initial one if there is none. The
  next turn makes no call besides its wait exactly when the certificate in use will then be valid for longer than the
  configured window.
\<close>

theorem renewal_keeps_certificate:
  assumes "renewal_task E m turns st = (backoff, st')"
  shows "(\<exists>hist. length hist = turns \<and> am_calls st' = am_calls st @ history_calls hist \<and>
       in_use E (mg_config m) (am_resolver st) hist (am_resolver st')) \<and>
    (am_calls (snd (renewal_turn E m (backoff, st'))) = am_calls st' @ [SleepSecs (12 * 3600)] \<longleftrightarrow>
       (\<exists>remaining. cert_time_remaining (am_clock st' + 12 * 3600) (ck_chain (am_resolver st')) = Some remaining \<and>
          remaining > renewal_window (mg_config m)))"
proof -
  have "needs_renewal (mg_config m) (snd (sleep_secs (12 * 3600) st' :: (unit + unit) \<times> _)) \<longleftrightarrow>
      \<not> (\<exists>remaining. cert_time_remaining (am_clock st' + 12 * 3600) (ck_chain (am_resolver st')) = Some remaining \<and>
          remaining > renewal_window (mg_config m))"
    by (auto simp: needs_renewal_def sleep_secs_def not_less split: option.splits)
  then show ?thesis using renewal_history [OF assms] turn_without_calls [of E m backoff st'] by blast
qed

text \<open>
  A failed renewal is tried again later than announced: the task waits for the pause it reports, and then once more for
  the interval of twelve hours between checks.
\<close>

theorem retry_later_than_announced:
  assumes "needs_renewal (mg_config m) (snd (sleep_secs (12 * 3600) st :: (unit + unit) \<times> _))"
    and "run_acme_flow E m (snd (sleep_secs (12 * 3600) st :: (unit + unit) \<times> _)) = (Inl e, failed)"
    and "renewal_turn E m (backoff, st) = (backoff', st')"
  shows "am_clock (snd (sleep_secs (12 * 3600) st' :: (unit + unit) \<times> _)) = am_clock failed + backoff + 12 * 3600"
  using assms by (auto simp: renewal_turn_def Let_def) (auto simp: sleep_secs_def)

text \<open>
  At the start a certificate on disk that is valid beyond the renewal window is used as it is, without any call; only
  otherwise the protocol is run.
\<close>

theorem valid_certificate_kept:
  assumes "ae_exists E (acm_cert_path (mg_config m)) (am_world st)" and "ae_exists E (acm_key_path (mg_config m)) (am_world st)"
    and "fst (load_cert_from_disk E (mg_config m) st) = Inr key"
    and "parse_duration (acm_renew_before_expiry (mg_config m)) = Inr window"
    and "cert_time_remaining (am_clock st) (ck_chain key) = Some remaining"
  shows "obtain_or_load_certificate E m st =
    (if remaining > uint window then (Inr (), st\<lparr>am_resolver := key\<rparr>) else run_acme_flow E m st)"
  using assms by (simp add: obtain_or_load_certificate_def resolver_update_def)

section \<open>Instances\<close>

text \<open>A world in which every call succeeds, for one domain with a pending challenge.\<close>

definition example_acme :: "unit acme_env" where
  "example_acme =
     \<lparr>ae_send = (\<lambda>req w. (Inr (200, ''r1''), w)),
      ae_list_response = (\<lambda>body. Inr \<lparr>cl_success = True, cl_errors = [], cl_result = [(''z'', ''example.org'')]\<rparr>),
      ae_record_response = (\<lambda>body. Inr \<lparr>cr_success = True, cr_errors = [], cr_result = Some body\<rparr>),
      ae_base_errors = (\<lambda>body. Inr []), ae_var = (\<lambda>v. Some ''t''), ae_build_client = None,
      ae_exists = (\<lambda>path w. False), ae_read = (\<lambda>path w. Inl ''missing''), ae_parent = (\<lambda>path. None),
      ae_create_dir_all = (\<lambda>path w. (Inr (), w)), ae_write = (\<lambda>path content w. (Inr (), w)),
      ae_parse_credentials = Inr, ae_show_credentials = Inr, ae_from_credentials = (\<lambda>c w. (Inr 1, w)),
      ae_create_account = (\<lambda>contact url w. (Inr (1, ''credentials''), w)),
      ae_new_order = (\<lambda>account domains w. (Inr (7, [''authz'']), w)),
      ae_authorization = (\<lambda>url w. (Inr \<lparr>au_status = AuthorizationPending, au_dns01 = Some (''example.org'', ''digest'')\<rparr>, w)),
      ae_set_ready = (\<lambda>url w. (Inr (), w)), ae_poll_ready = (\<lambda>order w. (Inr OrderReady, w)),
      ae_finalize = (\<lambda>order w. (Inr ''key'', w)), ae_poll_certificate = (\<lambda>order w. (Inr ''chain'', w)),
      ae_certs = (\<lambda>pem. Inr [[1]]), ae_private_key = (\<lambda>pem. Inr (Some pem)), ae_signing_key = Inr\<rparr>"

definition example_manager :: manager where
  "example_manager =
     \<lparr>mg_config = \<lparr>acm_enabled = True, acm_directory_url = ''https://ca.example'', acm_domains = [''example.org''], acm_email = ''a@example.org'',
        acm_cert_path = ''cert.pem'', acm_key_path = ''key.pem'', acm_account_credentials_path = ''account.json'',
        acm_renew_before_expiry = ''30d'', acm_dns_provider = \<lparr>dp_provider_type = ''cloudflare'', dp_api_token = ''t'',
        dp_zone_id = Some ''z''\<rparr>\<rparr>,
      mg_provider = \<lparr>cp_api_token = ''t'', cp_zone_id = Some ''z''\<rparr>\<rparr>"

definition fresh_acme :: "unit acme_state" where
  "fresh_acme = \<lparr>am_world = (), am_calls = [], am_resolver = \<lparr>ck_chain = [[0]], ck_signing_key = ''old''\<rparr>, am_clock = 0\<rparr>"

lemma example_run:
  "run_acme_flow example_acme example_manager (fresh_acme\<lparr>am_calls := calls, am_clock := t\<rparr>) = (Inr (),
     \<lparr>am_world = (), am_calls = calls @
        [CreateAccount ''mailto:a@example.org'' ''https://ca.example'', WriteFile ''account.json'' ''credentials'' (Inr ()),
         NewOrder [''example.org''], FetchAuthorization ''authz'',
         Sent (CfPost (records_url ''z'') ''t'' ''_acme-challenge.example.org'' ''digest'') (Inr (200, ''r1'')),
         SleepSecs 60, SetReady ''authz'', Sent (CfDelete (records_url ''z'' @ ''/r1'') ''t'') (Inr (200, ''r1'')),
         PollReady, Finalize 7 (Inr ''key''), PollCertificate 7 (Inr ''chain''), WriteFile ''cert.pem'' ''chain'' (Inr ()),
         WriteFile ''key.pem'' ''key'' (Inr ())],
      am_resolver = \<lparr>ck_chain = [[1]], ck_signing_key = ''key''\<rparr>, am_clock = t + 60\<rparr>)"
  by (simp add: run_acme_flow_def open_order_def get_or_create_account_def Let_def am_bind_def am_result_def external_def
      example_acme_def example_manager_def fresh_acme_def save_file_def am_map_err_def create_txt_record_def
      resolve_zone_id_def send_request_def record_of_reply_def sleep_secs_def clean_up_def delete_txt_record_def
      split_once_def finish_order_def fetch_certificate_def save_cert_to_disk_def load_certified_key_from_pem_def
      resolver_update_def)

lemmas example_first_run = example_run [where calls = "[]" and t = 0]

lemma fresh_acme_self [simp]: "fresh_acme\<lparr>am_calls := [], am_clock := 0\<rparr> = fresh_acme"
  by (simp add: fresh_acme_def)

text \<open>A record that was created but whose confirmation cannot be read stays: the run fails and asks for no removal.\<close>

theorem lost_confirmation_leaves_record:
  "run_acme_flow (example_acme\<lparr>ae_record_response := (\<lambda>body. Inl ''EOF'')\<rparr>) example_manager fresh_acme =
     (Inl (AeDnsProvider (DpHttp ''EOF'')),
      fresh_acme\<lparr>am_calls := [CreateAccount ''mailto:a@example.org'' ''https://ca.example'',
        WriteFile ''account.json'' ''credentials'' (Inr ()), NewOrder [''example.org''], FetchAuthorization ''authz'',
        Sent (CfPost (records_url ''z'') ''t'' ''_acme-challenge.example.org'' ''digest'') (Inr (200, ''r1''))]\<rparr>)"
  by (simp add: run_acme_flow_def open_order_def get_or_create_account_def Let_def am_bind_def am_result_def external_def
      example_acme_def example_manager_def fresh_acme_def save_file_def am_map_err_def create_txt_record_def
      resolve_zone_id_def send_request_def record_of_reply_def clean_up_def)

theorem challenge_records_removed_witness:
  "created example_acme ''t'' (am_calls (snd (run_acme_flow example_acme example_manager fresh_acme))) ''z'' ''r1'' \<and>
   removal_requested ''t'' (am_calls (snd (run_acme_flow example_acme example_manager fresh_acme))) ''z'' ''r1''"
proof -
  let ?calls = "am_calls (snd (run_acme_flow example_acme example_manager fresh_acme))"
  have made: "created example_acme ''t'' ?calls ''z'' ''r1''"
    using example_first_run by (simp add: created_def record_of_reply_def example_acme_def)
  have token: "''t'' = cp_api_token (mg_provider example_manager)" by (simp add: example_manager_def)
  obtain r st' where run: "run_acme_flow example_acme example_manager fresh_acme = (r, st')" by fastforce
  have none: "am_calls fresh_acme = []" by (simp add: fresh_acme_def)
  from challenge_records_removed [OF run token] obtain before removals after where
    parts: "am_calls st' = am_calls fresh_acme @ before @ removals @ after" "list_all (\<lambda>c. \<not> is_post c) removals"
      "list_all (\<lambda>c. \<not> is_sent c) after"
      "\<forall>zone rid. created example_acme ''t'' before zone rid \<and> CHR ''/'' \<notin> set zone \<longrightarrow> removal_requested ''t'' removals zone rid"
    by (elim exE conjE) (rule that)
  have calls: "?calls = before @ removals @ after" using parts(1) none run by simp
  have "\<not> created E t (removals @ after) z i" for E :: "unit acme_env" and t z i
    using parts(2,3) created_post [of E t "removals @ after" z i] is_post_sent unfolding list_all_iff by auto
  then have "created example_acme ''t'' before ''z'' ''r1''" using made calls by simp
  then have "removal_requested ''t'' removals ''z'' ''r1''" using parts(4) by simp
  then show ?thesis using made unfolding calls by (auto simp: removal_requested_def)
qed

theorem renewal_keeps_certificate_witness:
  "\<exists>backoff st' hist. renewal_task example_acme example_manager 1 fresh_acme = (backoff, st') \<and>
     ck_signing_key (am_resolver st') = ''key'' \<and> length hist = 1 \<and> am_calls st' = history_calls hist \<and>
     in_use example_acme (mg_config example_manager) (am_resolver fresh_acme) hist (am_resolver st')"
proof -
  obtain backoff st' where run: "renewal_task example_acme example_manager 1 fresh_acme = (backoff, st')" by fastforce
  have "needs_renewal (mg_config example_manager) (fresh_acme\<lparr>am_calls := [SleepSecs 43200], am_clock := 43200\<rparr>)"
    by (simp add: needs_renewal_def fresh_acme_def cert_time_remaining_def parse_x509_not_after_def skip_tag_and_length_def
        byte_at_def)
  moreover have "snd (sleep_secs 43200 fresh_acme :: (unit + unit) \<times> _) = fresh_acme\<lparr>am_calls := [SleepSecs 43200], am_clock := 43200\<rparr>"
    by (simp add: sleep_secs_def fresh_acme_def)
  ultimately have "ck_signing_key (am_resolver st') = ''key''"
    using run example_run [where calls = "[SleepSecs 43200]" and t = 43200] by (auto simp: renewal_task_def renewal_turn_def Let_def)
  then show ?thesis using renewal_keeps_certificate [OF run] run by (auto simp: fresh_acme_def)
qed

lemma expand_plain: "expand_env_var var ''t'' = ''t''"
  by code_simp

end
