(* ===== verification/ConfigSchema.thy ===== *)
theory ConfigSchema
  imports RustStd
begin

text \<open>
  The configuration records of \<open>src/frameworks/config/schema.rs\<close>, field by field, and the
  hand-written \<open>Deserialize\<close> implementations, which turn a raw record (what serde's generated code
  reads) into the validated one. Field names carry a prefix because record fields are global names.
\<close>

subsection \<open>Lists and filtering\<close>

record named_list =
  nl_name :: string
  nl_url :: string
  nl_interval :: "string option"
  nl_enabled :: "bool option"
  nl_list_type :: "string option"

record named_list_entry =
  nle_url :: string
  nle_interval :: "string option"
  nle_enabled :: "bool option"
  nle_list_type :: "string option"

text \<open>The untagged representation: an explicit record, or a map from the name to the rest.\<close>

datatype named_list_repr =
    Explicit string string "string option" "bool option" "string option"
  | Nested "(string \<times> named_list_entry) list"

datatype schema_error =
    MissingField string
  | NotOneItem

fun named_list_deserialize :: "named_list_repr \<Rightarrow> schema_error + named_list" where
  "named_list_deserialize (Explicit name u i e t) =
     Inr \<lparr>nl_name = name, nl_url = u, nl_interval = i, nl_enabled = e, nl_list_type = t\<rparr>"
| "named_list_deserialize (Nested [(name, entry)]) =
     Inr \<lparr>nl_name = name, nl_url = nle_url entry, nl_interval = nle_interval entry,
          nl_enabled = nle_enabled entry, nl_list_type = nle_list_type entry\<rparr>"
| "named_list_deserialize (Nested _) = Inl NotOneItem"

record filtering_cache_config =
  fcc_mode :: "string option"
  fcc_document_path :: "string option"

record filtering_config =
  fc_sinkhole_ipv4 :: "string option"
  fc_sinkhole_ipv6 :: "string option"
  fc_any_query_policy :: "string option"
  fc_cache :: "filtering_cache_config option"

subsection \<open>Resolvers and zones\<close>

record resolver_cache_config =
  rcc_enabled :: bool
  rcc_min_ttl :: "string option"
  rcc_max_ttl :: "string option"
  rcc_max_entries :: "usize option"

record zone_server_authentication_config =
  za_token :: "string option"
  za_username :: "string option"
  za_password :: "string option"

record zone_server_config =
  zs_enabled :: bool
  zs_protocol :: string
  zs_address :: string
  zs_authentication :: "zone_server_authentication_config option"
  zs_check_interval :: "string option"
  zs_max_hops :: "u8 option"
  zs_nameserver_ip_family :: "string option"
  zs_root_hints_path :: "string option"
  zs_root_key_path :: "string option"
  zs_dnssec :: "bool option"

record upstream_server =
  us_enabled :: bool
  us_protocol :: string
  us_address :: string
  us_authentication :: "zone_server_authentication_config option"
  us_max_hops :: "u8 option"
  us_nameserver_ip_family :: "string option"
  us_root_hints_path :: "string option"
  us_root_key_path :: "string option"
  us_dnssec :: "bool option"
  us_bind_address :: "string option"
  us_fwmark :: "u32 option"

record resolver_zone_config =
  rz_zone :: string
  rz_enabled :: bool
  rz_bypass_filter :: bool
  rz_fallback_to_default_resolvers :: bool
  rz_strategy :: "string option"
  rz_servers :: "zone_server_config list"

record zone_discovery_config =
  zd_enabled :: bool
  zd_address :: string
  zd_check_interval :: "string option"
  zd_allowed_types :: "string list"
  zd_bypass_filter :: bool
  zd_fallback_to_default_resolvers :: bool
  zd_authentication :: "zone_server_authentication_config option"

record resolvers_config =
  rs_strategy :: string
  rs_bootstrap_resolvers :: "string list"
  rs_cache :: "resolver_cache_config option"
  rs_zones :: "resolver_zone_config list"
  rs_zone_discovery :: "zone_discovery_config list"
  rs_servers :: "upstream_server list"

definition default_bootstrap_resolvers :: "string list" where
  "default_bootstrap_resolvers = [''194.242.2.2'', ''2a07:e340::2'']"

record outbound_config =
  ob_bind_address :: "string option"
  ob_fwmark :: "u32 option"

subsection \<open>Listeners\<close>

record tls_config =
  tls_cert_path :: string
  tls_key_path :: string
  tls_autogenerate :: "bool option"

record socket_config =
  so_enabled :: bool
  so_addresses :: "string list"
  so_port :: u16

record tls_socket_config =
  ts_enabled :: bool
  ts_addresses :: "string list"
  ts_port :: u16
  ts_tls :: tls_config

record metrics_config =
  mc_enabled :: bool
  mc_addresses :: "string list"
  mc_port :: u16
  mc_tls :: "tls_config option"

record admin_config =
  ac_enabled :: bool
  ac_addresses :: "string list"
  ac_port :: u16
  ac_tls_port :: u16
  ac_tls :: "tls_config option"

text \<open>The raw records, with \<open>port\<close> and \<open>tls\<close> optional.\<close>

record socket_config_raw =
  sor_enabled :: bool
  sor_addresses :: "string list"
  sor_port :: "u16 option"

record tls_socket_config_raw =
  tsr_enabled :: bool
  tsr_addresses :: "string list"
  tsr_port :: "u16 option"
  tsr_tls :: "tls_config option"

record metrics_config_raw =
  mcr_enabled :: bool
  mcr_addresses :: "string list"
  mcr_port :: "u16 option"
  mcr_tls :: "tls_config option"

record admin_config_raw =
  acr_enabled :: bool
  acr_addresses :: "string list"
  acr_port :: "u16 option"
  acr_tls_port :: u16
  acr_tls :: "tls_config option"

definition socket_config_deserialize :: "socket_config_raw \<Rightarrow> schema_error + socket_config" where
  "socket_config_deserialize raw =
     (if sor_enabled raw then
        res_bind (ok_or (MissingField ''port'') (sor_port raw)) (\<lambda>port.
          Inr \<lparr>so_enabled = True, so_addresses = sor_addresses raw, so_port = port\<rparr>)
      else Inr \<lparr>so_enabled = False, so_addresses = [], so_port = 0\<rparr>)"

definition tls_socket_config_deserialize ::
  "tls_socket_config_raw \<Rightarrow> schema_error + tls_socket_config" where
  "tls_socket_config_deserialize raw =
     (if tsr_enabled raw then
        res_bind (ok_or (MissingField ''port'') (tsr_port raw)) (\<lambda>port.
        res_bind (ok_or (MissingField ''tls'') (tsr_tls raw)) (\<lambda>tls.
          Inr \<lparr>ts_enabled = True, ts_addresses = tsr_addresses raw, ts_port = port, ts_tls = tls\<rparr>))
      else
        Inr \<lparr>ts_enabled = False, ts_addresses = [], ts_port = 0,
             ts_tls = \<lparr>tls_cert_path = [], tls_key_path = [], tls_autogenerate = None\<rparr>\<rparr>)"

definition metrics_config_deserialize :: "metrics_config_raw \<Rightarrow> schema_error + metrics_config" where
  "metrics_config_deserialize raw =
     (if mcr_enabled raw then
        res_bind (ok_or (MissingField ''port'') (mcr_port raw)) (\<lambda>port.
          Inr \<lparr>mc_enabled = True, mc_addresses = mcr_addresses raw, mc_port = port,
               mc_tls = mcr_tls raw\<rparr>)
      else Inr \<lparr>mc_enabled = False, mc_addresses = [], mc_port = 0, mc_tls = None\<rparr>)"

definition default_admin_port :: u16 where
  "default_admin_port = 80"

definition admin_config_deserialize :: "admin_config_raw \<Rightarrow> schema_error + admin_config" where
  "admin_config_deserialize raw =
     (if acr_enabled raw then
        Inr \<lparr>ac_enabled = True, ac_addresses = acr_addresses raw,
             ac_port = (case acr_port raw of None \<Rightarrow> default_admin_port | Some p \<Rightarrow> p),
             ac_tls_port = acr_tls_port raw, ac_tls = acr_tls raw\<rparr>
      else Inr \<lparr>ac_enabled = False, ac_addresses = [], ac_port = 0, ac_tls_port = 0,
                ac_tls = None\<rparr>)"

text \<open>\<open>deserialize_addresses\<close>: one string or a list of strings.\<close>

datatype one_or_many = One string | Many "string list"

fun deserialize_addresses :: "one_or_many \<Rightarrow> string list" where
  "deserialize_addresses (One s) = [s]"
| "deserialize_addresses (Many v) = v"

record listen_config =
  ln_dns :: "socket_config option"
  ln_dot :: "tls_socket_config option"
  ln_doh :: "tls_socket_config option"
  ln_doq :: "tls_socket_config option"
  ln_admin :: "admin_config option"
  ln_metrics :: "metrics_config option"

subsection \<open>The whole configuration\<close>

record security_config =
  sc_user :: "string option"
  sc_group :: "string option"
  sc_chroot_dir :: "string option"

record control_config =
  cc_socket_path :: "string option"

record database_config =
  db_url :: string

definition default_control_socket_path :: string where
  "default_control_socket_path = ''run/dns-filter.sock''"

definition default_database_url :: string where
  "default_database_url = ''sqlite://db/dns-filter.db''"

text \<open>
  The parts of the configuration that the server reads while it runs. The settings for logging, API, MCP and
  ACME, which only the start reads, are records of the theories about these.
\<close>

record dns_filter_config =
  cfg_listen :: listen_config
  cfg_blocklists :: "named_list list"
  cfg_allowlists :: "named_list list"
  cfg_filtering :: "filtering_config option"
  cfg_resolvers :: resolvers_config
  cfg_security :: "security_config option"
  cfg_control :: "control_config option"
  cfg_database :: "database_config option"
  cfg_outbound :: "outbound_config option"

definition socket_path :: "dns_filter_config \<Rightarrow> string" where
  "socket_path config =
     (case Option.bind (cfg_control config) cc_socket_path of
        None \<Rightarrow> default_control_socket_path
      | Some p \<Rightarrow> p)"

text \<open>A configuration that sets nothing: the base of the concrete configurations of the examples.\<close>

definition empty_config :: dns_filter_config where
  "empty_config =
     \<lparr>cfg_listen = \<lparr>ln_dns = None, ln_dot = None, ln_doh = None, ln_doq = None, ln_admin = None,
                    ln_metrics = None\<rparr>,
      cfg_blocklists = [], cfg_allowlists = [], cfg_filtering = None,
      cfg_resolvers = \<lparr>rs_strategy = ''round_robin'', rs_bootstrap_resolvers = default_bootstrap_resolvers,
                       rs_cache = None, rs_zones = [], rs_zone_discovery = [], rs_servers = []\<rparr>,
      cfg_security = None, cfg_control = None, cfg_database = None, cfg_outbound = None\<rparr>"

end
