(* ===== verification/ChrootPaths.thy ===== *)
theory ChrootPaths
  imports ConfigSchema
begin

text \<open>
  Confinement of paths to the chroot directory and validation of a configuration
  (\<open>src/use_cases/config_bootstrap.rs\<close>, lines 39 to 251).

  A \<open>Path\<close> is modelled by the list of its components, which is what \<open>components\<close>, \<open>starts_with\<close>,
  \<open>strip_prefix\<close> and path equality work on; \<open>path_components\<close> reads a string on Unix (repeated separators
  and inner \<open>.\<close> parts are skipped) and \<open>render_path\<close> is \<open>to_string_lossy\<close>.
\<close>

subsection \<open>Paths\<close>

datatype path_component = RootDir | CurDir | ParentDir | Normal string

type_synonym path = "path_component list"

fun component_of :: "string \<Rightarrow> path_component option" where
  "component_of part =
     (if part = [] \<or> part = ''.'' then None
      else if part = ''..'' then Some ParentDir
      else Some (Normal part))"

definition path_components :: "string \<Rightarrow> path" where
  "path_components s =
     (let parts = split_char (CHR ''/'') s;
          body = List.map_filter component_of parts
      in if prefix ''/'' s then RootDir # body
         else if hd parts = ''.'' then CurDir # body
         else body)"

definition is_absolute :: "path \<Rightarrow> bool" where
  "is_absolute p \<longleftrightarrow> (case p of RootDir # _ \<Rightarrow> True | _ \<Rightarrow> False)"

fun component_str :: "path_component \<Rightarrow> string" where
  "component_str RootDir = []"
| "component_str CurDir = ''.''"
| "component_str ParentDir = ''..''"
| "component_str (Normal part) = part"

definition render_path :: "path \<Rightarrow> string" where
  "render_path p =
     (if p = [RootDir] then ''/'' else join_char (CHR ''/'') (map component_str p))"

definition path_join :: "path \<Rightarrow> path \<Rightarrow> path" where
  "path_join p q =
     (if is_absolute q \<or> p = [] then q else p @ filter (\<lambda>c. c \<noteq> CurDir) q)"

text \<open>\<open>PathBuf::pop\<close>: drops the last component unless the path is empty or the root.\<close>

definition path_pop :: "path \<Rightarrow> path" where
  "path_pop p = (if p = [] \<or> last p = RootDir then p else butlast p)"

fun normalize_step :: "path \<Rightarrow> path_component \<Rightarrow> path" where
  "normalize_step acc RootDir = [RootDir]"
| "normalize_step acc CurDir = acc"
| "normalize_step acc ParentDir = path_pop acc"
| "normalize_step acc (Normal part) = acc @ [Normal part]"

definition normalize_lexical :: "path \<Rightarrow> path" where
  "normalize_lexical p = foldl normalize_step [] p"

subsection \<open>Resolution inside the chroot\<close>

datatype path_error =
    EmptyChrootDir
  | ChrootNotAbsolute string
  | PathEmpty
  | OutsideChroot string string
  | EscapesChroot string
  | MemoryDatabase
  | NoDatabasePath
  | InvalidPath string path_error
  | EmptyPath string

definition parse_chroot_dir :: "string \<Rightarrow> path_error + path" where
  "parse_chroot_dir chroot_dir =
     (if trim chroot_dir = [] then Inl EmptyChrootDir
      else
        (let path = path_components chroot_dir in
         if \<not> is_absolute path then Inl (ChrootNotAbsolute chroot_dir)
         else Inr (normalize_lexical path)))"

definition resolve_scoped_host_path :: "string \<Rightarrow> path \<Rightarrow> path_error + path" where
  "resolve_scoped_host_path path chroot_dir =
     (let trimmed = trim path in
      if trimmed = [] then Inl PathEmpty
      else
        (let raw = path_components trimmed;
             chroot_norm = normalize_lexical chroot_dir;
             joined = (if is_absolute raw then raw else path_join chroot_norm raw);
             normalized = normalize_lexical joined
         in if \<not> prefix chroot_norm normalized then Inl (OutsideChroot path (render_path chroot_norm))
            else Inr normalized))"

definition resolve_path_for_chroot_host :: "string \<Rightarrow> string \<Rightarrow> path_error + string" where
  "resolve_path_for_chroot_host path chroot_dir =
     res_bind (parse_chroot_dir chroot_dir) (\<lambda>chroot.
     map_ok render_path (resolve_scoped_host_path path chroot))"

definition path_strip_prefix :: "path \<Rightarrow> path \<Rightarrow> path option" where
  "path_strip_prefix p base = (if prefix base p then Some (drop (length base) p) else None)"

definition resolve_path_for_chroot_runtime :: "string \<Rightarrow> string \<Rightarrow> path_error + string" where
  "resolve_path_for_chroot_runtime path chroot_dir =
     res_bind (parse_chroot_dir chroot_dir) (\<lambda>chroot.
     res_bind (resolve_scoped_host_path path chroot) (\<lambda>resolved_host.
     res_bind (ok_or (EscapesChroot path) (path_strip_prefix resolved_host chroot)) (\<lambda>rel.
     Inr (render_path (path_join [RootDir] rel)))))"

text \<open>The two functions on database URLs, which differ in the path resolution they apply.\<close>

definition sqlite_url_with :: "(string \<Rightarrow> path_error + string) \<Rightarrow> string \<Rightarrow> path_error + string" where
  "sqlite_url_with resolve url =
     (if url = ''sqlite::memory:'' then Inl MemoryDatabase
      else case strip_prefix url ''sqlite://'' of
        None \<Rightarrow> Inr url
      | Some rest \<Rightarrow>
          (let (raw_path, query_suffix) =
             (case split_once rest (CHR ''?'') of
                Some (path, query) \<Rightarrow> (path, Some query)
              | None \<Rightarrow> (rest, None))
           in if trim raw_path = [] then Inl NoDatabasePath
              else
                res_bind (resolve raw_path) (\<lambda>path.
                Inr (''sqlite://'' @ path @
                  (case query_suffix of None \<Rightarrow> [] | Some query \<Rightarrow> ''?'' @ query)))))"

definition sqlite_url_for_chroot_runtime :: "string \<Rightarrow> string \<Rightarrow> path_error + string" where
  "sqlite_url_for_chroot_runtime url chroot_dir =
     sqlite_url_with (\<lambda>p. resolve_path_for_chroot_runtime p chroot_dir) url"

definition sqlite_url_for_chroot_host :: "string \<Rightarrow> string \<Rightarrow> path_error + string" where
  "sqlite_url_for_chroot_host url chroot_dir =
     sqlite_url_with (\<lambda>p. resolve_path_for_chroot_host p chroot_dir) url"

subsection \<open>Validation of a configuration\<close>

definition default_chroot_dir :: string where
  "default_chroot_dir = ''/var/lib/dns-filter''"

definition effective_chroot_dir :: "dns_filter_config \<Rightarrow> path_error + string" where
  "effective_chroot_dir config =
     (let chroot_dir = (case Option.bind (cfg_security config) sc_chroot_dir of
            None \<Rightarrow> default_chroot_dir | Some d \<Rightarrow> d)
      in map_ok render_path (parse_chroot_dir chroot_dir))"

definition validate_sqlite_path :: "dns_filter_config \<Rightarrow> string \<Rightarrow> path_error + unit" where
  "validate_sqlite_path config chroot_dir =
     (let url = (case cfg_database config of None \<Rightarrow> default_database_url | Some d \<Rightarrow> db_url d) in
      if url = ''sqlite::memory:'' then Inl MemoryDatabase
      else case strip_prefix url ''sqlite://'' of
        None \<Rightarrow> Inr ()
      | Some rest \<Rightarrow>
          (let raw_path = (case split_once rest (CHR ''?'') of Some (path, _) \<Rightarrow> path | None \<Rightarrow> rest) in
           if trim raw_path = [] then Inl NoDatabasePath
           else map_err (InvalidPath ''database.url'')
                  (map_ok (\<lambda>_. ()) (resolve_path_for_chroot_host raw_path chroot_dir))))"

definition validate_tls_listener :: "string \<Rightarrow> string \<times> tls_socket_config option \<Rightarrow> path_error + unit" where
  "validate_tls_listener chroot_dir = (\<lambda>(name, listener).
     (case listener of
        None \<Rightarrow> Inr ()
      | Some l \<Rightarrow>
          if \<not> ts_enabled l then Inr ()
          else if trim (tls_cert_path (ts_tls l)) = [] then Inl (EmptyPath (name @ ''.tls.cert_path''))
          else if trim (tls_key_path (ts_tls l)) = [] then Inl (EmptyPath (name @ ''.tls.key_path''))
          else
            res_bind (map_err (InvalidPath (name @ ''.tls.cert_path''))
              (resolve_path_for_chroot_host (tls_cert_path (ts_tls l)) chroot_dir)) (\<lambda>_.
            res_bind (map_err (InvalidPath (name @ ''.tls.key_path''))
              (resolve_path_for_chroot_host (tls_key_path (ts_tls l)) chroot_dir)) (\<lambda>_.
            Inr ()))))"

definition validate_listener_tls_paths :: "dns_filter_config \<Rightarrow> string \<Rightarrow> path_error + unit" where
  "validate_listener_tls_paths config chroot_dir =
     map_ok (\<lambda>_. ()) (res_map_list (validate_tls_listener chroot_dir)
       [(''listen.dot'', ln_dot (cfg_listen config)), (''listen.doh'', ln_doh (cfg_listen config)),
        (''listen.doq'', ln_doq (cfg_listen config))])"

definition validate_control_socket_path :: "dns_filter_config \<Rightarrow> string \<Rightarrow> path_error + unit" where
  "validate_control_socket_path config chroot_dir =
     (let socket = socket_path config in
      if trim socket = [] then Inl (EmptyPath ''control.socket_path'')
      else map_err (InvalidPath ''control.socket_path'')
             (map_ok (\<lambda>_. ()) (resolve_path_for_chroot_host socket chroot_dir)))"

definition validate_config :: "dns_filter_config \<Rightarrow> path_error + dns_filter_config" where
  "validate_config config =
     res_bind (effective_chroot_dir config) (\<lambda>chroot_dir.
     res_bind (validate_sqlite_path config chroot_dir) (\<lambda>_.
     res_bind (validate_listener_tls_paths config chroot_dir) (\<lambda>_.
     res_bind (validate_control_socket_path config chroot_dir) (\<lambda>_. Inr config))))"

subsection \<open>Normal paths\<close>

text \<open>A normal absolute path: the root and named parts only.\<close>

definition part_ok :: "string \<Rightarrow> bool" where
  "part_ok s \<longleftrightarrow> s \<noteq> [] \<and> s \<noteq> ''.'' \<and> s \<noteq> ''..'' \<and> CHR ''/'' \<notin> set s"

definition abs_path :: "string list \<Rightarrow> path" where
  "abs_path parts = RootDir # map Normal parts"

lemma path_components_parts:
  "c \<in> set (path_components s) \<Longrightarrow> c = Normal part \<Longrightarrow> part_ok part"
  by (auto simp: path_components_def part_ok_def Let_def List.map_filter_def split: if_splits
      dest: split_char_no_sep)

lemma foldl_normalize_parts:
  assumes "\<forall>part. Normal part \<in> set p \<longrightarrow> part_ok part" and "list_all part_ok acc" and "RootDir \<notin> set p"
  shows "\<exists>parts. foldl normalize_step (abs_path acc) p = abs_path parts \<and> list_all part_ok parts"
  using assms
proof (induction p arbitrary: acc)
  case (Cons c p)
  have "\<exists>acc'. normalize_step (abs_path acc) c = abs_path acc' \<and> list_all part_ok acc'"
  proof (cases c)
    case ParentDir
    have "path_pop (abs_path acc) = abs_path (butlast acc)"
      by (cases acc rule: rev_cases) (auto simp: path_pop_def abs_path_def)
    moreover have "list_all part_ok (butlast acc)"
      using Cons.prems(2) by (auto simp: list_all_iff dest: in_set_butlastD)
    ultimately show ?thesis using ParentDir by auto
  next
    case (Normal part)
    then have "normalize_step (abs_path acc) c = abs_path (acc @ [part])" by (simp add: abs_path_def)
    moreover have "list_all part_ok (acc @ [part])" using Cons.prems(1,2) Normal by simp
    ultimately show ?thesis by blast
  qed (use Cons.prems in auto)
  then obtain acc' where "normalize_step (abs_path acc) c = abs_path acc'" "list_all part_ok acc'" by blast
  then show ?case using Cons.IH [of acc'] Cons.prems by auto
qed (auto simp: abs_path_def)

lemma component_of_no_root: "RootDir \<notin> set (List.map_filter component_of parts)"
  by (auto simp: List.map_filter_def split: if_splits)

lemma path_components_tl: "RootDir \<notin> set (tl (path_components s))"
proof -
  have "set (tl (path_components s)) \<subseteq> set (List.map_filter component_of (split_char (CHR ''/'') s))"
    by (auto simp: path_components_def Let_def intro: list.set_sel(2) dest: list.set_sel(2) [rotated])
  then show ?thesis using component_of_no_root by blast
qed

lemma normalize_absolute:
  assumes "is_absolute (path_components s)"
  shows "\<exists>parts. normalize_lexical (path_components s) = abs_path parts \<and> list_all part_ok parts"
proof -
  obtain p where p: "path_components s = RootDir # p"
    using assms by (auto simp: is_absolute_def split: list.splits path_component.splits)
  have "\<exists>parts. foldl normalize_step (abs_path []) p = abs_path parts \<and> list_all part_ok parts"
    using path_components_parts [of _ s] path_components_tl [of s]
    by (intro foldl_normalize_parts) (auto simp: p)
  then show ?thesis by (simp add: normalize_lexical_def p abs_path_def)
qed

lemma foldl_normalize_normal:
  "foldl normalize_step acc (map Normal parts) = acc @ map Normal parts"
  by (induction parts arbitrary: acc) auto

lemma normalize_abs_path [simp]: "normalize_lexical (abs_path parts) = abs_path parts"
  by (simp add: normalize_lexical_def abs_path_def foldl_normalize_normal)

lemma abs_path_inj [simp]: "abs_path a = abs_path b \<longleftrightarrow> a = b"
  by (auto simp: abs_path_def inj_map_eq_map inj_def)

lemma prefix_abs_path: "prefix (abs_path a) (abs_path b) \<longleftrightarrow> prefix a b"
  by (auto simp: abs_path_def prefix_def map_eq_append_conv) (metis (no_types, lifting) inj_map_eq_map injI path_component.inject)

text \<open>Reading what was rendered.\<close>

lemma render_abs_path: "render_path (abs_path parts) = CHR ''/'' # join_char (CHR ''/'') parts"
proof -
  have "map (component_str \<circ> Normal) parts = parts" by (induction parts) auto
  then show ?thesis by (cases parts) (auto simp: render_path_def abs_path_def)
qed

lemma path_components_render:
  assumes "list_all part_ok parts"
  shows "path_components (render_path (abs_path parts)) = abs_path parts"
proof -
  have split: "split_char (CHR ''/'') (CHR ''/'' # join_char (CHR ''/'') parts) =
      [] # (if parts = [] then [[]] else parts)"
    using assms by (auto simp: split_join_char part_ok_def list_all_iff)
  have parts: "List.map_filter component_of parts = map Normal parts"
    using assms by (induction parts) (auto simp: List.map_filter_def part_ok_def)
  have empty: "component_of [] = None" by simp
  show ?thesis
    by (simp only: render_abs_path path_components_def split Let_def)
      (simp add: abs_path_def map_filter_simps empty parts del: component_of.simps)
qed

subsection \<open>Confinement\<close>

lemma parse_chroot_dir_abs:
  assumes "parse_chroot_dir c = Inr chroot"
  obtains cs where "chroot = abs_path cs" and "list_all part_ok cs"
  using assms normalize_absolute [of c] by (auto simp: parse_chroot_dir_def Let_def split: if_splits)

lemma normalize_joined:
  assumes "list_all part_ok cs" and "\<not> is_absolute (path_components s)"
  shows "\<exists>parts. normalize_lexical (path_join (abs_path cs) (path_components s)) = abs_path parts \<and>
    list_all part_ok parts"
proof -
  let ?q = "filter (\<lambda>c. c \<noteq> CurDir) (path_components s)"
  have root: "RootDir \<notin> set ?q"
    using assms(2) path_components_tl [of s]
    by (cases "path_components s") (auto simp: is_absolute_def split: path_component.splits)
  have "\<exists>parts. foldl normalize_step (abs_path cs) ?q = abs_path parts \<and> list_all part_ok parts"
    using path_components_parts [of _ s] root assms(1) by (intro foldl_normalize_parts) auto
  moreover have "normalize_lexical (abs_path cs @ ?q) = foldl normalize_step (abs_path cs) ?q"
    using normalize_abs_path [of cs] by (simp add: normalize_lexical_def)
  ultimately show ?thesis using assms(2) by (simp add: path_join_def abs_path_def)
qed

lemma resolve_scoped_abs:
  assumes "list_all part_ok cs" and "resolve_scoped_host_path p (abs_path cs) = Inr host"
  obtains ps where "host = abs_path (cs @ ps)" and "list_all part_ok ps"
proof -
  let ?raw = "path_components (trim p)"
  let ?joined = "if is_absolute ?raw then ?raw else path_join (abs_path cs) ?raw"
  have host: "host = normalize_lexical ?joined" "prefix (abs_path cs) host"
    using assms(2) by (auto simp: resolve_scoped_host_path_def Let_def split: if_splits)
  obtain parts where parts: "host = abs_path parts" "list_all part_ok parts"
    using normalize_absolute [of "trim p"] normalize_joined [OF assms(1), of "trim p"] host(1)
    by (metis (full_types))
  then obtain ps where "parts = cs @ ps" using host(2) by (auto simp: prefix_abs_path elim: prefixE)
  then show ?thesis using parts that by simp
qed

text \<open>A path lies in a directory when its components extend those of the directory by named parts.\<close>

definition inside_dir :: "string \<Rightarrow> string \<Rightarrow> bool" where
  "inside_dir dir s \<longleftrightarrow>
     (\<exists>cs ps. normalize_lexical (path_components dir) = abs_path cs \<and>
        path_components s = abs_path (cs @ ps) \<and> list_all part_ok (cs @ ps))"

lemma inside_dirI:
  assumes "normalize_lexical (path_components dir) = abs_path cs" and "list_all part_ok (cs @ ps)"
  shows "inside_dir dir (render_path (abs_path (cs @ ps)))"
  using assms path_components_render [of "cs @ ps"] unfolding inside_dir_def by blast

lemma resolve_host_parts:
  assumes "resolve_path_for_chroot_host p c = Inr h"
  obtains cs ps where "normalize_lexical (path_components c) = abs_path cs" and "list_all part_ok (cs @ ps)"
    and "h = render_path (abs_path (cs @ ps))" and "parse_chroot_dir c = Inr (abs_path cs)"
    and "resolve_scoped_host_path p (abs_path cs) = Inr (abs_path (cs @ ps))"
proof -
  obtain chroot host where r: "parse_chroot_dir c = Inr chroot"
      "resolve_scoped_host_path p chroot = Inr host" "h = render_path host"
    using assms by (auto simp: resolve_path_for_chroot_host_def)
  obtain cs where cs: "chroot = abs_path cs" "list_all part_ok cs" by (rule parse_chroot_dir_abs [OF r(1)])
  obtain ps where ps: "host = abs_path (cs @ ps)" "list_all part_ok ps"
    using resolve_scoped_abs [OF cs(2) r(2) [unfolded cs(1)]] .
  have "normalize_lexical (path_components c) = abs_path cs"
    using r(1) cs(1) by (auto simp: parse_chroot_dir_def Let_def split: if_splits)
  then show ?thesis using that [of cs ps] r cs ps by auto
qed

lemma resolve_host_inside: "resolve_path_for_chroot_host p c = Inr h \<Longrightarrow> inside_dir c h"
  by (erule resolve_host_parts) (auto intro!: inside_dirI)

lemma resolve_runtime_parts:
  assumes "parse_chroot_dir c = Inr (abs_path cs)" and "resolve_scoped_host_path p (abs_path cs) = Inr (abs_path (cs @ ps))"
  shows "resolve_path_for_chroot_runtime p c = Inr (render_path (abs_path ps))"
proof -
  have "path_strip_prefix (abs_path (cs @ ps)) (abs_path cs) = Some (map Normal ps)"
    by (simp add: path_strip_prefix_def prefix_abs_path) (simp add: abs_path_def)
  moreover have "path_join [RootDir] (map Normal ps) = abs_path ps"
    by (cases ps) (auto simp: path_join_def is_absolute_def abs_path_def filter_map comp_def)
  ultimately show ?thesis using assms by (simp add: resolve_path_for_chroot_runtime_def)
qed

text \<open>
  C9. A path that the server accepts is confined: its host form consists of the components of the
  normalised chroot directory followed by named parts only (no \<open>..\<close>, no second root), and its runtime
  form, the one used after \<open>chroot\<close>, is the root followed by exactly these parts, so both forms name the
  same file. The runtime form exists whenever the host form does; its own escape error never occurs.
\<close>

theorem chroot_confines:
  assumes "resolve_path_for_chroot_host p c = Inr h"
  shows "\<exists>cs ps r. normalize_lexical (path_components c) = abs_path cs \<and>
    path_components h = abs_path (cs @ ps) \<and> list_all part_ok (cs @ ps) \<and>
    resolve_path_for_chroot_runtime p c = Inr r \<and> path_components r = abs_path ps"
proof -
  obtain cs ps where p: "normalize_lexical (path_components c) = abs_path cs" "list_all part_ok (cs @ ps)"
      "h = render_path (abs_path (cs @ ps))" "parse_chroot_dir c = Inr (abs_path cs)"
      "resolve_scoped_host_path p (abs_path cs) = Inr (abs_path (cs @ ps))"
    by (rule resolve_host_parts [OF assms])
  from resolve_runtime_parts [OF p(4,5)] have "resolve_path_for_chroot_runtime p c = Inr (render_path (abs_path ps))" .
  then show ?thesis
    using p(1-3) path_components_render [of "cs @ ps"] path_components_render [of ps] by (metis list_all_append)
qed

theorem chroot_confines_witness:
  "\<exists>cs ps r. normalize_lexical (path_components ''/var/lib/dns-filter'') = abs_path cs \<and>
    path_components ''/var/lib/dns-filter/tls/key.pem'' = abs_path (cs @ ps) \<and> list_all part_ok (cs @ ps) \<and>
    resolve_path_for_chroot_runtime ''./acme/../tls//key.pem'' ''/var/lib/dns-filter'' = Inr r \<and>
    path_components r = abs_path ps"
  by (rule chroot_confines) code_simp

subsection \<open>What a valid configuration promises\<close>

text \<open>
  What a path names in a file system without symbolic links, read off its text: from the root, or from a directory given by
  the names on the way to it, part after part.
\<close>

fun path_walk :: "string list \<Rightarrow> string list \<Rightarrow> string list" where
  "path_walk dir [] = dir"
| "path_walk dir (part # parts) =
     path_walk (if part = [] \<or> part = ''.'' then dir else if part = ''..'' then butlast dir else dir @ [part]) parts"

definition path_names :: "string list \<Rightarrow> string \<Rightarrow> string list" where
  "path_names dir s = path_walk (if prefix ''/'' s then [] else dir) (split_char (CHR ''/'') s)"

text \<open>A path that is not blank and names something at or below a directory.\<close>

definition lies_in :: "string list \<Rightarrow> string \<Rightarrow> bool" where
  "lies_in dir p \<longleftrightarrow> trim p \<noteq> [] \<and> prefix dir (path_names dir (trim p))"

definition configured_chroot_dir :: "dns_filter_config \<Rightarrow> string" where
  "configured_chroot_dir config = (case Option.bind (cfg_security config) sc_chroot_dir of None \<Rightarrow> default_chroot_dir | Some d \<Rightarrow> d)"

definition listener_tls_paths :: "tls_socket_config option \<Rightarrow> string list" where
  "listener_tls_paths listener =
     (case listener of
        None \<Rightarrow> []
      | Some l \<Rightarrow> if ts_enabled l then [tls_cert_path (ts_tls l), tls_key_path (ts_tls l)] else [])"

definition config_database_url :: "dns_filter_config \<Rightarrow> string" where
  "config_database_url config = (case cfg_database config of None \<Rightarrow> default_database_url | Some d \<Rightarrow> db_url d)"

definition config_paths :: "dns_filter_config \<Rightarrow> string list" where
  "config_paths config =
     (case strip_prefix (config_database_url config) ''sqlite://'' of
        None \<Rightarrow> []
      | Some rest \<Rightarrow> [case split_once rest (CHR ''?'') of Some (path, _) \<Rightarrow> path | None \<Rightarrow> rest]) @
     concat (map listener_tls_paths
       [ln_dot (cfg_listen config), ln_doh (cfg_listen config), ln_doq (cfg_listen config)]) @
     [socket_path config]"

lemma walk_components: "foldl normalize_step (abs_path dir) (List.map_filter component_of parts) = abs_path (path_walk dir parts)"
proof (induction parts arbitrary: dir)
  case (Cons part parts)
  have "path_pop (abs_path dir) = abs_path (butlast dir)"
    by (cases dir rule: rev_cases) (auto simp: path_pop_def abs_path_def)
  moreover have "abs_path dir @ [Normal part] = abs_path (dir @ [part])" by (simp add: abs_path_def)
  ultimately show ?case using Cons.IH by (simp add: map_filter_simps)
qed (simp add: map_filter_simps)

lemma names_absolute:
  assumes "is_absolute (path_components s)"
  shows "prefix ''/'' s \<and> normalize_lexical (path_components s) = abs_path (path_names dir s)"
proof -
  have "prefix ''/'' s" using assms component_of_no_root [of "split_char (CHR ''/'') s"]
    by (auto simp: path_components_def is_absolute_def Let_def split: if_splits list.splits path_component.splits)
  then show ?thesis using walk_components [of "[]" "split_char (CHR ''/'') s"]
    by (simp add: path_components_def normalize_lexical_def path_names_def abs_path_def Let_def)
qed

lemma names_relative:
  assumes "\<not> is_absolute (path_components s)"
  shows "normalize_lexical (path_join (abs_path dir) (path_components s)) = abs_path (path_names dir s)"
proof -
  let ?body = "List.map_filter component_of (split_char (CHR ''/'') s)"
  have rel: "\<not> prefix ''/'' s" using assms by (auto simp: path_components_def is_absolute_def Let_def)
  have "filter (\<lambda>c. c \<noteq> CurDir) ?body = ?body" by (auto simp: filter_id_conv List.map_filter_def split: if_splits)
  then have "path_join (abs_path dir) (path_components s) = abs_path dir @ ?body"
    using assms rel by (auto simp: path_join_def path_components_def abs_path_def Let_def)
  moreover have "normalize_lexical (abs_path dir @ ?body) = foldl normalize_step (abs_path dir) ?body"
    using normalize_abs_path [of dir] by (simp add: normalize_lexical_def)
  ultimately show ?thesis using rel by (simp add: walk_components path_names_def)
qed

lemma parse_chroot_dir_iff:
  "parse_chroot_dir c = Inr chroot \<longleftrightarrow> trim c \<noteq> [] \<and> prefix ''/'' c \<and> chroot = abs_path (path_names [] c)"
proof -
  have "is_absolute (path_components c) \<longleftrightarrow> prefix ''/'' c"
    using names_absolute [of c] by (auto simp: path_components_def is_absolute_def Let_def)
  then show ?thesis using names_absolute [of c "[]"] by (auto simp: parse_chroot_dir_def Let_def)
qed

lemma resolve_scoped_iff:
  "(\<exists>host. resolve_scoped_host_path p (abs_path dir) = Inr host) \<longleftrightarrow> lies_in dir p"
proof -
  let ?raw = "path_components (trim p)"
  have "normalize_lexical (if is_absolute ?raw then ?raw else path_join (abs_path dir) ?raw) = abs_path (path_names dir (trim p))"
    using names_absolute [of "trim p" dir] names_relative [of "trim p" dir] by simp
  then show ?thesis by (auto simp: resolve_scoped_host_path_def lies_in_def Let_def prefix_abs_path)
qed

text \<open>A text with a separator is not blank.\<close>

lemma strip_words_keeps: "c \<in> set s \<Longrightarrow> \<forall>p\<in>set ps. c \<notin> set p \<Longrightarrow> c \<in> set (strip_words ps s)"
proof (induction ps s rule: strip_words.induct)
  case (1 ps s)
  show ?case
  proof (cases "find (\<lambda>p. p \<noteq> [] \<and> prefix p s) ps")
    case (Some p)
    then have p: "p \<in> set ps" "prefix p s" by (auto dest: find_SomeD)
    then have "c \<in> set (drop (length p) s)" using "1.prems" by (auto elim: prefixE)
    then show ?thesis using "1.IH" [OF Some] "1.prems"(2) Some by (simp add: strip_words.simps [of ps s])
  qed (use "1.prems" in \<open>simp add: strip_words.simps [of ps s]\<close>)
qed

lemma slash_not_trimmed: "CHR ''/'' \<in> set s \<Longrightarrow> CHR ''/'' \<in> set (trim s)"
proof -
  have "\<forall>p\<in>set utf8_ws. CHR ''/'' \<notin> set p" by (simp add: utf8_ws_def)
  then show "CHR ''/'' \<in> set s \<Longrightarrow> ?thesis"
    using strip_words_keeps [of "CHR ''/''" _ utf8_ws] strip_words_keeps [of "CHR ''/''" _ "map rev utf8_ws"]
    by (simp add: trim_def trim_start_def trim_end_def strip_words_end_def)
qed

text \<open>The validation resolves every path in the directory that it has rendered.\<close>

lemma rendered_dir:
  assumes "parse_chroot_dir c = Inr chroot"
  shows "parse_chroot_dir (render_path chroot) = Inr chroot"
proof -
  obtain cs where cs: "chroot = abs_path cs" "list_all part_ok cs" by (rule parse_chroot_dir_abs [OF assms])
  have "trim (render_path (abs_path cs)) \<noteq> []" using slash_not_trimmed [of "render_path (abs_path cs)"] by (auto simp: render_abs_path)
  then show ?thesis using path_components_render [OF cs(2)] cs(1)
    by (simp add: parse_chroot_dir_def Let_def is_absolute_def abs_path_def) (metis abs_path_def normalize_abs_path)
qed

lemma resolve_host_iff:
  assumes "parse_chroot_dir c = Inr (abs_path dir)"
  shows "(\<exists>h. resolve_path_for_chroot_host p c = Inr h) \<longleftrightarrow> lies_in dir p"
  using resolve_scoped_iff [of p dir] assms by (auto simp: resolve_path_for_chroot_host_def)

abbreviation confined :: "string \<Rightarrow> string \<Rightarrow> bool" where
  "confined dir p \<equiv> \<exists>h. resolve_path_for_chroot_host p dir = Inr h"

lemma confined_nonempty: "confined dir p \<Longrightarrow> trim p \<noteq> []"
  by (auto simp: resolve_path_for_chroot_host_def resolve_scoped_host_path_def)

lemma validate_tls_listener_iff:
  "validate_tls_listener dir (name, l) = Inr () \<longleftrightarrow> list_all (confined dir) (listener_tls_paths l)"
  using confined_nonempty [where dir = dir]
  by (auto simp: validate_tls_listener_def listener_tls_paths_def split: option.splits)

lemma validate_listener_tls_paths_iff:
  "validate_listener_tls_paths config dir = Inr () \<longleftrightarrow>
     list_all (confined dir) (concat (map listener_tls_paths
       [ln_dot (cfg_listen config), ln_doh (cfg_listen config), ln_doq (cfg_listen config)]))"
  by (simp add: validate_listener_tls_paths_def validate_tls_listener_iff)

lemma validate_control_socket_path_iff:
  "validate_control_socket_path config dir = Inr () \<longleftrightarrow> confined dir (socket_path config)"
  using confined_nonempty by (auto simp: validate_control_socket_path_def Let_def)

lemma validate_sqlite_path_iff:
  "validate_sqlite_path config dir = Inr () \<longleftrightarrow>
     config_database_url config \<noteq> ''sqlite::memory:'' \<and>
     (case strip_prefix (config_database_url config) ''sqlite://'' of
        None \<Rightarrow> True
      | Some rest \<Rightarrow> confined dir (case split_once rest (CHR ''?'') of Some (path, _) \<Rightarrow> path | None \<Rightarrow> rest))"
  using confined_nonempty
  by (auto simp: validate_sqlite_path_def config_database_url_def [symmetric] Let_def split: option.splits)

text \<open>
  C22. Validation is exact: a configuration is accepted, unchanged, if and only if its chroot directory is an absolute
  path that is not blank, the database is not SQLite in memory, and these paths name something inside that directory: the
  file of an SQLite database, the certificate and the key of every enabled DoT, DoH and DoQ listener, and the control
  socket. What a path names is read off its text, relative paths from the directory itself. The URLs of other databases
  are accepted as they are, and the paths of the remaining settings (metrics, API, administration, ACME, logs) are not
  looked at.
\<close>

theorem validate_config_iff:
  "validate_config config = Inr config' \<longleftrightarrow>
     config' = config \<and> config_database_url config \<noteq> ''sqlite::memory:'' \<and>
     trim (configured_chroot_dir config) \<noteq> [] \<and> prefix ''/'' (configured_chroot_dir config) \<and>
     list_all (lies_in (path_names [] (configured_chroot_dir config))) (config_paths config)"
proof (cases "parse_chroot_dir (configured_chroot_dir config)")
  case (Inl e)
  then have "effective_chroot_dir config = Inl e" by (simp add: effective_chroot_dir_def configured_chroot_dir_def)
  moreover have "\<not> (trim (configured_chroot_dir config) \<noteq> [] \<and> prefix ''/'' (configured_chroot_dir config))"
    using Inl parse_chroot_dir_iff [of "configured_chroot_dir config"] by auto
  ultimately show ?thesis by (auto simp: validate_config_def)
next
  case (Inr chroot)
  let ?cs = "path_names [] (configured_chroot_dir config)" and ?dir = "render_path chroot"
  have dir: "effective_chroot_dir config = Inr ?dir" using Inr by (simp add: effective_chroot_dir_def configured_chroot_dir_def)
  have c: "chroot = abs_path ?cs" "trim (configured_chroot_dir config) \<noteq> []" "prefix ''/'' (configured_chroot_dir config)"
    using Inr parse_chroot_dir_iff [of "configured_chroot_dir config"] by auto
  have "parse_chroot_dir ?dir = Inr (abs_path ?cs)" using rendered_dir [OF Inr] c(1) by simp
  note inside = resolve_host_iff [OF this]
  show ?thesis using dir c(2,3)
    by (auto simp: validate_config_def config_paths_def validate_sqlite_path_iff validate_listener_tls_paths_iff
        validate_control_socket_path_iff inside split: option.splits)
qed

subsection \<open>Instances\<close>

text \<open>Paths in the default directory, and a configuration that sets nothing.\<close>

lemma default_dir_paths:
  "resolve_path_for_chroot_host ''tls/cert.pem'' default_chroot_dir = Inr ''/var/lib/dns-filter/tls/cert.pem''"
  "resolve_path_for_chroot_host ''tls/key.pem'' default_chroot_dir = Inr ''/var/lib/dns-filter/tls/key.pem''"
  "resolve_path_for_chroot_host default_control_socket_path default_chroot_dir = Inr ''/var/lib/dns-filter/run/dns-filter.sock''"
  "resolve_path_for_chroot_runtime default_control_socket_path default_chroot_dir = Inr ''/run/dns-filter.sock''"
  "resolve_path_for_chroot_runtime ''/var/lib/dns-filter/tls/cert.pem'' default_chroot_dir = Inr ''/tls/cert.pem''"
  "resolve_path_for_chroot_runtime ''acme/cert.pem'' default_chroot_dir = Inr ''/acme/cert.pem''"
  "resolve_path_for_chroot_runtime ''acme/key.pem'' default_chroot_dir = Inr ''/acme/key.pem''"
  "resolve_path_for_chroot_runtime ''acme/account.json'' default_chroot_dir = Inr ''/acme/account.json''"
  "sqlite_url_for_chroot_runtime default_database_url default_chroot_dir = Inr ''sqlite:///db/dns-filter.db''"
  by code_simp+

lemma empty_config_paths:
  "effective_chroot_dir empty_config = Inr default_chroot_dir"
  "validate_sqlite_path empty_config default_chroot_dir = Inr ()"
  "validate_control_socket_path empty_config default_chroot_dir = Inr ()"
  by code_simp+

end
