(* ===== verification/RustNet.thy ===== *)
theory RustNet
  imports RustStd
begin

text \<open>
  The parts of Rust's standard library that the network clients use: printing of addresses
  (\<open>Display\<close> of \<open>Ipv4Addr\<close>, \<open>Ipv6Addr\<close>, \<open>IpAddr\<close> and \<open>SocketAddr\<close>), \<open>rsplit_once\<close>, parsing of a port, and the
  facts that relate printing to the parsers of \<open>RustStd\<close>.
\<close>

subsection \<open>Strings\<close>

definition rsplit_once :: "string \<Rightarrow> char \<Rightarrow> (string \<times> string) option" where
  "rsplit_once s c = map_option (\<lambda>(a, b). (rev b, rev a)) (split_at_char c (rev s))"

definition parse_u16 :: "string \<Rightarrow> u16 option" where
  "parse_u16 s = map_option word_of_int (parse_unsigned (2 ^ 16 - 1) s)"

definition is_ascii_alphanumeric :: "char \<Rightarrow> bool" where
  "is_ascii_alphanumeric c \<longleftrightarrow> is_ascii_alpha c \<or> is_ascii_digit c"

subsection \<open>Printing of addresses\<close>

definition ipv4_octets :: "ipv4_addr \<Rightarrow> int list" where
  "ipv4_octets a =
     (let n = uint a in [n div 16777216, n div 65536 mod 256, n div 256 mod 256, n mod 256])"

definition show_ipv4 :: "ipv4_addr \<Rightarrow> string" where
  "show_ipv4 a = join_char (CHR ''.'') (map show_nat (ipv4_octets a))"

definition ipv6_groups :: "ipv6_addr \<Rightarrow> int list" where
  "ipv6_groups a = map (\<lambda>i. uint a div 65536 ^ i mod 65536) [7, 6, 5, 4, 3, 2, 1, 0]"

definition show_hex16 :: "int \<Rightarrow> string" where
  "show_hex16 n =
     map (\<lambda>d. char_of (if d < 10 then 48 + d else 87 + d))
       (dropWhile (\<lambda>d. d = 0) [n div 4096 mod 16, n div 256 mod 16, n div 16 mod 16] @ [n mod 16])"

text \<open>The longest run of zero groups, the first one of equal length: its start and its length.\<close>

fun zero_run :: "nat \<Rightarrow> nat \<times> nat \<Rightarrow> nat \<times> nat \<Rightarrow> int list \<Rightarrow> nat \<times> nat" where
  "zero_run i current longest [] = longest"
| "zero_run i current longest (g # gs) =
     (if g = 0 then
        (let current = (if snd current = 0 then i else fst current, Suc (snd current))
         in zero_run (Suc i) current (if snd current > snd longest then current else longest) gs)
      else zero_run (Suc i) (0, 0) longest gs)"

definition to_ipv4_mapped :: "ipv6_addr \<Rightarrow> ipv4_addr option" where
  "to_ipv4_mapped a =
     (if uint a div 2 ^ 32 = 65535 then Some (word_of_int (uint a mod 2 ^ 32)) else None)"

definition show_ipv6 :: "ipv6_addr \<Rightarrow> string" where
  "show_ipv6 a =
     (case to_ipv4_mapped a of
        Some v4 \<Rightarrow> ''::ffff:'' @ show_ipv4 v4
      | None \<Rightarrow>
          (let gs = map show_hex16 (ipv6_groups a) in
           case zero_run 0 (0, 0) (0, 0) (ipv6_groups a) of (start, len) \<Rightarrow>
             if len > 1
             then join_char (CHR '':'') (take start gs) @ ''::'' @ join_char (CHR '':'') (drop (start + len) gs)
             else join_char (CHR '':'') gs))"

fun show_ip :: "ip_addr \<Rightarrow> string" where
  "show_ip (V4 a) = show_ipv4 a"
| "show_ip (V6 a) = show_ipv6 a"

definition show_port :: "u16 \<Rightarrow> string" where
  "show_port p = show_nat (uint p)"

fun show_socket_addr :: "socket_addr \<Rightarrow> string" where
  "show_socket_addr (SocketV4 a p) = show_ipv4 a @ '':'' @ show_port p"
| "show_socket_addr (SocketV6 a p scope) =
     ''['' @ show_ipv6 a @ (if scope = 0 then [] else ''%'' @ show_nat (uint scope)) @ '']:'' @ show_port p"

fun socket_ip :: "socket_addr \<Rightarrow> ip_addr" where
  "socket_ip (SocketV4 a _) = V4 a"
| "socket_ip (SocketV6 a _ _) = V6 a"

fun is_ipv4 :: "ip_addr \<Rightarrow> bool" where
  "is_ipv4 (V4 _) = True"
| "is_ipv4 (V6 _) = False"

subsection \<open>What is printed is read back\<close>

definition no_digit :: "string \<Rightarrow> bool" where
  "no_digit s \<longleftrightarrow> (case s of [] \<Rightarrow> True | c # _ \<Rightarrow> digit_of 10 c = None)"

lemma digit_of_char: "0 \<le> d \<Longrightarrow> d < 10 \<Longrightarrow> digit_of 10 (char_of (48 + d)) = Some d"
  by (simp add: digit_of_def Let_def)

lemma show_nat_decimal:
  assumes "0 \<le> n"
  shows "\<exists>ds. show_nat n = map (\<lambda>d. char_of (48 + d)) ds \<and> list_all (\<lambda>d. 0 \<le> d \<and> d < 10) ds \<and>
    foldl (\<lambda>n d. 10 * n + d) 0 ds = n \<and> ds \<noteq> [] \<and> (length ds = 1 \<or> hd ds \<noteq> 0 \<and> 10 ^ (length ds - 1) \<le> n)"
  using assms
proof (induction n rule: show_nat.induct)
  case (1 n)
  show ?case
  proof (cases "n < 10")
    case True
    then show ?thesis using 1(2) by (intro exI [of _ "[n]"]) (simp add: show_nat.simps [of n])
  next
    case False
    then obtain ds where ds: "show_nat (n div 10) = map (\<lambda>d. char_of (48 + d)) ds"
        "list_all (\<lambda>d. 0 \<le> d \<and> d < 10) ds" "foldl (\<lambda>n d. 10 * n + d) 0 ds = n div 10" "ds \<noteq> []"
        "length ds = 1 \<or> hd ds \<noteq> 0 \<and> 10 ^ (length ds - 1) \<le> n div 10"
      using "1.IH" [OF False] "1.prems" pos_imp_zdiv_nonneg_iff [of 10 n] by force
    have "10 * 10 ^ (length ds - 1) \<le> n" using ds(5) False by auto
    moreover have "(10 :: int) ^ length ds = 10 * 10 ^ (length ds - 1)"
      using ds(4) by (cases ds) auto
    moreover have "hd ds \<noteq> 0"
    proof (cases "length ds = 1")
      case True
      then have "ds = [n div 10]" using ds(3) by (auto simp: length_Suc_conv)
      then show ?thesis using False by auto
    qed (use ds(5) in auto)
    ultimately show ?thesis using ds False
      by (intro exI [of _ "ds @ [n mod 10]"]) (auto simp: show_nat.simps [of n])
  qed
qed

lemma take_digits_chars:
  "list_all (\<lambda>d. 0 \<le> d \<and> d < 10) ds \<Longrightarrow> no_digit r \<Longrightarrow>
    take_digits 10 (map (\<lambda>d. char_of (48 + d)) ds @ r) = (ds, r)"
proof (induction ds)
  case Nil
  then show ?case by (cases r) (auto simp: no_digit_def)
qed (simp add: digit_of_char)

lemma read_number_show_nat:
  assumes "0 \<le> n" and "n < limit" and "no_digit r" and "case md of None \<Rightarrow> True | Some m \<Rightarrow> n < 10 ^ m \<and> 0 < m"
  shows "read_number 10 md z limit (show_nat n @ r) = Some (n, r)"
proof -
  obtain ds where ds: "show_nat n = map (\<lambda>d. char_of (48 + d)) ds" "list_all (\<lambda>d. 0 \<le> d \<and> d < 10) ds"
      "foldl (\<lambda>n d. 10 * n + d) 0 ds = n" "ds \<noteq> []" "length ds = 1 \<or> hd ds \<noteq> 0 \<and> 10 ^ (length ds - 1) \<le> n"
    using show_nat_decimal [OF assms(1)] by blast
  have len: "length ds \<le> m" if "md = Some m" for m
  proof (cases "length ds = 1")
    case False
    then have "10 ^ (length ds - 1) \<le> n" and "n < 10 ^ m" using ds(5) assms(4) that by auto
    then have "(10 :: int) ^ (length ds - 1) < 10 ^ m" by (rule le_less_trans)
    then have "length ds - 1 < m" using power_less_imp_less_exp [of "10 :: int"] by simp
    then show ?thesis by simp
  qed (use assms(4) that in auto)
  then show ?thesis
    using take_digits_chars [OF ds(2) assms(3)] ds assms(2)
    by (auto simp: read_number_def Let_def split: option.split dest: len)
qed

lemma no_digit_sep [simp]: "no_digit []" "no_digit (CHR ''.'' # r)" "no_digit (CHR '':'' # r)" "no_digit (CHR '']'' # r)"
  by (simp_all add: no_digit_def digit_of_def)

lemma ipv4_octets_bounds: "list_all (\<lambda>g. 0 \<le> g \<and> g < 256) (ipv4_octets a)"
proof -
  have "uint a < 2 ^ 32" using unsigned_less [of a] by simp
  then show ?thesis by (auto simp: ipv4_octets_def Let_def pos_imp_zdiv_nonneg_iff)
qed

lemma ipv4_of_octets_octets [simp]: "ipv4_of_octets (ipv4_octets a) = a"
proof -
  have "foldl (\<lambda>n g. 256 * n + g) 0 (ipv4_octets a) = uint a"
  proof -
    have "uint a div 65536 * 256 + uint a div 256 mod 256 = uint a div 256"
      and "uint a div 16777216 * 256 + uint a div 65536 mod 256 = uint a div 65536"
      and "uint a div 256 * 256 + uint a mod 256 = uint a"
      using div_mult_mod_eq [of "uint a div 256" 256] div_mult_mod_eq [of "uint a div 256 div 256" 256]
      by (simp_all flip: zdiv_zmult2_eq)
    then show ?thesis unfolding ipv4_octets_def Let_def by (simp add: algebra_simps)
  qed
  then show ?thesis by (simp add: ipv4_of_octets_def)
qed

lemma read_ipv4_show: "no_digit r \<Longrightarrow> read_ipv4_addr (show_ipv4 a @ r) = Some (ipv4_octets a, r)"
proof -
  assume r: "no_digit r"
  obtain g1 g2 g3 g4 where g: "ipv4_octets a = [g1, g2, g3, g4]" by (auto simp: ipv4_octets_def Let_def)
  then have "list_all (\<lambda>g. 0 \<le> g \<and> g < 256) [g1, g2, g3, g4]" using ipv4_octets_bounds [of a] by simp
  then show ?thesis
    using r by (simp add: read_ipv4_addr_def show_ipv4_def g eval_nat_numeral read_separator_def read_number_show_nat)
qed

lemma parse_ip_show_v4 [simp]: "parse_ip_addr (show_ipv4 a) = Some (V4 a)"
  using read_ipv4_show [of "[]" a] by (simp add: parse_ip_addr_def parse_with_def)

lemma show_ipv4_first: "\<exists>c s. show_ipv4 a = c # s \<and> is_ascii_digit c"
proof -
  obtain g gs where g: "ipv4_octets a = g # gs" "0 \<le> g"
    using ipv4_octets_bounds [of a] by (auto simp: ipv4_octets_def Let_def)
  obtain ds :: "int list" where ds: "show_nat g = map (\<lambda>d. char_of (48 + d)) ds"
      "list_all (\<lambda>d. 0 \<le> d \<and> d < 10) ds" "ds \<noteq> []"
    using show_nat_decimal [OF g(2)] by blast
  then obtain d ds' where "ds = d # ds'" by (cases ds) auto
  then show ?thesis using ds digit_char(1) [of d] g by (cases gs) (auto simp: show_ipv4_def)
qed

lemma parse_socket_show_v4 [simp]:
  "parse_socket_addr (show_ipv4 a @ CHR '':'' # show_port p) = Some (SocketV4 a p)"
  "parse_socket_addr (show_ipv4 a) = None"
proof -
  have "read_number 10 None True 65536 (show_nat (uint p) @ []) = Some (uint p, [])"
    using unsigned_less [of p] by (intro read_number_show_nat) auto
  then show "parse_socket_addr (show_ipv4 a @ CHR '':'' # show_port p) = Some (SocketV4 a p)"
    by (simp add: parse_socket_addr_def parse_with_def read_socket_v4_def read_ipv4_show read_port_def show_port_def)
  have "read_given_char (CHR ''['') (show_ipv4 a) = None"
    using show_ipv4_first [of a] by (auto simp: is_ascii_digit_def Let_def)
  then show "parse_socket_addr (show_ipv4 a) = None"
    using read_ipv4_show [of "[]" a]
    by (simp add: parse_socket_addr_def parse_with_def read_socket_v4_def read_socket_v6_def read_port_def)
qed

lemma parse_u16_show [simp]: "parse_u16 (show_port p) = Some p"
proof -
  have "uint p < 2 ^ 16" using unsigned_less [of p] by simp
  then show ?thesis by (simp add: parse_u16_def show_port_def parse_unsigned_show_nat)
qed

lemma rsplit_once_last: "c \<notin> set b \<Longrightarrow> rsplit_once (a @ c # b) c = Some (a, b)"
proof -
  assume "c \<notin> set b"
  then have "split_at_char c (rev b @ c # rev a) = Some (rev b, rev a)" by (simp add: split_at_char_Some)
  then show ?thesis by (simp add: rsplit_once_def)
qed

text \<open>Visible ASCII: what addresses and host names consist of.\<close>

definition visible :: "char \<Rightarrow> bool" where
  "visible c \<longleftrightarrow> (let n = (of_char c :: int) in 33 \<le> n \<and> n \<le> 126)"

lemma trim_visible: "list_all visible s \<Longrightarrow> trim s = s"
  by (intro trim_ws_free ws_free_no_lead) (auto simp: list_all_iff visible_def Let_def dest!: ws_lead_range)

lemma digit_visible [simp]: "is_ascii_digit c \<Longrightarrow> visible c"
  by (auto simp: is_ascii_digit_def visible_def Let_def)

lemma show_nat_visible [simp]: "0 \<le> n \<Longrightarrow> list_all visible (show_nat n)"
  using show_nat_digits [of n] by (auto simp: list_all_iff)

lemma show_ipv4_chars: "0 \<le> n \<Longrightarrow> c \<in> set (show_nat n) \<Longrightarrow> is_ascii_digit c"
  "c \<in> set (show_ipv4 a) \<Longrightarrow> is_ascii_digit c \<or> c = CHR ''.''"
proof -
  show nat: "is_ascii_digit c" if "0 \<le> n" "c \<in> set (show_nat n)" for n
    using show_nat_digits [OF that(1)] that(2) by (simp add: list_all_iff)
  assume "c \<in> set (show_ipv4 a)"
  moreover obtain g1 g2 g3 g4 where "ipv4_octets a = [g1, g2, g3, g4]" "0 \<le> g1" "0 \<le> g2" "0 \<le> g3" "0 \<le> g4"
    using ipv4_octets_bounds [of a] by (auto simp: ipv4_octets_def Let_def)
  ultimately show "is_ascii_digit c \<or> c = CHR ''.''" using nat by (auto simp: show_ipv4_def)
qed

lemma show_addr_visible:
  "list_all visible (show_ipv4 a)" "list_all visible (show_port p)"
proof -
  have "visible (CHR ''.'')" by (simp add: visible_def)
  then show "list_all visible (show_ipv4 a)"
    using digit_visible show_ipv4_chars(2) by (fastforce simp: list_all_iff)
qed (simp add: show_port_def)

lemma show_port_no_sep [simp]: "CHR '':'' \<notin> set (show_port p)" "CHR ''/'' \<notin> set (show_port p)"
proof -
  have "\<not> is_ascii_digit (CHR '':'')" "\<not> is_ascii_digit (CHR ''/'')" by (simp_all add: is_ascii_digit_def)
  then show "CHR '':'' \<notin> set (show_port p)" "CHR ''/'' \<notin> set (show_port p)"
    using show_ipv4_chars(1) [of "uint p"] by (auto simp: show_port_def)
qed

end
