(* ===== verification/Listeners.thy ===== *)
theory Listeners
  imports ChrootPaths RustNet
begin

text \<open>
  The listeners: addresses and sockets (\<open>src/interface_adapters/listeners/mod.rs\<close>), certificates and their alternative
  names (\<open>tls.rs\<close>), the metrics endpoint (\<open>metrics.rs\<close>), and the part of \<open>main.rs\<close> that binds and registers the
  listeners of the DNS server.

  The parameter \<open>listen_env\<close> is what lies outside: system calls on sockets, files, the generator and the loader of
  certificates, the host name and the network interfaces, and the registration with the DNS library. The state \<open>'o\<close> is
  the operating system. An \<open>exit\<close> of the program is an error of the start, as a value.
\<close>

section \<open>Addresses and sockets\<close>

datatype tls_setup_error = CertGeneration string | CertLoad string | TlsConfiguration string

datatype listener_setup_error =
    InvalidAddress string
  | SetupBindFailed string socket_addr string
  | Tls tls_setup_error
  | Registration string

abbreviation TlsCertGeneration :: "string \<Rightarrow> listener_setup_error" where
  "TlsCertGeneration \<equiv> \<lambda>e. Tls (CertGeneration e)"

abbreviation TlsCertLoad :: "string \<Rightarrow> listener_setup_error" where
  "TlsCertLoad \<equiv> \<lambda>e. Tls (CertLoad e)"

abbreviation TlsSettings :: "string \<Rightarrow> listener_setup_error" where
  "TlsSettings \<equiv> \<lambda>e. Tls (TlsConfiguration e)"

fun parse_bind_addrs :: "string list \<Rightarrow> u16 \<Rightarrow> listener_setup_error + socket_addr list" where
  "parse_bind_addrs [] port = Inr []"
| "parse_bind_addrs (addr # addrs) port =
     (let raw = (if CHR '':'' \<in> set addr then ''['' @ addr @ '']:'' @ show_port port else addr @ '':'' @ show_port port)
      in res_bind (ok_or (InvalidAddress raw) (parse_socket_addr raw)) (\<lambda>parsed.
         res_bind (parse_bind_addrs addrs port) (\<lambda>rest. Inr (parsed # rest))))"

fun is_v6 :: "socket_addr \<Rightarrow> bool" where
  "is_v6 (SocketV4 _ _) = False"
| "is_v6 (SocketV6 _ _ _) = True"

datatype socket_kind = Dgram | StreamSocket

text \<open>The calls on the socket that is being set up.\<close>

datatype socket_call =
    NewSocket bool socket_kind
  | SetReuseAddress
  | SetOnlyV6
  | BindTo socket_addr
  | ListenOn nat
  | SetNonblocking
  | FromStd

definition configure_socket :: "socket_addr \<Rightarrow> socket_call list" where
  "configure_socket addr = SetReuseAddress # (if is_v6 addr then [SetOnlyV6] else [])"

definition bind_udp_std :: "socket_addr \<Rightarrow> socket_call list" where
  "bind_udp_std addr = NewSocket (is_v6 addr) Dgram # configure_socket addr @ [BindTo addr]"

definition bind_tcp_std :: "socket_addr \<Rightarrow> socket_call list" where
  "bind_tcp_std addr = NewSocket (is_v6 addr) StreamSocket # configure_socket addr @ [BindTo addr, ListenOn 1024]"

definition bind_udp_tokio :: "socket_addr \<Rightarrow> socket_call list" where
  "bind_udp_tokio addr = bind_udp_std addr @ [SetNonblocking, FromStd]"

definition bind_tcp_tokio :: "socket_addr \<Rightarrow> socket_call list" where
  "bind_tcp_tokio addr = bind_tcp_std addr @ [SetNonblocking, FromStd]"

section \<open>Certificates\<close>

datatype san_type = SanDnsName string | SanIpAddress ip_addr

record 'o listen_env =
  le_socket :: "socket_call \<Rightarrow> 'o \<Rightarrow> (string + unit) \<times> 'o"
  le_exists :: "string \<Rightarrow> 'o \<Rightarrow> bool"
  le_parent :: "string \<Rightarrow> string option"
  le_create_dir_all :: "string \<Rightarrow> 'o \<Rightarrow> (string + unit) \<times> 'o"
  le_write :: "string \<Rightarrow> string \<Rightarrow> 'o \<Rightarrow> (string + unit) \<times> 'o"
  le_read :: "string \<Rightarrow> 'o \<Rightarrow> string + string"
  le_generate_key :: "'o \<Rightarrow> (string + string) \<times> 'o"
  le_self_signed :: "san_type list \<Rightarrow> string \<Rightarrow> string + string"
  le_certs :: "string \<Rightarrow> string + string list"
  le_private_key :: "string \<Rightarrow> string + string option"
  le_protocol_versions :: "string + unit"
  le_single_cert :: "string list \<Rightarrow> string \<Rightarrow> string + unit"
  le_hostname :: "string option"
  le_ifaddrs :: "(bool \<times> ip_addr option) list option"
  le_lowercase :: "string \<Rightarrow> string"
  le_is_ia5 :: "string \<Rightarrow> bool"
  le_register :: "string \<Rightarrow> socket_addr \<Rightarrow> 'o \<Rightarrow> (string + unit) \<times> 'o"

fun is_unspecified :: "ip_addr \<Rightarrow> bool" where
  "is_unspecified (V4 a) = (a = 0)"
| "is_unspecified (V6 a) = (a = 0)"

record san_state =
  sn_sans :: "san_type list"
  sn_ips :: "ip_addr set"
  sn_dns :: "string set"

definition add_ip :: "ip_addr \<Rightarrow> san_state \<Rightarrow> san_state" where
  "add_ip ip s =
     (if is_unspecified ip \<or> ip \<in> sn_ips s then s
      else s\<lparr>sn_ips := insert ip (sn_ips s), sn_sans := sn_sans s @ [SanIpAddress ip]\<rparr>)"

definition add_dns :: "'o listen_env \<Rightarrow> string \<Rightarrow> san_state \<Rightarrow> san_state" where
  "add_dns E name s =
     (let key = le_lowercase E name in
      if key \<in> sn_dns s then s
      else let s = s\<lparr>sn_dns := insert key (sn_dns s)\<rparr> in
        if le_is_ia5 E name then s\<lparr>sn_sans := sn_sans s @ [SanDnsName name]\<rparr> else s)"

definition add_interface :: "bool \<times> ip_addr option \<Rightarrow> san_state \<Rightarrow> san_state" where
  "add_interface ifaddr s =
     (case ifaddr of (loopback, addr) \<Rightarrow> if loopback then s else case addr of Some ip \<Rightarrow> add_ip ip s | None \<Rightarrow> s)"

definition add_extra :: "'o listen_env \<Rightarrow> string \<Rightarrow> san_state \<Rightarrow> san_state" where
  "add_extra E extra s =
     (let trimmed = trim extra in
      if trimmed = [] then s
      else case parse_ip_addr trimmed of Some ip \<Rightarrow> add_ip ip s | None \<Rightarrow> add_dns E trimmed s)"

definition collect_sans :: "'o listen_env \<Rightarrow> string list \<Rightarrow> san_type list" where
  "collect_sans E extra_sans =
     (let s = add_dns E ''localhost'' \<lparr>sn_sans = [], sn_ips = {}, sn_dns = {}\<rparr>;
          s = add_ip (V4 0x7F000001) s;
          s = add_ip (V6 1) s;
          s = (case le_hostname E of Some name \<Rightarrow> if name \<noteq> [] then add_dns E name s else s | None \<Rightarrow> s);
          s = (case le_ifaddrs E of Some ifs \<Rightarrow> fold add_interface ifs s | None \<Rightarrow> s);
          s = fold (add_extra E) extra_sans s
      in sn_sans s)"

text \<open>Calls in sequence, with the error of the first that fails.\<close>

definition then_do :: "('e + 'a) \<times> 'o \<Rightarrow> ('e \<Rightarrow> 'f) \<Rightarrow> ('a \<Rightarrow> 'o \<Rightarrow> ('f + 'b) \<times> 'o) \<Rightarrow> ('f + 'b) \<times> 'o" where
  "then_do r err k = (case r of (Inl e, os) \<Rightarrow> (Inl (err e), os) | (Inr a, os) \<Rightarrow> k a os)"

definition make_parent :: "'o listen_env \<Rightarrow> string \<Rightarrow> 'o \<Rightarrow> (string + unit) \<times> 'o" where
  "make_parent E path os = (case le_parent E path of Some parent \<Rightarrow> le_create_dir_all E parent os | None \<Rightarrow> (Inr (), os))"

definition autogenerate_tls_cert_if_missing ::
  "'o listen_env \<Rightarrow> string \<Rightarrow> string \<Rightarrow> string list \<Rightarrow> 'o \<Rightarrow> (listener_setup_error + unit) \<times> 'o" where
  "autogenerate_tls_cert_if_missing E cert_path key_path extra_sans os =
     (if le_exists E cert_path os \<and> le_exists E key_path os then (Inr (), os)
      else
        (let sans = collect_sans E extra_sans in
         then_do (le_generate_key E os) TlsCertGeneration (\<lambda>key_pem os.
         then_do (le_self_signed E sans key_pem, os) TlsCertGeneration (\<lambda>cert_pem os.
         then_do (make_parent E cert_path os) TlsCertGeneration (\<lambda>_ os.
         then_do (make_parent E key_path os) TlsCertGeneration (\<lambda>_ os.
         then_do (le_write E cert_path cert_pem os) TlsCertGeneration (\<lambda>_ os.
         then_do (le_write E key_path key_pem os) TlsCertGeneration (\<lambda>_ os. (Inr (), os)))))))))"

text \<open>A server configuration: its certificates (none for the shared resolver of ACME) and protocols.\<close>

record server_config =
  sv_certificates :: "(string list \<times> string) option"
  sv_alpn :: "string list"

definition build_tls_server_config :: "'o listen_env \<Rightarrow> string \<Rightarrow> string \<Rightarrow> 'o \<Rightarrow> listener_setup_error + server_config" where
  "build_tls_server_config E cert_path key_path os =
     res_bind (map_err TlsCertLoad (le_read E cert_path os)) (\<lambda>cert_file.
     res_bind (map_err TlsCertLoad (le_read E key_path os)) (\<lambda>key_file.
     res_bind (map_err TlsCertLoad (le_certs E cert_file)) (\<lambda>cert_chain.
     if cert_chain = [] then Inl (TlsCertLoad ''certificate file contains no certificates'')
     else res_bind (map_err TlsCertLoad (le_private_key E key_file)) (\<lambda>key.
       res_bind (ok_or (TlsCertLoad ''key file contains no private key'') key) (\<lambda>key.
       res_bind (map_err TlsSettings (le_protocol_versions E)) (\<lambda>_.
       res_bind (map_err TlsSettings (le_single_cert E cert_chain key)) (\<lambda>_.
       Inr \<lparr>sv_certificates = Some (cert_chain, key), sv_alpn = []\<rparr>)))))))"

definition build_tls_config_plain ::
  "'o listen_env \<Rightarrow> tls_config \<Rightarrow> string list \<Rightarrow> 'o \<Rightarrow> (listener_setup_error + server_config) \<times> 'o" where
  "build_tls_config_plain E tls extra_sans os =
     then_do
       (case tls_autogenerate tls of
          Some True \<Rightarrow> autogenerate_tls_cert_if_missing E (tls_cert_path tls) (tls_key_path tls) extra_sans os
        | _ \<Rightarrow> (Inr (), os)) id (\<lambda>_ os.
     (build_tls_server_config E (tls_cert_path tls) (tls_key_path tls) os, os))"

definition build_tls_config_with_alpn ::
  "'o listen_env \<Rightarrow> tls_config \<Rightarrow> string list \<Rightarrow> string \<Rightarrow> 'o \<Rightarrow> (listener_setup_error + server_config) \<times> 'o" where
  "build_tls_config_with_alpn E tls extra_sans alpn os =
     (case build_tls_config_plain E tls extra_sans os of (r, os) \<Rightarrow> (map_ok (\<lambda>c. c\<lparr>sv_alpn := [alpn]\<rparr>) r, os))"

definition build_tls_config_for_https ::
  "'o listen_env \<Rightarrow> tls_config \<Rightarrow> string list \<Rightarrow> 'o \<Rightarrow> (listener_setup_error + server_config) \<times> 'o" where
  "build_tls_config_for_https E tls extra_sans os =
     (case build_tls_config_plain E tls extra_sans os of (r, os) \<Rightarrow> (map_ok (\<lambda>c. c\<lparr>sv_alpn := [''h2'', ''http/1.1'']\<rparr>) r, os))"

definition build_tls_server_config_with_resolver :: "'o listen_env \<Rightarrow> listener_setup_error + server_config" where
  "build_tls_server_config_with_resolver E =
     map_ok (\<lambda>_. \<lparr>sv_certificates = None, sv_alpn = []\<rparr>) (map_err TlsSettings (le_protocol_versions E))"

definition build_tls_config_with_resolver_alpn :: "'o listen_env \<Rightarrow> string \<Rightarrow> listener_setup_error + server_config" where
  "build_tls_config_with_resolver_alpn E alpn =
     map_ok (\<lambda>c. c\<lparr>sv_alpn := [alpn]\<rparr>) (build_tls_server_config_with_resolver E)"

definition build_tls_config_with_resolver_https :: "'o listen_env \<Rightarrow> listener_setup_error + server_config" where
  "build_tls_config_with_resolver_https E =
     map_ok (\<lambda>c. c\<lparr>sv_alpn := [''h2'', ''http/1.1'']\<rparr>) (build_tls_server_config_with_resolver E)"

definition build_tls_config_with_resolver_plain :: "'o listen_env \<Rightarrow> listener_setup_error + server_config" where
  "build_tls_config_with_resolver_plain E = build_tls_server_config_with_resolver E"

section \<open>The listeners of the DNS server\<close>

datatype registered =
    UdpListener socket_addr
  | TcpListener socket_addr
  | TlsListener socket_addr server_config
  | HttpsListener socket_addr server_config string
  | QuicListener socket_addr server_config

datatype start_error =
    NoDnsListener
  | BadAddresses string listener_setup_error
  | BadTlsPath string path_error
  | TlsFailed string listener_setup_error
  | BindFailed string socket_addr
  | RegisterFailed string socket_addr

fun run_socket :: "'o listen_env \<Rightarrow> socket_call list \<Rightarrow> 'o \<Rightarrow> (string + unit) \<times> 'o" where
  "run_socket E [] os = (Inr (), os)"
| "run_socket E (c # cs) os = then_do (le_socket E c os) id (\<lambda>_ os. run_socket E cs os)"

text \<open>The listeners registered so far are threaded through, with the operating system.\<close>

fun register_dns_listeners ::
  "'o listen_env \<Rightarrow> socket_addr list \<Rightarrow> registered list \<Rightarrow> 'o \<Rightarrow> (start_error + registered list) \<times> 'o" where
  "register_dns_listeners E [] server os = (Inr server, os)"
| "register_dns_listeners E (addr # addrs) server os =
     then_do (run_socket E (bind_udp_tokio addr) os) (\<lambda>_. BindFailed ''UDP'' addr) (\<lambda>_ os.
     then_do (run_socket E (bind_tcp_tokio addr) os) (\<lambda>_. BindFailed ''TCP'' addr) (\<lambda>_ os.
     register_dns_listeners E addrs (server @ [UdpListener addr, TcpListener addr]) os))"

text \<open>What differs between the encrypted listeners.\<close>

datatype encrypted = Dot | Doh | Doq

fun encrypted_name :: "encrypted \<Rightarrow> string" where
  "encrypted_name Dot = ''DoT''" | "encrypted_name Doh = ''DoH''" | "encrypted_name Doq = ''DoQ''"

fun acme_tls :: "'o listen_env \<Rightarrow> encrypted \<Rightarrow> listener_setup_error + server_config" where
  "acme_tls E Dot = build_tls_config_with_resolver_alpn E ''dot''"
| "acme_tls E Doh = build_tls_config_with_resolver_https E"
| "acme_tls E Doq = build_tls_config_with_resolver_alpn E ''doq''"

fun own_alpn :: "encrypted \<Rightarrow> string" where
  "own_alpn Dot = ''dot''" | "own_alpn Doh = ''h2''" | "own_alpn Doq = ''doq''"

fun encrypted_socket :: "encrypted \<Rightarrow> socket_addr \<Rightarrow> socket_call list" where
  "encrypted_socket Doq addr = bind_udp_tokio addr"
| "encrypted_socket _ addr = bind_tcp_tokio addr"

fun encrypted_listener :: "encrypted \<Rightarrow> socket_addr \<Rightarrow> server_config \<Rightarrow> registered" where
  "encrypted_listener Dot addr c = TlsListener addr c"
| "encrypted_listener Doh addr c = HttpsListener addr c ''/dns-query''"
| "encrypted_listener Doq addr c = QuicListener addr c"

definition runtime_path :: "bool \<Rightarrow> string \<Rightarrow> string \<Rightarrow> path_error + string" where
  "runtime_path will_chroot path chroot_dir =
     (if will_chroot then resolve_path_for_chroot_runtime path chroot_dir else resolve_path_for_chroot_host path chroot_dir)"

definition runtime_tls :: "bool \<Rightarrow> string \<Rightarrow> string \<Rightarrow> tls_config \<Rightarrow> start_error + tls_config" where
  "runtime_tls will_chroot chroot_dir name tls =
     res_bind (map_err (BadTlsPath (name @ '' tls.cert_path'')) (runtime_path will_chroot (tls_cert_path tls) chroot_dir)) (\<lambda>cert_path.
     res_bind (map_err (BadTlsPath (name @ '' tls.key_path'')) (runtime_path will_chroot (tls_key_path tls) chroot_dir)) (\<lambda>key_path.
     Inr (tls\<lparr>tls_cert_path := cert_path, tls_key_path := key_path\<rparr>)))"

definition listener_tls ::
  "'o listen_env \<Rightarrow> bool \<Rightarrow> bool \<Rightarrow> string \<Rightarrow> encrypted \<Rightarrow> tls_socket_config \<Rightarrow> 'o \<Rightarrow> (start_error + server_config) \<times> 'o" where
  "listener_tls E acme will_chroot chroot_dir proto cfg os =
     (if acme then (map_err (TlsFailed (encrypted_name proto)) (acme_tls E proto), os)
      else then_do (runtime_tls will_chroot chroot_dir (encrypted_name proto) (ts_tls cfg), os) id (\<lambda>tls os.
        then_do (build_tls_config_with_alpn E tls (ts_addresses cfg) (own_alpn proto) os) (TlsFailed (encrypted_name proto)) (\<lambda>c os.
        (Inr c, os))))"

fun register_encrypted ::
  "'o listen_env \<Rightarrow> encrypted \<Rightarrow> server_config \<Rightarrow> socket_addr list \<Rightarrow> registered list \<Rightarrow> 'o \<Rightarrow>
   (start_error + registered list) \<times> 'o" where
  "register_encrypted E proto c [] server os = (Inr server, os)"
| "register_encrypted E proto c (addr # addrs) server os =
     then_do (run_socket E (encrypted_socket proto addr) os) (\<lambda>_. BindFailed (encrypted_name proto) addr) (\<lambda>_ os.
     then_do (le_register E (encrypted_name proto) addr os) (\<lambda>_. RegisterFailed (encrypted_name proto) addr) (\<lambda>_ os.
     register_encrypted E proto c addrs (server @ [encrypted_listener proto addr c]) os))"

definition start_encrypted ::
  "'o listen_env \<Rightarrow> bool \<Rightarrow> bool \<Rightarrow> string \<Rightarrow> encrypted \<Rightarrow> tls_socket_config option \<Rightarrow> registered list \<Rightarrow> 'o \<Rightarrow>
   (start_error + registered list) \<times> 'o" where
  "start_encrypted E acme will_chroot chroot_dir proto config server os =
     (case config of
        None \<Rightarrow> (Inr server, os)
      | Some cfg \<Rightarrow>
          if \<not> ts_enabled cfg then (Inr server, os)
          else then_do (parse_bind_addrs (ts_addresses cfg) (ts_port cfg), os) (BadAddresses (encrypted_name proto)) (\<lambda>addrs os.
            then_do (listener_tls E acme will_chroot chroot_dir proto cfg os) id (\<lambda>c os.
            register_encrypted E proto c addrs server os)))"

definition start_dns ::
  "'o listen_env \<Rightarrow> socket_config option \<Rightarrow> 'o \<Rightarrow> (start_error + registered list) \<times> 'o" where
  "start_dns E config os =
     (case config of
        Some cfg \<Rightarrow>
          if so_enabled cfg
          then then_do (parse_bind_addrs (so_addresses cfg) (so_port cfg), os) (BadAddresses ''DNS'') (\<lambda>addrs os.
            register_dns_listeners E addrs [] os)
          else (Inl NoDnsListener, os)
      | None \<Rightarrow> (Inl NoDnsListener, os))"

definition start_encrypted_listeners ::
  "'o listen_env \<Rightarrow> bool \<Rightarrow> bool \<Rightarrow> string \<Rightarrow> listen_config \<Rightarrow> registered list \<Rightarrow> 'o \<Rightarrow> (start_error + registered list) \<times> 'o" where
  "start_encrypted_listeners E acme will_chroot chroot_dir listen server os =
     then_do (start_encrypted E acme will_chroot chroot_dir Dot (ln_dot listen) server os) id (\<lambda>server os.
     then_do (start_encrypted E acme will_chroot chroot_dir Doh (ln_doh listen) server os) id (\<lambda>server os.
     start_encrypted E acme will_chroot chroot_dir Doq (ln_doq listen) server os))"

section \<open>The metrics endpoint\<close>

definition crlf :: string where "crlf = [CHR 0x0D, CHR 0x0A]"

definition http_text :: "string \<Rightarrow> string \<Rightarrow> string \<Rightarrow> string" where
  "http_text status content_type body =
     ''HTTP/1.1 '' @ status @ crlf @ ''Content-Type: '' @ content_type @ crlf @ ''Content-Length: '' @
     show_nat (int (length body)) @ crlf @ ''Connection: close'' @ crlf @ crlf @ body"

text \<open>\<open>collect_metrics\<close> is the argument; an error is an empty body.\<close>

definition metrics_response :: "string option \<Rightarrow> string \<Rightarrow> string" where
  "metrics_response metrics first_line =
     (if starts_with first_line ''GET /metrics '' \<or> first_line = ''GET /metrics''
      then http_text ''200 OK'' ''text/plain; version=0.0.4'' (case metrics of Some body \<Rightarrow> body | None \<Rightarrow> [])
      else http_text ''404 Not Found'' ''text/plain; charset=utf-8'' ''Not Found'')"

text \<open>A connection: what is read first (already decoded) and what is written, if anything.\<close>

definition metrics_connection :: "string option \<Rightarrow> string \<Rightarrow> string option" where
  "metrics_connection metrics received =
     (if received = [] then None
      else Some (metrics_response metrics (case str_lines received of [] \<Rightarrow> [] | line # _ \<Rightarrow> line)))"

section \<open>Alternative names\<close>

fun san_ips :: "san_type list \<Rightarrow> ip_addr list" where
  "san_ips [] = []"
| "san_ips (SanIpAddress ip # sans) = ip # san_ips sans"
| "san_ips (SanDnsName _ # sans) = san_ips sans"

fun san_names :: "san_type list \<Rightarrow> string list" where
  "san_names [] = []"
| "san_names (SanDnsName n # sans) = n # san_names sans"
| "san_names (SanIpAddress _ # sans) = san_names sans"

lemma san_append [simp]: "san_ips (a @ b) = san_ips a @ san_ips b" "san_names (a @ b) = san_names a @ san_names b"
  by (induction a rule: san_ips.induct) auto

lemma san_ips_set: "ip \<in> set (san_ips sans) \<longleftrightarrow> SanIpAddress ip \<in> set sans"
  by (induction sans rule: san_ips.induct) auto

text \<open>The sets of what was seen agree with the list, in which nothing is repeated.\<close>

definition san_inv :: "'o listen_env \<Rightarrow> san_state \<Rightarrow> bool" where
  "san_inv E s \<longleftrightarrow>
     sn_ips s = set (san_ips (sn_sans s)) \<and> distinct (san_ips (sn_sans s)) \<and> list_all (\<lambda>ip. \<not> is_unspecified ip) (san_ips (sn_sans s)) \<and>
     distinct (map (le_lowercase E) (san_names (sn_sans s))) \<and>
     le_lowercase E ` set (san_names (sn_sans s)) \<subseteq> sn_dns s"

text \<open>One step keeps the invariant and everything that was there.\<close>

definition san_step :: "'o listen_env \<Rightarrow> san_state \<Rightarrow> san_state \<Rightarrow> bool" where
  "san_step E s s' \<longleftrightarrow> (san_inv E s \<longrightarrow> san_inv E s') \<and> set (sn_sans s) \<subseteq> set (sn_sans s') \<and> sn_dns s \<subseteq> sn_dns s'"

lemma san_step_refl [simp]: "san_step E s s"
  by (simp add: san_step_def)

lemma san_step_trans: "san_step E s t \<Longrightarrow> san_step E t u \<Longrightarrow> san_step E s u"
  by (auto simp: san_step_def)

lemma add_ip_step: "san_step E s (add_ip ip s)"
  by (auto simp: san_step_def add_ip_def san_inv_def)

lemma add_dns_step: "san_step E s (add_dns E name s)"
  by (auto simp: san_step_def add_dns_def san_inv_def Let_def)

lemma fold_step: "(\<And>x s. san_step E s (f x s)) \<Longrightarrow> san_step E s (fold f xs s)"
  by (induction xs arbitrary: s) (auto intro: san_step_trans)

lemma add_extra_step: "san_step E s (add_extra E extra s)"
  using add_ip_step add_dns_step by (auto simp: add_extra_def Let_def split: option.split)

lemma add_interface_step: "san_step E s (add_interface i s)"
  using add_ip_step by (auto simp: add_interface_def split: option.split prod.split)

lemma fold_reaches: "(\<And>x s. san_step E s (f x s)) \<Longrightarrow> x \<in> set xs \<Longrightarrow> \<exists>s1 s2. san_step E s s1 \<and> s2 = f x s1 \<and> san_step E s2 (fold f xs s)"
proof (induction xs arbitrary: s)
  case (Cons y xs)
  show ?case
  proof (cases "x = y")
    case True
    have "san_step E (f y s) (fold f xs (f y s))" by (rule fold_step [OF Cons.prems(1)])
    then show ?thesis using True by (intro exI [of _ s] exI [of _ "f y s"]) simp
  next
    case False
    from Cons.IH [of "f y s"] Cons.prems False show ?thesis by (auto intro: san_step_trans)
  qed
qed simp

lemma add_ip_has: "\<not> is_unspecified ip \<Longrightarrow> san_inv E s \<Longrightarrow> SanIpAddress ip \<in> set (sn_sans (add_ip ip s))"
  by (auto simp: add_ip_def san_inv_def san_ips_set)

lemma san_inv_start: "san_inv E \<lparr>sn_sans = [], sn_ips = {}, sn_dns = {}\<rparr>"
  by (simp add: san_inv_def)

text \<open>
  The names in a certificate that the server generates for itself: no address and (up to case) no name occurs twice,
  no wildcard address occurs, the addresses of this machine are there, and so is every configured listener address
  except the wildcards.
\<close>

theorem certificate_names:
  shows "distinct (san_ips (collect_sans E extra)) \<and> distinct (map (le_lowercase E) (san_names (collect_sans E extra))) \<and>
    list_all (\<lambda>ip. \<not> is_unspecified ip) (san_ips (collect_sans E extra)) \<and>
    SanIpAddress (V4 0x7F000001) \<in> set (collect_sans E extra) \<and> SanIpAddress (V6 1) \<in> set (collect_sans E extra) \<and>
    (\<forall>a ip. a \<in> set extra \<and> parse_ip_addr (trim a) = Some ip \<and> \<not> is_unspecified ip \<longrightarrow> SanIpAddress ip \<in> set (collect_sans E extra))"
proof -
  define s0 where "s0 = add_dns E ''localhost'' \<lparr>sn_sans = [], sn_ips = {}, sn_dns = {}\<rparr>"
  define s1 where "s1 = add_ip (V4 0x7F000001) s0"
  define s2 where "s2 = add_ip (V6 1) s1"
  define s3 where "s3 = (case le_hostname E of Some name \<Rightarrow> if name \<noteq> [] then add_dns E name s2 else s2 | None \<Rightarrow> s2)"
  define s4 where "s4 = (case le_ifaddrs E of Some ifs \<Rightarrow> fold add_interface ifs s3 | None \<Rightarrow> s3)"
  define s5 where "s5 = fold (add_extra E) extra s4"
  have sans: "collect_sans E extra = sn_sans s5"
    unfolding collect_sans_def Let_def s5_def s4_def s3_def s2_def s1_def s0_def by (rule refl)
  have i0: "san_inv E s0" unfolding s0_def using san_inv_start add_dns_step by (metis san_step_def)
  have t1: "san_step E s0 s1" and t2: "san_step E s1 s2" unfolding s1_def s2_def by (rule add_ip_step)+
  have t3: "san_step E s2 s3" unfolding s3_def using add_dns_step by (auto split: option.split)
  have t4: "san_step E s3 s4" unfolding s4_def using fold_step [OF add_interface_step] by (auto split: option.split)
  have t5: "san_step E s4 s5" unfolding s5_def by (rule fold_step [OF add_extra_step])
  have i1: "san_inv E s1" and i4: "san_inv E s4" and i5: "san_inv E s5" using i0 t1 t2 t3 t4 t5 by (auto simp: san_step_def)
  have "SanIpAddress (V4 0x7F000001) \<in> set (sn_sans s1)" "SanIpAddress (V6 1) \<in> set (sn_sans s2)"
    unfolding s1_def s2_def using i0 i1 [unfolded s1_def] by (auto intro!: add_ip_has)
  moreover have "set (sn_sans s2) \<subseteq> set (sn_sans s5)" "set (sn_sans s1) \<subseteq> set (sn_sans s2)"
    using san_step_trans [OF san_step_trans [OF t3 t4] t5] t2 by (auto simp only: san_step_def)
  ultimately have local: "SanIpAddress (V4 0x7F000001) \<in> set (sn_sans s5)" "SanIpAddress (V6 1) \<in> set (sn_sans s5)" by blast+
  have "SanIpAddress ip \<in> set (sn_sans s5)"
    if "a \<in> set extra" "parse_ip_addr (trim a) = Some ip" "\<not> is_unspecified ip" for a ip
  proof -
    note given = that
    from fold_reaches [where f = "add_extra E" and E = E and s = s4, OF add_extra_step given(1)]
    obtain u v where u: "san_step E s4 u" "v = add_extra E a u" "san_step E v (fold (add_extra E) extra s4)"
      by (elim exE conjE)
    have "parse_ip_addr [] = None" by code_simp
    then have "trim a \<noteq> []" using given(2) by auto
    then have v: "v = add_ip ip u" using given(2) u(2) by (simp add: add_extra_def)
    have "san_inv E u" using i4 u(1) by (simp add: san_step_def)
    then have "SanIpAddress ip \<in> set (sn_sans v)" unfolding v by (rule add_ip_has [OF given(3)])
    then show ?thesis using u(3) unfolding s5_def san_step_def by blast
  qed
  then show ?thesis using i5 local unfolding sans san_inv_def by auto
qed

section \<open>Sockets\<close>

text \<open>
  What the calls on sockets do on Linux, as far as binding needs it: the socket that is being set up, and those that are
  bound. Two sockets of one kind and port are in each other's way when they have the same address, when one of them has
  the wildcard of the family of the other, or when one is the IPv6 wildcard without \<open>IPV6_V6ONLY\<close>, which also takes the
  IPv4 addresses. What is assumed of the system is the effect of a call that succeeds; every call may fail, for whatever
  reason.
\<close>

record socket_view =
  sk_kind :: socket_kind
  sk_only_v6 :: bool
  sk_bound :: "(socket_kind \<times> bool \<times> socket_addr) list"

fun socket_port :: "socket_addr \<Rightarrow> u16" where
  "socket_port (SocketV4 _ p) = p"
| "socket_port (SocketV6 _ p _) = p"

fun same_family :: "socket_addr \<Rightarrow> socket_addr \<Rightarrow> bool" where
  "same_family a b = (is_v6 a = is_v6 b)"

definition overlapping :: "bool \<times> socket_addr \<Rightarrow> bool \<times> socket_addr \<Rightarrow> bool" where
  "overlapping x y =
     (case (x, y) of ((only_x, a), (only_y, b)) \<Rightarrow>
        socket_port a = socket_port b \<and>
        (if same_family a b then socket_ip a = socket_ip b \<or> is_unspecified (socket_ip a) \<or> is_unspecified (socket_ip b)
         else (is_v6 a \<and> is_unspecified (socket_ip a) \<and> \<not> only_x) \<or> (is_v6 b \<and> is_unspecified (socket_ip b) \<and> \<not> only_y)))"

fun is_mapped :: "socket_addr \<Rightarrow> bool" where
  "is_mapped (SocketV4 _ _) = False"
| "is_mapped (SocketV6 a _ _) = (to_ipv4_mapped a \<noteq> None)"

fun call_ready :: "socket_call \<Rightarrow> socket_view \<Rightarrow> bool" where
  "call_ready (BindTo a) v \<longleftrightarrow> \<not> is_mapped a \<and>
     list_all (\<lambda>(kind, only, b). kind = sk_kind v \<longrightarrow> \<not> overlapping (sk_only_v6 v, a) (only, b)) (sk_bound v)"
| "call_ready _ _ \<longleftrightarrow> True"

fun socket_effect :: "socket_call \<Rightarrow> socket_view \<Rightarrow> socket_view" where
  "socket_effect (NewSocket v6 kind) v = v\<lparr>sk_kind := kind, sk_only_v6 := False\<rparr>"
| "socket_effect SetOnlyV6 v = v\<lparr>sk_only_v6 := True\<rparr>"
| "socket_effect (BindTo a) v = v\<lparr>sk_bound := (sk_kind v, sk_only_v6 v, a) # sk_bound v\<rparr>"
| "socket_effect _ v = v"

definition sockets_act :: "'o listen_env \<Rightarrow> ('o \<Rightarrow> socket_view) \<Rightarrow> bool" where
  "sockets_act E view \<longleftrightarrow>
     (\<forall>c os u os'. le_socket E c os = (Inr u, os') \<longrightarrow> view os' = socket_effect c (view os))"

text \<open>A call that the system refuses although none of the sockets that are bound is in its way.\<close>

definition refused_otherwise :: "'o listen_env \<Rightarrow> ('o \<Rightarrow> socket_view) \<Rightarrow> socket_call \<Rightarrow> socket_addr list \<Rightarrow> bool" where
  "refused_otherwise E view c addrs \<longleftrightarrow>
     (\<exists>os e os'. le_socket E c os = (Inl e, os') \<and> call_ready c (view os) \<and>
        (\<forall>(kind, only, b) \<in> set (sk_bound (view os)). b \<in> set addrs \<and> only = is_v6 b))"

text \<open>A sequence of calls, each of which is ready when it is its turn: all succeed, or one is refused.\<close>

lemma run_socket_runs:
  assumes "sockets_act E view"
  shows "(\<forall>i<length cs. call_ready (cs ! i) (fold socket_effect (take i cs) (view os))) \<Longrightarrow> run_socket E cs os = (r, os') \<Longrightarrow>
    case r of
      Inr _ \<Rightarrow> view os' = fold socket_effect cs (view os)
    | Inl e \<Rightarrow> \<exists>i<length cs. \<exists>os1 os2. view os1 = fold socket_effect (take i cs) (view os) \<and>
        le_socket E (cs ! i) os1 = (Inl e, os2) \<and> call_ready (cs ! i) (view os1)"
proof (induction cs arbitrary: os)
  case (Cons c cs)
  have ready: "call_ready c (view os)" using Cons.prems(1) by force
  obtain x os1 where c: "le_socket E c os = (x, os1)" by fastforce
  show ?case
  proof (cases x)
    case (Inl e)
    then have "r = Inl e" using Cons.prems(2) c by (simp add: then_do_def)
    then show ?thesis using c Inl ready by (auto intro!: exI [of _ 0])
  next
    case (Inr u)
    then have v: "view os1 = socket_effect c (view os)" using assms c unfolding sockets_act_def by blast
    have "\<forall>i<length cs. call_ready (cs ! i) (fold socket_effect (take i cs) (view os1))"
      using Cons.prems(1) v by force
    moreover have "run_socket E cs os1 = (r, os')" using Cons.prems(2) c Inr by (simp add: then_do_def)
    ultimately have IH: "case r of
        Inr _ \<Rightarrow> view os' = fold socket_effect cs (view os1)
      | Inl e \<Rightarrow> \<exists>i<length cs. \<exists>os2 os3. view os2 = fold socket_effect (take i cs) (view os1) \<and>
          le_socket E (cs ! i) os2 = (Inl e, os3) \<and> call_ready (cs ! i) (view os2)" by (rule Cons.IH)
    show ?thesis
    proof (cases r)
      case (Inl e)
      then obtain i os2 os3 where "i < length cs" "view os2 = fold socket_effect (take i cs) (view os1)"
        "le_socket E (cs ! i) os2 = (Inl e, os3)" "call_ready (cs ! i) (view os2)" using IH by auto
      then show ?thesis using Inl v by (auto intro!: exI [of _ "Suc i"])
    qed (use IH v in simp)
  qed
qed auto

text \<open>A socket of the server: an IPv6 socket takes IPv6 only.\<close>

lemma bind_socket_runs:
  assumes "sockets_act E view" and "\<not> is_mapped a"
    and "cs = bind_udp_tokio a \<and> kind = Dgram \<or> cs = bind_tcp_tokio a \<and> kind = StreamSocket"
    and "\<forall>(k, only, b) \<in> set (sk_bound (view os)). b \<in> set addrs \<and> only = is_v6 b"
    and "\<And>only b. (kind, only, b) \<in> set (sk_bound (view os)) \<Longrightarrow> \<not> overlapping (is_v6 a, a) (only, b)"
    and "a \<in> set addrs" and "run_socket E cs os = (r, os')"
  shows "case r of
      Inr _ \<Rightarrow> sk_bound (view os') = (kind, is_v6 a, a) # sk_bound (view os)
    | Inl _ \<Rightarrow> \<exists>c\<in>set cs. refused_otherwise E view c addrs"
proof -
  note calls = bind_udp_tokio_def bind_tcp_tokio_def bind_udp_std_def bind_tcp_std_def configure_socket_def
  have ready: "\<forall>i<length cs. call_ready (cs ! i) (fold socket_effect (take i cs) (view os))"
    using assms(2,3,5) by (auto simp: calls less_Suc_eq_0_disj list_all_iff nth_append)
  have bound: "\<forall>(k, only, b) \<in> set (sk_bound (fold socket_effect (take i cs) (view os))). b \<in> set addrs \<and> only = is_v6 b"
    if "i < length cs" for i
  proof -
    have "set (sk_bound (fold socket_effect (take i cs) (view os))) \<subseteq> insert (kind, is_v6 a, a) (set (sk_bound (view os)))"
      using that assms(3) by (cases "is_v6 a") (auto simp: calls less_Suc_eq_0_disj)
    then show ?thesis using assms(4,6) by auto
  qed
  have all: "sk_bound (fold socket_effect cs (view os)) = (kind, is_v6 a, a) # sk_bound (view os)"
    using assms(3) by (auto simp: calls)
  show ?thesis
  proof (cases r)
    case (Inl e)
    with run_socket_runs [OF assms(1) ready assms(7)] obtain i os1 os2 where i: "i < length cs"
      "view os1 = fold socket_effect (take i cs) (view os)" "le_socket E (cs ! i) os1 = (Inl e, os2)" "call_ready (cs ! i) (view os1)"
      by auto
    then have "refused_otherwise E view (cs ! i) addrs"
      unfolding refused_otherwise_def using bound [OF i(1)] by (intro exI [of _ os1] exI [of _ e] exI [of _ os2]) simp
    then show ?thesis using Inl i(1) by auto
  qed (use run_socket_runs [OF assms(1) ready assms(7)] all in simp)
qed

text \<open>Addresses that do not stand in each other's way within their family.\<close>

definition compatible :: "socket_addr \<Rightarrow> socket_addr \<Rightarrow> bool" where
  "compatible a b \<longleftrightarrow>
     (same_family a b \<longrightarrow> socket_ip a \<noteq> socket_ip b \<and> \<not> is_unspecified (socket_ip a) \<and> \<not> is_unspecified (socket_ip b))"

lemma compatible_not_overlapping: "compatible a b \<Longrightarrow> \<not> overlapping (is_v6 a, a) (is_v6 b, b)"
  by (auto simp: compatible_def overlapping_def)

text \<open>The sockets of a listener, the last one first.\<close>

definition sockets_of :: "socket_addr list \<Rightarrow> (socket_kind \<times> bool \<times> socket_addr) list" where
  "sockets_of addrs = rev (concat (map (\<lambda>a. [(Dgram, is_v6 a, a), (StreamSocket, is_v6 a, a)]) addrs))"

lemma register_dns_runs:
  assumes "sockets_act E view" and "register_dns_listeners E addrs server os = (r, os')"
    and "sk_bound (view os) = sockets_of done" and "list_all (\<lambda>a. \<not> is_mapped a) addrs"
    and "\<forall>a\<in>set addrs. \<forall>b\<in>set done. compatible a b" and "sorted_wrt (\<lambda>a b. compatible a b \<and> compatible b a) addrs"
  shows "case r of
      Inr ls \<Rightarrow> ls = server @ concat (map (\<lambda>a. [UdpListener a, TcpListener a]) addrs) \<and> sk_bound (view os') = sockets_of (done @ addrs)
    | Inl err \<Rightarrow> \<exists>proto. \<exists>a\<in>set addrs. err = BindFailed proto a \<and>
        (\<exists>c\<in>set (bind_udp_tokio a @ bind_tcp_tokio a). refused_otherwise E view c (done @ addrs))"
  using assms(2-6)
proof (induction addrs arbitrary: "done" server os)
  case (Cons a addrs)
  have own: "\<forall>(k, only, b) \<in> set (sk_bound (view os)). b \<in> set done \<and> only = is_v6 b"
    using Cons.prems(2) by (auto simp: sockets_of_def)
  then have own': "\<forall>(k, only, b) \<in> set (sk_bound (view os)). b \<in> set (done @ a # addrs) \<and> only = is_v6 b" by auto
  have free: "\<not> overlapping (is_v6 a, a) (only, b)" if "(k, only, b) \<in> set (sk_bound (view os))" for k only b
    using Cons.prems(4) that own compatible_not_overlapping by fastforce
  have mapped: "\<not> is_mapped a" using Cons.prems(3) by simp
  obtain x os1 where udp: "run_socket E (bind_udp_tokio a) os = (x, os1)" by fastforce
  note first = bind_socket_runs [OF assms(1) mapped _ own' _ _ udp, of Dgram]
  show ?case
  proof (cases x)
    case (Inl e)
    then have "\<exists>c\<in>set (bind_udp_tokio a). refused_otherwise E view c (done @ a # addrs)" using first free by auto
    then show ?thesis using Cons.prems(1) udp Inl by (auto simp: then_do_def)
  next
    case (Inr u)
    then have bound1: "sk_bound (view os1) = (Dgram, is_v6 a, a) # sk_bound (view os)" using first free by auto
    have own1: "\<forall>(k, only, b) \<in> set (sk_bound (view os1)). b \<in> set (done @ a # addrs) \<and> only = is_v6 b"
      using own' bound1 by auto
    obtain y os2 where tcp: "run_socket E (bind_tcp_tokio a) os1 = (y, os2)" by fastforce
    note second = bind_socket_runs [OF assms(1) mapped _ own1 _ _ tcp, of StreamSocket]
    show ?thesis
    proof (cases y)
      case (Inl e)
      then have "\<exists>c\<in>set (bind_tcp_tokio a). refused_otherwise E view c (done @ a # addrs)" using second free bound1 by auto
      then show ?thesis using Cons.prems(1) udp tcp Inl \<open>x = Inr u\<close> by (auto simp: then_do_def)
    next
      case (Inr v)
      then have "sk_bound (view os2) = (StreamSocket, is_v6 a, a) # sk_bound (view os1)" using second free bound1 by auto
      then have bound2: "sk_bound (view os2) = sockets_of (done @ [a])" using bound1 Cons.prems(2) by (simp add: sockets_of_def)
      have run: "register_dns_listeners E addrs (server @ [UdpListener a, TcpListener a]) os2 = (r, os')"
        using Cons.prems(1) udp tcp \<open>x = Inr u\<close> Inr by (simp add: then_do_def)
      have "list_all (\<lambda>a. \<not> is_mapped a) addrs" "\<forall>b\<in>set addrs. \<forall>c\<in>set (done @ [a]). compatible b c"
        "sorted_wrt (\<lambda>a b. compatible a b \<and> compatible b a) addrs" using Cons.prems(3-5) by auto
      from Cons.IH [OF run bound2 this] show ?thesis by (cases r) auto
    qed
  qed
qed auto

text \<open>
  C28. The sockets of the plain DNS listener do not exclude each other, both families included. If the configured
  addresses can be read, and within each family none of them is repeated or shadowed by a wildcard, then the start binds
  all of them for UDP and for TCP, in the order of the configuration, or it ends with the error of a call that the system
  refused although only sockets of this listener were bound and none of them was in its way. In particular the IPv6 and
  the IPv4 wildcard can be bound together, because every IPv6 socket is restricted to IPv6 before it is bound. Nothing
  is assumed about when calls succeed.
\<close>

theorem dual_stack_listeners:
  assumes "sockets_act E view" and "sk_bound (view os) = []"
    and "config = Some cfg" and "so_enabled cfg" and "parse_bind_addrs (so_addresses cfg) (so_port cfg) = Inr addrs"
    and "list_all (\<lambda>a. \<not> is_mapped a) addrs" and "sorted_wrt (\<lambda>a b. compatible a b \<and> compatible b a) addrs"
  shows "case start_dns E config os of
      (Inr ls, os') \<Rightarrow> ls = concat (map (\<lambda>a. [UdpListener a, TcpListener a]) addrs) \<and> sk_bound (view os') = sockets_of addrs
    | (Inl err, os') \<Rightarrow> \<exists>proto. \<exists>a\<in>set addrs. err = BindFailed proto a \<and>
        (\<exists>c\<in>set (bind_udp_tokio a @ bind_tcp_tokio a). refused_otherwise E view c addrs)"
proof -
  obtain r os' where run: "register_dns_listeners E addrs [] os = (r, os')" by fastforce
  then have start: "start_dns E config os = (r, os')" using assms(3-5) by (simp add: start_dns_def then_do_def)
  have "sk_bound (view os) = sockets_of []" using assms(2) by (simp add: sockets_of_def)
  from register_dns_runs [OF assms(1) run this assms(6) _ assms(7)] start show ?thesis by (cases r) auto
qed

section \<open>What is registered\<close>

text \<open>The certificates of an encrypted listener: those of the resolver, or files inside the directory.\<close>

definition serves_from :: "'o listen_env \<Rightarrow> bool \<Rightarrow> bool \<Rightarrow> string \<Rightarrow> tls_socket_config \<Rightarrow> server_config \<Rightarrow> bool" where
  "serves_from E acme will_chroot chroot_dir cfg c \<longleftrightarrow>
     (if acme then sv_certificates c = None
      else \<exists>chain key cert_path cert_host text os. sv_certificates c = Some (chain, key) \<and> chain \<noteq> [] \<and>
        runtime_path will_chroot (tls_cert_path (ts_tls cfg)) chroot_dir = Inr cert_path \<and>
        resolve_path_for_chroot_host (tls_cert_path (ts_tls cfg)) chroot_dir = Inr cert_host \<and> inside_dir chroot_dir cert_host \<and>
        le_read E cert_path os = Inr text \<and> le_certs E text = Inr chain)"

lemma then_do_Inr [simp]: "then_do r err k = (Inr b, os') \<longleftrightarrow> (\<exists>a os. r = (Inr a, os) \<and> k a os = (Inr b, os'))"
  by (auto simp: then_do_def split: prod.splits sum.splits)

lemma register_encrypted_all:
  "register_encrypted E proto c addrs server os = (Inr server', os') \<Longrightarrow>
   server' = server @ map (\<lambda>a. encrypted_listener proto a c) addrs"
  by (induction addrs arbitrary: server os) fastforce+

lemma register_dns_all:
  "register_dns_listeners E addrs server os = (Inr server', os') \<Longrightarrow>
   server' = server @ concat (map (\<lambda>a. [UdpListener a, TcpListener a]) addrs)"
  by (induction addrs arbitrary: server os) fastforce+

definition encrypted_part ::
  "'o listen_env \<Rightarrow> bool \<Rightarrow> bool \<Rightarrow> string \<Rightarrow> encrypted \<Rightarrow> tls_socket_config option \<Rightarrow> registered list \<Rightarrow> bool" where
  "encrypted_part E acme will_chroot chroot_dir proto config part \<longleftrightarrow>
     (case config of
        None \<Rightarrow> part = []
      | Some cfg \<Rightarrow>
          if ts_enabled cfg
          then \<exists>addrs c. parse_bind_addrs (ts_addresses cfg) (ts_port cfg) = Inr addrs \<and>
            part = map (\<lambda>a. encrypted_listener proto a c) addrs \<and> own_alpn proto \<in> set (sv_alpn c) \<and>
            serves_from E acme will_chroot chroot_dir cfg c
          else part = [])"

lemma runtime_path_host:
  assumes "runtime_path w p c = Inr r"
  shows "\<exists>h. resolve_path_for_chroot_host p c = Inr h \<and> inside_dir c h"
proof -
  obtain h where h: "resolve_path_for_chroot_host p c = Inr h"
    using assms unfolding runtime_path_def resolve_path_for_chroot_runtime_def resolve_path_for_chroot_host_def
    by (auto split: if_splits)
  then show ?thesis using resolve_host_inside by blast
qed

lemma build_tls_loaded:
  assumes "build_tls_server_config E cert_path key_path os = Inr c"
  shows "\<exists>chain key text. sv_certificates c = Some (chain, key) \<and> chain \<noteq> [] \<and> le_read E cert_path os = Inr text \<and>
    le_certs E text = Inr chain"
  using assms by (auto simp: build_tls_server_config_def split: if_splits)

lemma build_with_alpn_Inr:
  "build_tls_config_with_alpn E tls sans alpn os = (Inr c, os') \<longleftrightarrow>
     (\<exists>c0. build_tls_config_plain E tls sans os = (Inr c0, os') \<and> c = c0\<lparr>sv_alpn := [alpn]\<rparr>)"
  by (cases "build_tls_config_plain E tls sans os") (auto simp: build_tls_config_with_alpn_def)

lemma listener_tls_serves:
  assumes "listener_tls E acme will_chroot chroot_dir proto cfg os = (Inr c, os')"
  shows "own_alpn proto \<in> set (sv_alpn c) \<and> serves_from E acme will_chroot chroot_dir cfg c"
proof (cases acme)
  case True
  then show ?thesis using assms
    by (cases proto) (auto simp: listener_tls_def serves_from_def build_tls_config_with_resolver_alpn_def
        build_tls_config_with_resolver_https_def build_tls_server_config_with_resolver_def)
next
  case False
  from assms False obtain tls c0 os0 where
    tls: "runtime_tls will_chroot chroot_dir (encrypted_name proto) (ts_tls cfg) = Inr tls" and
    c0: "build_tls_server_config E (tls_cert_path tls) (tls_key_path tls) os0 = Inr c0" "c = c0\<lparr>sv_alpn := [own_alpn proto]\<rparr>"
    by (auto simp: listener_tls_def build_with_alpn_Inr build_tls_config_plain_def)
  then have path: "runtime_path will_chroot (tls_cert_path (ts_tls cfg)) chroot_dir = Inr (tls_cert_path tls)"
    by (auto simp: runtime_tls_def)
  from runtime_path_host [OF path] build_tls_loaded [OF c0(1)] path False c0(2) show ?thesis
    unfolding serves_from_def by auto
qed

lemma start_encrypted_part:
  assumes "start_encrypted E acme will_chroot chroot_dir proto config server os = (Inr server', os')"
  shows "\<exists>part. server' = server @ part \<and> encrypted_part E acme will_chroot chroot_dir proto config part"
proof (cases config)
  case (Some cfg)
  show ?thesis
  proof (cases "ts_enabled cfg")
    case True
    from assms Some True obtain addrs c os1 where
      "parse_bind_addrs (ts_addresses cfg) (ts_port cfg) = Inr addrs"
      "listener_tls E acme will_chroot chroot_dir proto cfg os = (Inr c, os1)"
      "register_encrypted E proto c addrs server os1 = (Inr server', os')"
      by (auto simp: start_encrypted_def)
    then show ?thesis using register_encrypted_all listener_tls_serves Some True
      unfolding encrypted_part_def by fastforce
  qed (use assms Some in \<open>simp add: start_encrypted_def encrypted_part_def\<close>)
qed (use assms in \<open>simp add: start_encrypted_def encrypted_part_def\<close>)

lemma start_dns_registered:
  assumes "start_dns E config os = (Inr server, os')"
  obtains cfg addrs where "config = Some cfg" "so_enabled cfg" "parse_bind_addrs (so_addresses cfg) (so_port cfg) = Inr addrs"
    "server = concat (map (\<lambda>a. [UdpListener a, TcpListener a]) addrs)"
proof -
  from assms obtain cfg addrs where cfg: "config = Some cfg" "so_enabled cfg"
    "parse_bind_addrs (so_addresses cfg) (so_port cfg) = Inr addrs" "register_dns_listeners E addrs [] os = (Inr server, os')"
    by (auto simp: start_dns_def split: option.splits if_splits)
  then show ?thesis using that register_dns_all [OF cfg(4)] by simp
qed

lemma start_encrypted_registered:
  assumes "start_encrypted_listeners E acme will_chroot chroot_dir listen server os = (Inr server', os')"
  obtains dot doh doq where "server' = server @ dot @ doh @ doq"
    "encrypted_part E acme will_chroot chroot_dir Dot (ln_dot listen) dot"
    "encrypted_part E acme will_chroot chroot_dir Doh (ln_doh listen) doh"
    "encrypted_part E acme will_chroot chroot_dir Doq (ln_doq listen) doq"
proof -
  from assms obtain s2 o2 s3 o3 where steps:
      "start_encrypted E acme will_chroot chroot_dir Dot (ln_dot listen) server os = (Inr s2, o2)"
      "start_encrypted E acme will_chroot chroot_dir Doh (ln_doh listen) s2 o2 = (Inr s3, o3)"
      "start_encrypted E acme will_chroot chroot_dir Doq (ln_doq listen) s3 o3 = (Inr server', os')"
    unfolding start_encrypted_listeners_def by auto
  from start_encrypted_part [OF steps(1)] start_encrypted_part [OF steps(2)] start_encrypted_part [OF steps(3)]
  show ?thesis using that by auto
qed

text \<open>
  The generator of certificates replaces a file that exists: with the key present and the certificate missing, both are
  written anew.
\<close>

theorem existing_key_overwritten:
  assumes "\<not> le_exists E cert_path os" and "le_exists E key_path os" and "le_parent E cert_path = None"
    and "le_parent E key_path = None" and "le_generate_key E os = (Inr key, os1)"
    and "le_self_signed E (collect_sans E extra) key = Inr cert" and "le_write E cert_path cert os1 = (Inr u, os2)"
  shows "autogenerate_tls_cert_if_missing E cert_path key_path extra os =
    (case le_write E key_path key os2 of (Inl e, os) \<Rightarrow> (Inl (TlsCertGeneration e), os) | (Inr _, os) \<Rightarrow> (Inr (), os))"
  using assms by (simp add: autogenerate_tls_cert_if_missing_def then_do_def make_parent_def Let_def)

section \<open>Instances\<close>

text \<open>A system with the sockets described above, and with one certificate in every file.\<close>

definition example_listen :: "socket_view listen_env" where
  "example_listen =
     \<lparr>le_socket = (\<lambda>c v. if call_ready c v then (Inr (), socket_effect c v) else (Inl ''in use'', v)),
      le_exists = (\<lambda>path v. True), le_parent = (\<lambda>path. None), le_create_dir_all = (\<lambda>path v. (Inr (), v)),
      le_write = (\<lambda>path content v. (Inr (), v)), le_read = (\<lambda>path v. Inr path), le_generate_key = (\<lambda>v. (Inr ''key'', v)),
      le_self_signed = (\<lambda>sans key. Inr ''cert''), le_certs = (\<lambda>text. Inr [text]), le_private_key = (\<lambda>text. Inr (Some text)),
      le_protocol_versions = Inr (), le_single_cert = (\<lambda>chain key. Inr ()), le_hostname = Some ''host'',
      le_ifaddrs = Some [(True, Some (V4 0x7F000001)), (False, Some (V4 0x0A000001))], le_lowercase = to_ascii_lowercase,
      le_is_ia5 = (\<lambda>name. True), le_register = (\<lambda>proto addr v. (Inr (), v))\<rparr>"

definition idle_sockets :: socket_view where
  "idle_sockets = \<lparr>sk_kind = Dgram, sk_only_v6 = False, sk_bound = []\<rparr>"

definition both_wildcards :: socket_config where
  "both_wildcards = \<lparr>so_enabled = True, so_addresses = [''::'', ''0.0.0.0''], so_port = 53\<rparr>"

lemma example_sockets: "sockets_act example_listen id" "\<not> refused_otherwise example_listen id c addrs"
  by (auto simp: sockets_act_def refused_otherwise_def example_listen_def split: if_splits)

lemma both_wildcards_parsed:
  "parse_bind_addrs (so_addresses both_wildcards) (so_port both_wildcards) = Inr [SocketV6 0 53 0, SocketV4 0 53]"
  by code_simp

theorem dual_stack_listeners_witness:
  "\<exists>v. start_dns example_listen (Some both_wildcards) idle_sockets =
    (Inr [UdpListener (SocketV6 0 53 0), TcpListener (SocketV6 0 53 0), UdpListener (SocketV4 0 53), TcpListener (SocketV4 0 53)], v)"
proof -
  have "sk_bound (id idle_sockets) = []" by (simp add: idle_sockets_def)
  moreover have "so_enabled both_wildcards" by (simp add: both_wildcards_def)
  moreover have "list_all (\<lambda>a. \<not> is_mapped a) [SocketV6 0 53 0, SocketV4 0 53]" by (simp add: to_ipv4_mapped_def)
  moreover have "sorted_wrt (\<lambda>a b. compatible a b \<and> compatible b a) [SocketV6 0 53 0, SocketV4 0 53]"
    by (simp add: compatible_def)
  ultimately show ?thesis
    using dual_stack_listeners [OF example_sockets(1) _ refl _ both_wildcards_parsed, of idle_sockets] example_sockets(2)
    by (auto split: prod.splits sum.splits)
qed

theorem certificate_names_witness:
  "parse_ip_addr (trim ''10.0.0.2'') = Some (V4 0x0A000002) \<and>
   SanIpAddress (V4 0x0A000002) \<in> set (collect_sans example_listen [''0.0.0.0'', ''10.0.0.2'']) \<and>
   list_all (\<lambda>ip. \<not> is_unspecified ip) (san_ips (collect_sans example_listen [''0.0.0.0'', ''10.0.0.2'']))"
proof -
  have "parse_ip_addr (trim ''10.0.0.2'') = Some (V4 0x0A000002)" by code_simp
  moreover have "''10.0.0.2'' \<in> set [''0.0.0.0'', ''10.0.0.2'']" "\<not> is_unspecified (V4 0x0A000002)" by simp_all
  ultimately show ?thesis using certificate_names [of example_listen "[''0.0.0.0'', ''10.0.0.2'']"] by blast
qed

lemma example_addrs:
  "parse_bind_addrs [''127.0.0.1''] 53 = Inr [SocketV4 0x7F000001 53]"
  "parse_bind_addrs [''127.0.0.1''] 9100 = Inr [SocketV4 0x7F000001 9100]"
  "parse_bind_addrs [''::''] 853 = Inr [SocketV6 0 853 0]"
  "parse_bind_addrs [''::1''] 8080 = Inr [SocketV6 1 8080 0]"
  "''::1'' @ '':'' @ show_port 8080 = ''::1:8080''"
  "parse_socket_addr ''::1:8080'' = None"
  by code_simp+

end
