(* ===== verification/Logging.thy ===== *)
theory Logging
  imports RustStd
begin

text \<open>
  Logging (\<open>src/frameworks/logging/mod.rs\<close>) and the sender to syslog (\<open>src/frameworks/logging/syslog.rs\<close>): which
  sinks a configuration asks for, with their filters, and the task that takes messages from a queue and hands them to
  the system's or a remote log.

  The syslog library, sockets and TLS are the parameter \<open>syslog_lib\<close> over a state \<open>'o\<close>. The queue never closes while
  the process lives, because the subscriber that holds its other end is global; so a sender that has handled every
  message so far waits for the next one. The lowercase of a name is that of ASCII: no other character has a lowercase
  form among the letters of the names that are compared.
\<close>

section \<open>Levels, facilities, transports\<close>

datatype log_level = LevelError | LevelWarn | LevelInfo | LevelDebug | LevelTrace

datatype facility =
    LogKern | LogUser | LogMail | LogDaemon | LogAuth | LogSyslog | LogLpr | LogNews | LogUucp | LogCron | LogAuthpriv
  | LogLocal0 | LogLocal1 | LogLocal2 | LogLocal3 | LogLocal4 | LogLocal5 | LogLocal6 | LogLocal7

definition facility_code :: "string \<Rightarrow> string + nat" where
  "facility_code name =
     (case map_of
        [(''kern'', 0), (''user'', 1), (''mail'', 2), (''daemon'', 3), (''auth'', 4), (''syslog'', 5), (''lpr'', 6),
         (''news'', 7), (''uucp'', 8), (''cron'', 9), (''authpriv'', 10), (''local0'', 16), (''local1'', 17),
         (''local2'', 18), (''local3'', 19), (''local4'', 20), (''local5'', 21), (''local6'', 22), (''local7'', 23)]
        (to_ascii_lowercase name) of
        Some code \<Rightarrow> Inr code
      | None \<Rightarrow> Inl (''unknown syslog facility: '' @ name))"

definition facility_from_str :: "string \<Rightarrow> string + facility" where
  "facility_from_str name =
     (case map_of
        [(''kern'', LogKern), (''user'', LogUser), (''mail'', LogMail), (''daemon'', LogDaemon), (''auth'', LogAuth),
         (''syslog'', LogSyslog), (''lpr'', LogLpr), (''news'', LogNews), (''uucp'', LogUucp), (''cron'', LogCron),
         (''authpriv'', LogAuthpriv), (''local0'', LogLocal0), (''local1'', LogLocal1), (''local2'', LogLocal2),
         (''local3'', LogLocal3), (''local4'', LogLocal4), (''local5'', LogLocal5), (''local6'', LogLocal6),
         (''local7'', LogLocal7)]
        (to_ascii_lowercase name) of
        Some f \<Rightarrow> Inr f
      | None \<Rightarrow> Inl (''unknown syslog facility: '' @ name))"

fun severity_code :: "log_level \<Rightarrow> nat" where
  "severity_code LevelError = 3"
| "severity_code LevelWarn = 4"
| "severity_code LevelInfo = 6"
| "severity_code LevelDebug = 7"
| "severity_code LevelTrace = 7"

definition level_from_str :: "string \<Rightarrow> log_level option" where
  "level_from_str s =
     map_of
       [(''error'', LevelError), (''warn'', LevelWarn), (''warning'', LevelWarn), (''info'', LevelInfo),
        (''debug'', LevelDebug), (''trace'', LevelTrace)]
       (to_ascii_lowercase s)"

fun show_level :: "log_level \<Rightarrow> string" where
  "show_level LevelError = ''ERROR''"
| "show_level LevelWarn = ''WARN''"
| "show_level LevelInfo = ''INFO''"
| "show_level LevelDebug = ''DEBUG''"
| "show_level LevelTrace = ''TRACE''"

datatype syslog_transport =
    SyslogUnix string
  | SyslogUdp string
  | SyslogTcp string
  | SyslogTls string string

definition transport_from_config ::
  "string option \<Rightarrow> string option \<Rightarrow> string option \<Rightarrow> string + syslog_transport" where
  "transport_from_config transport_opt server_opt tls_cert_path =
     (let transport = (case transport_opt of None \<Rightarrow> ''unix'' | Some t \<Rightarrow> t);
          server = (\<lambda>usual. case server_opt of None \<Rightarrow> usual | Some s \<Rightarrow> s)
      in if transport = ''unix'' then Inr (SyslogUnix (server ''/dev/log''))
         else if transport = ''udp'' then Inr (SyslogUdp (server ''127.0.0.1:514''))
         else if transport = ''tcp'' then Inr (SyslogTcp (server ''127.0.0.1:514''))
         else if transport = ''tls'' then
           (case tls_cert_path of
              None \<Rightarrow> Inl ''tls transport requires ca_cert_path in syslog config''
            | Some ca_path \<Rightarrow> Inr (SyslogTls (server ''127.0.0.1:601'') ca_path))
         else Inl (''unknown syslog transport: '' @ transport))"

section \<open>The sinks\<close>

record syslog_config =
  sl_enabled :: bool
  sl_facility :: string
  sl_level :: string
  sl_transport :: "string option"
  sl_server :: "string option"
  sl_format :: "string option"
  sl_tls_ca_cert_path :: "string option"

record file_log_config =
  ff_enabled :: bool
  ff_location :: string
  ff_level :: string

record stdout_log_config =
  st_enabled :: bool
  st_level :: string

record logging_config =
  lg_syslog :: "syslog_config option"
  lg_file :: "file_log_config option"
  lg_stdout :: "stdout_log_config option"

text \<open>A sink with the directives of its filter.\<close>

datatype log_sink =
    StdoutSink string
  | FileSink string string
  | SyslogSink syslog_transport facility string string
  | StderrSink string

definition build_env_filter :: "log_level \<Rightarrow> bool \<Rightarrow> string" where
  "build_env_filter level debug =
     (if debug then show_level level
      else show_level level @ '',hickory_proto=error,hickory_resolver=error,hickory_net=error,'' @
        ''hickory_recursor=error,hickory_server=error'')"

datatype logging_error = LogFileFailed string string | SyslogTransportFailed string | SyslogFacilityFailed string

definition level_or :: "log_level \<Rightarrow> string option \<Rightarrow> log_level" where
  "level_or fallback s = (case Option.bind s level_from_str of None \<Rightarrow> fallback | Some l \<Rightarrow> l)"

definition enabled_opt :: "('a \<Rightarrow> bool) \<Rightarrow> 'a option \<Rightarrow> bool" where
  "enabled_opt f x = (case x of None \<Rightarrow> False | Some c \<Rightarrow> f c)"

definition file_layer ::
  "(string \<Rightarrow> 'o \<Rightarrow> (string + unit) \<times> 'o) \<Rightarrow> file_log_config \<Rightarrow> bool \<Rightarrow> 'o \<Rightarrow> (logging_error + log_sink) \<times> 'o" where
  "file_layer open_append cfg debug os =
     (case open_append (ff_location cfg) os of
        (Inl e, os) \<Rightarrow> (Inl (LogFileFailed (ff_location cfg) e), os)
      | (Inr _, os) \<Rightarrow>
          (Inr (FileSink (ff_location cfg) (build_env_filter (level_or LevelDebug (Some (ff_level cfg))) debug)), os))"

definition syslog_layer :: "syslog_config \<Rightarrow> bool \<Rightarrow> logging_error + log_sink" where
  "syslog_layer cfg debug =
     res_bind (map_err SyslogTransportFailed
       (transport_from_config (sl_transport cfg) (sl_server cfg) (sl_tls_ca_cert_path cfg))) (\<lambda>transport.
     res_bind (map_err SyslogFacilityFailed (facility_from_str (sl_facility cfg))) (\<lambda>facility.
     Inr (SyslogSink transport facility (case sl_format cfg of None \<Rightarrow> ''rfc3164'' | Some f \<Rightarrow> f)
       (build_env_filter (if debug then LevelDebug else level_or LevelInfo (Some (sl_level cfg))) debug))))"

text \<open>The file is opened first; if a later sink fails, it stays open, but nothing is installed.\<close>

definition init_logging ::
  "(string \<Rightarrow> 'o \<Rightarrow> (string + unit) \<times> 'o) \<Rightarrow> logging_config \<Rightarrow> bool \<Rightarrow> 'o \<Rightarrow> (logging_error + log_sink list) \<times> 'o" where
  "init_logging open_append cfg debug os =
     (let stdout = (case lg_stdout cfg of
            Some c \<Rightarrow> if st_enabled c then [StdoutSink (build_env_filter (level_or LevelInfo (Some (st_level c))) debug)] else []
          | None \<Rightarrow> [])
      in case (case lg_file cfg of
            Some c \<Rightarrow> if ff_enabled c then (case file_layer open_append c debug os of (r, os) \<Rightarrow> (map_ok (\<lambda>s. [s]) r, os)) else (Inr [], os)
          | None \<Rightarrow> (Inr [], os)) of
        (Inl e, os) \<Rightarrow> (Inl e, os)
      | (Inr file, os) \<Rightarrow>
          (case (case lg_syslog cfg of
                Some c \<Rightarrow> if sl_enabled c then map_ok (\<lambda>s. [s]) (syslog_layer c debug) else Inr []
              | None \<Rightarrow> Inr []) of
            Inl e \<Rightarrow> (Inl e, os)
          | Inr syslog \<Rightarrow>
              if \<not> enabled_opt st_enabled (lg_stdout cfg) \<and> \<not> enabled_opt ff_enabled (lg_file cfg) \<and>
                 \<not> enabled_opt sl_enabled (lg_syslog cfg)
              then (Inr [StderrSink (build_env_filter (if debug then LevelDebug else LevelInfo) debug)], os)
              else (Inr (stdout @ file @ syslog), os)))"

section \<open>The sender\<close>

record syslog_message =
  sm_level :: log_level
  sm_msg :: string

text \<open>An event of the program: its level and its fields, with their values as \<open>Debug\<close> prints them.\<close>

fun record_debug :: "string \<times> string \<Rightarrow> string \<Rightarrow> string" where
  "record_debug (name, value) message = (if name = ''message'' then value else message)"

definition on_event :: "log_level \<Rightarrow> (string \<times> string) list \<Rightarrow> syslog_message list \<Rightarrow> syslog_message list" where
  "on_event level values queue = queue @ [\<lparr>sm_level = level, sm_msg = fold record_debug values []\<rparr>]"

record formatter =
  fm_rfc5424 :: bool
  fm_facility :: facility
  fm_hostname :: "string option"
  fm_process :: string
  fm_pid :: nat

datatype native_address = UnixSocket string | UdpSocket string string | TcpSocket string

text \<open>The four calls of a logger that the code uses, and what is logged: the text, alone or in a structured message.\<close>

datatype severity = SevErr | SevWarning | SevInfo | SevDebug

datatype payload = PlainPayload string | StructuredPayload nat string

record 'o syslog_lib =
  sy_open :: "formatter \<Rightarrow> native_address \<Rightarrow> 'o \<Rightarrow> (string + nat) \<times> 'o"
  sy_log :: "nat \<Rightarrow> severity \<Rightarrow> payload \<Rightarrow> 'o \<Rightarrow> (string + unit) \<times> 'o"
  sy_hostname :: "string option"
  sy_pid :: nat
  sy_open_ca :: "string \<Rightarrow> 'o \<Rightarrow> string + string"
  sy_certs :: "string \<Rightarrow> string + string list"
  sy_add_root :: "string \<Rightarrow> string + unit"
  sy_connect :: "string \<Rightarrow> 'o \<Rightarrow> (string + nat) \<times> 'o"
  sy_server_name :: "string \<Rightarrow> string + string"
  sy_handshake :: "string list \<Rightarrow> string \<Rightarrow> nat \<Rightarrow> 'o \<Rightarrow> (string + nat) \<times> 'o"
  sy_write_all :: "nat \<Rightarrow> string \<Rightarrow> 'o \<Rightarrow> (string + unit) \<times> 'o"

text \<open>What the sender has tried to deliver, and for how long it has slept.\<close>

datatype delivery = Logged nat severity payload bool | Written nat string bool

record 'o sender_state =
  ss_os :: 'o
  ss_queue :: "syslog_message list"
  ss_deliveries :: "delivery list"
  ss_sleeps :: "nat list"

datatype syslog_client = Native3164 nat | Native5424 nat

fun call_of_level :: "log_level \<Rightarrow> severity" where
  "call_of_level LevelError = SevErr"
| "call_of_level LevelWarn = SevWarning"
| "call_of_level LevelInfo = SevInfo"
| "call_of_level LevelDebug = SevDebug"
| "call_of_level LevelTrace = SevDebug"

definition send_3164 :: "log_level \<Rightarrow> string \<Rightarrow> severity \<times> payload" where
  "send_3164 level msg = (call_of_level level, PlainPayload msg)"

definition send_5424 :: "log_level \<Rightarrow> string \<Rightarrow> severity \<times> payload" where
  "send_5424 level msg = (call_of_level level, StructuredPayload 1 msg)"

fun client_send :: "syslog_client \<Rightarrow> syslog_message \<Rightarrow> nat \<times> severity \<times> payload" where
  "client_send (Native3164 h) m = (h, send_3164 (sm_level m) (sm_msg m))"
| "client_send (Native5424 h) m = (h, send_5424 (sm_level m) (sm_msg m))"

text \<open>A native client takes every message from the queue, and what fails is dropped.\<close>

definition send_native :: "'o syslog_lib \<Rightarrow> syslog_client \<Rightarrow> syslog_message \<Rightarrow> 'o sender_state \<Rightarrow> 'o sender_state" where
  "send_native Y client m st =
     (case client_send client m of (h, sev, p) \<Rightarrow>
        case sy_log Y h sev p (ss_os st) of (r, os) \<Rightarrow>
          st\<lparr>ss_os := os, ss_queue := tl (ss_queue st), ss_deliveries := ss_deliveries st @ [Logged h sev p (\<not> isl r)]\<rparr>)"

definition eq_ignore_ascii_case :: "string \<Rightarrow> string \<Rightarrow> bool" where
  "eq_ignore_ascii_case a b \<longleftrightarrow> to_ascii_lowercase a = to_ascii_lowercase b"

definition native_client ::
  "'o syslog_lib \<Rightarrow> native_address \<Rightarrow> string option \<Rightarrow> facility \<Rightarrow> string \<Rightarrow> 'o \<Rightarrow> (string + syslog_client) \<times> 'o" where
  "native_client Y address hostname facility format os =
     (let rfc5424 = eq_ignore_ascii_case format ''rfc5424'' in
      case sy_open Y \<lparr>fm_rfc5424 = rfc5424, fm_facility = facility, fm_hostname = hostname,
          fm_process = ''dns-filter'', fm_pid = sy_pid Y\<rparr> address os of
        (Inl e, os) \<Rightarrow> (Inl e, os)
      | (Inr h, os) \<Rightarrow> (Inr (if rfc5424 then Native5424 h else Native3164 h), os))"

definition native_client_unix where
  "native_client_unix Y path = native_client Y (UnixSocket path) None"

definition native_client_udp where
  "native_client_udp Y addr = native_client Y (UdpSocket ''0.0.0.0:0'' addr) (sy_hostname Y)"

definition native_client_tcp where
  "native_client_tcp Y addr = native_client Y (TcpSocket addr) (sy_hostname Y)"

definition native_sender_loop ::
  "'o syslog_lib \<Rightarrow> ('o \<Rightarrow> (string + syslog_client) \<times> 'o) \<Rightarrow> 'o sender_state \<Rightarrow> (string + unit) \<times> 'o sender_state" where
  "native_sender_loop Y new_client st =
     (case new_client (ss_os st) of
        (Inl e, os) \<Rightarrow> (Inl e, st\<lparr>ss_os := os\<rparr>)
      | (Inr client, os) \<Rightarrow> (Inr (), fold (send_native Y client) (ss_queue st) (st\<lparr>ss_os := os\<rparr>)))"

definition unix_sender_loop where
  "unix_sender_loop Y path facility format = native_sender_loop Y (native_client_unix Y path facility format)"

definition udp_sender_loop where
  "udp_sender_loop Y addr facility format = native_sender_loop Y (native_client_udp Y addr facility format)"

definition tcp_sender_loop where
  "tcp_sender_loop Y addr facility format = native_sender_loop Y (native_client_tcp Y addr facility format)"

lemmas native_loops = unix_sender_loop_def udp_sender_loop_def tcp_sender_loop_def

text \<open>A TLS connection: each message with a line feed, until a write fails.\<close>

fun write_messages :: "'o syslog_lib \<Rightarrow> nat \<Rightarrow> syslog_message list \<Rightarrow> 'o sender_state \<Rightarrow> (string + unit) \<times> 'o sender_state" where
  "write_messages Y conn [] st = (Inr (), st)"
| "write_messages Y conn (m # ms) st =
     (let encoded = sm_msg m @ [CHR 0x0A] in
      case sy_write_all Y conn encoded (ss_os st) of (r, os) \<Rightarrow>
        let st = st\<lparr>ss_os := os, ss_queue := ms, ss_deliveries := ss_deliveries st @ [Written conn encoded (\<not> isl r)]\<rparr>
        in case r of Inl e \<Rightarrow> (Inl e, st) | Inr _ \<Rightarrow> write_messages Y conn ms st)"

definition load_roots :: "'o syslog_lib \<Rightarrow> string \<Rightarrow> 'o \<Rightarrow> string + string list" where
  "load_roots Y ca_path os =
     res_bind (sy_open_ca Y ca_path os) (\<lambda>content.
     res_bind (sy_certs Y content) (\<lambda>certs.
     map_ok (\<lambda>_. certs) (res_map_list (sy_add_root Y) certs)))"

definition tls_sender_loop ::
  "'o syslog_lib \<Rightarrow> string \<Rightarrow> string \<Rightarrow> 'o sender_state \<Rightarrow> (string + unit) \<times> 'o sender_state" where
  "tls_sender_loop Y addr ca_path st =
     (case load_roots Y ca_path (ss_os st) of
        Inl e \<Rightarrow> (Inl e, st)
      | Inr roots \<Rightarrow>
          (case sy_connect Y addr (ss_os st) of
             (Inl e, os) \<Rightarrow> (Inl e, st\<lparr>ss_os := os\<rparr>)
           | (Inr tcp, os) \<Rightarrow>
               (case sy_server_name Y (hd (split_char (CHR '':'') addr)) of
                  Inl e \<Rightarrow> (Inl e, st\<lparr>ss_os := os\<rparr>)
                | Inr server_name \<Rightarrow>
                    (case sy_handshake Y roots server_name tcp os of
                       (Inl e, os) \<Rightarrow> (Inl e, st\<lparr>ss_os := os\<rparr>)
                     | (Inr conn, os) \<Rightarrow> write_messages Y conn (ss_queue st) (st\<lparr>ss_os := os\<rparr>)))))"

text \<open>One turn of the sender: a client, until it fails; then a pause.\<close>

definition run_client :: "'o syslog_lib \<Rightarrow> syslog_transport \<Rightarrow> facility \<Rightarrow> string \<Rightarrow> 'o sender_state \<Rightarrow> (string + unit) \<times> 'o sender_state" where
  "run_client Y transport facility format st =
     (case transport of
        SyslogUnix path \<Rightarrow> unix_sender_loop Y path facility format st
      | SyslogUdp addr \<Rightarrow> udp_sender_loop Y addr facility format st
      | SyslogTcp addr \<Rightarrow> tcp_sender_loop Y addr facility format st
      | SyslogTls addr ca_path \<Rightarrow> tls_sender_loop Y addr ca_path st)"

fun pause_secs :: "syslog_transport \<Rightarrow> nat" where
  "pause_secs (SyslogUnix _) = 1"
| "pause_secs (SyslogUdp _) = 1"
| "pause_secs (SyslogTcp _) = 5"
| "pause_secs (SyslogTls _ _) = 5"

text \<open>The sender until it waits for the next message, or until it has failed \<open>n\<close> times.\<close>

fun sender_loop :: "'o syslog_lib \<Rightarrow> syslog_transport \<Rightarrow> facility \<Rightarrow> string \<Rightarrow> nat \<Rightarrow> 'o sender_state \<Rightarrow> 'o sender_state" where
  "sender_loop Y transport facility format 0 st = st"
| "sender_loop Y transport facility format (Suc n) st =
     (case run_client Y transport facility format st of
        (Inr _, st) \<Rightarrow> st
      | (Inl _, st) \<Rightarrow>
          sender_loop Y transport facility format n (st\<lparr>ss_sleeps := ss_sleeps st @ [pause_secs transport]\<rparr>))"

section \<open>Properties\<close>

text \<open>The numbers of RFC 5424, which the syslog library has for the facilities.\<close>

fun facility_value :: "facility \<Rightarrow> nat" where
  "facility_value LogKern = 0" | "facility_value LogUser = 1" | "facility_value LogMail = 2"
| "facility_value LogDaemon = 3" | "facility_value LogAuth = 4" | "facility_value LogSyslog = 5"
| "facility_value LogLpr = 6" | "facility_value LogNews = 7" | "facility_value LogUucp = 8"
| "facility_value LogCron = 9" | "facility_value LogAuthpriv = 10" | "facility_value LogLocal0 = 16"
| "facility_value LogLocal1 = 17" | "facility_value LogLocal2 = 18" | "facility_value LogLocal3 = 19"
| "facility_value LogLocal4 = 20" | "facility_value LogLocal5 = 21" | "facility_value LogLocal6 = 22"
| "facility_value LogLocal7 = 23"

text \<open>The two tables of facilities agree, and every priority made from them fits into one byte.\<close>

theorem facilities_agree:
  "facility_code name = map_ok facility_value (facility_from_str name) \<and>
   (\<forall>f l. facility_value f * 8 + severity_code l < 256)"
proof -
  have "facility_value f * 8 + severity_code l < 256" for f l
  proof -
    have "facility_value f \<le> 23" by (cases f) simp_all
    moreover have "severity_code l \<le> 7" by (cases l) simp_all
    ultimately show ?thesis by linarith
  qed
  then show ?thesis by (simp add: facility_code_def facility_from_str_def)
qed

lemma file_layer_Inr:
  "file_layer op c debug os = (Inr s, os') \<Longrightarrow> s = FileSink (ff_location c) (build_env_filter (level_or LevelDebug (Some (ff_level c))) debug)"
  by (auto simp: file_layer_def split: sum.splits prod.splits)

lemma syslog_layer_Inr: "syslog_layer c debug = Inr s \<Longrightarrow> \<exists>t f fmt filter. s = SyslogSink t f fmt filter"
  by (auto simp: syslog_layer_def)

text \<open>
  Where the log goes once it is set up: to standard output, to the file and to syslog exactly if these are enabled, and
  to standard error exactly if none of them is, so the program never runs without a log.
\<close>

theorem logging_sinks:
  assumes "init_logging op cfg debug os = (Inr sinks, os')"
  shows "sinks \<noteq> [] \<and>
    ((\<exists>f. StdoutSink f \<in> set sinks) \<longleftrightarrow> enabled_opt st_enabled (lg_stdout cfg)) \<and>
    ((\<exists>p f. FileSink p f \<in> set sinks) \<longleftrightarrow> enabled_opt ff_enabled (lg_file cfg)) \<and>
    ((\<exists>t c fmt f. SyslogSink t c fmt f \<in> set sinks) \<longleftrightarrow> enabled_opt sl_enabled (lg_syslog cfg)) \<and>
    ((\<exists>f. StderrSink f \<in> set sinks) \<longleftrightarrow>
       \<not> enabled_opt st_enabled (lg_stdout cfg) \<and> \<not> enabled_opt ff_enabled (lg_file cfg) \<and> \<not> enabled_opt sl_enabled (lg_syslog cfg))"
  using assms
  by (auto simp: init_logging_def Let_def enabled_opt_def
      split: option.splits if_splits sum.splits prod.splits dest!: file_layer_Inr syslog_layer_Inr)

text \<open>
  The level of standard output and of the file is not raised by the flag for debugging, which only drops the
  directives for the libraries; the level of syslog is.
\<close>

theorem debug_keeps_stdout_level:
  "init_logging op \<lparr>lg_syslog = None, lg_file = None, lg_stdout = Some \<lparr>st_enabled = True, st_level = ''info''\<rparr>\<rparr> True os =
     (Inr [StdoutSink ''INFO''], os)"
  by (simp add: init_logging_def enabled_opt_def level_or_def level_from_str_def build_env_filter_def, code_simp)

subsection \<open>The queue\<close>

fun delivers :: "syslog_message \<Rightarrow> delivery \<Rightarrow> bool" where
  "delivers m (Logged h sev p ok) \<longleftrightarrow>
     sev = call_of_level (sm_level m) \<and> (p = PlainPayload (sm_msg m) \<or> p = StructuredPayload 1 (sm_msg m))"
| "delivers m (Written conn text ok) \<longleftrightarrow> text = sm_msg m @ [CHR 0x0A]"

fun broken_write :: "delivery \<Rightarrow> bool" where
  "broken_write (Written conn text ok) \<longleftrightarrow> \<not> ok"
| "broken_write (Logged h sev p ok) \<longleftrightarrow> False"

text \<open>The queue was handled up to its rest, one attempt for each message, and at most \<open>n\<close> of the writes failed.\<close>

definition handled :: "nat \<Rightarrow> 'o sender_state \<Rightarrow> 'o sender_state \<Rightarrow> bool" where
  "handled n st st' \<longleftrightarrow>
     (\<exists>ms new. ss_queue st = ms @ ss_queue st' \<and> ss_deliveries st' = ss_deliveries st @ new \<and>
        list_all2 delivers ms new \<and> length (filter broken_write new) \<le> n)"

lemma handled_refl: "ss_queue st' = ss_queue st \<Longrightarrow> ss_deliveries st' = ss_deliveries st \<Longrightarrow> handled n st st'"
  unfolding handled_def by auto

lemma handled_os [simp]: "handled n (st\<lparr>ss_os := os\<rparr>) st' = handled n st st'"
  by (simp add: handled_def)

lemma handled_trans:
  assumes "handled n st st1" and "handled k st1 st2"
  shows "handled (n + k) st st2"
proof -
  from assms(1) obtain ms new where a: "ss_queue st = ms @ ss_queue st1" "ss_deliveries st1 = ss_deliveries st @ new"
    "list_all2 delivers ms new" "length (filter broken_write new) \<le> n" unfolding handled_def by blast
  from assms(2) obtain ms' new' where b: "ss_queue st1 = ms' @ ss_queue st2" "ss_deliveries st2 = ss_deliveries st1 @ new'"
    "list_all2 delivers ms' new'" "length (filter broken_write new') \<le> k" unfolding handled_def by blast
  have "list_all2 delivers (ms @ ms') (new @ new')" using a(3) b(3) by (rule list_all2_appendI)
  then show ?thesis unfolding handled_def using a b
    by (intro exI [of _ "ms @ ms'"] exI [of _ "new @ new'"]) auto
qed

lemma handled_one:
  "ss_queue st = m # ss_queue st' \<Longrightarrow> ss_deliveries st' = ss_deliveries st @ [d] \<Longrightarrow> delivers m d \<Longrightarrow>
   (broken_write d \<Longrightarrow> 0 < n) \<Longrightarrow> handled n st st'"
  unfolding handled_def by (intro exI [of _ "[m]"] exI [of _ "[d]"]) auto

lemma send_native_one:
  "ss_queue st = m # ms \<Longrightarrow> handled 0 st (send_native Y client m st) \<and> ss_queue (send_native Y client m st) = ms \<and>
     ss_sleeps (send_native Y client m st) = ss_sleeps st"
  by (cases client) (auto simp: send_native_def send_3164_def send_5424_def split: prod.splits intro!: handled_one)

lemma send_native_all:
  "ss_queue st = ms \<Longrightarrow> handled 0 st (fold (send_native Y client) ms st) \<and> ss_queue (fold (send_native Y client) ms st) = [] \<and>
     ss_sleeps (fold (send_native Y client) ms st) = ss_sleeps st"
proof (induction ms arbitrary: st)
  case (Cons m ms)
  from send_native_one [OF Cons.prems, of Y client] Cons.IH [of "send_native Y client m st"] show ?case
    using handled_trans [where n = 0 and k = 0] by fastforce
qed (simp add: handled_refl)

lemma write_messages_all:
  "write_messages Y conn ms st = (r, st') \<Longrightarrow> ss_queue st = ms \<Longrightarrow>
     handled (if isl r then 1 else 0) st st' \<and> (\<not> isl r \<longrightarrow> ss_queue st' = []) \<and> ss_sleeps st' = ss_sleeps st"
proof (induction ms arbitrary: st)
  case (Cons m ms)
  obtain w os where w: "sy_write_all Y conn (sm_msg m @ [CHR 0x0A]) (ss_os st) = (w, os)" by fastforce
  define st1 where "st1 = st\<lparr>ss_os := os, ss_queue := ms,
    ss_deliveries := ss_deliveries st @ [Written conn (sm_msg m @ [CHR 0x0A]) (\<not> isl w)]\<rparr>"
  have one: "handled (if isl w then 1 else 0) st st1"
    using Cons.prems(2) by (auto simp: st1_def intro!: handled_one)
  show ?case
  proof (cases w)
    case (Inl e)
    then have "r = Inl e" "st' = st1" using Cons.prems(1) w by (auto simp: st1_def Let_def)
    then show ?thesis using one Inl by (simp add: st1_def)
  next
    case (Inr u)
    then have "write_messages Y conn ms st1 = (r, st')" using Cons.prems(1) w by (simp add: st1_def Let_def)
    from Cons.IH [OF this] one handled_trans [OF one, of _ st'] Inr show ?thesis by (auto simp: st1_def)
  qed
qed (auto simp: handled_refl)

lemma run_client_handles:
  assumes "run_client Y transport facility format st = (r, st')"
  shows "handled (if isl r then 1 else 0) st st' \<and> (\<not> isl r \<longrightarrow> ss_queue st' = []) \<and> ss_sleeps st' = ss_sleeps st"
proof -
  have native: "handled (if isl r then 1 else 0) st st' \<and> (\<not> isl r \<longrightarrow> ss_queue st' = []) \<and> ss_sleeps st' = ss_sleeps st"
    if "native_sender_loop Y new_client st = (r, st')" for new_client
    using that send_native_all [of "st\<lparr>ss_os := os\<rparr>" "ss_queue st" Y client for os client]
    by (auto simp: native_sender_loop_def split: sum.splits prod.splits intro: handled_refl)
  have tls: "handled (if isl r then 1 else 0) st st' \<and> (\<not> isl r \<longrightarrow> ss_queue st' = []) \<and> ss_sleeps st' = ss_sleeps st"
    if "tls_sender_loop Y addr ca st = (r, st')" for addr ca
    using that write_messages_all [of Y _ "ss_queue st" "st\<lparr>ss_os := os\<rparr>" r st' for os]
    by (auto simp: tls_sender_loop_def split: sum.splits prod.splits intro: handled_refl)
  show ?thesis using assms native tls by (auto simp: run_client_def native_loops split: syslog_transport.splits)
qed

text \<open>
  The log keeps its order: however often a client or a connection fails, every message that has left the queue was
  handed over exactly once, in the order of the queue, with the call of its level; at most one message is lost with each
  connection that breaks; and the sender only stops short of the end of the queue when it has failed \<open>n\<close> times.
\<close>

theorem syslog_in_order:
  "handled n st (sender_loop Y transport facility format n st) \<and>
   (ss_queue (sender_loop Y transport facility format n st) = [] \<or>
    ss_sleeps (sender_loop Y transport facility format n st) = ss_sleeps st @ replicate n (pause_secs transport))"
proof (induction n arbitrary: st)
  case (Suc n)
  obtain r st1 where run: "run_client Y transport facility format st = (r, st1)" by fastforce
  note first = run_client_handles [OF run]
  show ?case
  proof (cases r)
    case (Inl e)
    define st2 where "st2 = st1\<lparr>ss_sleeps := ss_sleeps st1 @ [pause_secs transport]\<rparr>"
    have "handled 1 st st2" using first Inl by (simp add: st2_def handled_def)
    from handled_trans [OF this, of n] Suc.IH [of st2] first Inl run show ?thesis by (auto simp: st2_def)
  next
    case (Inr u)
    then show ?thesis using first run by (auto simp: handled_def)
  qed
qed (simp add: handled_refl)

text \<open>
  Over TLS a message is sent as its bare text: neither its level nor the configured facility and format reach the
  server. Without an address the port is 601.
\<close>

theorem tls_ignores_facility:
  "run_client Y (SyslogTls addr ca) facility format st = run_client Y (SyslogTls addr ca) facility' format' st \<and>
   write_messages Y conn [\<lparr>sm_level = level, sm_msg = text\<rparr>] st = write_messages Y conn [\<lparr>sm_level = level', sm_msg = text\<rparr>] st"
  by (simp add: run_client_def Let_def)

theorem tls_default_port: "transport_from_config (Some ''tls'') None (Some ca) = Inr (SyslogTls ''127.0.0.1:601'' ca)"
  by (simp add: transport_from_config_def)

end
