(* ===== verification/Privileges.thy ===== *)
theory Privileges
  imports Prelude
begin

text \<open>
  Dropping privileges before the database and the sockets are opened (\<open>src/frameworks/privileges.rs\<close>), on Linux. The system calls are
  the parameter \<open>priv_os\<close>: the result of a call on the process, and what can be observed of a process. What the
  manual pages say of the calls is \<open>linux_calls\<close>.
\<close>

subsection \<open>System calls\<close>

datatype capability = CapNetBindService | CapNetAdmin | OtherCap nat

datatype cap_set = Permitted | Effective

datatype syscall =
    Chroot string
  | Chdir string
  | SetKeepcaps bool
  | SetGroups "nat list"
  | SetGid nat
  | SetUid nat
  | CapsSet cap_set "capability set"

record 'o priv_os =
  po_call :: "syscall \<Rightarrow> 'o \<Rightarrow> (string + unit) \<times> 'o"
  po_uid :: "'o \<Rightarrow> nat"
  po_gid :: "'o \<Rightarrow> nat"
  po_user :: "string \<Rightarrow> 'o \<Rightarrow> string + nat option"
  po_group :: "string \<Rightarrow> 'o \<Rightarrow> string + nat option"

record privilege_drop_config =
  pd_user :: string
  pd_group :: string
  pd_chroot_dir :: "string option"

definition default_user :: string where "default_user = ''nobody''"
definition default_group :: string where "default_group = ''nogroup''"

datatype privilege_error =
    LookupFailed string
  | NotKnown string
  | CallFailed syscall string
  | WrongUid nat nat
  | WrongGid nat nat

subsection \<open>The sequence\<close>

text \<open>Calls one after the other; the first that fails ends the sequence.\<close>

fun run_calls :: "'o priv_os \<Rightarrow> syscall list \<Rightarrow> 'o \<Rightarrow> (privilege_error + unit) \<times> 'o" where
  "run_calls P [] os = (Inr (), os)"
| "run_calls P (c # cs) os =
     (case po_call P c os of
        (Inl e, os) \<Rightarrow> (Inl (CallFailed c e), os)
      | (Inr _, os) \<Rightarrow> run_calls P cs os)"

definition retained_caps :: "capability set" where
  "retained_caps = {CapNetBindService, CapNetAdmin}"

definition retain_network_capabilities :: "syscall list" where
  "retain_network_capabilities = [CapsSet Permitted retained_caps, CapsSet Effective retained_caps]"

definition verify_privilege_drop :: "'o priv_os \<Rightarrow> nat \<Rightarrow> nat \<Rightarrow> 'o \<Rightarrow> privilege_error + unit" where
  "verify_privilege_drop P expected_uid expected_gid os =
     (if po_uid P os \<noteq> expected_uid then Inl (WrongUid expected_uid (po_uid P os))
      else if po_gid P os \<noteq> expected_gid then Inl (WrongGid expected_gid (po_gid P os))
      else Inr ())"

definition drop_calls :: "string option \<Rightarrow> nat \<Rightarrow> nat \<Rightarrow> syscall list" where
  "drop_calls chroot_dir uid gid =
     (case chroot_dir of None \<Rightarrow> [] | Some dir \<Rightarrow> [Chroot dir, Chdir ''/''])
     @ [SetKeepcaps True, SetGroups [gid], SetGid gid, SetUid uid]
     @ retain_network_capabilities @ [SetKeepcaps False]"

definition look_up :: "string + nat option \<Rightarrow> string \<Rightarrow> privilege_error + nat" where
  "look_up r name = res_bind (map_err LookupFailed r) (\<lambda>n. ok_or (NotKnown name) n)"

definition drop_privileges :: "'o priv_os \<Rightarrow> privilege_drop_config \<Rightarrow> 'o \<Rightarrow> (privilege_error + unit) \<times> 'o" where
  "drop_privileges P config os =
     (if po_uid P os \<noteq> 0 then (Inr (), os)
      else case look_up (po_user P (pd_user config) os) (pd_user config) of
        Inl e \<Rightarrow> (Inl e, os)
      | Inr uid \<Rightarrow>
          (case look_up (po_group P (pd_group config) os) (pd_group config) of
             Inl e \<Rightarrow> (Inl e, os)
           | Inr gid \<Rightarrow>
               (case run_calls P (drop_calls (pd_chroot_dir config) uid gid) os of
                  (Inl e, os) \<Rightarrow> (Inl e, os)
                | (Inr _, os) \<Rightarrow> (verify_privilege_drop P uid gid os, os))))"

subsection \<open>What the calls do\<close>

text \<open>
  A process, and the documented effect of a successful call on it: a change of the user from root empties the effective
  set, and the permitted set too unless the capabilities are kept.
\<close>

record process =
  ps_uid :: nat
  ps_gid :: nat
  ps_groups :: "nat list"
  ps_root :: string
  ps_cwd :: string
  ps_keepcaps :: bool
  ps_permitted :: "capability set"
  ps_effective :: "capability set"

fun call_effect :: "syscall \<Rightarrow> process \<Rightarrow> process" where
  "call_effect (Chroot dir) p = p\<lparr>ps_root := dir\<rparr>"
| "call_effect (Chdir dir) p = p\<lparr>ps_cwd := dir\<rparr>"
| "call_effect (SetKeepcaps b) p = p\<lparr>ps_keepcaps := b\<rparr>"
| "call_effect (SetGroups gs) p = p\<lparr>ps_groups := gs\<rparr>"
| "call_effect (SetGid g) p = p\<lparr>ps_gid := g\<rparr>"
| "call_effect (SetUid u) p =
     (if ps_uid p = 0 \<and> u \<noteq> 0
      then p\<lparr>ps_uid := u, ps_effective := {}, ps_permitted := (if ps_keepcaps p then ps_permitted p else {})\<rparr>
      else p\<lparr>ps_uid := u\<rparr>)"
| "call_effect (CapsSet Permitted cs) p = p\<lparr>ps_permitted := cs\<rparr>"
| "call_effect (CapsSet Effective cs) p = p\<lparr>ps_effective := cs\<rparr>"

definition linux_calls :: "'o priv_os \<Rightarrow> ('o \<Rightarrow> process) \<Rightarrow> bool" where
  "linux_calls P view \<longleftrightarrow>
     (\<forall>os. po_uid P os = ps_uid (view os) \<and> po_gid P os = ps_gid (view os)) \<and>
     (\<forall>c os u os'. po_call P c os = (Inr u, os') \<longrightarrow> view os' = call_effect c (view os))"

lemma run_calls_view:
  "linux_calls P view \<Longrightarrow> run_calls P cs os = (Inr u, os') \<Longrightarrow> view os' = fold call_effect cs (view os)"
proof (induction cs arbitrary: os)
  case (Cons c cs)
  from Cons.prems(2) obtain v os1 where c: "po_call P c os = (Inr v, os1)" "run_calls P cs os1 = (Inr u, os')"
    by (auto split: sum.splits prod.splits)
  then have "view os1 = call_effect c (view os)" using Cons.prems(1) by (auto simp: linux_calls_def)
  with Cons.IH [OF Cons.prems(1) c(2)] show ?case by simp
qed simp

lemma drop_calls_effect:
  "fold call_effect (drop_calls dir uid gid) p =
     p\<lparr>ps_uid := uid, ps_gid := gid, ps_groups := [gid],
       ps_root := (case dir of None \<Rightarrow> ps_root p | Some d \<Rightarrow> d),
       ps_cwd := (case dir of None \<Rightarrow> ps_cwd p | Some _ \<Rightarrow> ''/''), ps_keepcaps := False,
       ps_permitted := retained_caps, ps_effective := retained_caps\<rparr>"
  by (cases dir) (simp_all add: drop_calls_def retain_network_capabilities_def)

subsection \<open>Properties\<close>

lemma drop_privileges_root:
  assumes "linux_calls P view" and "drop_privileges P config os = (Inr u, os')" and "ps_uid (view os) = 0"
  shows "\<exists>uid gid. po_user P (pd_user config) os = Inr (Some uid) \<and> po_group P (pd_group config) os = Inr (Some gid) \<and>
      ps_uid (view os') = uid \<and> ps_gid (view os') = gid \<and> ps_groups (view os') = [gid] \<and>
      ps_permitted (view os') = {CapNetBindService, CapNetAdmin} \<and>
      ps_effective (view os') = {CapNetBindService, CapNetAdmin} \<and> \<not> ps_keepcaps (view os') \<and>
      (\<forall>dir. pd_chroot_dir config = Some dir \<longrightarrow> ps_root (view os') = dir \<and> ps_cwd (view os') = ''/'')"
proof -
  have root: "po_uid P os = 0" using assms(1,3) by (simp add: linux_calls_def)
  with assms(2) obtain uid gid v where ids: "look_up (po_user P (pd_user config) os) (pd_user config) = Inr uid"
      "look_up (po_group P (pd_group config) os) (pd_group config) = Inr gid"
    and run: "run_calls P (drop_calls (pd_chroot_dir config) uid gid) os = (Inr v, os')"
    by (auto simp: drop_privileges_def split: sum.splits prod.splits)
  have "po_user P (pd_user config) os = Inr (Some uid)" "po_group P (pd_group config) os = Inr (Some gid)"
    using ids by (cases "po_user P (pd_user config) os"; cases "po_group P (pd_group config) os";
      auto simp: look_up_def elim: ok_or.elims)+
  with run_calls_view [OF assms(1) run] show ?thesis
    by (auto simp: drop_calls_effect retained_caps_def)
qed

text \<open>
  C10. When dropping privileges succeeds for a process that runs as root, the process is the configured user and group,
  has no other group, and lives in the configured directory with its working directory at the new root. It keeps the
  right to bind privileged ports, holds no capability besides that one and the administration of the network, and can no
  longer carry capabilities over a change of user. A process that does not run as root is left as it is. Dropping never
  succeeds for an unknown user or group.
\<close>

theorem privileges_dropped:
  assumes "linux_calls P view" and "drop_privileges P config os = (Inr u, os')"
  shows "if ps_uid (view os) \<noteq> 0 then os' = os
    else \<exists>uid gid. po_user P (pd_user config) os = Inr (Some uid) \<and> po_group P (pd_group config) os = Inr (Some gid) \<and>
      ps_uid (view os') = uid \<and> ps_gid (view os') = gid \<and> ps_groups (view os') = [gid] \<and>
      CapNetBindService \<in> ps_effective (view os') \<and> ps_effective (view os') \<subseteq> ps_permitted (view os') \<and>
      ps_permitted (view os') \<subseteq> {CapNetBindService, CapNetAdmin} \<and> \<not> ps_keepcaps (view os') \<and>
      (\<forall>dir. pd_chroot_dir config = Some dir \<longrightarrow> ps_root (view os') = dir \<and> ps_cwd (view os') = ''/'')"
proof (cases "ps_uid (view os) = 0")
  case True
  then show ?thesis using drop_privileges_root [OF assms] by auto
next
  case False
  then show ?thesis using assms by (auto simp: drop_privileges_def linux_calls_def)
qed

text \<open>
  The administration of the network is kept in every case, for the marks of outgoing packets, while the comment of
  \<open>drop_privileges\<close> promises the right to bind ports alone.
\<close>

theorem net_admin_kept:
  assumes "linux_calls P view" and "drop_privileges P config os = (Inr u, os')" and "ps_uid (view os) = 0"
  shows "ps_permitted (view os') = {CapNetBindService, CapNetAdmin} \<and> ps_effective (view os') = {CapNetBindService, CapNetAdmin}"
  using drop_privileges_root [OF assms] by blast

text \<open>
  The group is changed while the process still has the right to: no call follows the change of the user but those that
  concern capabilities.
\<close>

lemma order_of_calls:
  "\<exists>before after. drop_calls dir uid gid = before @ SetUid uid # after \<and>
     SetGid gid \<in> set before \<and> SetGroups [gid] \<in> set before \<and> (\<forall>d. dir = Some d \<longrightarrow> Chroot d \<in> set before) \<and>
     (\<forall>c\<in>set after. (\<exists>s cs. c = CapsSet s cs) \<or> (\<exists>b. c = SetKeepcaps b))"
  by (intro exI [of _ "(case dir of None \<Rightarrow> [] | Some dir \<Rightarrow> [Chroot dir, Chdir ''/''])
       @ [SetKeepcaps True, SetGroups [gid], SetGid gid]"]
      exI [of _ "retain_network_capabilities @ [SetKeepcaps False]"])
    (auto simp: drop_calls_def retain_network_capabilities_def)

subsection \<open>Instances\<close>

definition obedient_os :: "process priv_os" where
  "obedient_os = \<lparr>po_call = (\<lambda>c p. (Inr (), call_effect c p)), po_uid = ps_uid, po_gid = ps_gid,
     po_user = (\<lambda>n _. Inr (if n = ''nobody'' then Some 65534 else None)),
     po_group = (\<lambda>n _. Inr (if n = ''nogroup'' then Some 65534 else None))\<rparr>"

definition root_process :: process where
  "root_process = \<lparr>ps_uid = 0, ps_gid = 0, ps_groups = [0, 1], ps_root = ''/'', ps_cwd = ''/root'', ps_keepcaps = False,
     ps_permitted = range OtherCap, ps_effective = range OtherCap\<rparr>"

definition default_drop :: privilege_drop_config where
  "default_drop = \<lparr>pd_user = default_user, pd_group = default_group, pd_chroot_dir = Some ''/var/lib/dns-filter''\<rparr>"

lemma obedient_calls: "run_calls obedient_os cs p = (Inr (), fold call_effect cs p)"
  by (induction cs arbitrary: p) (simp_all add: obedient_os_def)

theorem privileges_dropped_witness:
  "\<exists>p. drop_privileges obedient_os default_drop root_process = (Inr (), p) \<and> ps_uid p = 65534 \<and> ps_groups p = [65534] \<and>
     ps_root p = ''/var/lib/dns-filter'' \<and> CapNetBindService \<in> ps_effective p"
proof -
  have l: "linux_calls obedient_os id" by (auto simp: linux_calls_def obedient_os_def)
  have users: "po_user obedient_os (pd_user default_drop) root_process = Inr (Some 65534)"
    "po_group obedient_os (pd_group default_drop) root_process = Inr (Some 65534)" "po_uid obedient_os root_process = 0"
    "pd_chroot_dir default_drop = Some ''/var/lib/dns-filter''" "ps_uid root_process = 0"
    by (simp_all add: obedient_os_def default_drop_def default_user_def default_group_def root_process_def)
  obtain p where p: "drop_privileges obedient_os default_drop root_process = (Inr (), p)"
    by (auto simp: drop_privileges_def users look_up_def obedient_calls drop_calls_effect verify_privilege_drop_def)
      (simp_all add: obedient_os_def)
  from privileges_dropped [OF l p] users p show ?thesis by simp
qed

end
