(* ===== verification/ControlSocket.thy ===== *)
theory ControlSocket
  imports RustStd
begin

text \<open>
  The control socket (\<open>src/frameworks/control_socket.rs\<close>) and its client (\<open>src/frameworks/control_client.rs\<close>):
  binding with the detection of a stale socket, the command protocol, and the loop that serves connections until it is
  told to stop.

  The file system and sockets are the parameter \<open>control_os\<close>. The JSON reader is an argument; of it the properties
  use that it reads what the client writes. An iteration of the loop sees what is ready: the cancelled shutdown token,
  a failed accept, or a connection with the line it sends; a connection may be cut by the timeout of five seconds
  before it has acted or after.
\<close>

subsection \<open>Messages\<close>

datatype control_status = StatusOk | StatusError

record control_response =
  cr_status :: control_status
  cr_message :: "string option"
  cr_data :: "string option"

definition ok_with_message :: "string \<Rightarrow> control_response" where
  "ok_with_message msg = \<lparr>cr_status = StatusOk, cr_message = Some msg, cr_data = None\<rparr>"

definition ok_with_data :: "string \<Rightarrow> control_response" where
  "ok_with_data data = \<lparr>cr_status = StatusOk, cr_message = None, cr_data = Some data\<rparr>"

definition error_response :: "string \<Rightarrow> control_response" where
  "error_response msg = \<lparr>cr_status = StatusError, cr_message = Some msg, cr_data = None\<rparr>"

definition max_message_bytes :: nat where "max_message_bytes = 1024"

subsection \<open>Binding\<close>

record 'o control_os =
  ko_parent :: "string \<Rightarrow> string option"
  ko_create_dir_all :: "string \<Rightarrow> 'o \<Rightarrow> (string + unit) \<times> 'o"
  ko_exists :: "string \<Rightarrow> 'o \<Rightarrow> bool"
  ko_connect :: "string \<Rightarrow> 'o \<Rightarrow> (string + unit) \<times> 'o"
  ko_remove_file :: "string \<Rightarrow> 'o \<Rightarrow> (string + unit) \<times> 'o"
  ko_bind :: "string \<Rightarrow> 'o \<Rightarrow> (string + unit) \<times> 'o"
  ko_set_permissions :: "string \<Rightarrow> nat \<Rightarrow> 'o \<Rightarrow> (string + unit) \<times> 'o"

datatype bind_error =
    DirectoryFailed string
  | AlreadyRunning string
  | RemoveFailed string
  | BindFailed string
  | PermissionsFailed string

definition os_step :: "('e \<Rightarrow> 'f) \<Rightarrow> (('e + unit) \<times> 'o) \<Rightarrow> ('o \<Rightarrow> ('f + 'a) \<times> 'o) \<Rightarrow> ('f + 'a) \<times> 'o" where
  "os_step err r k = (case r of (Inl e, os) \<Rightarrow> (Inl (err e), os) | (Inr _, os) \<Rightarrow> k os)"

text \<open>Permissions \<open>0o660\<close>.\<close>

definition socket_mode :: nat where "socket_mode = 6 * 64 + 6 * 8"

definition bind_and_restrict :: "'o control_os \<Rightarrow> string \<Rightarrow> 'o \<Rightarrow> (bind_error + string) \<times> 'o" where
  "bind_and_restrict K path os =
     os_step (\<lambda>_. BindFailed path) (ko_bind K path os) (\<lambda>os.
     os_step (\<lambda>_. PermissionsFailed path) (ko_set_permissions K path socket_mode os) (\<lambda>os.
     (Inr path, os)))"

definition bind_socket :: "'o control_os \<Rightarrow> string \<Rightarrow> 'o \<Rightarrow> (bind_error + string) \<times> 'o" where
  "bind_socket K path os =
     os_step (\<lambda>_. DirectoryFailed path)
       (case ko_parent K path of Some parent \<Rightarrow> ko_create_dir_all K parent os | None \<Rightarrow> (Inr (), os)) (\<lambda>os.
     if ko_exists K path os then
       (case ko_connect K path os of
          (Inr _, os) \<Rightarrow> (Inl (AlreadyRunning path), os)
        | (Inl _, os) \<Rightarrow> os_step (\<lambda>_. RemoveFailed path) (ko_remove_file K path os) (bind_and_restrict K path))
     else bind_and_restrict K path os)"

subsection \<open>Connections\<close>

record control_state =
  ct_reload_open :: bool
  ct_reloads_sent :: nat
  ct_shutdown :: bool
  ct_socket_file :: bool
  ct_removable :: bool
  ct_responses :: "control_response list"

text \<open>The command and whether the server stops; \<open>status\<close> is the provider of the status, if there is one.\<close>

definition run_command ::
  "string option \<Rightarrow> string \<Rightarrow> control_state \<Rightarrow> (control_response \<times> bool) \<times> control_state" where
  "run_command status command st =
     (if command = ''reload'' then
        (if ct_reload_open st
         then ((ok_with_message ''reload triggered'', False), st\<lparr>ct_reloads_sent := Suc (ct_reloads_sent st)\<rparr>)
         else ((error_response ''reload channel closed'', False), st))
      else if command = ''stop'' then ((ok_with_message ''shutdown initiated'', True), st\<lparr>ct_shutdown := True\<rparr>)
      else if command = ''status'' then
        (case status of
           Some data \<Rightarrow> ((ok_with_data data, False), st)
         | None \<Rightarrow> ((error_response ''status unavailable in this build'', False), st))
      else ((error_response (''unknown command: '' @ command), False), st))"

definition respond_with :: "control_response \<Rightarrow> control_state \<Rightarrow> control_state" where
  "respond_with r st = st\<lparr>ct_responses := ct_responses st @ [r]\<rparr>"

definition handle_connection ::
  "(string \<Rightarrow> string option) \<Rightarrow> string option \<Rightarrow> string option \<Rightarrow> control_state \<Rightarrow> (string + bool) \<times> control_state" where
  "handle_connection parse status line st =
     (case line of
        None \<Rightarrow> (Inl ''failed to read from control socket'', st)
      | Some line \<Rightarrow>
          if length line = 0 then (Inr False, st)
          else if length line > max_message_bytes
          then (Inr False, respond_with (error_response ''message too large'') st)
          else case parse (trim line) of
            None \<Rightarrow> (Inl ''invalid control message JSON'', st)
          | Some command \<Rightarrow>
              (case run_command status command st of
                 ((response, should_stop), st) \<Rightarrow> (Inr should_stop, respond_with response st)))"

subsection \<open>The loop\<close>

datatype timeout_cut = Finished | CutBefore | CutAfter

datatype serve_event =
    Cancelled
  | AcceptFailed
  | Connection "string option" "string option" timeout_cut

text \<open>
  A connection that the timeout cuts before it acts does nothing; one that it cuts while it answers has acted, but does
  not end the loop itself.
\<close>

definition serve_connection ::
  "(string \<Rightarrow> string option) \<Rightarrow> string option \<Rightarrow> string option \<Rightarrow> timeout_cut \<Rightarrow> control_state \<Rightarrow> bool \<times> control_state" where
  "serve_connection parse status line c st =
     (case c of
        CutBefore \<Rightarrow> (False, st)
      | Finished \<Rightarrow> (case handle_connection parse status line st of (r, st') \<Rightarrow> (r = Inr True, st'))
      | CutAfter \<Rightarrow> (case handle_connection parse status line st of
            (r, st') \<Rightarrow> (False, st'\<lparr>ct_responses := ct_responses st\<rparr>)))"

text \<open>Removing the socket file may fail, which is only logged.\<close>

definition cleanup :: "control_state \<Rightarrow> control_state" where
  "cleanup st = (if ct_removable st then st\<lparr>ct_socket_file := False\<rparr> else st)"

partial_function (option) control_serve ::
  "(string \<Rightarrow> string option) \<Rightarrow> (nat \<Rightarrow> serve_event) \<Rightarrow> nat \<Rightarrow> control_state \<Rightarrow> control_state option" where
  "control_serve parse events i st =
     (if ct_shutdown st then Some (cleanup st)
      else case events i of
        Cancelled \<Rightarrow> Some (cleanup (st\<lparr>ct_shutdown := True\<rparr>))
      | AcceptFailed \<Rightarrow> control_serve parse events (Suc i) st
      | Connection status line c \<Rightarrow>
          (case serve_connection parse status line c st of
             (stop, st) \<Rightarrow> if stop then Some (cleanup st) else control_serve parse events (Suc i) st))"

subsection \<open>The client\<close>

datatype client_error =
    InvalidPath | SocketNotFound | ConnectionRefused | PermissionDenied | ConnectFailed
  | SendFailed | ReadFailed | ClosedWithoutResponse | BadResponse

definition quote_char :: char where "quote_char = CHR 0x22"

definition control_request :: "string \<Rightarrow> string" where
  "control_request command =
     ''{'' @ [quote_char] @ ''command'' @ [quote_char] @ '':'' @ [quote_char] @ command @ [quote_char] @ ''}'' @ [CHR 0x0A]"

text \<open>The exchange: the answer of the socket to the request, or why there is none.\<close>

definition send_command ::
  "(string \<Rightarrow> client_error + string) \<Rightarrow> (string \<Rightarrow> control_response option) \<Rightarrow> string \<Rightarrow> client_error + control_response" where
  "send_command exchange parse_response command =
     res_bind (exchange (control_request command)) (\<lambda>response_line.
     if response_line = [] then Inl ClosedWithoutResponse
     else ok_or BadResponse (parse_response (trim response_line)))"

subsection \<open>Properties\<close>

lemma run_command_shutdown:
  "run_command status command st = ((r, stop), st') \<Longrightarrow> ct_shutdown st' = (ct_shutdown st \<or> command = ''stop'') \<and>
     stop = (command = ''stop'')"
  by (auto simp: run_command_def split: if_splits option.splits)

text \<open>A connection that stops the server: its line is a message of at most 1024 bytes with the command \<open>stop\<close>.\<close>

definition stop_line :: "(string \<Rightarrow> string option) \<Rightarrow> string option \<Rightarrow> bool" where
  "stop_line parse line \<longleftrightarrow>
     (case line of
        None \<Rightarrow> False
      | Some l \<Rightarrow> l \<noteq> [] \<and> length l \<le> max_message_bytes \<and> parse (trim l) = Some ''stop'')"

fun stops :: "(string \<Rightarrow> string option) \<Rightarrow> serve_event \<Rightarrow> bool" where
  "stops parse Cancelled \<longleftrightarrow> True"
| "stops parse AcceptFailed \<longleftrightarrow> False"
| "stops parse (Connection status line c) \<longleftrightarrow> c \<noteq> CutBefore \<and> stop_line parse line"

lemma handle_connection_stop:
  "handle_connection parse status line st = (r, st') \<Longrightarrow>
     ct_shutdown st' = (ct_shutdown st \<or> stop_line parse line) \<and> (r = Inr True \<longleftrightarrow> stop_line parse line) \<and>
     ct_removable st' = ct_removable st"
  by (cases line)
    (auto simp: handle_connection_def stop_line_def respond_with_def run_command_def split: if_splits option.splits)

lemma serve_connection_stop:
  "serve_connection parse status line c st = (stop, st') \<Longrightarrow>
     ct_shutdown st' = (ct_shutdown st \<or> stops parse (Connection status line c)) \<and>
     (stop \<longrightarrow> stops parse (Connection status line c)) \<and> ct_removable st' = ct_removable st"
  using handle_connection_stop [of parse status line st]
  by (cases c) (auto simp: serve_connection_def split: prod.splits)

lemma control_serve_Some:
  assumes "control_serve parse events i st = Some r"
  shows "(ct_shutdown st \<or> (\<exists>n\<ge>i. stops parse (events n))) \<and> ct_shutdown r \<and> (ct_removable st \<longrightarrow> \<not> ct_socket_file r)"
  using assms
proof (induction rule: control_serve.raw_induct [rotated, consumes 1, case_names step])
  case (step serve parse events i st r)
  show ?case
  proof (cases "ct_shutdown st")
    case False
    show ?thesis
    proof (cases "events i")
      case Cancelled
      then show ?thesis using step(2) False by (auto simp: cleanup_def intro!: exI [of _ i])
    next
      case AcceptFailed
      then show ?thesis using step(2) False step(1) [of parse events "Suc i" st r] by (auto dest: Suc_leD)
    next
      case (Connection status line c)
      obtain stop st1 where c: "serve_connection parse status line c st = (stop, st1)" by fastforce
      show ?thesis
      proof (cases stop)
        case True
        then have "stops parse (events i)" using serve_connection_stop [OF c] Connection by simp
        then show ?thesis using step(2) False Connection c True serve_connection_stop [OF c]
          by (auto simp: cleanup_def)
      next
        case False
        then have "serve parse events (Suc i) st1 = Some r" using step(2) \<open>\<not> ct_shutdown st\<close> Connection c by simp
        from step(1) [OF this] serve_connection_stop [OF c] Connection show ?thesis by (metis Suc_leD order_refl)
      qed
    qed
  qed (use step(2) in \<open>auto simp: cleanup_def\<close>)
qed

lemma control_serve_shutdown: "ct_shutdown st \<Longrightarrow> control_serve parse events i st = Some (cleanup st)"
  by (subst control_serve.simps) simp

lemma control_serve_returns:
  "stops parse (events (i + k)) \<Longrightarrow> \<exists>r. control_serve parse events i st = Some r"
proof (induction k arbitrary: i st)
  case 0
  show ?case
  proof (cases "events i")
    case (Connection status line c)
    obtain stop st1 where c: "serve_connection parse status line c st = (stop, st1)" by fastforce
    then have "ct_shutdown st1" using 0 Connection serve_connection_stop [OF c] by simp
    then show ?thesis using Connection c
      by (subst control_serve.simps) (auto simp: control_serve_shutdown)
  qed (use 0 in \<open>subst control_serve.simps, auto\<close>)
next
  case (Suc k)
  then have next_one: "\<exists>r. control_serve parse events (Suc i) st' = Some r" for st' by simp
  show ?case
  proof (cases "events i")
    case (Connection status line c)
    then show ?thesis using next_one
      by (subst control_serve.simps) (auto split: prod.splits)
  next
    case AcceptFailed
    then show ?thesis using next_one [of st] by (subst control_serve.simps) auto
  qed (subst control_serve.simps, auto)
qed

text \<open>
  C20. The loop of the control socket ends exactly if it is told to: it returns if and only if the server is already
  shutting down, or at some point the shutdown token is cancelled or a client sends the command \<open>stop\<close> in a message of
  at most 1024 bytes that is not cut off before it acts. No other message ends it, however malformed, and neither do
  errors of single connections. When it returns, the shutdown has been requested and the socket file is removed,
  unless the file cannot be removed.
\<close>

theorem control_loop_ends:
  "((\<exists>r. control_serve parse events 0 st = Some r) \<longleftrightarrow> ct_shutdown st \<or> (\<exists>n. stops parse (events n))) \<and>
   (control_serve parse events 0 st = Some r \<longrightarrow> ct_shutdown r \<and> (ct_removable st \<longrightarrow> \<not> ct_socket_file r))"
  using control_serve_Some [of parse events 0 st] control_serve_returns [of parse events 0 _ st]
    control_serve_shutdown [of st parse events 0]
  by (metis add_0 le0)

text \<open>What a client sends is read as the command it sends, by a reader of JSON objects, and carried out.\<close>

definition reads_requests :: "(string \<Rightarrow> string option) \<Rightarrow> bool" where
  "reads_requests parse \<longleftrightarrow> (\<forall>c\<in>{''reload'', ''stop'', ''status''}. parse (trim (control_request c)) = Some c)"

theorem client_commands_run:
  assumes "reads_requests parse" and "c \<in> {''reload'', ''stop'', ''status''}"
  shows "handle_connection parse status (Some (control_request c)) st =
    (case run_command status c st of ((response, stop), st) \<Rightarrow> (Inr stop, respond_with response st))"
proof -
  have "length (control_request c) \<le> max_message_bytes" "control_request c \<noteq> []"
    using assms(2) by (auto simp: control_request_def max_message_bytes_def)
  moreover have "parse (trim (control_request c)) = Some c" using assms unfolding reads_requests_def by blast
  ultimately show ?thesis by (simp add: handle_connection_def)
qed

text \<open>
  A live server keeps its socket: binding fails without removing the file when another server answers on it.
\<close>

theorem live_socket_kept:
  assumes "ko_parent K path = None" and "ko_exists K path os" and "ko_connect K path os = (Inr u, os')"
  shows "bind_socket K path os = (Inl (AlreadyRunning path), os')"
  using assms by (simp add: bind_socket_def os_step_def)

subsection \<open>Instances\<close>

definition running_control :: control_state where
  "running_control = \<lparr>ct_reload_open = True, ct_reloads_sent = 0, ct_shutdown = False, ct_socket_file = True,
     ct_removable = True, ct_responses = []\<rparr>"

text \<open>A reload, a message that is too large, one that is not JSON, and then a client that stops the server.\<close>

fun example_events :: "nat \<Rightarrow> serve_event" where
  "example_events n =
     (if n = 0 then Connection None (Some ''reload'') Finished
      else if n = 1 then Connection None (Some (replicate 2000 (CHR ''x''))) Finished
      else if n = 2 then Connection None (Some ''?'') CutAfter
      else Connection None (Some ''stop'') CutAfter)"

definition bare_words :: "string \<Rightarrow> string option" where
  "bare_words s = (if s = ''?'' then None else Some s)"

theorem control_loop_ends_witness:
  "\<exists>r. control_serve bare_words example_events 0 running_control = Some r \<and> ct_shutdown r \<and> \<not> ct_socket_file r"
proof -
  have "trim ''stop'' = ''stop''" by code_simp
  then have "stops bare_words (example_events 3)" by (simp add: stop_line_def bare_words_def max_message_bytes_def)
  moreover have "ct_removable running_control" by (simp add: running_control_def)
  ultimately show ?thesis using control_loop_ends [of bare_words example_events running_control] by blast
qed

text \<open>A reader of requests, and a printer of responses by their message.\<close>

definition brief_response :: "control_response \<Rightarrow> string" where
  "brief_response r = (case cr_message r of None \<Rightarrow> ''data'' | Some m \<Rightarrow> m)"

definition example_replies :: "control_response list" where
  "example_replies = [ok_with_message ''reload triggered'', error_response ''reload channel closed'',
     ok_with_message ''shutdown initiated'', ok_with_data ''report'']"

definition read_request :: "string \<Rightarrow> string option" where
  "read_request line = List.find (\<lambda>c. trim (control_request c) = line) [''reload'', ''stop'', ''status'']"

lemma read_request_reads: "reads_requests read_request"
  by (simp add: reads_requests_def read_request_def) code_simp

lemma example_replies_read:
  "\<forall>r\<in>set example_replies.
     List.find (\<lambda>q. trim (brief_response q @ [CHR 0x0A]) = trim (brief_response r @ [CHR 0x0A])) example_replies = Some r"
  by code_simp

end
