(* ===== verification/DnsLib.thy ===== *)
theory DnsLib
  imports RustStd
begin

text \<open>
  The interface of the crates \<open>hickory-proto\<close> and \<open>url\<close>, as the sources use it.

  The data types carry the fields that the sources read or write: a \<open>Message\<close> with its header
  fields and its four sections, a \<open>Query\<close>, a \<open>Record\<close> with its \<open>RData\<close>. The code of the crates is not
  part of the repository, so every function of theirs that computes something (decoding and encoding a
  message, parsing and printing a name, comparing two records, parsing a URL) is a field of the record
  \<open>dns_lib\<close>, an argument \<open>L\<close> of every definition that calls it. What the program relies on is stated
  where it is needed as a named hypothesis on \<open>L\<close>; \<open>codec_ok\<close> is the one most properties use.
\<close>

datatype dns_name = DnsName "string list"

datatype url = Url string

datatype record_type =
    TypeA | TypeAAAA | TypeNS | TypeCNAME | TypePTR | TypeMX | TypeTXT | TypeSOA | TypeSRV
  | TypeCAA | TypeTLSA | TypeNAPTR | TypeANY | TypeOther u16

datatype response_code =
    NoError | FormErr | ServFail | NXDomain | NotImp | Refused | RcodeOther u16

datatype message_type = MtQuery | MtResponse

datatype op_code = OpQuery | OpOther u8

datatype caa =
    CaaIssue bool "dns_name option"
  | CaaIssueWild bool "dns_name option"
  | CaaIodef bool url

datatype rdata =
    RdA ipv4_addr
  | RdAAAA ipv6_addr
  | RdNS dns_name
  | RdCNAME dns_name
  | RdPTR dns_name
  | RdMX u16 dns_name
  | RdTXT "string list"
  | RdSOA dns_name dns_name u32 i32 i32 i32 u32
  | RdSRV u16 u16 u16 dns_name
  | RdCAA caa
  | RdTLSA u8 u8 u8 bytes
  | RdNAPTR u16 u16 string string string dns_name
  | RdOther u16 bytes

record dns_query =
  q_name :: dns_name
  q_type :: record_type
  q_class :: u16

record dns_record =
  r_name :: dns_name
  r_class :: u16
  r_ttl :: u32
  r_data :: rdata

record edns =
  e_dnssec_ok :: bool
  e_max_payload :: u16
  e_version :: u8

record dns_message =
  m_id :: u16
  m_type :: message_type
  m_op_code :: op_code
  m_authoritative :: bool
  m_truncation :: bool
  m_recursion_desired :: bool
  m_recursion_available :: bool
  m_authentic_data :: bool
  m_checking_disabled :: bool
  m_response_code :: response_code
  m_queries :: "dns_query list"
  m_answers :: "dns_record list"
  m_authorities :: "dns_record list"
  m_additionals :: "dns_record list"
  m_edns :: "edns option"

text \<open>
  \<open>Message::new\<close> gives a message with the given identifier, type and operation, all flags clear,
  response code \<open>NoError\<close> and empty sections; \<open>add_query\<close>, \<open>add_answer\<close>, \<open>add_authority\<close> and
  \<open>add_additional\<close> append to a section; \<open>Record::from_rdata\<close> gives a record of class IN.
\<close>

definition message_new :: "u16 \<Rightarrow> message_type \<Rightarrow> op_code \<Rightarrow> dns_message" where
  "message_new ident ty op =
     \<lparr>m_id = ident, m_type = ty, m_op_code = op, m_authoritative = False, m_truncation = False,
      m_recursion_desired = False, m_recursion_available = False, m_authentic_data = False,
      m_checking_disabled = False, m_response_code = NoError, m_queries = [], m_answers = [],
      m_authorities = [], m_additionals = [], m_edns = None\<rparr>"

definition add_query :: "dns_query \<Rightarrow> dns_message \<Rightarrow> dns_message" where
  "add_query q m = m\<lparr>m_queries := m_queries m @ [q]\<rparr>"

definition add_answer :: "dns_record \<Rightarrow> dns_message \<Rightarrow> dns_message" where
  "add_answer r m = m\<lparr>m_answers := m_answers m @ [r]\<rparr>"

definition add_authority :: "dns_record \<Rightarrow> dns_message \<Rightarrow> dns_message" where
  "add_authority r m = m\<lparr>m_authorities := m_authorities m @ [r]\<rparr>"

definition add_additional :: "dns_record \<Rightarrow> dns_message \<Rightarrow> dns_message" where
  "add_additional r m = m\<lparr>m_additionals := m_additionals m @ [r]\<rparr>"

definition record_from_rdata :: "dns_name \<Rightarrow> u32 \<Rightarrow> rdata \<Rightarrow> dns_record" where
  "record_from_rdata n ttl d = \<lparr>r_name = n, r_class = 1, r_ttl = ttl, r_data = d\<rparr>"

fun rdata_type :: "rdata \<Rightarrow> record_type" where
  "rdata_type (RdA _) = TypeA"
| "rdata_type (RdAAAA _) = TypeAAAA"
| "rdata_type (RdNS _) = TypeNS"
| "rdata_type (RdCNAME _) = TypeCNAME"
| "rdata_type (RdPTR _) = TypePTR"
| "rdata_type (RdMX _ _) = TypeMX"
| "rdata_type (RdTXT _) = TypeTXT"
| "rdata_type (RdSOA _ _ _ _ _ _ _) = TypeSOA"
| "rdata_type (RdSRV _ _ _ _) = TypeSRV"
| "rdata_type (RdCAA _) = TypeCAA"
| "rdata_type (RdTLSA _ _ _ _) = TypeTLSA"
| "rdata_type (RdNAPTR _ _ _ _ _ _) = TypeNAPTR"
| "rdata_type (RdOther t _) = TypeOther t"

definition record_type_of :: "dns_record \<Rightarrow> record_type" where
  "record_type_of r = rdata_type (r_data r)"

record dns_lib =
  lib_from_vec :: "bytes \<Rightarrow> string + dns_message"
  lib_to_vec :: "dns_message \<Rightarrow> string + bytes"
  lib_name_from_ascii :: "string \<Rightarrow> string + dns_name"
  lib_name_to_ascii :: "dns_name \<Rightarrow> string"
  lib_record_eq :: "dns_record \<Rightarrow> dns_record \<Rightarrow> bool"
  lib_url_parse :: "string \<Rightarrow> string + url"

text \<open>What the encoder writes, the decoder reads back.\<close>

definition codec_ok :: "dns_lib \<Rightarrow> bool" where
  "codec_ok L \<longleftrightarrow> (\<forall>m b. lib_to_vec L m = Inr b \<longrightarrow> lib_from_vec L b = Inr m)"

lemma codec_okD: "codec_ok L \<Longrightarrow> lib_to_vec L m = Inr b \<Longrightarrow> lib_from_vec L b = Inr m"
  by (simp add: codec_ok_def)

text \<open>\<open>to_vec().unwrap_or(d)\<close> and \<open>to_vec().unwrap_or_default()\<close>.\<close>

definition encode_or :: "dns_lib \<Rightarrow> dns_message \<Rightarrow> bytes \<Rightarrow> bytes" where
  "encode_or L m d = (case lib_to_vec L m of Inl _ \<Rightarrow> d | Inr b \<Rightarrow> b)"

lemma encode_or_decode [codec_simps]:
  "codec_ok L \<Longrightarrow> lib_to_vec L m = Inr b \<Longrightarrow> lib_from_vec L (encode_or L m d) = Inr m"
  by (simp add: encode_or_def codec_okD)

text \<open>
  A library given by a table of messages and their encodings, and a predicate for the names it
  accepts: the instances at which hypotheses on \<open>L\<close> are shown to hold.
\<close>

definition table_lib :: "(dns_message \<times> bytes) list \<Rightarrow> (string \<Rightarrow> bool) \<Rightarrow> dns_lib" where
  "table_lib tab ok =
     \<lparr>lib_from_vec = (\<lambda>b. case find (\<lambda>p. snd p = b) tab of
                              None \<Rightarrow> Inl ''unknown bytes'' | Some p \<Rightarrow> Inr (fst p)),
      lib_to_vec = (\<lambda>m. case find (\<lambda>p. fst p = m) tab of
                              None \<Rightarrow> Inl ''unknown message'' | Some p \<Rightarrow> Inr (snd p)),
      lib_name_from_ascii =
        (\<lambda>s. if ok s then Inr (DnsName (split_char (CHR ''.'') (trim_end_char s (CHR ''.''))))
             else Inl ''bad name''),
      lib_name_to_ascii = (\<lambda>n. case n of DnsName ls \<Rightarrow> join_char (CHR ''.'') ls @ ''.''),
      lib_record_eq = (\<lambda>a b. r_name a = r_name b \<and> r_class a = r_class b \<and> r_data a = r_data b),
      lib_url_parse = (\<lambda>s. Inr (Url s))\<rparr>"

lemma table_lib_codec_ok:
  assumes "distinct (map snd tab)"
  shows "codec_ok (table_lib tab ok)"
proof -
  have "find (\<lambda>p. snd p = b) tab = Some (m, b)" if "(m, b) \<in> set tab" for m b
    using assms that
  proof (induction tab)
    case (Cons p tab)
    then show ?case by (cases p) force
  qed simp
  then show ?thesis
    by (fastforce simp: codec_ok_def table_lib_def split: option.splits dest: find_SomeD)
qed

end
