(* ===== verification/Metrics.thy ===== *)
theory Metrics
  imports RustStd
begin

text \<open>
  The metric counters (\<open>src/frameworks/metrics/mod.rs\<close>) and the query log
  (\<open>src/entities/query_log.rs\<close>).

  The global \<open>METRICS_STATE\<close> is \<open>None\<close> until the metrics are initialised, and every recording
  function does nothing before that. Counters are natural numbers; a labelled counter is a hash map
  from the label; a latency histogram keeps its observations (in nanoseconds).
\<close>

subsection \<open>Counters\<close>

datatype query_decision = Allowed | Blocked | Passthrough

record metrics_state =
  dns_queries_total :: nat
  dns_queries_blocked :: nat
  dns_queries_allowed :: nat
  dns_queries_passthrough :: nat
  blocklist_hits_total :: "(string, nat) hash_map"
  cache_hits_total :: nat
  cache_misses_total :: nat
  upstream_request_duration :: "(string, int list) hash_map"
  upstream_errors_total :: "(string \<times> string, nat) hash_map"

definition metrics_new :: metrics_state where
  "metrics_new =
     \<lparr>dns_queries_total = 0, dns_queries_blocked = 0, dns_queries_allowed = 0,
      dns_queries_passthrough = 0, blocklist_hits_total = [], cache_hits_total = 0,
      cache_misses_total = 0, upstream_request_duration = [], upstream_errors_total = []\<rparr>"

definition counter_inc :: "'l \<Rightarrow> ('l, nat) hash_map \<Rightarrow> ('l, nat) hash_map" where
  "counter_inc l m = hm_insert l (Suc (case map_of m l of None \<Rightarrow> 0 | Some n \<Rightarrow> n)) m"

definition observe :: "'l \<Rightarrow> int \<Rightarrow> ('l, int list) hash_map \<Rightarrow> ('l, int list) hash_map" where
  "observe l d m = hm_insert l ((case map_of m l of None \<Rightarrow> [] | Some ds \<Rightarrow> ds) @ [d]) m"

definition record_dns_query :: "query_decision \<Rightarrow> metrics_state option \<Rightarrow> metrics_state option" where
  "record_dns_query decision = map_option (\<lambda>m.
     (let m = m\<lparr>dns_queries_total := Suc (dns_queries_total m)\<rparr> in
      case decision of
        Blocked \<Rightarrow> m\<lparr>dns_queries_blocked := Suc (dns_queries_blocked m)\<rparr>
      | Allowed \<Rightarrow> m\<lparr>dns_queries_allowed := Suc (dns_queries_allowed m)\<rparr>
      | Passthrough \<Rightarrow> m\<lparr>dns_queries_passthrough := Suc (dns_queries_passthrough m)\<rparr>))"

definition record_blocklist_hit :: "string list \<Rightarrow> metrics_state option \<Rightarrow> metrics_state option" where
  "record_blocklist_hit list_names = map_option (\<lambda>m.
     if list_names = [] then
       m\<lparr>blocklist_hits_total := counter_inc ''unknown'' (blocklist_hits_total m)\<rparr>
     else
       m\<lparr>blocklist_hits_total := fold counter_inc list_names (blocklist_hits_total m)\<rparr>)"

definition record_cache_operation :: "bool \<Rightarrow> metrics_state option \<Rightarrow> metrics_state option" where
  "record_cache_operation hit = map_option (\<lambda>m.
     if hit then m\<lparr>cache_hits_total := Suc (cache_hits_total m)\<rparr>
     else m\<lparr>cache_misses_total := Suc (cache_misses_total m)\<rparr>)"

definition record_upstream_request ::
  "string \<Rightarrow> int \<Rightarrow> string option \<Rightarrow> metrics_state option \<Rightarrow> metrics_state option" where
  "record_upstream_request upstream duration error = map_option (\<lambda>m.
     (let m = m\<lparr>upstream_request_duration := observe upstream duration (upstream_request_duration m)\<rparr>
      in case error of
           None \<Rightarrow> m
         | Some e \<Rightarrow>
             m\<lparr>upstream_errors_total := counter_inc (upstream, e) (upstream_errors_total m)\<rparr>))"

text \<open>The totals of \<open>snapshot()\<close> that are sums over labels.\<close>

definition blocklist_hits_sum :: "metrics_state \<Rightarrow> nat" where
  "blocklist_hits_sum m = sum_list (map snd (blocklist_hits_total m))"

record upstream_snapshot =
  un_upstream :: string
  un_requests_total :: nat
  un_errors_total :: nat
  un_latency_count :: nat
  un_latency_sum :: int

definition upstream_snapshot_default :: upstream_snapshot where
  "upstream_snapshot_default =
     \<lparr>un_upstream = [], un_requests_total = 0, un_errors_total = 0, un_latency_count = 0, un_latency_sum = 0\<rparr>"

definition snapshot_entry :: "string \<Rightarrow> (string, upstream_snapshot) hash_map \<Rightarrow> upstream_snapshot" where
  "snapshot_entry label upstreams =
     (case map_of upstreams label of None \<Rightarrow> upstream_snapshot_default | Some entry \<Rightarrow> entry)"

fun add_latency ::
  "string \<times> int list \<Rightarrow> (string, upstream_snapshot) hash_map \<Rightarrow> (string, upstream_snapshot) hash_map" where
  "add_latency (label, samples) upstreams =
     hm_insert label ((snapshot_entry label upstreams)\<lparr>un_upstream := label, un_requests_total := length samples,
       un_latency_count := length samples, un_latency_sum := sum_list samples\<rparr>) upstreams"

fun add_errors ::
  "(string \<times> string) \<times> nat \<Rightarrow> (string, upstream_snapshot) hash_map \<Rightarrow> (string, upstream_snapshot) hash_map" where
  "add_errors ((label, _), value) upstreams =
     (let entry = snapshot_entry label upstreams;
          entry = (if un_upstream entry = [] then entry\<lparr>un_upstream := label\<rparr> else entry)
      in hm_insert label (entry\<lparr>un_errors_total := un_errors_total entry + value\<rparr>) upstreams)"

record metrics_snapshot =
  sn_queries_total :: nat
  sn_queries_blocked :: nat
  sn_queries_allowed :: nat
  sn_queries_passthrough :: nat
  sn_blocklist_hits_total :: nat
  sn_cache_hits_total :: nat
  sn_cache_misses_total :: nat
  sn_upstreams :: "upstream_snapshot list"

text \<open>\<open>BTreeMap::into_values\<close> lists the entries in the order of their labels.\<close>

definition take_snapshot :: "metrics_state option \<Rightarrow> metrics_snapshot" where
  "take_snapshot m =
     (case m of
        None \<Rightarrow>
          \<lparr>sn_queries_total = 0, sn_queries_blocked = 0, sn_queries_allowed = 0, sn_queries_passthrough = 0,
           sn_blocklist_hits_total = 0, sn_cache_hits_total = 0, sn_cache_misses_total = 0, sn_upstreams = []\<rparr>
      | Some m \<Rightarrow>
          \<lparr>sn_queries_total = dns_queries_total m, sn_queries_blocked = dns_queries_blocked m,
           sn_queries_allowed = dns_queries_allowed m, sn_queries_passthrough = dns_queries_passthrough m,
           sn_blocklist_hits_total = blocklist_hits_sum m, sn_cache_hits_total = cache_hits_total m,
           sn_cache_misses_total = cache_misses_total m,
           sn_upstreams = map snd (sort_key fst
             (fold add_errors (upstream_errors_total m) (fold add_latency (upstream_request_duration m) [])))\<rparr>)"

definition metrics_balanced :: "metrics_state \<Rightarrow> bool" where
  "metrics_balanced m \<longleftrightarrow>
     dns_queries_total m =
       dns_queries_blocked m + dns_queries_allowed m + dns_queries_passthrough m"

definition opt_balanced :: "metrics_state option \<Rightarrow> bool" where
  "opt_balanced m \<longleftrightarrow> (case m of None \<Rightarrow> True | Some s \<Rightarrow> metrics_balanced s)"

lemma metrics_balanced_new [inv_intros]: "metrics_balanced metrics_new"
  by (simp add: metrics_balanced_def metrics_new_def)

lemma record_dns_query_balanced [inv_intros]: "opt_balanced m \<Longrightarrow> opt_balanced (record_dns_query d m)"
  by (cases m; cases d)
    (auto simp: opt_balanced_def metrics_balanced_def record_dns_query_def Let_def)

lemma record_blocklist_hit_balanced [inv_intros]:
  "opt_balanced m \<Longrightarrow> opt_balanced (record_blocklist_hit ns m)"
  by (cases m) (auto simp: opt_balanced_def metrics_balanced_def record_blocklist_hit_def)

lemma record_cache_operation_balanced [inv_intros]:
  "opt_balanced m \<Longrightarrow> opt_balanced (record_cache_operation h m)"
  by (cases m) (auto simp: opt_balanced_def metrics_balanced_def record_cache_operation_def)

lemma record_upstream_request_balanced [inv_intros]:
  "opt_balanced m \<Longrightarrow> opt_balanced (record_upstream_request u d e m)"
  by (cases m; cases e)
    (auto simp: opt_balanced_def metrics_balanced_def record_upstream_request_def Let_def)

lemma sum_counter_inc:
  "distinct (map fst m) \<Longrightarrow>
   sum_list (map snd (counter_inc l m)) = Suc (sum_list (map snd m))"
proof -
  have ins: "distinct (map fst m) \<Longrightarrow>
    sum_list (map snd (hm_insert l v m)) + (case map_of m l of None \<Rightarrow> 0 | Some n \<Rightarrow> n)
      = v + sum_list (map snd m)" for v :: nat
    by (induction l v m rule: hm_insert.induct)
      (auto split: option.splits dest: map_of_SomeD)
  assume "distinct (map fst m)"
  from ins [OF this, of "Suc (case map_of m l of None \<Rightarrow> 0 | Some n \<Rightarrow> n)"]
  show ?thesis by (simp add: counter_inc_def)
qed

lemma distinct_counter_inc [simp]:
  "distinct (map fst m) \<Longrightarrow> distinct (map fst (counter_inc l m))"
  by (simp add: counter_inc_def)

subsection \<open>The query log\<close>

record query_log_entry =
  ql_timestamp :: u64
  ql_domain :: string
  ql_qtype :: string
  ql_decision :: query_decision
  ql_source_ip :: string
  ql_response_time_ms :: u64
  ql_blocked_by :: "string list option"

record query_log =
  ql_entries :: "query_log_entry list"
  ql_max_entries :: nat

definition query_log_new :: "nat \<Rightarrow> query_log" where
  "query_log_new max_entries = \<lparr>ql_entries = [], ql_max_entries = max_entries\<rparr>"

definition query_log_push :: "query_log_entry \<Rightarrow> query_log \<Rightarrow> query_log" where
  "query_log_push entry log =
     (let es = (if ql_max_entries log \<le> length (ql_entries log)
                then tl (ql_entries log) else ql_entries log)
      in log\<lparr>ql_entries := es @ [entry]\<rparr>)"

definition query_log_len :: "query_log \<Rightarrow> nat" where
  "query_log_len log = length (ql_entries log)"

lemma query_log_push_entries:
  assumes "length (ql_entries log) \<le> ql_max_entries log" and "0 < ql_max_entries log"
  shows "ql_entries (query_log_push e log) =
     (let all = ql_entries log @ [e] in drop (length all - ql_max_entries log) all)"
  using assms
  by (cases "ql_entries log") (auto simp: query_log_push_def Let_def)

lemma query_log_push_max [simp]: "ql_max_entries (query_log_push e log) = ql_max_entries log"
  by (simp add: query_log_push_def Let_def)

lemma query_log_fold_max [simp]: "ql_max_entries (fold query_log_push es log) = ql_max_entries log"
  by (induction es arbitrary: log) auto



text \<open>
  A query log with a positive capacity holds, after any sequence of pushes, exactly the last
  \<open>max_entries\<close> entries pushed, in the order they were pushed.
\<close>

theorem query_log_keeps_latest:
  assumes "0 < n"
  shows "ql_entries (fold query_log_push es (query_log_new n)) = drop (length es - n) es"
proof (induction es rule: rev_induct)
  case Nil
  show ?case by (simp add: query_log_new_def)
next
  case (snoc e es)
  let ?log = "fold query_log_push es (query_log_new n)"
  have max: "ql_max_entries ?log = n" by (simp add: query_log_new_def)
  have "length (ql_entries ?log) \<le> ql_max_entries ?log" using snoc max by simp
  with assms max have "ql_entries (query_log_push e ?log) =
      (let all = ql_entries ?log @ [e] in drop (length all - n) all)"
    using query_log_push_entries [of ?log e] by simp
  also have "\<dots> = drop (length (es @ [e]) - n) (es @ [e])"
    using snoc by (cases "length es < n") (auto simp: Let_def Suc_diff_le)
  finally show ?case by simp
qed

theorem query_log_keeps_latest_witness:
  "\<forall>es. ql_entries (fold query_log_push es (query_log_new 2)) = drop (length es - 2) es"
  by (intro allI query_log_keeps_latest) simp
end
