(* ===== verification/UpstreamResolver.thy ===== *)
theory UpstreamResolver
  imports DnsLib Metrics "HOL-Library.Option_ord"
begin

text \<open>
  Upstream resolution (\<open>src/use_cases/upstream_resolver.rs\<close>): the response cache, the instrumented
  resolver and the dispatch strategies.

  A resolver is its label and its \<open>resolve\<close> function, which threads the world it shares with the rest of
  the program: the metrics, the contents of the caches and the round-robin counters (each by the
  identity of the resolver that owns it), the readings of the monotonic clock and of the random
  number generator in the order they are taken, and the network \<open>'n\<close>. Instants and durations are in
  nanoseconds. The sequence of readings is an arbitrary function, so that a property holds for every
  behaviour of the clock and of the generator.
\<close>

unbundle bit_operations_syntax

subsection \<open>The world\<close>

datatype upstream_error =
    IoError string
  | Timeout
  | Protocol string
  | AllFailed
  | WithSource string upstream_error

record cached_response =
  cr_response :: bytes
  cr_stored_at :: int
  cr_expires_at :: int

record 'n world =
  w_metrics :: "metrics_state option"
  w_clock :: "nat \<Rightarrow> int"
  w_reads :: nat
  w_random :: "nat \<Rightarrow> nat"
  w_draws :: nat
  w_counters :: "nat \<Rightarrow> usize"
  w_caches :: "nat \<Rightarrow> (bytes, cached_response) hash_map"
  w_net :: 'n

record 'n upstream =
  up_label :: string
  up_resolve :: "bytes \<Rightarrow> 'n world \<Rightarrow> (upstream_error + bytes) \<times> 'n world"

definition instant_now :: "'n world \<Rightarrow> int \<times> 'n world" where
  "instant_now w = (w_clock w (w_reads w), w\<lparr>w_reads := Suc (w_reads w)\<rparr>)"

text \<open>\<open>gen_range(0..n)\<close>: a number below \<open>n\<close>.\<close>

definition gen_range :: "nat \<Rightarrow> 'n world \<Rightarrow> nat \<times> 'n world" where
  "gen_range n w = (w_random w (w_draws w) mod n, w\<lparr>w_draws := Suc (w_draws w)\<rparr>)"

text \<open>\<open>started.elapsed()\<close>: a later reading minus an earlier instant, at least zero.\<close>

definition elapsed :: "int \<Rightarrow> 'n world \<Rightarrow> int \<times> 'n world" where
  "elapsed start w = (case instant_now w of (t, w') \<Rightarrow> (max 0 (t - start), w'))"

definition nanos_per_sec :: int where
  "nanos_per_sec = 1000000000"

definition from_secs :: "int \<Rightarrow> int" where
  "from_secs s = s * nanos_per_sec"

definition record_metrics ::
  "(metrics_state option \<Rightarrow> metrics_state option) \<Rightarrow> 'n world \<Rightarrow> 'n world" where
  "record_metrics f w = w\<lparr>w_metrics := f (w_metrics w)\<rparr>"

subsection \<open>Cache settings\<close>

definition default_max_cache_entries :: usize where
  "default_max_cache_entries = 10000"

record resolver_cache_settings =
  cs_enabled :: bool
  cs_min_ttl :: "int option"
  cs_max_ttl :: "int option"
  cs_max_entries :: usize

definition default_cache_settings :: resolver_cache_settings where
  "default_cache_settings =
     \<lparr>cs_enabled = False, cs_min_ttl = None, cs_max_ttl = None,
      cs_max_entries = default_max_cache_entries\<rparr>"

definition cache_settings_validate :: "resolver_cache_settings \<Rightarrow> string + unit" where
  "cache_settings_validate s =
     (case (cs_min_ttl s, cs_max_ttl s) of
        (Some min_ttl, Some max_ttl) \<Rightarrow>
          if min_ttl > max_ttl then
            Inl ''resolvers.cache.min_ttl must be less than or equal to resolvers.cache.max_ttl''
          else Inr ()
      | _ \<Rightarrow> Inr ())"

definition clamp_ttl :: "resolver_cache_settings \<Rightarrow> int \<Rightarrow> int option" where
  "clamp_ttl s ttl =
     (let ttl = (case cs_min_ttl s of Some m \<Rightarrow> max ttl m | None \<Rightarrow> ttl);
          ttl = (case cs_max_ttl s of Some m \<Rightarrow> min ttl m | None \<Rightarrow> ttl)
      in if ttl = 0 then None else Some ttl)"

subsection \<open>Identifiers and lifetimes\<close>

fun query_id :: "bytes \<Rightarrow> u16" where
  "query_id (a # b # rest) = word_cat a b"
| "query_id _ = 0"

fun normalize_cache_key :: "bytes \<Rightarrow> bytes" where
  "normalize_cache_key (a # b # rest) = 0 # 0 # rest"
| "normalize_cache_key query = query"

definition scrub_response_id :: "dns_lib \<Rightarrow> bytes \<Rightarrow> bytes" where
  "scrub_response_id L response =
     (case lib_from_vec L response of
        Inl _ \<Rightarrow> response
      | Inr message \<Rightarrow> encode_or L (message\<lparr>m_id := 0\<rparr>) response)"

definition saturating_sub_u32 :: "u32 \<Rightarrow> u32 \<Rightarrow> u32" where
  "saturating_sub_u32 a b = (if b \<le> a then a - b else 0)"

definition decrement_record_ttls :: "u32 \<Rightarrow> dns_record list \<Rightarrow> dns_record list" where
  "decrement_record_ttls age_secs rs = map (\<lambda>r. r\<lparr>r_ttl := saturating_sub_u32 (r_ttl r) age_secs\<rparr>) rs"

definition age_in_secs :: "int \<Rightarrow> u32" where
  "age_in_secs age = word_of_int (min (age div nanos_per_sec) 4294967295)"

definition rehydrate_message :: "dns_message \<Rightarrow> int \<Rightarrow> u16 \<Rightarrow> dns_message" where
  "rehydrate_message message age client_query_id =
     (let age_secs = age_in_secs age
      in message\<lparr>m_id := client_query_id,
           m_answers := decrement_record_ttls age_secs (m_answers message),
           m_authorities := decrement_record_ttls age_secs (m_authorities message),
           m_additionals := decrement_record_ttls age_secs (m_additionals message)\<rparr>)"

definition rehydrate_cached_response :: "dns_lib \<Rightarrow> bytes \<Rightarrow> int \<Rightarrow> u16 \<Rightarrow> bytes" where
  "rehydrate_cached_response L response age client_query_id =
     (case lib_from_vec L response of
        Inl _ \<Rightarrow> response
      | Inr message \<Rightarrow> encode_or L (rehydrate_message message age client_query_id) response)"

definition is_truncated_response :: "bytes \<Rightarrow> bool" where
  "is_truncated_response response \<longleftrightarrow> 2 < length response \<and> (response ! 2) AND 2 \<noteq> 0"

definition min_record_ttl :: "dns_record list \<Rightarrow> int option" where
  "min_record_ttl rs =
     (case map (\<lambda>r. from_secs (uint (r_ttl r))) rs of
        [] \<Rightarrow> None
      | t # ts \<Rightarrow> Some (fold min ts t))"

fun negative_cache_ttl_in :: "dns_record list \<Rightarrow> int option" where
  "negative_cache_ttl_in [] = None"
| "negative_cache_ttl_in (r # rs) =
     (case r_data r of
        RdSOA _ _ _ _ _ _ minimum \<Rightarrow> Some (from_secs (min (uint (r_ttl r)) (uint minimum)))
      | _ \<Rightarrow> negative_cache_ttl_in rs)"

definition negative_cache_ttl :: "dns_message \<Rightarrow> int option" where
  "negative_cache_ttl message = negative_cache_ttl_in (m_authorities message)"

definition cache_ttl :: "dns_lib \<Rightarrow> bytes \<Rightarrow> resolver_cache_settings \<Rightarrow> int option" where
  "cache_ttl L response settings =
     (if is_truncated_response response then None
      else
        Option.bind (res_ok (lib_from_vec L response)) (\<lambda>message.
        Option.bind
          (case m_response_code message of
             NoError \<Rightarrow>
               (case min_record_ttl (m_answers message) of
                  Some t \<Rightarrow> Some t
                | None \<Rightarrow> negative_cache_ttl message)
           | NXDomain \<Rightarrow> negative_cache_ttl message
           | _ \<Rightarrow> None)
          (clamp_ttl settings)))"

subsection \<open>The response cache\<close>

text \<open>\<open>retain\<close>, and the eviction of the entries closest to expiry (a stable sort of the keys).\<close>

definition retain_live :: "int \<Rightarrow> (bytes, cached_response) hash_map \<Rightarrow> (bytes, cached_response) hash_map" where
  "retain_live now es = filter (\<lambda>p. cr_expires_at (snd p) > now) es"

definition by_expiry :: "(bytes, cached_response) hash_map \<Rightarrow> bytes list" where
  "by_expiry es = sort_key (\<lambda>k. map_option cr_expires_at (map_of es k)) (map fst es)"

definition evict_oldest ::
  "nat \<Rightarrow> (bytes, cached_response) hash_map \<Rightarrow> (bytes, cached_response) hash_map" where
  "evict_oldest max_entries es =
     (let to_remove = length es - max_entries div 2
      in fold hm_remove (take to_remove (by_expiry es)) es)"

definition cache_store ::
  "dns_lib \<Rightarrow> resolver_cache_settings \<Rightarrow> int \<Rightarrow> bytes \<Rightarrow> int \<Rightarrow> bytes
   \<Rightarrow> (bytes, cached_response) hash_map \<Rightarrow> (bytes, cached_response) hash_map" where
  "cache_store L settings now key ttl response es =
     (let max_entries = unat (cs_max_entries settings);
          es = (if max_entries \<le> length es then retain_live now es else es);
          es = (if max_entries \<le> length es then evict_oldest max_entries es else es)
      in hm_insert key
           \<lparr>cr_response = scrub_response_id L response, cr_stored_at = now, cr_expires_at = now + ttl\<rparr> es)"

definition cached_resolve ::
  "dns_lib \<Rightarrow> nat \<Rightarrow> resolver_cache_settings \<Rightarrow> 'n upstream
   \<Rightarrow> bytes \<Rightarrow> 'n world \<Rightarrow> (upstream_error + bytes) \<times> 'n world" where
  "cached_resolve L cid settings inner query w =
     (let key = normalize_cache_key query;
          client_query_id = query_id query;
          (now, w) = instant_now w;
          hit = (case map_of (w_caches w cid) key of
                   Some entry \<Rightarrow> if cr_expires_at entry > now then Some entry else None
                 | None \<Rightarrow> None)
      in case hit of
           Some entry \<Rightarrow>
             (let w = record_metrics (record_cache_operation True) w;
                  (age, w) = elapsed (cr_stored_at entry) w
              in (Inr (rehydrate_cached_response L (cr_response entry) age client_query_id), w))
         | None \<Rightarrow>
             (let w = record_metrics (record_cache_operation False) w
              in case up_resolve inner query w of
                   (Inl err, w) \<Rightarrow> (Inl err, w)
                 | (Inr response, w) \<Rightarrow>
                     (case cache_ttl L response settings of
                        None \<Rightarrow> (Inr response, w)
                      | Some ttl \<Rightarrow>
                          (Inr response,
                           w\<lparr>w_caches := (w_caches w)(cid :=
                               cache_store L settings now key ttl response (w_caches w cid))\<rparr>))))"

definition cached_upstream :: "dns_lib \<Rightarrow> nat \<Rightarrow> resolver_cache_settings \<Rightarrow> 'n upstream \<Rightarrow> 'n upstream" where
  "cached_upstream L cid settings inner =
     \<lparr>up_label = up_label inner, up_resolve = cached_resolve L cid settings inner\<rparr>"

subsection \<open>Instrumentation\<close>

fun error_label :: "upstream_error \<Rightarrow> string" where
  "error_label (IoError _) = ''io''"
| "error_label Timeout = ''timeout''"
| "error_label (Protocol _) = ''protocol''"
| "error_label AllFailed = ''all_failed''"
| "error_label (WithSource _ _) = ''protocol''"

fun error_of :: "'e + 'a \<Rightarrow> 'e option" where
  "error_of (Inl e) = Some e"
| "error_of (Inr _) = None"

definition instrumented_resolve ::
  "string \<Rightarrow> 'n upstream \<Rightarrow> bytes \<Rightarrow> 'n world \<Rightarrow> (upstream_error + bytes) \<times> 'n world" where
  "instrumented_resolve label inner query w =
     (let (started, w) = instant_now w;
          (result, w) = up_resolve inner query w;
          (d, w) = elapsed started w;
          w = record_metrics (record_upstream_request label d (map_option error_label (error_of result))) w
      in (map_err (WithSource label) result, w))"

definition instrumented_upstream :: "string \<Rightarrow> 'n upstream \<Rightarrow> 'n upstream" where
  "instrumented_upstream label inner =
     \<lparr>up_label = label, up_resolve = instrumented_resolve label inner\<rparr>"

subsection \<open>Strategies\<close>

datatype upstream_strategy = RoundRobin | Random | Failover

definition strategy_from_str :: "string \<Rightarrow> unit + upstream_strategy" where
  "strategy_from_str value =
     (if value = ''random'' then Inr Random
      else if value = ''failover'' then Inr Failover
      else if value = ''round_robin'' then Inr RoundRobin
      else Inl ())"

fun strategy_debug :: "upstream_strategy \<Rightarrow> string" where
  "strategy_debug RoundRobin = ''RoundRobin''"
| "strategy_debug Random = ''Random''"
| "strategy_debug Failover = ''Failover''"

text \<open>The loop over the resolvers: the first success, or the last error.\<close>

fun try_resolvers ::
  "'n upstream list \<Rightarrow> upstream_error \<Rightarrow> bytes \<Rightarrow> 'n world \<Rightarrow> (upstream_error + bytes) \<times> 'n world" where
  "try_resolvers [] last_err query w = (Inl last_err, w)"
| "try_resolvers (r # rs) last_err query w =
     (case up_resolve r query w of
        (Inr resp, w') \<Rightarrow> (Inr resp, w')
      | (Inl e, w') \<Rightarrow> try_resolvers rs e query w')"

definition from_index :: "nat \<Rightarrow> 'n upstream list \<Rightarrow> 'n upstream list" where
  "from_index start rs = map (\<lambda>i. rs ! ((start + i) mod length rs)) [0..<length rs]"

definition strategy_resolve ::
  "nat \<Rightarrow> 'n upstream list \<Rightarrow> upstream_strategy
   \<Rightarrow> bytes \<Rightarrow> 'n world \<Rightarrow> (upstream_error + bytes) \<times> 'n world" where
  "strategy_resolve cid rs strategy query w =
     (if rs = [] then (Inl AllFailed, w)
      else case strategy of
        RoundRobin \<Rightarrow>
          (let c = w_counters w cid;
               w = w\<lparr>w_counters := (w_counters w)(cid := c + 1)\<rparr>
           in try_resolvers (from_index (unat c mod length rs) rs) AllFailed query w)
      | Random \<Rightarrow>
          (let (start, w) = gen_range (length rs) w
           in try_resolvers (from_index start rs) AllFailed query w)
      | Failover \<Rightarrow> try_resolvers rs AllFailed query w)"

definition strategy_label :: "upstream_strategy \<Rightarrow> nat \<Rightarrow> string" where
  "strategy_label strategy n =
     to_ascii_lowercase (''strategy:'' @ strategy_debug strategy @ ''['' @ show_nat (int n) @ '']'')"

definition strategy_upstream :: "nat \<Rightarrow> 'n upstream list \<Rightarrow> upstream_strategy \<Rightarrow> 'n upstream" where
  "strategy_upstream cid rs strategy =
     \<lparr>up_label = strategy_label strategy (length rs), up_resolve = strategy_resolve cid rs strategy\<rparr>"

subsection \<open>Lemmas on the cache\<close>

lemma fold_hm_remove:
  "fold hm_remove ks m = filter (\<lambda>p. fst p \<notin> set ks) m"
  by (induction ks arbitrary: m) (auto simp: hm_remove_def intro: filter_cong)

lemma length_filter_keys:
  assumes "distinct (map fst m)" and "distinct ks" and "set ks \<subseteq> fst ` set m"
  shows "length (filter (\<lambda>p. fst p \<notin> set ks) m) = length m - length ks"
proof -
  have "length (filter (\<lambda>p. fst p \<notin> set ks) m) = length (filter (\<lambda>k. k \<notin> set ks) (map fst m))"
    by (simp add: filter_map comp_def)
  also have "\<dots> = card (set (map fst m) - set ks)"
    using assms(1) by (metis distinct_card distinct_filter set_diff_eq set_filter)
  also have "\<dots> = length m - length ks"
    using assms by (simp add: card_Diff_subset distinct_card card_image distinct_map)
  finally show ?thesis .
qed

lemma by_expiry_keys [simp]: "set (by_expiry es) = fst ` set es" "length (by_expiry es) = length es"
  by (auto simp: by_expiry_def)

lemma distinct_by_expiry: "distinct (map fst es) \<Longrightarrow> distinct (by_expiry es)"
  by (simp add: by_expiry_def)

lemma length_evict_oldest:
  assumes "distinct (map fst es)" and "n \<le> length es"
  shows "length (evict_oldest n es) = n div 2"
proof -
  let ?ks = "take (length es - n div 2) (by_expiry es)"
  have "length (filter (\<lambda>p. fst p \<notin> set ?ks) es) = length es - length ?ks"
    using assms(1) set_take_subset [of "length es - n div 2" "by_expiry es"]
    by (intro length_filter_keys) (auto simp: distinct_by_expiry)
  then show ?thesis using assms(2) by (simp add: evict_oldest_def fold_hm_remove)
qed

text \<open>What an eviction removes expires no later than anything it keeps.\<close>

lemma evict_oldest_order:
  assumes d: "distinct (map fst es)"
    and kept: "p \<in> set (evict_oldest n es)" and gone: "q \<in> set es" "q \<notin> set (evict_oldest n es)"
  shows "cr_expires_at (snd q) \<le> cr_expires_at (snd p)"
proof -
  let ?m = "length es - n div 2" and ?f = "\<lambda>k. map_option cr_expires_at (map_of es k)"
  have p: "p \<in> set es" "fst p \<notin> set (take ?m (by_expiry es))"
    using kept by (auto simp: evict_oldest_def fold_hm_remove)
  have q: "fst q \<in> set (take ?m (by_expiry es))"
    using gone by (auto simp: evict_oldest_def fold_hm_remove)
  have "fst p \<in> set (by_expiry es)" using p(1) by simp
  then have "fst p \<in> set (drop ?m (by_expiry es))"
    using p(2) by (metis Un_iff append_take_drop_id set_append)
  moreover have "sorted (map ?f (take ?m (by_expiry es) @ drop ?m (by_expiry es)))"
    by (simp add: by_expiry_def)
  ultimately have "?f (fst q) \<le> ?f (fst p)"
    using q unfolding map_append sorted_append by auto
  moreover have "map_of es (fst p) = Some (snd p)" "map_of es (fst q) = Some (snd q)"
    using d p(1) gone(1) by (auto simp: map_of_eq_Some_iff)
  ultimately show ?thesis by simp
qed

lemma distinct_cache_store:
  "distinct (map fst es) \<Longrightarrow> distinct (map fst (cache_store L s now key ttl r es))"
  by (simp add: cache_store_def retain_live_def evict_oldest_def fold_hm_remove distinct_map_filter Let_def)

lemma cache_store_bound:
  assumes "distinct (map fst es)"
  shows "length (cache_store L s now key ttl r es) \<le> max 1 (unat (cs_max_entries s))"
proof -
  let ?n = "unat (cs_max_entries s)"
  define es1 where "es1 = (if ?n \<le> length es then retain_live now es else es)"
  define es2 where "es2 = (if ?n \<le> length es1 then evict_oldest ?n es1 else es1)"
  have "distinct (map fst es1)" using assms by (simp add: es1_def retain_live_def distinct_map_filter)
  then have "length es2 < max 1 ?n"
    using length_evict_oldest [of es1 ?n] by (auto simp: es2_def)
  moreover have "cache_store L s now key ttl r es = hm_insert key
      \<lparr>cr_response = scrub_response_id L r, cr_stored_at = now, cr_expires_at = now + ttl\<rparr> es2"
    by (simp add: cache_store_def es1_def es2_def Let_def)
  ultimately show ?thesis using length_hm_insert_le [of key _ es2] by (metis Suc_leI le_trans)
qed

lemma cache_store_lookup:
  "map_of (cache_store L s now key ttl r es) key =
     Some \<lparr>cr_response = scrub_response_id L r, cr_stored_at = now, cr_expires_at = now + ttl\<rparr>"
  by (simp add: cache_store_def Let_def)

lemma clamp_ttl_bounds:
  assumes "clamp_ttl s ttl = Some t" and "cache_settings_validate s = Inr ()"
  shows "(\<forall>m. cs_min_ttl s = Some m \<longrightarrow> m \<le> t) \<and> (\<forall>m. cs_max_ttl s = Some m \<longrightarrow> t \<le> m) \<and> t \<noteq> 0"
  using assms by (auto simp: clamp_ttl_def cache_settings_validate_def Let_def split: option.splits if_splits)

subsection \<open>Lemmas on strategies\<close>

lemma from_index_rotate: "from_index start rs = rotate start rs"
  by (rule nth_equalityI) (auto simp: from_index_def nth_rotate add.commute)

lemma from_index_props:
  "set (from_index start rs) = set rs" "length (from_index start rs) = length rs"
  by (simp_all add: from_index_rotate)

text \<open>\<open>failures rs q w w'\<close>: every resolver of \<open>rs\<close>, asked in turn, fails, which takes \<open>w\<close> to \<open>w'\<close>.\<close>

fun failures :: "'n upstream list \<Rightarrow> bytes \<Rightarrow> 'n world \<Rightarrow> 'n world option" where
  "failures [] query w = Some w"
| "failures (r # rs) query w =
     (case up_resolve r query w of
        (Inr _, _) \<Rightarrow> None
      | (Inl _, w') \<Rightarrow> failures rs query w')"

lemma try_resolvers_Inr:
  "try_resolvers rs err q w = (Inr resp, w') \<longleftrightarrow>
     (\<exists>pre r post w1. rs = pre @ r # post \<and> failures pre q w = Some w1
        \<and> up_resolve r q w1 = (Inr resp, w'))"
proof (induction rs arbitrary: err w)
  case (Cons r rs)
  obtain res w1 where r: "up_resolve r q w = (res, w1)" by fastforce
  show ?case
  proof (cases res)
    case (Inl e)
    have "(\<exists>pre x post w2. r # rs = pre @ x # post \<and> failures pre q w = Some w2
          \<and> up_resolve x q w2 = (Inr resp, w')) \<longleftrightarrow>
        (\<exists>pre x post w2. rs = pre @ x # post \<and> failures pre q w1 = Some w2
          \<and> up_resolve x q w2 = (Inr resp, w'))" (is "?a \<longleftrightarrow> ?b")
    proof
      assume ?a
      then obtain pre x post w2 where a: "r # rs = pre @ x # post" "failures pre q w = Some w2"
        "up_resolve x q w2 = (Inr resp, w')" by blast
      then show ?b using Inl r by (cases pre) auto
    next
      assume ?b
      then obtain pre x post w2 where "rs = pre @ x # post" "failures pre q w1 = Some w2"
        "up_resolve x q w2 = (Inr resp, w')" by blast
      then have "r # rs = (r # pre) @ x # post" "failures (r # pre) q w = Some w2"
        "up_resolve x q w2 = (Inr resp, w')" using Inl r by auto
      then show ?a by blast
    qed
    with Cons Inl r show ?thesis by simp
  next
    case (Inr resp')
    with r show ?thesis by (fastforce simp: Cons_eq_append_conv)
  qed
qed simp

lemma try_resolvers_Inl:
  "rs \<noteq> [] \<Longrightarrow> try_resolvers rs err q w = (Inl e, w') \<longleftrightarrow>
     (\<exists>w1. failures (butlast rs) q w = Some w1 \<and> up_resolve (last rs) q w1 = (Inl e, w'))"
  by (induction rs arbitrary: err w) (auto split: sum.splits prod.splits)

subsection \<open>Invariants of the world\<close>

definition keeps :: "('n world \<Rightarrow> bool) \<Rightarrow> 'n upstream \<Rightarrow> bool" where
  "keeps I r \<longleftrightarrow> (\<forall>q w. I w \<longrightarrow> I (snd (up_resolve r q w)))"

lemma keepsD: "keeps I r \<Longrightarrow> I w \<Longrightarrow> up_resolve r q w = (res, w') \<Longrightarrow> I w'"
  by (metis keeps_def snd_conv)

text \<open>
  The contract between the resolvers and an invariant of the world: reading the clock or the
  generator, recording a metric, advancing a counter and storing a response keep it. Every resolver
  built by the combinators of this theory from resolvers that keep it then keeps it too.
\<close>

locale world_invariant =
  fixes I :: "'n world \<Rightarrow> bool" and cap :: nat
  assumes inv_clock: "I w \<Longrightarrow> I (w\<lparr>w_reads := n\<rparr>)"
    and inv_draw: "I w \<Longrightarrow> I (w\<lparr>w_draws := n\<rparr>)"
    and inv_counter: "I w \<Longrightarrow> I (w\<lparr>w_counters := c\<rparr>)"
    and inv_cache_metric: "I w \<Longrightarrow> I (record_metrics (record_cache_operation h) w)"
    and inv_upstream_metric: "I w \<Longrightarrow> I (record_metrics (record_upstream_request l d e) w)"
    and inv_store: "I w \<Longrightarrow> unat (cs_max_entries s) \<le> cap \<Longrightarrow>
      I (w\<lparr>w_caches := (w_caches w)(cid := cache_store L s now key ttl r (w_caches w cid))\<rparr>)"
begin

lemma instant_now_keeps: "I w \<Longrightarrow> instant_now w = (t, w') \<Longrightarrow> I w'"
  by (auto simp: instant_now_def inv_clock)

lemma elapsed_keeps: "I w \<Longrightarrow> elapsed t w = (d, w') \<Longrightarrow> I w'"
  by (auto simp: elapsed_def instant_now_def inv_clock)

lemma cached_keeps:
  assumes "keeps I inner" and "unat (cs_max_entries s) \<le> cap"
  shows "keeps I (cached_upstream L cid s inner)"
  unfolding keeps_def
proof (intro allI impI)
  fix q w assume "I w"
  obtain now w1 where now: "instant_now w = (now, w1)" by fastforce
  then have w1: "I w1" using \<open>I w\<close> instant_now_keeps by blast
  define hit where "hit = (case map_of (w_caches w1 cid) (normalize_cache_key q) of
      Some entry \<Rightarrow> if cr_expires_at entry > now then Some entry else None | None \<Rightarrow> None)"
  show "I (snd (up_resolve (cached_upstream L cid s inner) q w))"
  proof (cases hit)
    case (Some entry)
    obtain age w2 where "elapsed (cr_stored_at entry) (record_metrics (record_cache_operation True) w1)
        = (age, w2)" by fastforce
    then show ?thesis using elapsed_keeps [OF inv_cache_metric [OF w1]] now Some
      by (auto simp: cached_upstream_def cached_resolve_def hit_def Let_def)
  next
    case None
    obtain res w2 where r: "up_resolve inner q (record_metrics (record_cache_operation False) w1)
        = (res, w2)" by fastforce
    then have "I w2" using keepsD [OF assms(1) inv_cache_metric [OF w1]] by blast
    then show ?thesis using r now None inv_store [OF _ assms(2)]
      by (auto simp: cached_upstream_def cached_resolve_def hit_def Let_def split: sum.splits option.splits)
  qed
qed

lemma instrumented_keeps:
  assumes "keeps I inner"
  shows "keeps I (instrumented_upstream label inner)"
  unfolding keeps_def
proof (intro allI impI)
  fix q w assume "I w"
  obtain t w1 where 1: "instant_now w = (t, w1)" by fastforce
  obtain res w2 where 2: "up_resolve inner q w1 = (res, w2)" by fastforce
  obtain d w3 where 3: "elapsed t w2 = (d, w3)" by fastforce
  have "I w3"
    using \<open>I w\<close> instant_now_keeps [OF _ 1] keepsD [OF assms _ 2] elapsed_keeps [OF _ 3] by blast
  then show "I (snd (up_resolve (instrumented_upstream label inner) q w))"
    using 1 2 3 by (simp add: instrumented_upstream_def instrumented_resolve_def inv_upstream_metric)
qed

lemma try_resolvers_keeps:
  assumes "\<forall>r\<in>set rs. keeps I r" and "I w"
  shows "I (snd (try_resolvers rs err q w))"
  using assms
proof (induction rs arbitrary: err w)
  case (Cons r rs)
  obtain res w1 where r: "up_resolve r q w = (res, w1)" by fastforce
  then have "I w1" using Cons.prems keepsD by fastforce
  with Cons r show ?case by (cases res) auto
qed simp

lemma strategy_keeps:
  assumes "\<forall>r\<in>set rs. keeps I r"
  shows "keeps I (strategy_upstream cid rs strategy)"
  using assms unfolding keeps_def [of I "strategy_upstream cid rs strategy"]
  by (auto simp: strategy_upstream_def strategy_resolve_def gen_range_def Let_def from_index_props
      split: upstream_strategy.split intro!: try_resolvers_keeps inv_counter inv_draw)

end

definition world_ok :: "nat \<Rightarrow> 'n world \<Rightarrow> bool" where
  "world_ok cap w \<longleftrightarrow> opt_balanced (w_metrics w) \<and>
     (\<forall>cid. distinct (map fst (w_caches w cid)) \<and> length (w_caches w cid) \<le> max 1 cap)"

interpretation resolver_world: world_invariant "world_ok cap" cap
proof unfold_locales
  fix w :: "'n world" and s :: resolver_cache_settings and L now key ttl r cid
  assume "world_ok cap w" and "unat (cs_max_entries s) \<le> cap"
  then show "world_ok cap (w\<lparr>w_caches := (w_caches w)(cid := cache_store L s now key ttl r (w_caches w cid))\<rparr>)"
    using cache_store_bound [of "w_caches w cid" L s now key ttl r]
    by (auto simp: world_ok_def distinct_cache_store)
qed (auto simp: world_ok_def record_metrics_def intro: inv_intros)

text \<open>A resolver that only talks to the network: the transport clients, whose code is in libraries.\<close>

definition net_upstream ::
  "string \<Rightarrow> (bytes \<Rightarrow> 'n \<Rightarrow> (upstream_error + bytes) \<times> 'n) \<Rightarrow> 'n upstream" where
  "net_upstream label f =
     \<lparr>up_label = label,
      up_resolve = (\<lambda>q w. case f q (w_net w) of (res, n) \<Rightarrow> (res, w\<lparr>w_net := n\<rparr>))\<rparr>"

lemma net_upstream_keeps: "keeps (world_ok cap) (net_upstream label f)"
  by (auto simp: keeps_def net_upstream_def world_ok_def split: prod.splits)

subsection \<open>Properties\<close>

lemma cached_resolve_miss:
  assumes "instant_now w = (now, w1)"
    and "\<forall>entry. map_of (w_caches w1 cid) (normalize_cache_key q) = Some entry \<longrightarrow> cr_expires_at entry \<le> now"
    and "up_resolve inner q (record_metrics (record_cache_operation False) w1) = (Inr r, w2)"
  shows "cached_resolve L cid s inner q w = (Inr r,
    (case cache_ttl L r s of None \<Rightarrow> w2 | Some ttl \<Rightarrow> w2\<lparr>w_caches := (w_caches w2)(cid :=
       cache_store L s now (normalize_cache_key q) ttl r (w_caches w2 cid))\<rparr>))"
  using assms by (auto simp: cached_resolve_def Let_def split: option.splits)

lemma cached_resolve_hit:
  assumes "map_of (w_caches w cid) (normalize_cache_key q) = Some entry"
    and "w_clock w (w_reads w) < cr_expires_at entry"
  shows "cached_resolve L cid s inner q w =
    (Inr (rehydrate_cached_response L (cr_response entry)
        (max 0 (w_clock w (Suc (w_reads w)) - cr_stored_at entry)) (query_id q)),
     w\<lparr>w_reads := w_reads w + 2, w_metrics := record_cache_operation True (w_metrics w)\<rparr>)"
  using assms
  by (simp add: cached_resolve_def instant_now_def elapsed_def record_metrics_def Let_def)


text \<open>
  C13. Storing an answer keeps the cache within its bound whatever its size was before, makes the new
  answer retrievable under its key with its lifetime, and, when it evicts live entries, evicts only
  entries that expire no later than every entry it keeps.
\<close>

theorem cache_store_evicts:
  assumes "distinct (map fst es)"
  shows "length (cache_store L s now key ttl r es) \<le> max 1 (unat (cs_max_entries s))
    \<and> map_of (cache_store L s now key ttl r es) key =
        Some \<lparr>cr_response = scrub_response_id L r, cr_stored_at = now, cr_expires_at = now + ttl\<rparr>
    \<and> (\<forall>k v. k \<noteq> key \<longrightarrow> map_of (cache_store L s now key ttl r es) k = Some v \<longrightarrow> map_of es k = Some v)
    \<and> (\<forall>k v k' v'. map_of es k = Some v \<longrightarrow> cr_expires_at v > now \<longrightarrow> k \<noteq> key \<longrightarrow>
        map_of (cache_store L s now key ttl r es) k = None \<longrightarrow>
        k' \<noteq> key \<longrightarrow> map_of (cache_store L s now key ttl r es) k' = Some v' \<longrightarrow>
        cr_expires_at v \<le> cr_expires_at v')"
proof -
  let ?n = "unat (cs_max_entries s)"
  define es1 where "es1 = (if ?n \<le> length es then retain_live now es else es)"
  define es2 where "es2 = (if ?n \<le> length es1 then evict_oldest ?n es1 else es1)"
  have store: "cache_store L s now key ttl r es = hm_insert key
      \<lparr>cr_response = scrub_response_id L r, cr_stored_at = now, cr_expires_at = now + ttl\<rparr> es2"
    by (simp add: cache_store_def es1_def es2_def Let_def)
  have d1: "distinct (map fst es1)" and sub1: "set es1 \<subseteq> set es"
    using assms by (auto simp: es1_def retain_live_def distinct_map_filter)
  have d2: "distinct (map fst es2)" and sub2: "set es2 \<subseteq> set es1"
    using d1 by (auto simp: es2_def evict_oldest_def fold_hm_remove distinct_map_filter)
  have old: "map_of es k = Some v" if "map_of es2 k = Some v" for k v
    using that assms sub1 sub2 by (meson map_of_SomeD map_of_is_SomeI subsetD)
  have order: "cr_expires_at v \<le> cr_expires_at v'"
    if "map_of es k = Some v" "cr_expires_at v > now" "map_of es2 k = None" "map_of es2 k' = Some v'"
    for k v k' v'
  proof -
    have "(k, v) \<in> set es1"
      using that(1,2) by (auto simp: es1_def retain_live_def dest: map_of_SomeD)
    moreover have "(k, v) \<notin> set es2" using that(3) d2 by (metis map_of_is_SomeI option.distinct(1))
    moreover have "(k', v') \<in> set es2" using that(4) by (rule map_of_SomeD)
    ultimately have "?n \<le> length es1" and "es2 = evict_oldest ?n es1"
      by (auto simp: es2_def split: if_splits)
    then show ?thesis
      using evict_oldest_order [OF d1, of "(k', v')" ?n "(k, v)"] \<open>(k, v) \<in> set es1\<close>
        \<open>(k, v) \<notin> set es2\<close> \<open>(k', v') \<in> set es2\<close> by simp
  qed
  show ?thesis
    using cache_store_bound [OF assms, of L s now key ttl r] old order unfolding store by auto
qed

text \<open>
  C40. What is cached, and for how long: a truncated answer, one that does not decode and one whose
  code is neither \<open>NoError\<close> nor \<open>NXDomain\<close> is never cached; with settings that pass validation, every
  lifetime is positive and lies between the configured minimum and maximum.
\<close>

theorem cache_lifetime:
  assumes "cache_ttl L r s = Some ttl" and "cache_settings_validate s = Inr ()"
    and "\<forall>t. cs_min_ttl s = Some t \<or> cs_max_ttl s = Some t \<longrightarrow> 0 \<le> t"
  shows "\<not> is_truncated_response r
    \<and> (\<exists>m. lib_from_vec L r = Inr m \<and> m_response_code m \<in> {NoError, NXDomain})
    \<and> 0 < ttl
    \<and> (\<forall>t. cs_min_ttl s = Some t \<longrightarrow> t \<le> ttl) \<and> (\<forall>t. cs_max_ttl s = Some t \<longrightarrow> ttl \<le> t)"
proof -
  from assms(1) obtain m t where m: "lib_from_vec L r = Inr m" "\<not> is_truncated_response r"
    and code: "m_response_code m \<in> {NoError, NXDomain}" and clamp: "clamp_ttl s t = Some ttl"
    and t: "min_record_ttl (m_answers m) = Some t \<or> negative_cache_ttl_in (m_authorities m) = Some t"
    by (cases "lib_from_vec L r")
      (auto simp: cache_ttl_def negative_cache_ttl_def split: if_splits bind_splits
        response_code.splits option.splits)
  have "0 \<le> t' \<Longrightarrow> (\<forall>x\<in>set ts. 0 \<le> x) \<Longrightarrow> 0 \<le> fold min ts (t'::int)" for t' ts
    by (induction ts arbitrary: t') auto
  then have "min_record_ttl rs = Some t \<Longrightarrow> 0 \<le> t" for rs
    by (auto simp: min_record_ttl_def from_secs_def nanos_per_sec_def split: list.splits)
  moreover have "negative_cache_ttl_in rs = Some t \<Longrightarrow> 0 \<le> t" for rs
    by (induction rs) (auto simp: from_secs_def nanos_per_sec_def split: rdata.splits)
  ultimately have "0 \<le> t" using t by blast
  then have "0 < ttl"
    using clamp assms(3) by (auto simp: clamp_ttl_def Let_def max_def min_def split: option.splits if_splits)
  then show ?thesis using m code clamp_ttl_bounds [OF clamp assms(2)] by auto
qed

lemma try_resolvers_first:
  assumes "ord \<noteq> []"
  shows "case try_resolvers ord AllFailed q w0 of
         (Inr resp, w') \<Rightarrow> \<exists>pre r post w1. ord = pre @ r # post
            \<and> failures pre q w0 = Some w1 \<and> up_resolve r q w1 = (Inr resp, w')
       | (Inl e, w') \<Rightarrow> \<exists>w1. failures (butlast ord) q w0 = Some w1 \<and> up_resolve (last ord) q w1 = (Inl e, w')"
proof (cases "try_resolvers ord AllFailed q w0")
  case (Pair res w')
  show ?thesis
  proof (cases res)
    case (Inl e)
    then show ?thesis using Pair assms try_resolvers_Inl [of ord AllFailed q w0 e w'] unfolding Pair by simp
  next
    case (Inr resp)
    then show ?thesis using Pair try_resolvers_Inr [of ord AllFailed q w0 resp w'] unfolding Pair by simp
  qed
qed

text \<open>
  C39. Every strategy asks each upstream at most once, in an order that starts at the strategy's
  choice and goes round all of them, and gives the answer of the first that succeeds, without asking
  those after it; when all fail, it gives the error of the last one asked.
\<close>

theorem strategy_failover:
  assumes "rs \<noteq> []"
  shows "\<exists>start w0. start < length rs \<and> (strategy = Failover \<longrightarrow> start = 0)
    \<and> w_net w0 = w_net w \<and> w_caches w0 = w_caches w \<and> w_metrics w0 = w_metrics w
    \<and> (case strategy_resolve cid rs strategy q w of
         (Inr resp, w') \<Rightarrow> \<exists>pre r post w1. rotate start rs = pre @ r # post
            \<and> failures pre q w0 = Some w1 \<and> up_resolve r q w1 = (Inr resp, w')
       | (Inl e, w') \<Rightarrow> \<exists>w1. failures (butlast (rotate start rs)) q w0 = Some w1
            \<and> up_resolve (last (rotate start rs)) q w1 = (Inl e, w'))"
proof -
  have rot: "rotate start rs \<noteq> []" for start using assms by simp
  have pos: "0 < length rs" using assms by simp
  show ?thesis
  proof (cases strategy)
    case RoundRobin
    let ?start = "unat (w_counters w cid) mod length rs"
      and ?w0 = "w\<lparr>w_counters := (w_counters w)(cid := w_counters w cid + 1)\<rparr>"
    have "?start < length rs" using pos by simp
    moreover have "strategy_resolve cid rs strategy q w = try_resolvers (rotate ?start rs) AllFailed q ?w0"
      using assms by (simp add: strategy_resolve_def RoundRobin from_index_rotate Let_def)
    ultimately show ?thesis using try_resolvers_first [OF rot, of ?start q ?w0] RoundRobin
      by (intro exI [of _ ?start] exI [of _ ?w0]) simp
  next
    case Random
    let ?start = "w_random w (w_draws w) mod length rs" and ?w0 = "w\<lparr>w_draws := Suc (w_draws w)\<rparr>"
    have "?start < length rs" using pos by simp
    moreover have "strategy_resolve cid rs strategy q w = try_resolvers (rotate ?start rs) AllFailed q ?w0"
      using assms by (simp add: strategy_resolve_def Random gen_range_def from_index_rotate)
    ultimately show ?thesis using try_resolvers_first [OF rot, of ?start q ?w0] Random
      by (intro exI [of _ ?start] exI [of _ ?w0]) simp
  next
    case Failover
    have "strategy_resolve cid rs strategy q w = try_resolvers (rotate 0 rs) AllFailed q w"
      using assms by (simp add: strategy_resolve_def Failover)
    then show ?thesis using try_resolvers_first [OF rot, of 0 q w] Failover pos
      by (intro exI [of _ 0] exI [of _ w]) simp
  qed
qed

lemma mod_add_inj:
  fixes a :: nat
  assumes "(a + i) mod n = (a + j) mod n" and "i < n" and "j < n"
  shows "i = j"
  using assms
proof (induction i j rule: linorder_wlog)
  case (le i j)
  then have "n dvd (a + j) - (a + i)"
    using mod_eq_dvd_iff_nat [of "a + i" "a + j" n] by simp
  then have "n dvd j - i" by simp
  moreover have "j - i < n" using le by simp
  ultimately have "j - i = 0" using nat_dvd_not_less by blast
  then show ?case using le by simp
next
  case (sym i j)
  then show ?case by simp
qed

lemma rr_start_inj:
  fixes c :: usize
  assumes "unat c + n \<le> 2 ^ 64"
  shows "inj_on (\<lambda>i. unat (c + of_nat i) mod n) {..<n}"
proof (rule inj_onI)
  fix i j assume ij: "i \<in> {..<n}" "j \<in> {..<n}"
    and eq: "unat (c + of_nat i) mod n = unat (c + of_nat j) mod n"
  have "unat (c + of_nat k) = unat c + k" if "k < n" for k
    using that assms by (simp add: unat_word_ariths unat_of_nat)
  then show "i = j" using ij eq mod_add_inj [of "unat c" i n j] by simp
qed

lemma hd_from_index: "start < length rs \<Longrightarrow> hd (from_index start rs) = rs ! start"
proof -
  assume lt: "start < length rs"
  then have "from_index start rs \<noteq> []" by (auto simp: from_index_def)
  then have "hd (from_index start rs) = from_index start rs ! 0" by (rule hd_conv_nth)
  also have "\<dots> = rs ! start"
  proof -
    have "0 < length rs" using lt by linarith
    then show ?thesis using lt unfolding from_index_def by (subst nth_map) simp_all
  qed
  finally show ?thesis .
qed

text \<open>
  Round robin is fair: each query takes the current counter for its starting point and advances
  it by one, and over as many consecutive counter values as there are upstreams, every upstream is
  asked first exactly once, as long as the 64-bit counter does not wrap in between.
\<close>

theorem round_robin_fair:
  fixes c :: usize
  assumes "rs \<noteq> []" and "unat c + length rs \<le> 2 ^ 64"
  shows "mset (map (\<lambda>i. hd (from_index (unat (c + of_nat i) mod length rs) rs)) [0..<length rs]) = mset rs
    \<and> (\<forall>i w. w_counters w cid = c + of_nat i \<longrightarrow>
         strategy_resolve cid rs RoundRobin q w =
           try_resolvers (from_index (unat (c + of_nat i) mod length rs) rs) AllFailed q
             (w\<lparr>w_counters := (w_counters w)(cid := c + of_nat (Suc i))\<rparr>))"
proof
  let ?n = "length rs" and ?f = "\<lambda>i. unat (c + of_nat i) mod length rs"
  have lt: "?f i < ?n" for i using assms(1) by simp
  have "mset (map (\<lambda>i. hd (from_index (?f i) rs)) [0..<?n]) = image_mset (\<lambda>i. rs ! ?f i) (mset_set {..<?n})"
    using lt by (simp add: hd_from_index lessThan_atLeast0)
  also have "\<dots> = image_mset (nth rs) (mset_set (?f ` {..<?n}))"
    using image_mset_mset_set [OF rr_start_inj [OF assms(2)]] by (metis (no_types, lifting) comp_apply image_mset_cong multiset.map_comp)
  also have "?f ` {..<?n} = {..<?n}"
    by (rule endo_inj_surj) (use lt rr_start_inj [OF assms(2)] in auto)
  also have "image_mset (nth rs) (mset_set {..<?n}) = mset (map (nth rs) [0..<?n])"
    by (simp add: lessThan_atLeast0)
  also have "\<dots> = mset rs" by (simp add: map_nth)
  finally show "mset (map (\<lambda>i. hd (from_index (?f i) rs)) [0..<?n]) = mset rs" .
qed (use assms(1) in \<open>simp add: strategy_resolve_def Let_def algebra_simps\<close>)

subsection \<open>Instances\<close>

definition example_message :: dns_message where
  "example_message = add_answer (record_from_rdata (DnsName [''a'']) 300 (RdA 1))
     (message_new 258 MtResponse OpQuery)"

definition example_codec_lib :: dns_lib where
  "example_codec_lib = table_lib
     [(example_message, [1, 2, 128, 9]), (example_message\<lparr>m_id := 0\<rparr>, [0, 0, 128, 9]),
      (rehydrate_message example_message 2000000000 1800, [7, 8, 128, 9])] (\<lambda>_. True)"

definition example_upstream :: "nat upstream" where
  "example_upstream = net_upstream ''dns'' (\<lambda>q n. (Inr [1, 2, 128, 9], Suc n))"

definition broken_upstream :: "nat upstream" where
  "broken_upstream = net_upstream ''down'' (\<lambda>q n. (Inl Timeout, n))"

definition example_settings :: resolver_cache_settings where
  "example_settings = \<lparr>cs_enabled = True, cs_min_ttl = Some 0, cs_max_ttl = None, cs_max_entries = 1\<rparr>"

definition example_world :: "nat world" where
  "example_world = \<lparr>w_metrics = None, w_clock = (\<lambda>n. int n * 1000000000), w_reads = 0,
     w_random = (\<lambda>n. n), w_draws = 0, w_counters = (\<lambda>_. 0), w_caches = (\<lambda>_. []), w_net = 0\<rparr>"


theorem cache_store_evicts_witness:
  "map_of (cache_store example_codec_lib example_settings 5 [0, 0, 5] 10 [1, 2, 128, 9]
      [([0, 0, 6], \<lparr>cr_response = [], cr_stored_at = 0, cr_expires_at = 9\<rparr>)]) [0, 0, 5]
    = Some \<lparr>cr_response = [0, 0, 128, 9], cr_stored_at = 5, cr_expires_at = 15\<rparr>
   \<and> length (cache_store example_codec_lib example_settings 5 [0, 0, 5] 10 [1, 2, 128, 9]
      [([0, 0, 6], \<lparr>cr_response = [], cr_stored_at = 0, cr_expires_at = 9\<rparr>)]) \<le> 1"
proof -
  have "scrub_response_id example_codec_lib [1, 2, 128, 9] = [0, 0, 128, 9]" by code_simp
  moreover have "max 1 (unat (cs_max_entries example_settings)) = 1" by (simp add: example_settings_def)
  ultimately show ?thesis
    using cache_store_evicts [of "[([0, 0, 6], \<lparr>cr_response = [], cr_stored_at = 0, cr_expires_at = 9\<rparr>)]"
        example_codec_lib example_settings 5 "[0, 0, 5]" 10 "[1, 2, 128, 9]"] by simp
qed

theorem cache_lifetime_witness:
  "cache_ttl example_codec_lib [1, 2, 128, 9] example_settings = Some 300000000000
   \<and> \<not> is_truncated_response [1, 2, 128, 9]"
proof -
  have ttl: "cache_ttl example_codec_lib [1, 2, 128, 9] example_settings = Some 300000000000" by code_simp
  have "cache_settings_validate example_settings = Inr ()" by code_simp
  from cache_lifetime [OF ttl this] ttl show ?thesis by (simp add: example_settings_def)
qed

theorem strategy_failover_witness:
  "\<exists>start pre r post. rotate start [broken_upstream, example_upstream] = pre @ r # post
     \<and> fst (strategy_resolve 0 [broken_upstream, example_upstream] RoundRobin [1, 2, 5] example_world)
       = Inr [1, 2, 128, 9]"
proof -
  have res: "fst (strategy_resolve 0 [broken_upstream, example_upstream] RoundRobin [1, 2, 5] example_world)
       = Inr [1, 2, 128, 9]" by code_simp
  then obtain w' where "strategy_resolve 0 [broken_upstream, example_upstream] RoundRobin [1, 2, 5] example_world
       = (Inr [1, 2, 128, 9], w')" by (metis prod.collapse)
  with strategy_failover [of "[broken_upstream, example_upstream]" RoundRobin example_world "[1, 2, 5]" 0] res
  show ?thesis by auto
qed

theorem round_robin_fair_witness:
  "mset (map (\<lambda>i. hd (from_index (unat (7 + of_nat i :: usize) mod length [broken_upstream, example_upstream])
       [broken_upstream, example_upstream])) [0..<length [broken_upstream, example_upstream]])
   = mset [broken_upstream, example_upstream]"
proof -
  have "unat (7 :: usize) + length [broken_upstream, example_upstream] \<le> 2 ^ 64" by simp
  with round_robin_fair [of "[broken_upstream, example_upstream]" 7] show ?thesis by blast
qed

end
