(* ===== verification/FilterLists.thy ===== *)
theory FilterLists
  imports DnsLib
begin

text \<open>
  The filter-list formats (\<open>src/use_cases/filtering\<close>: \<open>common.rs\<close>, \<open>adguard.rs\<close>, \<open>hosts.rs\<close>,
  \<open>rpz.rs\<close>, \<open>domains.rs\<close>, \<open>wildcard.rs\<close> and the parsing functions of \<open>mod.rs\<close>).

  A parser that returns \<open>Option<ParseDomainLineResult>\<close> is a function into \<open>option\<close>; \<open>HashSet<String>\<close>
  is a set of strings. The locale \<open>line_parser\<close> states what every format promises of the entries it
  produces, and its lemma on whole documents is used through one interpretation per format.
\<close>

subsection \<open>common.rs\<close>

datatype parsed_line = LineBlock string | LineAllow string

datatype parse_domain_line_result = Parsed parsed_line | Skipped

datatype list_format = Adguard | Hosts | Rpz | Domains | Wildcard

definition list_format_from_option :: "string option \<Rightarrow> string + list_format" where
  "list_format_from_option input =
     (let v = (case input of None \<Rightarrow> ''adguard'' | Some s \<Rightarrow> s) in
      if v = ''adguard'' then Inr Adguard
      else if v = ''hosts'' then Inr Hosts
      else if v = ''rpz'' then Inr Rpz
      else if v = ''domains'' then Inr Domains
      else if v = ''wildcard'' then Inr Wildcard
      else Inl v)"

fun list_format_as_str :: "list_format \<Rightarrow> string" where
  "list_format_as_str Adguard = ''adguard''"
| "list_format_as_str Hosts = ''hosts''"
| "list_format_as_str Rpz = ''rpz''"
| "list_format_as_str Domains = ''domains''"
| "list_format_as_str Wildcard = ''wildcard''"

definition normalize_domain :: "string \<Rightarrow> string" where
  "normalize_domain input =
     trim_start_str (to_ascii_lowercase (trim_end_char (trim input) (CHR ''.''))) ''*.''"

definition normalize_domain_opt :: "dns_lib \<Rightarrow> string \<Rightarrow> string option" where
  "normalize_domain_opt L input =
     (let normalized = normalize_domain input in
      if normalized = [] then None
      else (case lib_name_from_ascii L normalized of
              Inl _ \<Rightarrow> None
            | Inr _ \<Rightarrow> Some normalized))"

definition is_ip_like :: "string \<Rightarrow> bool" where
  "is_ip_like value \<longleftrightarrow> parse_ipv4 value \<noteq> None \<or> parse_ipv6 value \<noteq> None"

text \<open>The loop of \<open>matches_any\<close> over \<open>idx\<close>, on the labels from \<open>idx\<close> on.\<close>

fun matches_labels :: "string set \<Rightarrow> string list \<Rightarrow> bool" where
  "matches_labels S [] \<longleftrightarrow> False"
| "matches_labels S (l # ls) \<longleftrightarrow>
     (if join_char (CHR ''.'') (l # ls) \<in> S then True else matches_labels S ls)"

definition matches_any :: "string set \<Rightarrow> string \<Rightarrow> bool" where
  "matches_any S domain \<longleftrightarrow> matches_labels S (split_char (CHR ''.'') domain)"

definition skip_comment_line :: "string \<Rightarrow> string option" where
  "skip_comment_line line =
     (let trimmed = trim line in
      if trimmed = [] \<or> starts_with trimmed ''#'' \<or> starts_with trimmed ''!'' then None
      else Some trimmed)"

text \<open>
  The mapping \<open>normalize_domain_opt(d).map(Parsed(\<dots>)).or(Some(Skipped))\<close> that ends every line parser.
\<close>

definition parsed_or_skipped ::
  "dns_lib \<Rightarrow> (string \<Rightarrow> parsed_line) \<Rightarrow> string \<Rightarrow> parse_domain_line_result" where
  "parsed_or_skipped L mk d =
     (case normalize_domain_opt L d of None \<Rightarrow> Skipped | Some n \<Rightarrow> Parsed (mk n))"

text \<open>\<open>trimmed.split('#').next().unwrap_or(trimmed).trim()\<close>\<close>

definition without_comment :: "string \<Rightarrow> string" where
  "without_comment trimmed = trim (hd (split_char (CHR ''#'') trimmed))"

subsection \<open>adguard.rs\<close>

definition cosmetic_markers :: "string list" where
  "cosmetic_markers =
     [''#@$?#'', ''#$?#'', ''#@?#'', ''#?#'', ''#@$#'', ''#@%#'', ''#@#'', ''##'', ''#$#'',
      ''#%#'', ''$@$'', ''$$'']"

definition split_domain_and_modifiers :: "string \<Rightarrow> string \<times> string" where
  "split_domain_and_modifiers stripped =
     (case split_at_char (CHR ''^'') stripped of
        Some (domain, after_caret) \<Rightarrow>
          (domain, case strip_prefix after_caret ''$'' of None \<Rightarrow> [] | Some m \<Rightarrow> m)
      | None \<Rightarrow>
          (case split_at_char (CHR ''$'') stripped of
             Some (a, b) \<Rightarrow> (a, b)
           | None \<Rightarrow> (stripped, [])))"

definition modifier_key :: "string \<Rightarrow> string" where
  "modifier_key m = trim (hd (split_char (CHR ''='') (trim_start_char m (CHR ''~''))))"

definition dns_safe_key :: "string \<Rightarrow> bool" where
  "dns_safe_key key \<longleftrightarrow>
     key = ''important'' \<or> key = ''match-case'' \<or> key = ''all''
     \<or> (key \<noteq> [] \<and> list_all (\<lambda>c. c = CHR ''_'') key)
     \<or> key = []"

fun restricting_in :: "string list \<Rightarrow> string option" where
  "restricting_in [] = None"
| "restricting_in (raw # rest) =
     (let m = trim raw in
      if m = [] then restricting_in rest
      else if dns_safe_key (modifier_key m) then restricting_in rest
      else Some (modifier_key m))"

definition restricting_modifier :: "string \<Rightarrow> string option" where
  "restricting_modifier modifiers = restricting_in (split_char (CHR '','') modifiers)"

definition parse_adguard_line :: "dns_lib \<Rightarrow> string \<Rightarrow> parse_domain_line_result option" where
  "parse_adguard_line L line =
     (case skip_comment_line line of
        None \<Rightarrow> None
      | Some trimmed \<Rightarrow>
          if list_ex (\<lambda>m. str_contains trimmed m) cosmetic_markers then Some Skipped
          else
            (let (is_exception, rule) =
               (case strip_prefix trimmed ''@@'' of
                  Some rest \<Rightarrow> (True, rest)
                | None \<Rightarrow> (False, trimmed))
             in
             case strip_prefix rule ''||'' of
               Some stripped \<Rightarrow>
                 (case split_domain_and_modifiers stripped of (domain_part, modifiers) \<Rightarrow>
                    (case restricting_modifier modifiers of
                       Some _ \<Rightarrow> Some Skipped
                     | None \<Rightarrow>
                         Some (parsed_or_skipped L
                           (if is_exception then LineAllow else LineBlock) domain_part)))
             | None \<Rightarrow>
                 if is_exception then Some Skipped
                 else if without_comment trimmed = [] then None
                 else
                   (case split_whitespace (without_comment trimmed) of
                      [] \<Rightarrow> None
                    | first # rest \<Rightarrow>
                        (let domain =
                           (case rest of
                              second # _ \<Rightarrow> if is_ip_like first then second else first
                            | [] \<Rightarrow> first)
                         in Some (parsed_or_skipped L LineBlock domain)))))"

subsection \<open>hosts.rs\<close>

definition parse_hosts_line :: "dns_lib \<Rightarrow> string \<Rightarrow> parse_domain_line_result list" where
  "parse_hosts_line L line =
     (let trimmed = trim line in
      if trimmed = [] \<or> starts_with trimmed ''#'' \<or> starts_with trimmed ''!'' then []
      else if without_comment trimmed = [] then []
      else
        (case split_whitespace (without_comment trimmed) of
           [] \<Rightarrow> []
         | first # parts \<Rightarrow>
             if is_ip_like first then
               (let results = map (parsed_or_skipped L LineBlock) parts in
                if results = [] then [Skipped] else results)
             else
               parsed_or_skipped L LineBlock first # map (parsed_or_skipped L LineBlock) parts))"

subsection \<open>rpz.rs\<close>

fun find_rtype_from :: "nat \<Rightarrow> string list \<Rightarrow> nat option" where
  "find_rtype_from idx [] = None"
| "find_rtype_from idx (t # ts) =
     (if list_all is_ascii_digit t then find_rtype_from (Suc idx) ts
      else if eq_ignore_ascii_case t ''IN'' \<or> eq_ignore_ascii_case t ''CH''
              \<or> eq_ignore_ascii_case t ''HS'' then find_rtype_from (Suc idx) ts
      else Some idx)"

text \<open>\<open>tokens[0]\<close> panics on an empty slice; the caller has checked that there are two tokens.\<close>

definition find_rtype_index :: "string list \<Rightarrow> (string \<times> nat) option" where
  "find_rtype_index tokens =
     (case tokens of
        [] \<Rightarrow> None
      | owner # rest \<Rightarrow>
          if owner = ''@'' then None
          else map_option (\<lambda>idx. (owner, idx)) (find_rtype_from 1 rest))"

definition parse_rpz_line :: "dns_lib \<Rightarrow> string \<Rightarrow> parse_domain_line_result option" where
  "parse_rpz_line L line =
     (let trimmed = trim line in
      if trimmed = [] \<or> starts_with trimmed '';'' then None
      else if starts_with trimmed ''$TTL'' \<or> starts_with trimmed ''$ORIGIN''
              \<or> starts_with trimmed ''$INCLUDE'' then None
      else
        (let tokens = split_whitespace trimmed in
         if length tokens < 2 then Some Skipped
         else
           (case find_rtype_index tokens of
              None \<Rightarrow> None
            | Some (owner, rtype_idx) \<Rightarrow>
                (let rtype = to_ascii_uppercase (tokens ! rtype_idx) in
                 if rtype = ''SOA'' \<or> rtype = ''NS'' then None
                 else if rtype = ''CNAME'' then
                   (if rtype_idx + 1 < length tokens then
                      (let target = trim_end_char (tokens ! (rtype_idx + 1)) (CHR ''.'') in
                       if target = [] \<or> target = ''.'' \<or> target = ''*''
                       then Some (parsed_or_skipped L LineBlock owner)
                       else if eq_ignore_ascii_case target ''rpz-passthru''
                       then Some (parsed_or_skipped L LineAllow owner)
                       else Some (parsed_or_skipped L LineBlock owner))
                    else Some Skipped)
                 else if rtype = ''A'' \<or> rtype = ''AAAA''
                 then Some (parsed_or_skipped L LineBlock owner)
                 else Some Skipped))))"

subsection \<open>domains.rs and wildcard.rs\<close>

definition parse_domain_list_line :: "dns_lib \<Rightarrow> string \<Rightarrow> parse_domain_line_result option" where
  "parse_domain_list_line L line =
     (case skip_comment_line line of
        None \<Rightarrow> None
      | Some trimmed \<Rightarrow>
          if without_comment trimmed = [] then None
          else
            (case split_whitespace (without_comment trimmed) of
               [] \<Rightarrow> None
             | domain # _ \<Rightarrow> Some (parsed_or_skipped L LineBlock domain)))"

definition parse_wildcard_line :: "dns_lib \<Rightarrow> string \<Rightarrow> parse_domain_line_result option" where
  "parse_wildcard_line L line =
     (case skip_comment_line line of
        None \<Rightarrow> None
      | Some trimmed \<Rightarrow>
          if without_comment trimmed = [] then None
          else
            (case split_whitespace (without_comment trimmed) of
               [] \<Rightarrow> None
             | entry # _ \<Rightarrow> Some (parsed_or_skipped L LineBlock entry)))"

subsection \<open>Whole documents\<close>

text \<open>The accumulator of \<open>parse_list_content\<close>: blocks, exceptions, number of skipped entries.\<close>

type_synonym list_content = "string set \<times> string set \<times> nat"

fun collect :: "parse_domain_line_result \<Rightarrow> list_content \<Rightarrow> list_content" where
  "collect (Parsed (LineBlock d)) (blocks, exceptions, skipped) =
     (insert d blocks, exceptions, skipped)"
| "collect (Parsed (LineAllow d)) (blocks, exceptions, skipped) =
     (blocks, insert d exceptions, skipped)"
| "collect Skipped (blocks, exceptions, skipped) = (blocks, exceptions, skipped + 1)"

definition collect_lines ::
  "(string \<Rightarrow> parse_domain_line_result list) \<Rightarrow> string \<Rightarrow> list_content" where
  "collect_lines parse content =
     fold (\<lambda>line acc. fold collect (parse line) acc) (str_lines content) ({}, {}, 0)"

fun opt_list :: "'a option \<Rightarrow> 'a list" where
  "opt_list None = []"
| "opt_list (Some a) = [a]"

definition parse_list_content :: "dns_lib \<Rightarrow> string \<Rightarrow> list_format \<Rightarrow> list_content" where
  "parse_list_content L content format =
     (case format of
        Adguard \<Rightarrow> collect_lines (\<lambda>l. opt_list (parse_adguard_line L l)) content
      | Hosts \<Rightarrow> collect_lines (parse_hosts_line L) content
      | Rpz \<Rightarrow> collect_lines (\<lambda>l. opt_list (parse_rpz_line L l)) content
      | Domains \<Rightarrow> collect_lines (\<lambda>l. opt_list (parse_domain_list_line L l)) content
      | Wildcard \<Rightarrow> collect_lines (\<lambda>l. opt_list (parse_wildcard_line L l)) content)"

subsection \<open>Refresh intervals\<close>

datatype interval_error =
    IntervalEmpty
  | IntervalNoValue
  | IntervalBadNumber string
  | IntervalBadSuffix string

text \<open>The last character of a UTF-8 string: its last byte and the continuation bytes before it.\<close>

definition is_continuation :: "char \<Rightarrow> bool" where
  "is_continuation c \<longleftrightarrow> 128 \<le> (of_char c :: int) \<and> (of_char c :: int) < 192"

definition last_char_len :: "string \<Rightarrow> nat" where
  "last_char_len s = Suc (length (takeWhile is_continuation (rev s)))"

text \<open>
  Durations are whole seconds in a \<open>u64\<close>; the products \<open>value * 60\<close> and so on wrap around, as they do
  in a release build.
\<close>

definition parse_interval :: "string \<Rightarrow> interval_error + u64" where
  "parse_interval input =
     (let trimmed = trim input in
      if trimmed = [] then Inl IntervalEmpty
      else
        (let n = length trimmed - last_char_len trimmed;
             value_text = take n trimmed;
             unit = drop n trimmed
         in if value_text = [] then Inl IntervalNoValue
            else
              (case parse_u64 value_text of
                 None \<Rightarrow> Inl (IntervalBadNumber value_text)
               | Some value \<Rightarrow>
                   if unit = ''s'' then Inr value
                   else if unit = ''m'' then Inr (value * 60)
                   else if unit = ''h'' then Inr (value * 60 * 60)
                   else if unit = ''d'' then Inr (value * 24 * 60 * 60)
                   else Inl (IntervalBadSuffix unit))))"


section \<open>Domain matching\<close>

lemma matches_labels_drop:
  "matches_labels S ls \<longleftrightarrow> (\<exists>i<length ls. join_char (CHR ''.'') (drop i ls) \<in> S)"
proof (induction ls)
  case (Cons l ls)
  have "(\<exists>i<length (l # ls). join_char (CHR ''.'') (drop i (l # ls)) \<in> S) \<longleftrightarrow>
        join_char (CHR ''.'') (l # ls) \<in> S
        \<or> (\<exists>i<length ls. join_char (CHR ''.'') (drop i ls) \<in> S)"
    by (auto simp: less_Suc_eq_0_disj)
  with Cons show ?case by (simp del: join_char.simps)
qed simp

lemma join_char_append:
  "as \<noteq> [] \<Longrightarrow> bs \<noteq> [] \<Longrightarrow>
   join_char c (as @ bs) = join_char c as @ c # join_char c bs"
proof (induction as)
  case (Cons a as)
  then show ?case by (cases "as = []") (simp_all add: join_char_Cons)
qed simp

definition covers :: "string \<Rightarrow> string \<Rightarrow> bool" where
  "covers d domain \<longleftrightarrow> domain = d \<or> suffix (CHR ''.'' # d) domain"

lemma covers_refl [simp]: "covers d d"
  by (simp add: covers_def)

lemma covers_sub: "covers d (sub @ CHR ''.'' # d)"
  by (auto simp: covers_def suffix_def)

lemma covers_trans: "covers a b \<Longrightarrow> covers b c \<Longrightarrow> covers a c"
  unfolding covers_def by (auto simp: suffix_def)

lemma split_tail_covers:
  "(\<exists>i<length (split_char (CHR ''.'') domain).
      join_char (CHR ''.'') (drop i (split_char (CHR ''.'') domain)) = d) \<longleftrightarrow> covers d domain"
  (is "?L \<longleftrightarrow> ?R")
proof
  let ?ls = "split_char (CHR ''.'') domain"
  assume ?L
  then obtain i where i: "i < length ?ls" "join_char (CHR ''.'') (drop i ?ls) = d" by blast
  show ?R
  proof (cases "i = 0")
    case True
    with i show ?thesis by (simp add: covers_def)
  next
    case False
    from False i(1) have "take i ?ls \<noteq> []" "drop i ?ls \<noteq> []" by auto
    then have "join_char (CHR ''.'') (take i ?ls @ drop i ?ls)
      = join_char (CHR ''.'') (take i ?ls) @ CHR ''.'' # d"
      using i(2) by (simp add: join_char_append del: append_take_drop_id)
    then show ?thesis by (auto simp: covers_def suffix_def)
  qed
next
  let ?ls = "split_char (CHR ''.'') domain"
  assume ?R
  then consider "domain = d" | p where "domain = p @ CHR ''.'' # d"
    by (auto simp: covers_def suffix_def)
  then show ?L
  proof cases
    case 1
    then show ?thesis by (intro exI [of _ 0]) auto
  next
    case 2
    then have "?ls = split_char (CHR ''.'') p @ split_char (CHR ''.'') d"
      by (simp add: split_char_append_sep)
    then show ?thesis
      by (intro exI [of _ "length (split_char (CHR ''.'') p)"]) simp
  qed
qed

lemma matches_any_covers: "matches_any S domain \<longleftrightarrow> (\<exists>d\<in>S. covers d domain)"
proof -
  have "matches_any S domain \<longleftrightarrow>
      (\<exists>d\<in>S. \<exists>i<length (split_char (CHR ''.'') domain).
         join_char (CHR ''.'') (drop i (split_char (CHR ''.'') domain)) = d)"
    unfolding matches_any_def matches_labels_drop by blast
  then show ?thesis by (simp only: split_tail_covers)
qed

lemma matches_any_empty [simp]: "\<not> matches_any {} domain"
  by (simp add: matches_any_covers)

lemma matches_any_Un [simp]:
  "matches_any (A \<union> B) domain \<longleftrightarrow> matches_any A domain \<or> matches_any B domain"
  by (auto simp: matches_any_covers)

lemma matches_any_UN: "matches_any (\<Union>x\<in>X. F x) domain \<longleftrightarrow> (\<exists>x\<in>X. matches_any (F x) domain)"
  by (auto simp: matches_any_covers)

section \<open>Normal form of list entries\<close>

definition normal_domain :: "string \<Rightarrow> bool" where
  "normal_domain d \<longleftrightarrow>
     d \<noteq> [] \<and> \<not> prefix ''*.'' d \<and> (\<forall>c\<in>set d. \<not> is_ascii_upper c) \<and> \<not> ends_with_char d (CHR ''.'')"

lemma not_alpha_chars [simp]:
  "\<not> is_ascii_alpha (CHR ''.'')" "\<not> is_ascii_alpha (CHR ''*'')" "\<not> is_ascii_alpha (CHR ''#'')"
  by (simp_all add: is_ascii_alpha_def is_ascii_upper_def)

lemma set_trim_start_str: "set (trim_start_str s p) \<subseteq> set s"
  using trim_start_str_suffix by (metis set_mono_suffix)

lemma suffix_ends_with: "suffix t s \<Longrightarrow> t \<noteq> [] \<Longrightarrow> ends_with_char t c \<longleftrightarrow> ends_with_char s c"
  by (auto simp: suffix_def ends_with_char_def)

lemma normalize_domain_normal:
  assumes "normalize_domain s \<noteq> []"
  shows "normal_domain (normalize_domain s)"
proof -
  let ?t = "trim_end_char (trim s) (CHR ''.'')"
  let ?n = "trim_start_str (to_ascii_lowercase ?t) ''*.''"
  have n: "normalize_domain s = ?n" by (simp add: normalize_domain_def)
  have "\<not> prefix ''*.'' ?n" by (rule trim_start_str_not_prefix) simp
  moreover have "\<forall>c\<in>set ?n. \<not> is_ascii_upper c"
    using set_trim_start_str [of "to_ascii_lowercase ?t" "''*.''"]
    by (auto simp: to_ascii_lowercase_def)
  moreover have "\<not> ends_with_char (to_ascii_lowercase ?t) (CHR ''.'')"
    by (simp add: ends_with_char_lowercase trim_end_char_not_ends)
  then have "\<not> ends_with_char ?n (CHR ''.'')"
    using assms n suffix_ends_with [OF trim_start_str_suffix, of "to_ascii_lowercase ?t" "''*.''"]
    by simp
  ultimately show ?thesis using assms n by (simp add: normal_domain_def)
qed

lemma normalize_domain_fixpoint:
  assumes "normal_domain d" and "ws_free d"
  shows "normalize_domain d = d"
  using assms
  by (simp add: normalize_domain_def normal_domain_def trim_ws_free trim_end_char_id
      to_ascii_lowercase_id trim_start_str_id)

lemma normalize_domain_ws_free:
  assumes "ws_free s"
  shows "ws_free (normalize_domain s)"
proof -
  have free_lower: "ws_free (to_ascii_lowercase t)" if "ws_free t" for t
  proof -
    have low: "\<forall>w\<in>set utf8_ws. \<forall>c\<in>set w. \<not> is_ascii_alpha c"
      by code_simp
    have "\<not> starts_ws u" if u: "suffix u (to_ascii_lowercase t)" for u
    proof
      assume "starts_ws u"
      then obtain w where w: "w \<in> set utf8_ws" "w \<noteq> []" "prefix w u"
        by (auto simp: starts_ws_def starts_with_any_def)
      from u obtain a b where t: "t = a @ b" and ub: "u = to_ascii_lowercase b"
        unfolding suffix_def to_ascii_lowercase_def by (metis map_eq_append_conv)
      from w low ub have "prefix w b" by (simp add: prefix_to_ascii_lowercase)
      with w have "starts_ws b" by (auto simp: starts_ws_def starts_with_any_def)
      with \<open>ws_free t\<close> t show False by (auto simp: ws_free_def suffix_def)
    qed
    then show ?thesis by (simp add: ws_free_def)
  qed
  have "ws_free (trim_end_char (trim s) (CHR ''.''))"
    using assms trim_end_char_prefix by (simp add: trim_ws_free) (rule ws_free_prefix)
  then show ?thesis
    unfolding normalize_domain_def
    by (blast intro: free_lower ws_free_suffix trim_start_str_suffix)
qed

lemma normalize_domain_idem:
  assumes "ws_free s"
  shows "normalize_domain (normalize_domain s) = normalize_domain s"
proof (cases "normalize_domain s = []")
  case True
  then show ?thesis by (simp add: normalize_domain_def trim_start_str_def to_ascii_lowercase_def)
next
  case False
  then show ?thesis
    by (intro normalize_domain_fixpoint normalize_domain_normal normalize_domain_ws_free assms)
qed


section \<open>What every list format promises\<close>

fun line_domain :: "parsed_line \<Rightarrow> string" where
  "line_domain (LineBlock d) = d"
| "line_domain (LineAllow d) = d"

definition valid_entry :: "dns_lib \<Rightarrow> string \<Rightarrow> bool" where
  "valid_entry L d \<longleftrightarrow> normal_domain d \<and> (\<exists>n. lib_name_from_ascii L d = Inr n)"

lemma normalize_domain_opt_Some:
  "normalize_domain_opt L s = Some d \<Longrightarrow> d = normalize_domain s \<and> valid_entry L d"
  by (auto simp: normalize_domain_opt_def valid_entry_def Let_def normalize_domain_normal
      split: if_splits sum.splits)

lemma normalize_domain_opt_valid:
  "valid_entry L d \<Longrightarrow> ws_free d \<Longrightarrow> normalize_domain_opt L d = Some d"
  by (auto simp: normalize_domain_opt_def valid_entry_def normalize_domain_fixpoint
      normal_domain_def)

lemma parsed_or_skipped_Parsed:
  assumes "parsed_or_skipped L mk s = Parsed p" and "\<And>d. line_domain (mk d) = d"
  shows "valid_entry L (line_domain p)" and "p = mk (normalize_domain s)"
  using assms
  by (auto simp: parsed_or_skipped_def split: option.splits dest: normalize_domain_opt_Some)

lemma collect_fold:
  "fold collect rs (B, E, n) =
     (B \<union> {d. Parsed (LineBlock d) \<in> set rs}, E \<union> {d. Parsed (LineAllow d) \<in> set rs},
      n + length (filter (\<lambda>r. r = Skipped) rs))"
proof (induction rs arbitrary: B E n)
  case (Cons r rs)
  show ?case
  proof (cases r)
    case (Parsed p)
    with Cons show ?thesis by (cases p) auto
  next
    case Skipped
    with Cons show ?thesis by auto
  qed
qed simp

lemma collect_lines_eq:
  "collect_lines parse content =
     (let rs = concat (map parse (str_lines content)) in
      ({d. Parsed (LineBlock d) \<in> set rs}, {d. Parsed (LineAllow d) \<in> set rs},
       length (filter (\<lambda>r. r = Skipped) rs)))"
proof -
  have "fold (\<lambda>line acc. fold collect (parse line) acc) ls acc
    = fold collect (concat (map parse ls)) acc" for ls acc
    by (induction ls arbitrary: acc) auto
  then show ?thesis by (simp add: collect_lines_def collect_fold Let_def)
qed

locale line_parser =
  fixes parse :: "dns_lib \<Rightarrow> string \<Rightarrow> parse_domain_line_result list"
  assumes parsed_valid: "Parsed p \<in> set (parse L line) \<Longrightarrow> valid_entry L (line_domain p)"
    and blank_empty: "trim line = [] \<Longrightarrow> parse L line = []"
begin

lemma document_valid:
  assumes "collect_lines (parse L) content = (B, E, n)" and "d \<in> B \<union> E"
  shows "valid_entry L d"
proof -
  from assms obtain line p where "Parsed p \<in> set (parse L line)" and "line_domain p = d"
    by (fastforce simp: collect_lines_eq Let_def)
  then show ?thesis using parsed_valid by blast
qed

lemma document_blank:
  assumes "\<forall>line\<in>set (str_lines content). trim line = []"
  shows "collect_lines (parse L) content = ({}, {}, 0)"
proof -
  from assms have "concat (map (parse L) (str_lines content)) = []"
    by (simp add: blank_empty)
  then show ?thesis unfolding collect_lines_eq Let_def by (simp only:) simp
qed

lemma document_finite:
  assumes "collect_lines (parse L) content = (B, E, n)"
  shows "finite B \<and> finite E"
proof -
  let ?rs = "concat (map (parse L) (str_lines content))"
  have "{d. Parsed (LineBlock d) \<in> set ?rs} \<subseteq> (\<lambda>r. case r of Parsed p \<Rightarrow> line_domain p | _ \<Rightarrow> []) ` set ?rs"
    and "{d. Parsed (LineAllow d) \<in> set ?rs} \<subseteq> (\<lambda>r. case r of Parsed p \<Rightarrow> line_domain p | _ \<Rightarrow> []) ` set ?rs"
    by force+
  then have "finite {d. Parsed (LineBlock d) \<in> set ?rs}" "finite {d. Parsed (LineAllow d) \<in> set ?rs}"
    by (meson finite_imageI finite_set finite_subset)+
  with assms show ?thesis by (auto simp: collect_lines_eq Let_def)
qed

end

lemma skip_comment_line_blank: "trim line = [] \<Longrightarrow> skip_comment_line line = None"
  by (simp add: skip_comment_line_def)

lemma opt_list_set [simp]: "x \<in> set (opt_list y) \<longleftrightarrow> y = Some x"
  by (cases y) auto

lemma parsed_block_valid:
  "parsed_or_skipped L LineBlock s = Parsed p \<Longrightarrow> valid_entry L (line_domain p)"
  by (erule parsed_or_skipped_Parsed(1)) simp

lemma parsed_allow_valid:
  "parsed_or_skipped L LineAllow s = Parsed p \<Longrightarrow> valid_entry L (line_domain p)"
  by (erule parsed_or_skipped_Parsed(1)) simp

lemmas parsed_valid_dests = parsed_block_valid parsed_allow_valid
  parsed_block_valid [OF sym] parsed_allow_valid [OF sym]

interpretation adguard_lp: line_parser "\<lambda>L l. opt_list (parse_adguard_line L l)"
proof
  fix p L line
  assume "Parsed p \<in> set (opt_list (parse_adguard_line L line))"
  then show "valid_entry L (line_domain p)"
    by (auto simp: parse_adguard_line_def Let_def split: option.splits if_splits prod.splits
        list.splits dest: parsed_valid_dests)
qed (simp add: parse_adguard_line_def skip_comment_line_blank)

interpretation hosts_lp: line_parser parse_hosts_line
proof
  fix p L line
  assume "Parsed p \<in> set (parse_hosts_line L line)"
  then show "valid_entry L (line_domain p)"
    by (auto simp: parse_hosts_line_def Let_def split: if_splits list.splits
        dest: parsed_valid_dests)
qed (simp add: parse_hosts_line_def)

interpretation rpz_lp: line_parser "\<lambda>L l. opt_list (parse_rpz_line L l)"
proof
  fix p L line
  assume "Parsed p \<in> set (opt_list (parse_rpz_line L line))"
  then show "valid_entry L (line_domain p)"
    by (auto simp: parse_rpz_line_def Let_def split: option.splits if_splits prod.splits
        dest: parsed_valid_dests)
qed (simp add: parse_rpz_line_def)

interpretation domains_lp: line_parser "\<lambda>L l. opt_list (parse_domain_list_line L l)"
proof
  fix p L line
  assume "Parsed p \<in> set (opt_list (parse_domain_list_line L line))"
  then show "valid_entry L (line_domain p)"
    by (auto simp: parse_domain_list_line_def split: option.splits if_splits list.splits
        dest: parsed_valid_dests)
qed (simp add: parse_domain_list_line_def skip_comment_line_blank)

interpretation wildcard_lp: line_parser "\<lambda>L l. opt_list (parse_wildcard_line L l)"
proof
  fix p L line
  assume "Parsed p \<in> set (opt_list (parse_wildcard_line L line))"
  then show "valid_entry L (line_domain p)"
    by (auto simp: parse_wildcard_line_def split: option.splits if_splits list.splits
        dest: parsed_valid_dests)
qed (simp add: parse_wildcard_line_def skip_comment_line_blank)

lemma parse_list_content_finite:
  "parse_list_content L content fmt = (B, E, n) \<Longrightarrow> finite B \<and> finite E"
  by (cases fmt) (auto simp: parse_list_content_def
      dest!: adguard_lp.document_finite hosts_lp.document_finite rpz_lp.document_finite
        domains_lp.document_finite wildcard_lp.document_finite)

lemma parse_list_content_valid_entries:
  assumes "parse_list_content L content fmt = (B, E, n)" and "d \<in> B \<union> E"
  shows "valid_entry L d"
  using assms adguard_lp.document_valid hosts_lp.document_valid rpz_lp.document_valid
    domains_lp.document_valid wildcard_lp.document_valid
  by (cases fmt) (auto simp: parse_list_content_def)


section \<open>Documents written and read back\<close>

definition unlines :: "string list \<Rightarrow> string" where
  "unlines ls = concat (map (\<lambda>l. l @ [CHR 0x0A]) ls)"

lemma str_lines_unlines:
  assumes "\<forall>l\<in>set ls. CHR 0x0A \<notin> set l \<and> CHR 0x0D \<notin> set l"
  shows "str_lines (unlines ls) = ls"
  using assms
proof (induction ls)
  case Nil
  then show ?case by (simp add: unlines_def str_lines.simps)
next
  case (Cons l ls)
  have "split_at_char (CHR 0x0A) (l @ CHR 0x0A # unlines ls) = Some (l, unlines ls)"
    using Cons.prems by (simp add: split_at_char_Some)
  moreover have "strip_cr l = l"
    using Cons.prems by (auto simp: strip_cr_def dest: last_in_set)
  ultimately show ?case
    using Cons by (subst str_lines.simps) (simp add: unlines_def)
qed

text \<open>A domain that can stand alone on a line: no whitespace and no comment mark.\<close>

definition plain_entry :: "dns_lib \<Rightarrow> string \<Rightarrow> bool" where
  "plain_entry L d \<longleftrightarrow>
     valid_entry L d \<and> ws_free d \<and> CHR ''#'' \<notin> set d \<and> \<not> prefix ''!'' d"

lemma plain_entry_line:
  assumes "plain_entry L d"
  shows "trim d = d" and "d \<noteq> []" and "skip_comment_line d = Some d" and "without_comment d = d"
proof -
  from assms show t: "trim d = d" by (simp add: plain_entry_def trim_ws_free)
  from assms show ne: "d \<noteq> []"
    by (auto simp: plain_entry_def valid_entry_def normal_domain_def)
  from assms have "\<not> prefix ''#'' d" by (cases d) (auto simp: plain_entry_def)
  with t ne assms show "skip_comment_line d = Some d"
    by (simp add: skip_comment_line_def starts_with_def plain_entry_def)
  from t assms show "without_comment d = d"
    by (simp add: without_comment_def split_char_free plain_entry_def)
qed

lemma plain_entry_no_newline:
  "plain_entry L d \<Longrightarrow> CHR 0x0A \<notin> set d \<and> CHR 0x0D \<notin> set d"
  using ws_chars_free by (auto simp: plain_entry_def)

lemma parsed_or_skipped_plain:
  "plain_entry L d \<Longrightarrow> parsed_or_skipped L mk d = Parsed (mk d)"
  by (simp add: parsed_or_skipped_def plain_entry_def normalize_domain_opt_valid)

lemma collect_lines_singletons:
  assumes "str_lines content = map f ds" and "\<forall>d\<in>set ds. parse (f d) = [Parsed (LineBlock d)]"
  shows "collect_lines parse content = (set ds, {}, 0)"
proof -
  from assms(2) have "concat (map (\<lambda>x. parse (f x)) ds) = map (\<lambda>d. Parsed (LineBlock d)) ds"
    by (induction ds) auto
  with assms(1) have "concat (map parse (str_lines content)) = map (\<lambda>d. Parsed (LineBlock d)) ds"
    by (simp add: comp_def)
  then show ?thesis unfolding collect_lines_eq Let_def by (simp only:) auto
qed

lemma plain_line_domains:
  "plain_entry L d \<Longrightarrow> parse_domain_list_line L d = Some (Parsed (LineBlock d))"
  using plain_entry_line [of L d]
  by (simp add: parse_domain_list_line_def split_whitespace_ws_free plain_entry_def
      parsed_or_skipped_plain [unfolded plain_entry_def])

lemma plain_line_hosts:
  assumes "plain_entry L d" and "is_ip_like ip" and "ws_free ip" and "ip \<noteq> []"
    and "CHR ''#'' \<notin> set ip" and "\<not> prefix ''!'' ip"
  shows "parse_hosts_line L (ip @ CHR '' '' # d) = [Parsed (LineBlock d)]"
proof -
  have d: "ws_free d" "d \<noteq> []" "CHR ''#'' \<notin> set d"
    using assms(1) plain_entry_line [OF assms(1)] by (auto simp: plain_entry_def)
  let ?l = "ip @ CHR '' '' # d"
  have "\<not> starts_ws ?l"
    using take_token_space [OF assms(3), of d] assms(4) by (cases ip) (auto split: if_splits)
  moreover have "\<not> ends_ws ?l"
  proof
    assume "ends_ws ?l"
    then obtain w where w: "w \<in> set utf8_ws" "w \<noteq> []" "suffix w ?l"
      by (auto simp: ends_ws_def ends_with_any_def starts_with_any_def suffix_to_prefix)
    have sp: "CHR '' '' \<notin> set (tl w)" and one: "hd w = CHR '' '' \<longrightarrow> w = '' ''"
      using w(1) by (auto simp: utf8_ws_def)
    from w(3) consider "suffix w d" | v where "w = v @ CHR '' '' # d"
      by (auto simp: suffix_append suffix_Cons)
    then show False
    proof cases
      case 1
      with d(1) w(1,2) show False
        using ws_free_not_ends [OF d(1)]
        by (auto simp: ends_ws_def ends_with_any_def starts_with_any_def suffix_to_prefix)
    next
      case 2
      with sp one d(2) show False by (cases v) auto
    qed
  qed
  ultimately have t: "trim ?l = ?l" by (simp add: trim_id)
  have "without_comment ?l = ?l"
    using assms(5) d(3) t by (simp add: without_comment_def split_char_free)
  moreover have "\<not> prefix ''#'' ?l" "\<not> prefix ''!'' ?l"
    using assms(4,5,6) by (cases ip; auto)+
  ultimately show ?thesis
    using t assms(2) split_whitespace_two [OF assms(3,4) d(1,2)]
    by (simp add: parse_hosts_line_def starts_with_def parsed_or_skipped_plain [OF assms(1)]
        del: append_is_Nil_conv)
qed

section \<open>Intervals\<close>

lemma unit_not_continuation: "\<not> is_continuation (CHR ''s'')" "\<not> is_continuation (CHR ''m'')"
  "\<not> is_continuation (CHR ''h'')" "\<not> is_continuation (CHR ''d'')"
  by (simp_all add: is_continuation_def)

lemma last_char_len_ascii: "\<not> is_continuation u \<Longrightarrow> last_char_len (v @ [u]) = 1"
  by (simp add: last_char_len_def)

lemma unit_not_ws_lead: "\<not> ws_lead (CHR ''s'')" "\<not> ws_lead (CHR ''m'')"
  "\<not> ws_lead (CHR ''h'')" "\<not> ws_lead (CHR ''d'')"
  by (auto dest!: ws_lead_range)

lemma interval_text_trim:
  assumes "0 \<le> n" and "u \<in> set ''smhd''"
  shows "trim (show_nat n @ [u]) = show_nat n @ [u]"
proof (rule trim_ws_free, rule ws_free_no_lead)
  have "\<forall>c\<in>set (show_nat n). \<not> ws_lead c"
    using show_nat_digits [OF assms(1)] by (auto simp: list_all_iff digit_not_ws_lead)
  with assms(2) unit_not_ws_lead show "\<forall>c\<in>set (show_nat n @ [u]). \<not> ws_lead c" by auto
qed

definition unit_secs :: "char \<Rightarrow> int" where
  "unit_secs u =
     (if u = CHR ''s'' then 1 else if u = CHR ''m'' then 60
      else if u = CHR ''h'' then 3600 else 86400)"

lemma parse_interval_eval:
  assumes "0 \<le> n" and "n < 2 ^ 64" and "u \<in> set ''smhd''"
  shows "parse_interval (show_nat n @ [u]) = Inr (word_of_int (n * unit_secs u))"
proof -
  have len: "last_char_len (show_nat n @ [u]) = 1"
    using assms(3) unit_not_continuation by (intro last_char_len_ascii) auto
  define w :: u64 where "w = word_of_int n"
  have w: "parse_u64 (show_nat n) = Some w"
    unfolding w_def by (rule parse_u64_show [OF assms(1,2)])
  have "parse_interval (show_nat n @ [u]) =
      (if u = CHR ''s'' then Inr w else if u = CHR ''m'' then Inr (w * 60)
       else if u = CHR ''h'' then Inr (w * 60 * 60) else Inr (w * 24 * 60 * 60))"
    unfolding parse_interval_def Let_def interval_text_trim [OF assms(1,3)] len
    using w assms(3) by auto
  moreover have "w * 60 * 60 = w * 3600" "w * 24 * 60 * 60 = w * 86400"
    by (simp_all add: mult.assoc)
  moreover have "w = word_of_int (n * 1)" "w * 60 = word_of_int (n * 60)"
    "w * 3600 = word_of_int (n * 3600)" "w * 86400 = word_of_int (n * 86400)"
    by (simp_all add: w_def)
  ultimately show ?thesis by (simp only: unit_secs_def split: if_split) simp
qed

section \<open>Properties\<close>

text \<open>
  C18. A domain matches a set of list entries exactly when it is one of the entries or ends with a dot
  followed by one: matching respects label boundaries, so \<open>notexample.com\<close> never matches the entry
  \<open>example.com\<close>, and every subdomain of an entry matches.
\<close>

theorem matches_any_iff:
  "matches_any S domain \<longleftrightarrow> (\<exists>d\<in>S. domain = d \<or> (\<exists>sub. domain = sub @ ''.'' @ d))"
  unfolding matches_any_covers by (auto simp: covers_def suffix_def)

text \<open>
  Whatever the document and the format, every domain the parser puts into the block set or the
  exception set is in normal form (not empty, lower case, without a leading wildcard label and
  without a trailing dot) and is a name the DNS library accepts; both sets are finite.
\<close>

theorem list_entries_valid:
  assumes "parse_list_content L content fmt = (B, E, n)"
  shows "finite B \<and> finite E \<and>
    (\<forall>d\<in>B \<union> E. normal_domain d \<and> (\<exists>name. lib_name_from_ascii L d = Inr name))"
  using parse_list_content_finite [OF assms] parse_list_content_valid_entries [OF assms]
  by (auto simp: valid_entry_def)

theorem list_entries_valid_witness:
  "normal_domain ''ads.example'' \<and>
   parse_list_content (table_lib [] (\<lambda>_. True)) ''||Ads.Example^'' Adguard = ({''ads.example''}, {}, 0)"
proof -
  have h: "parse_list_content (table_lib [] (\<lambda>_. True)) ''||Ads.Example^'' Adguard
    = ({''ads.example''}, {}, 0)" by code_simp
  from list_entries_valid [OF h] h show ?thesis by simp
qed

text \<open>
  A flat domain list with one valid, plain domain per line is read back as exactly that set of
  blocked domains, with no exception and nothing skipped.
\<close>

theorem domain_list_roundtrip:
  assumes "\<forall>d\<in>set ds. plain_entry L d"
  shows "parse_list_content L (unlines ds) Domains = (set ds, {}, 0)"
proof -
  have "str_lines (unlines ds) = map (\<lambda>d. d) ds"
    unfolding list.map_ident
    by (rule str_lines_unlines) (use assms plain_entry_no_newline in blast)
  moreover have "\<forall>d\<in>set ds. opt_list (parse_domain_list_line L d) = [Parsed (LineBlock d)]"
    using assms plain_line_domains by auto
  ultimately show ?thesis
    using collect_lines_singletons [of "unlines ds" "\<lambda>d. d" ds] by (simp add: parse_list_content_def)
qed

theorem domain_list_roundtrip_witness:
  "parse_list_content (table_lib [] (\<lambda>_. True)) (unlines [''a.b'', ''ads.example'']) Domains
   = (set [''a.b'', ''ads.example''], {}, 0)"
proof (rule domain_list_roundtrip)
  have "list_all (\<lambda>d. normal_domain d \<and> ws_free d) [''a.b'', ''ads.example'']"
    by code_simp
  then show "\<forall>d\<in>set [''a.b'', ''ads.example'']. plain_entry (table_lib [] (\<lambda>_. True)) d"
    by (simp add: plain_entry_def valid_entry_def table_lib_def)
qed

text \<open>
  A hosts file that maps an address to one valid, plain domain per line is read back as exactly
  that set of blocked domains: the address is never taken for a domain.
\<close>

theorem hosts_file_roundtrip:
  assumes "\<forall>d\<in>set ds. plain_entry L d"
    and "is_ip_like ip" and "ws_free ip" and "ip \<noteq> []" and "CHR ''#'' \<notin> set ip"
    and "\<not> prefix ''!'' ip"
  shows "parse_list_content L (unlines (map (\<lambda>d. ip @ '' '' @ d) ds)) Hosts = (set ds, {}, 0)"
proof -
  have nl: "CHR 0x0A \<notin> set ip \<and> CHR 0x0D \<notin> set ip"
    using ws_chars_free [OF assms(3)] by simp
  have "str_lines (unlines (map (\<lambda>d. ip @ '' '' @ d) ds)) = map (\<lambda>d. ip @ '' '' @ d) ds"
    by (rule str_lines_unlines) (use assms(1) nl plain_entry_no_newline in auto)
  moreover have "\<forall>d\<in>set ds. parse_hosts_line L (ip @ '' '' @ d) = [Parsed (LineBlock d)]"
    using assms plain_line_hosts by auto
  ultimately show ?thesis
    by (simp add: parse_list_content_def collect_lines_singletons)
qed

theorem hosts_file_roundtrip_witness:
  "parse_list_content (table_lib [] (\<lambda>_. True))
     (unlines (map (\<lambda>d. ''0.0.0.0'' @ '' '' @ d) [''ads.example''])) Hosts
   = (set [''ads.example''], {}, 0)"
proof (rule hosts_file_roundtrip)
  have "normal_domain ''ads.example'' \<and> ws_free ''ads.example''"
    by code_simp
  then show "\<forall>d\<in>set [''ads.example'']. plain_entry (table_lib [] (\<lambda>_. True)) d"
    by (simp add: plain_entry_def valid_entry_def table_lib_def)
  show "is_ip_like ''0.0.0.0''" by code_simp
  show "ws_free ''0.0.0.0''" by code_simp
qed simp_all

text \<open>
  A network rule \<open>||domain[^][$modifiers]\<close>, with or without the exception mark \<open>@@\<close>, becomes an
  entry only if every modifier is one that does not restrict it at DNS level; the entry is the
  normalised domain, and it is an allow entry exactly when the rule is an exception.
\<close>

theorem adguard_network_rule:
  assumes "trim line = mark @ ''||'' @ rule" and "mark = [] \<or> mark = ''@@''"
    and "split_domain_and_modifiers rule = (dpart, mods)"
    and "parse_adguard_line L line = Some (Parsed p)"
  shows "p = (if mark = ''@@'' then LineAllow else LineBlock) (normalize_domain dpart)
    \<and> (\<forall>raw\<in>set (split_char (CHR '','') mods).
         trim raw = [] \<or> dns_safe_key (modifier_key (trim raw)))"
proof -
  have skip: "skip_comment_line line = Some (mark @ ''||'' @ rule)"
    using assms(1,2) by (auto simp: skip_comment_line_def starts_with_def)
  have safe: "restricting_in rs = None \<Longrightarrow>
    \<forall>raw\<in>set rs. trim raw = [] \<or> dns_safe_key (modifier_key (trim raw))" for rs
    by (induction rs) (auto simp: Let_def split: if_splits)
  have nf: "parsed_or_skipped L mk dpart = Parsed p \<Longrightarrow> p = mk (normalize_domain dpart)" for mk
    by (auto simp: parsed_or_skipped_def split: option.splits dest: normalize_domain_opt_Some)
  from assms(2) show ?thesis
  proof
    assume m: "mark = []"
    with skip assms(3,4) have "restricting_modifier mods = None"
      and "parsed_or_skipped L LineBlock dpart = Parsed p"
      by (auto simp: parse_adguard_line_def strip_prefix_def split: if_splits option.splits)
    with m show ?thesis by (simp add: restricting_modifier_def safe nf)
  next
    assume m: "mark = ''@@''"
    with skip assms(3,4) have "restricting_modifier mods = None"
      and "parsed_or_skipped L LineAllow dpart = Parsed p"
      by (auto simp: parse_adguard_line_def strip_prefix_def split: if_splits option.splits)
    with m show ?thesis by (simp add: restricting_modifier_def safe nf)
  qed
qed

theorem adguard_network_rule_witness:
  "LineAllow ''ads.example''
     = (if ''@@'' = ''@@'' then LineAllow else LineBlock) (normalize_domain ''Ads.example'')
   \<and> (trim ''important'' = [] \<or> dns_safe_key (modifier_key (trim ''important'')))"
proof -
  have t: "trim ''@@||Ads.example^$important,_'' = ''@@'' @ ''||'' @ ''Ads.example^$important,_''"
    by code_simp
  have s: "split_domain_and_modifiers ''Ads.example^$important,_'' = (''Ads.example'', ''important,_'')"
    by code_simp
  have p: "parse_adguard_line (table_lib [] (\<lambda>_. True)) ''@@||Ads.example^$important,_''
    = Some (Parsed (LineAllow ''ads.example''))"
    by code_simp
  have "''important'' \<in> set (split_char (CHR '','') ''important,_'')" by code_simp
  with adguard_network_rule [OF t disjI2 [OF refl] s p] show ?thesis by blast
qed

text \<open>
  An interval written as a number of seconds, minutes, hours or days is read as that number of
  seconds reduced modulo \<open>2 ^ 64\<close>: the multiplication by the unit wraps silently, so the value is the
  intended one exactly when the product fits into 64 bits.
\<close>

theorem parse_interval_value:
  assumes "0 \<le> n" and "n < 2 ^ 64" and "u \<in> set ''smhd''"
  shows "\<exists>d. parse_interval (show_nat n @ [u]) = Inr d
    \<and> uint d = (n * unit_secs u) mod 2 ^ 64
    \<and> (uint d = n * unit_secs u \<longleftrightarrow> n * unit_secs u < 2 ^ 64)"
proof -
  define x where "x = n * unit_secs u"
  have "0 \<le> x" using assms(1) by (simp add: x_def unit_secs_def)
  then have "x mod 2 ^ 64 = x \<longleftrightarrow> x < 2 ^ 64"
    by (metis mod_pos_pos_trivial pos_mod_bound zero_less_numeral zero_less_power)
  moreover have "uint (word_of_int x :: u64) = x mod 2 ^ 64"
    by (simp add: uint_word_of_int)
  ultimately show ?thesis
    using parse_interval_eval [OF assms] unfolding x_def [symmetric] by simp
qed

theorem parse_interval_value_witness:
  "(\<exists>d. parse_interval (show_nat 307445734561825861 @ ''m'') = Inr d
      \<and> uint d = (307445734561825861 * unit_secs (CHR ''m'')) mod 2 ^ 64
      \<and> (uint d = 307445734561825861 * unit_secs (CHR ''m'')
           \<longleftrightarrow> 307445734561825861 * unit_secs (CHR ''m'') < 2 ^ 64))
   \<and> (307445734561825861 * unit_secs (CHR ''m'')) mod 2 ^ 64 = 44"
  using parse_interval_value [of 307445734561825861 "CHR ''m''"] by (simp add: unit_secs_def)

end
