(* ===== verification/FilterEngine.thy ===== *)
theory FilterEngine
  imports FilterLists ConfigSchema Metrics
begin

text \<open>
  The list filter engine (\<open>src/use_cases/filtering/mod.rs\<close>, \<open>ListFilterEngine\<close>) and the document
  cache it uses (\<open>src/frameworks/database/filter_cache_repo.rs\<close>).

  The engine's state is one record: the configured lists with their runtime flags (the shared
  \<open>AtomicBool\<close> of a \<open>ListRuntime\<close> is the field \<open>rt_disabled\<close>, since every clone of the engine shares it),
  the parsed domains of every list that was loaded, and the snapshot that queries are decided
  against. The network, the file system and the JSON library are arguments. The database table
  behind the cache repository is a map; the interface the engine relies on is the locale
  \<open>filter_cache_repository\<close>.
\<close>

subsection \<open>State\<close>

datatype filter_decision = DecAllow | DecBlock | DecNeutral

datatype list_kind = KindBlock | KindAllow

fun query_decision_from :: "filter_decision \<Rightarrow> query_decision" where
  "query_decision_from DecAllow = Allowed"
| "query_decision_from DecBlock = Blocked"
| "query_decision_from DecNeutral = Passthrough"

record list_runtime =
  rt_key :: string
  rt_name :: string
  rt_url :: string
  rt_interval :: u64
  rt_kind :: list_kind
  rt_format :: list_format
  rt_disabled :: bool

record list_domains =
  ld_kind :: list_kind
  ld_domains :: "string set"
  ld_exceptions :: "string set"

record filter_snapshot =
  snap_blocked :: "string set"
  snap_allowed :: "string set"

datatype cached_list_kind = CachedBlock | CachedAllow

record cached_list_document =
  cd_kind :: cached_list_kind
  cd_domains :: "string list"
  cd_exceptions :: "string list"

record filter_engine =
  eng_sinkhole_v4 :: ipv4_addr
  eng_sinkhole_v6 :: ipv6_addr
  eng_runtimes :: "list_runtime list"
  eng_lists :: "(string, list_domains) hash_map"
  eng_snapshot :: filter_snapshot

text \<open>The \<open>FilterCacheRepository\<close> trait object, over the state \<open>'r\<close> of the database.\<close>

record filter_cache_document =
  fd_key :: string
  fd_value :: string

record 'r cache_repo =
  repo_load :: "'r \<Rightarrow> string \<Rightarrow> string + filter_cache_document option"
  repo_store :: "filter_cache_document \<Rightarrow> 'r \<Rightarrow> (string + unit) \<times> 'r"

text \<open>
  \<open>SqlxFilterCacheRepository\<close>: the table \<open>filter_cache_documents\<close> with its primary key, and whether
  the pool can reach the database.
\<close>

record cache_db =
  db_up :: bool
  filter_cache_documents :: "(string, string) hash_map"

definition sqlx_cache_load :: "cache_db \<Rightarrow> string \<Rightarrow> string + filter_cache_document option" where
  "sqlx_cache_load db key =
     (if \<not> db_up db then Inl ''failed to load filter cache document''
      else Inr (map_option (\<lambda>v. \<lparr>fd_key = key, fd_value = v\<rparr>)
                  (map_of (filter_cache_documents db) key)))"

definition sqlx_cache_store :: "filter_cache_document \<Rightarrow> cache_db \<Rightarrow> (string + unit) \<times> cache_db" where
  "sqlx_cache_store doc db =
     (if \<not> db_up db
      then (Inl (''failed to upsert filter cache document '' @ [CHR 0x27] @ fd_key doc @ [CHR 0x27]), db)
      else (Inr (), db\<lparr>filter_cache_documents :=
              hm_insert (fd_key doc) (fd_value doc) (filter_cache_documents db)\<rparr>))"

definition sqlx_cache_repo :: "cache_db cache_repo" where
  "sqlx_cache_repo = \<lparr>repo_load = sqlx_cache_load, repo_store = sqlx_cache_store\<rparr>"

text \<open>\<open>serde_json\<close> on cached documents.\<close>

record doc_codec =
  doc_to_json :: "cached_list_document \<Rightarrow> string + string"
  doc_from_json :: "string \<Rightarrow> string + cached_list_document"

fun cached_kind :: "list_kind \<Rightarrow> cached_list_kind" where
  "cached_kind KindBlock = CachedBlock"
| "cached_kind KindAllow = CachedAllow"

subsection \<open>Construction from the configuration\<close>

datatype engine_error =
    BadSinkholeV4 string
  | BadSinkholeV6 string
  | BadInterval string interval_error
  | BadListType string string

definition parse_sinkhole_addrs :: "dns_filter_config \<Rightarrow> engine_error + ipv4_addr \<times> ipv6_addr" where
  "parse_sinkhole_addrs config =
     (let t4 = (case Option.bind (cfg_filtering config) fc_sinkhole_ipv4 of
                  None \<Rightarrow> ''0.0.0.0'' | Some s \<Rightarrow> s);
          t6 = (case Option.bind (cfg_filtering config) fc_sinkhole_ipv6 of
                  None \<Rightarrow> ''::'' | Some s \<Rightarrow> s)
      in res_bind (ok_or (BadSinkholeV4 t4) (parse_ipv4 t4)) (\<lambda>v4.
         res_bind (ok_or (BadSinkholeV6 t6) (parse_ipv6 t6)) (\<lambda>v6. Inr (v4, v6))))"

definition default_list_interval_secs :: u64 where
  "default_list_interval_secs = 12 * 60 * 60"

fun kind_prefix :: "list_kind \<Rightarrow> string" where
  "kind_prefix KindBlock = ''block:''"
| "kind_prefix KindAllow = ''allow:''"

definition build_runtime :: "list_kind \<Rightarrow> named_list \<Rightarrow> engine_error + list_runtime" where
  "build_runtime kind l =
     res_bind
       (case nl_interval l of
          Some v \<Rightarrow> map_err (BadInterval (nl_name l)) (parse_interval v)
        | None \<Rightarrow> Inr default_list_interval_secs)
       (\<lambda>interval.
     res_bind (map_err (BadListType (nl_name l)) (list_format_from_option (nl_list_type l)))
       (\<lambda>format.
     Inr \<lparr>rt_key = kind_prefix kind @ nl_name l, rt_name = nl_name l, rt_url = nl_url l,
          rt_interval = interval, rt_kind = kind, rt_format = format, rt_disabled = False\<rparr>))"

definition build_runtimes :: "named_list list \<Rightarrow> list_kind \<Rightarrow> engine_error + list_runtime list" where
  "build_runtimes ls kind =
     res_map_list (build_runtime kind)
       (filter (\<lambda>l. case nl_enabled l of None \<Rightarrow> True | Some b \<Rightarrow> b) ls)"

subsection \<open>The snapshot\<close>

definition disabled_keys :: "list_runtime list \<Rightarrow> string set" where
  "disabled_keys rts = rt_key ` set (filter rt_disabled rts)"

fun add_list ::
  "string set \<Rightarrow> string \<times> list_domains \<Rightarrow> string set \<times> string set \<Rightarrow> string set \<times> string set" where
  "add_list disabled (key, l) (blocked, allowed) =
     (if key \<in> disabled then (blocked, allowed)
      else
        (let (blocked, allowed) =
           (case ld_kind l of
              KindBlock \<Rightarrow> (blocked \<union> ld_domains l, allowed)
            | KindAllow \<Rightarrow> (blocked, allowed \<union> ld_domains l))
         in (blocked, allowed \<union> ld_exceptions l)))"

definition compute_snapshot ::
  "string set \<Rightarrow> (string, list_domains) hash_map \<Rightarrow> filter_snapshot" where
  "compute_snapshot disabled lsts =
     (case fold (add_list disabled) lsts ({}, {}) of
        (blocked, allowed) \<Rightarrow> \<lparr>snap_blocked = blocked, snap_allowed = allowed\<rparr>)"

definition rebuild_snapshot :: "filter_engine \<Rightarrow> filter_engine" where
  "rebuild_snapshot e =
     e\<lparr>eng_snapshot := compute_snapshot (disabled_keys (eng_runtimes e)) (eng_lists e)\<rparr>"

subsection \<open>The document cache\<close>

datatype persist_error = SerializeFailed string | StoreFailed string

definition persist_list_document ::
  "doc_codec \<Rightarrow> 'r cache_repo option \<Rightarrow> list_runtime \<Rightarrow> string set \<Rightarrow> string set \<Rightarrow> 'r
   \<Rightarrow> (persist_error + unit) \<times> 'r" where
  "persist_list_document J repo rt domains exceptions r =
     (case repo of
        None \<Rightarrow> (Inr (), r)
      | Some R \<Rightarrow>
          (let doc = \<lparr>cd_kind = cached_kind (rt_kind rt),
                      cd_domains = sorted_list_of_set domains,
                      cd_exceptions = sorted_list_of_set exceptions\<rparr>
           in case doc_to_json J doc of
                Inl err \<Rightarrow> (Inl (SerializeFailed err), r)
              | Inr payload \<Rightarrow>
                  (case repo_store R \<lparr>fd_key = rt_key rt, fd_value = payload\<rparr> r of
                     (Inl err, r') \<Rightarrow> (Inl (StoreFailed err), r')
                   | (Inr _, r') \<Rightarrow> (Inr (), r'))))"

text \<open>One pass of the loop of \<open>try_restore_document_cache\<close>: the lists, the number restored, the metrics.\<close>

definition restore_one ::
  "doc_codec \<Rightarrow> 'r cache_repo \<Rightarrow> 'r \<Rightarrow> list_runtime
   \<Rightarrow> (string, list_domains) hash_map \<times> nat \<times> metrics_state option
   \<Rightarrow> (string, list_domains) hash_map \<times> nat \<times> metrics_state option" where
  "restore_one J R r rt = (\<lambda>(lsts, restored, ms).
     (case repo_load R r (rt_key rt) of
        Inl _ \<Rightarrow> (lsts, restored, record_cache_operation False ms)
      | Inr None \<Rightarrow> (lsts, restored, record_cache_operation False ms)
      | Inr (Some record) \<Rightarrow>
          (let ms = record_cache_operation True ms in
           case doc_from_json J (fd_value record) of
             Inl _ \<Rightarrow> (lsts, restored, ms)
           | Inr doc \<Rightarrow>
               if cached_kind (rt_kind rt) \<noteq> cd_kind doc then (lsts, restored, ms)
               else
                 (hm_insert (rt_key rt)
                    \<lparr>ld_kind = rt_kind rt, ld_domains = set (cd_domains doc),
                     ld_exceptions = set (cd_exceptions doc)\<rparr> lsts,
                  restored + 1, ms))))"

definition try_restore_document_cache ::
  "doc_codec \<Rightarrow> 'r cache_repo option \<Rightarrow> 'r \<Rightarrow> filter_engine \<times> metrics_state option
   \<Rightarrow> filter_engine \<times> metrics_state option" where
  "try_restore_document_cache J repo r = (\<lambda>(e, ms).
     (case repo of
        None \<Rightarrow> (e, ms)
      | Some R \<Rightarrow>
          (case fold (restore_one J R r) (eng_runtimes e) (eng_lists e, 0, ms) of
             (lsts, restored, ms') \<Rightarrow>
               if 0 < restored then (rebuild_snapshot (e\<lparr>eng_lists := lsts\<rparr>), ms')
               else (e\<lparr>eng_lists := lsts\<rparr>, ms'))))"

definition engine_new ::
  "ipv4_addr \<Rightarrow> ipv6_addr \<Rightarrow> list_runtime list \<Rightarrow> filter_engine" where
  "engine_new v4 v6 rts =
     \<lparr>eng_sinkhole_v4 = v4, eng_sinkhole_v6 = v6, eng_runtimes = rts, eng_lists = [],
      eng_snapshot = \<lparr>snap_blocked = {}, snap_allowed = {}\<rparr>\<rparr>"

definition from_config_with_cache ::
  "doc_codec \<Rightarrow> dns_filter_config \<Rightarrow> 'r cache_repo option \<Rightarrow> 'r \<Rightarrow> metrics_state option
   \<Rightarrow> engine_error + filter_engine \<times> metrics_state option" where
  "from_config_with_cache J config repo r ms =
     res_bind (parse_sinkhole_addrs config) (\<lambda>(v4, v6).
     res_bind (build_runtimes (cfg_blocklists config) KindBlock) (\<lambda>blocks.
     res_bind (build_runtimes (cfg_allowlists config) KindAllow) (\<lambda>allows.
     (let e = engine_new v4 v6 (blocks @ allows)
      in Inr (try_restore_document_cache J repo r (e, ms))))))"

subsection \<open>Refreshing a list\<close>

record list_io =
  http_get_text :: "string \<Rightarrow> string + string"
  read_to_string :: "string \<Rightarrow> string + string"

definition fetch_list_content :: "list_io \<Rightarrow> string \<Rightarrow> string + string" where
  "fetch_list_content io source =
     (if starts_with source ''http://'' \<or> starts_with source ''https://''
      then http_get_text io source
      else read_to_string io source)"

definition refresh_single_list ::
  "dns_lib \<Rightarrow> doc_codec \<Rightarrow> 'r cache_repo option \<Rightarrow> list_io \<Rightarrow> list_runtime
   \<Rightarrow> filter_engine \<times> 'r \<Rightarrow> filter_engine \<times> 'r" where
  "refresh_single_list L J repo io rt = (\<lambda>(e, r).
     (case fetch_list_content io (rt_url rt) of
        Inl _ \<Rightarrow> (e, r)
      | Inr content \<Rightarrow>
          (case parse_list_content L content (rt_format rt) of (domains, exceptions, _) \<Rightarrow>
             (let lsts = hm_insert (rt_key rt)
                    \<lparr>ld_kind = rt_kind rt, ld_domains = domains, ld_exceptions = exceptions\<rparr>
                    (eng_lists e);
                  e' = rebuild_snapshot (e\<lparr>eng_lists := lsts\<rparr>)
              in (e', snd (persist_list_document J repo rt domains exceptions r))))))"

subsection \<open>The DomainFilter implementation\<close>

definition decide :: "filter_engine \<Rightarrow> string \<Rightarrow> filter_decision" where
  "decide e domain =
     (let normalized = normalize_domain domain in
      if normalized = [] then DecNeutral
      else if matches_any (snap_allowed (eng_snapshot e)) normalized then DecAllow
      else if matches_any (snap_blocked (eng_snapshot e)) normalized then DecBlock
      else DecNeutral)"

definition blocked_by :: "filter_engine \<Rightarrow> string \<Rightarrow> string list" where
  "blocked_by e domain =
     (let normalized = normalize_domain domain in
      if normalized = [] then []
      else
        map rt_name (filter (\<lambda>rt.
          rt_kind rt = KindBlock \<and> rt_key rt \<notin> disabled_keys (eng_runtimes e)
          \<and> (case map_of (eng_lists e) (rt_key rt) of
               None \<Rightarrow> False
             | Some l \<Rightarrow> matches_any (ld_domains l) normalized))
          (eng_runtimes e)))"

record list_info =
  li_name :: string
  li_url :: string
  li_kind :: string
  li_list_type :: string
  li_enabled :: bool
  li_interval_secs :: u64
  li_domain_count :: nat
  li_exception_count :: nat

definition list_names :: "filter_engine \<Rightarrow> list_info list" where
  "list_names e =
     map (\<lambda>rt.
       (let (dc, ec) =
          (case map_of (eng_lists e) (rt_key rt) of
             None \<Rightarrow> (0, 0)
           | Some l \<Rightarrow> (card (ld_domains l), card (ld_exceptions l)))
        in \<lparr>li_name = rt_name rt, li_url = rt_url rt,
            li_kind = (case rt_kind rt of KindBlock \<Rightarrow> ''blocklist'' | KindAllow \<Rightarrow> ''allowlist''),
            li_list_type = list_format_as_str (rt_format rt), li_enabled = (\<not> rt_disabled rt),
            li_interval_secs = rt_interval rt, li_domain_count = dc, li_exception_count = ec\<rparr>))
       (eng_runtimes e)"

text \<open>\<open>iter().find(|rt| rt.name == name)\<close> and a store to the flag of the runtime found.\<close>

fun set_first_disabled :: "string \<Rightarrow> bool \<Rightarrow> list_runtime list \<Rightarrow> list_runtime list option" where
  "set_first_disabled name b [] = None"
| "set_first_disabled name b (rt # rts) =
     (if rt_name rt = name then Some (rt\<lparr>rt_disabled := b\<rparr> # rts)
      else map_option ((#) rt) (set_first_disabled name b rts))"

definition set_list_disabled :: "bool \<Rightarrow> string \<Rightarrow> filter_engine \<Rightarrow> bool \<times> filter_engine" where
  "set_list_disabled b name e =
     (case set_first_disabled name b (eng_runtimes e) of
        None \<Rightarrow> (False, e)
      | Some rts \<Rightarrow> (True, rebuild_snapshot (e\<lparr>eng_runtimes := rts\<rparr>)))"

definition disable_list :: "string \<Rightarrow> filter_engine \<Rightarrow> bool \<times> filter_engine" where
  "disable_list name e = set_list_disabled True name e"

definition enable_list :: "string \<Rightarrow> filter_engine \<Rightarrow> bool \<times> filter_engine" where
  "enable_list name e = set_list_disabled False name e"

text \<open>
  \<open>refresh_list\<close> and \<open>refresh_all_lists\<close> spawn the refreshes: they return at once with the runtimes
  whose refresh tasks were started.
\<close>

definition refresh_list :: "string \<Rightarrow> filter_engine \<Rightarrow> bool \<times> list_runtime list" where
  "refresh_list name e =
     (case find (\<lambda>rt. rt_name rt = name) (eng_runtimes e) of
        None \<Rightarrow> (False, [])
      | Some rt \<Rightarrow> (True, [rt]))"

definition refresh_all_lists :: "filter_engine \<Rightarrow> string list \<times> list_runtime list" where
  "refresh_all_lists e = (map rt_name (eng_runtimes e), eng_runtimes e)"

subsection \<open>What a snapshot contains\<close>

lemma fold_add_list:
  "fold (add_list D) lsts (b, a) =
     (b \<union> (\<Union>(k, l)\<in>{p \<in> set lsts. fst p \<notin> D \<and> ld_kind (snd p) = KindBlock}. ld_domains l),
      a \<union> (\<Union>(k, l)\<in>{p \<in> set lsts. fst p \<notin> D \<and> ld_kind (snd p) = KindAllow}. ld_domains l)
        \<union> (\<Union>(k, l)\<in>{p \<in> set lsts. fst p \<notin> D}. ld_exceptions l))"
proof (induction lsts arbitrary: b a)
  case (Cons p lsts)
  obtain k l where p: "p = (k, l)" by fastforce
  have *: "(\<Union>(k, l)\<in>{q \<in> set (p # lsts). Q q}. f l) =
      (if Q p then f l else {}) \<union> (\<Union>(k, l)\<in>{q \<in> set lsts. Q q}. f l)" for Q and f :: "list_domains \<Rightarrow> string set"
    by (auto simp: p split: if_splits)
  show ?case
    unfolding * by (cases "k \<in> D"; cases "ld_kind l") (simp_all add: p Cons.IH Un_ac)
qed simp

text \<open>The lists that take part in decisions, and what they say about a normalised name.\<close>

definition active_lists :: "string set \<Rightarrow> (string, list_domains) hash_map \<Rightarrow> list_domains set" where
  "active_lists D lsts = snd ` {p \<in> set lsts. fst p \<notin> D}"

definition allow_hit :: "list_domains set \<Rightarrow> string \<Rightarrow> bool" where
  "allow_hit S n \<longleftrightarrow>
     (\<exists>l\<in>S. (\<exists>d\<in>ld_exceptions l. covers d n) \<or> (ld_kind l = KindAllow \<and> (\<exists>d\<in>ld_domains l. covers d n)))"

definition block_hit :: "list_domains set \<Rightarrow> string \<Rightarrow> bool" where
  "block_hit S n \<longleftrightarrow> (\<exists>l\<in>S. ld_kind l = KindBlock \<and> (\<exists>d\<in>ld_domains l. covers d n))"

definition verdict :: "list_domains set \<Rightarrow> string \<Rightarrow> filter_decision" where
  "verdict S domain =
     (let n = normalize_domain domain in
      if n = [] then DecNeutral
      else if allow_hit S n then DecAllow
      else if block_hit S n then DecBlock
      else DecNeutral)"

lemma snapshot_blocked_iff:
  "matches_any (snap_blocked (compute_snapshot D lsts)) n \<longleftrightarrow> block_hit (active_lists D lsts) n"
  unfolding compute_snapshot_def fold_add_list prod.case filter_snapshot.simps matches_any_covers
    block_hit_def active_lists_def
  by fastforce

lemma snapshot_allowed_iff:
  "matches_any (snap_allowed (compute_snapshot D lsts)) n \<longleftrightarrow> allow_hit (active_lists D lsts) n"
proof -
  have "matches_any (snap_allowed (compute_snapshot D lsts)) n \<longleftrightarrow>
    (\<exists>p\<in>set lsts. fst p \<notin> D \<and> ld_kind (snd p) = KindAllow \<and> (\<exists>d\<in>ld_domains (snd p). covers d n))
    \<or> (\<exists>p\<in>set lsts. fst p \<notin> D \<and> (\<exists>d\<in>ld_exceptions (snd p). covers d n))"
    by (simp add: compute_snapshot_def fold_add_list matches_any_covers Bex_def case_prod_beta)
      fastforce
  also have "\<dots> \<longleftrightarrow> allow_hit (active_lists D lsts) n"
    unfolding allow_hit_def active_lists_def by blast
  finally show ?thesis .
qed

lemma decide_verdict:
  assumes "eng_snapshot e = compute_snapshot D (eng_lists e)"
  shows "decide e domain = verdict (active_lists D (eng_lists e)) domain"
  by (simp add: decide_def verdict_def Let_def assms snapshot_blocked_iff snapshot_allowed_iff)

subsection \<open>The engine invariant\<close>

definition lists_inv :: "list_runtime list \<Rightarrow> (string, list_domains) hash_map \<Rightarrow> bool" where
  "lists_inv rts lsts \<longleftrightarrow>
     distinct (map fst lsts)
     \<and> (\<forall>p\<in>set lsts. \<exists>rt\<in>set rts. rt_key rt = fst p \<and> rt_kind rt = ld_kind (snd p))"

definition runtimes_inv :: "list_runtime list \<Rightarrow> bool" where
  "runtimes_inv rts \<longleftrightarrow> (\<forall>rt\<in>set rts. rt_key rt = kind_prefix (rt_kind rt) @ rt_name rt)"

definition engine_inv :: "filter_engine \<Rightarrow> bool" where
  "engine_inv e \<longleftrightarrow>
     runtimes_inv (eng_runtimes e) \<and> lists_inv (eng_runtimes e) (eng_lists e)
     \<and> eng_snapshot e = compute_snapshot (disabled_keys (eng_runtimes e)) (eng_lists e)"

lemma kind_prefix_inj: "kind_prefix k @ n = kind_prefix k' @ n' \<longleftrightarrow> k = k' \<and> n = n'"
  by (cases k; cases k') auto

lemma runtime_key_inj:
  assumes "runtimes_inv rts" and "rt \<in> set rts" and "rt' \<in> set rts" and "rt_key rt = rt_key rt'"
  shows "rt_kind rt = rt_kind rt' \<and> rt_name rt = rt_name rt'"
  using assms by (auto simp: runtimes_inv_def kind_prefix_inj)

lemma lists_inv_insert:
  assumes "lists_inv rts lsts" and "rt \<in> set rts" and "ld_kind l = rt_kind rt"
  shows "lists_inv rts (hm_insert (rt_key rt) l lsts)"
  using assms by (auto simp: lists_inv_def set_hm_insert)

lemma rebuild_snapshot_inv [inv_intros]:
  "runtimes_inv (eng_runtimes e) \<Longrightarrow> lists_inv (eng_runtimes e) (eng_lists e) \<Longrightarrow>
   engine_inv (rebuild_snapshot e)"
  by (simp add: engine_inv_def rebuild_snapshot_def)

lemma build_runtimes_inv:
  assumes "build_runtimes ls kind = Inr rts"
  shows "runtimes_inv rts \<and> (\<forall>rt\<in>set rts. rt_kind rt = kind \<and> \<not> rt_disabled rt)"
proof -
  have "rt_key rt = kind_prefix kind @ rt_name rt \<and> rt_kind rt = kind \<and> \<not> rt_disabled rt"
    if "rt \<in> set rts" for rt
  proof -
    from assms that obtain l where "build_runtime kind l = Inr rt"
      unfolding build_runtimes_def by (rule res_map_list_Inr_set)
    then show ?thesis by (auto simp: build_runtime_def)
  qed
  then show ?thesis by (auto simp: runtimes_inv_def)
qed

lemma fold_restore_inv:
  assumes "set rts \<subseteq> set all"
    and "lists_inv all lsts"
    and "fold (restore_one J R r) rts (lsts, n, ms) = (lsts', n', ms')"
  shows "lists_inv all lsts' \<and> n \<le> n' \<and> (n' = n \<longrightarrow> lsts' = lsts)"
  using assms
proof (induction rts arbitrary: lsts n ms)
  case (Cons rt rts)
  obtain lsts1 n1 ms1 where one: "restore_one J R r rt (lsts, n, ms) = (lsts1, n1, ms1)"
    using prod_cases3 by blast
  have "lists_inv all lsts1 \<and> n \<le> n1 \<and> (n1 = n \<longrightarrow> lsts1 = lsts)"
    using one Cons.prems(1,2)
    by (auto simp: restore_one_def Let_def split: sum.splits option.splits if_splits
        intro!: lists_inv_insert)
  with Cons.IH [of lsts1 n1 ms1] Cons.prems one show ?case by auto
qed simp

lemma try_restore_inv [inv_intros]:
  assumes "engine_inv e" and "try_restore_document_cache J repo r (e, ms) = (e', ms')"
  shows "engine_inv e' \<and> eng_runtimes e' = eng_runtimes e"
proof (cases repo)
  case None
  with assms show ?thesis by (simp add: try_restore_document_cache_def)
next
  case (Some R)
  obtain lsts n ms1
    where f: "fold (restore_one J R r) (eng_runtimes e) (eng_lists e, 0, ms) = (lsts, n, ms1)"
    using prod_cases3 by blast
  have inv: "lists_inv (eng_runtimes e) lsts" and same: "n = 0 \<longrightarrow> lsts = eng_lists e"
    using fold_restore_inv [OF subset_refl _ f] assms(1) by (auto simp: engine_inv_def)
  show ?thesis
    using assms inv same f Some
    by (auto simp: try_restore_document_cache_def engine_inv_def rebuild_snapshot_def split: if_splits)
qed

lemma set_first_disabled_Some:
  "set_first_disabled name b rts = Some rts' \<Longrightarrow>
   \<exists>pre rt post. rts = pre @ rt # post \<and> rts' = pre @ rt\<lparr>rt_disabled := b\<rparr> # post
     \<and> rt_name rt = name \<and> (\<forall>x\<in>set pre. rt_name x \<noteq> name)"
proof (induction rts arbitrary: rts')
  case (Cons x rts)
  show ?case
  proof (cases "rt_name x = name")
    case True
    with Cons.prems have "x # rts = [] @ x # rts" "rts' = [] @ x\<lparr>rt_disabled := b\<rparr> # rts" by auto
    with True show ?thesis by (metis empty_iff list.set(1))
  next
    case False
    with Cons.prems obtain ys where ys: "set_first_disabled name b rts = Some ys" "rts' = x # ys"
      by auto
    with Cons.IH obtain pre rt post where "rts = pre @ rt # post" "ys = pre @ rt\<lparr>rt_disabled := b\<rparr> # post"
      "rt_name rt = name" "\<forall>x\<in>set pre. rt_name x \<noteq> name" by blast
    with False ys have "x # rts = (x # pre) @ rt # post" "rts' = (x # pre) @ rt\<lparr>rt_disabled := b\<rparr> # post"
      "rt_name rt = name" "\<forall>y\<in>set (x # pre). rt_name y \<noteq> name" by auto
    then show ?thesis by blast
  qed
qed simp

lemma set_first_disabled_None:
  "set_first_disabled name b rts = None \<longleftrightarrow> name \<notin> rt_name ` set rts"
  by (induction rts) auto

lemma set_first_disabled_append:
  "\<forall>x\<in>set pre. rt_name x \<noteq> name \<Longrightarrow>
   set_first_disabled name b (pre @ rts) = map_option ((@) pre) (set_first_disabled name b rts)"
  by (induction pre) (cases "set_first_disabled name b rts"; auto)+

lemma set_first_disabled_inv:
  assumes "set_first_disabled name b rts = Some rts'"
  shows "(runtimes_inv rts \<longrightarrow> runtimes_inv rts') \<and> (lists_inv rts lsts \<longrightarrow> lists_inv rts' lsts)"
proof -
  obtain pre rt post where "rts = pre @ rt # post" "rts' = pre @ rt\<lparr>rt_disabled := b\<rparr> # post"
    using set_first_disabled_Some [OF assms] by blast
  then show ?thesis unfolding runtimes_inv_def lists_inv_def by fastforce
qed

lemma set_list_disabled_inv [inv_intros]:
  assumes "engine_inv e"
  shows "engine_inv (snd (set_list_disabled b name e))"
  using assms
  by (auto simp: set_list_disabled_def engine_inv_def rebuild_snapshot_def
      split: option.splits dest!: set_first_disabled_inv)

lemma refresh_single_list_inv [inv_intros]:
  assumes "engine_inv e" and "rt \<in> set (eng_runtimes e)"
  shows "engine_inv (fst (refresh_single_list L J repo io rt (e, r)))
    \<and> eng_runtimes (fst (refresh_single_list L J repo io rt (e, r))) = eng_runtimes e"
  using assms
  by (auto simp: refresh_single_list_def rebuild_snapshot_def engine_inv_def Let_def
      split: sum.splits prod.splits intro!: lists_inv_insert)

lemma from_config_inv [inv_intros]:
  assumes "from_config_with_cache J config repo r ms = Inr (e, ms')"
  shows "engine_inv e"
proof -
  from assms obtain v4 v6 bs as where b: "build_runtimes (cfg_blocklists config) KindBlock = Inr bs"
    and a: "build_runtimes (cfg_allowlists config) KindAllow = Inr as"
    and e: "try_restore_document_cache J repo r (engine_new v4 v6 (bs @ as), ms) = (e, ms')"
    by (auto simp: from_config_with_cache_def)
  have "disabled_keys (bs @ as) = {}"
    using build_runtimes_inv [OF b] build_runtimes_inv [OF a] by (auto simp: disabled_keys_def)
  then have "engine_inv (engine_new v4 v6 (bs @ as))"
    using build_runtimes_inv [OF b] build_runtimes_inv [OF a]
    by (auto simp: engine_inv_def engine_new_def runtimes_inv_def lists_inv_def compute_snapshot_def)
  then show ?thesis using try_restore_inv [OF _ e] by simp
qed

subsection \<open>Engines reached by operations in sequence\<close>

text \<open>
  The engines, with the database they use, that are built from a configuration and then changed by
  refreshes of lists (with any outcome of the fetch) and by the administrative operations, each of
  which has finished before the next begins; the database may change at any time. Operations that
  overlap are the subject of \<open>FilterConcurrency\<close>.
\<close>

inductive sequential_engine ::
  "dns_lib \<Rightarrow> doc_codec \<Rightarrow> 'r cache_repo option \<Rightarrow> filter_engine \<times> 'r \<Rightarrow> bool"
  for L J repo where
  start: "from_config_with_cache J config repo r ms = Inr (e, ms') \<Longrightarrow> sequential_engine L J repo (e, r)"
| refresh: "sequential_engine L J repo (e, r) \<Longrightarrow> rt \<in> set (eng_runtimes e) \<Longrightarrow>
    sequential_engine L J repo (refresh_single_list L J repo io rt (e, r))"
| disable: "sequential_engine L J repo (e, r) \<Longrightarrow>
    sequential_engine L J repo (snd (disable_list name e), r)"
| enable: "sequential_engine L J repo (e, r) \<Longrightarrow>
    sequential_engine L J repo (snd (enable_list name e), r)"
| database: "sequential_engine L J repo (e, r) \<Longrightarrow> sequential_engine L J repo (e, r')"

lemma sequential_engine_inv: "sequential_engine L J repo s \<Longrightarrow> engine_inv (fst s)"
proof (induction rule: sequential_engine.induct)
  case (refresh e r rt io)
  then show ?case using refresh_single_list_inv [of e rt L J repo io r] by simp
qed (auto simp: disable_list_def enable_list_def intro: inv_intros from_config_inv)

abbreviation active :: "filter_engine \<Rightarrow> list_domains set" where
  "active e \<equiv> active_lists (disabled_keys (eng_runtimes e)) (eng_lists e)"

lemma inv_decide: "engine_inv e \<Longrightarrow> decide e domain = verdict (active e) domain"
  by (rule decide_verdict) (simp add: engine_inv_def)

lemma blocked_by_iff:
  assumes inv: "engine_inv e" and n: "normalize_domain domain \<noteq> []"
  shows "blocked_by e domain \<noteq> [] \<longleftrightarrow> block_hit (active e) (normalize_domain domain)"
proof
  assume "blocked_by e domain \<noteq> []"
  then obtain rt where rt: "rt \<in> set (eng_runtimes e)" "rt_kind rt = KindBlock"
    "rt_key rt \<notin> disabled_keys (eng_runtimes e)"
    and "case map_of (eng_lists e) (rt_key rt) of None \<Rightarrow> False
         | Some l \<Rightarrow> matches_any (ld_domains l) (normalize_domain domain)"
    using n by (auto simp: blocked_by_def filter_empty_conv Let_def)
  then obtain l where l: "(rt_key rt, l) \<in> set (eng_lists e)"
    "matches_any (ld_domains l) (normalize_domain domain)"
    by (auto split: option.splits dest: map_of_SomeD)
  moreover obtain rt' where "rt' \<in> set (eng_runtimes e)" "rt_key rt' = rt_key rt"
    "rt_kind rt' = ld_kind l"
    using inv l(1) by (fastforce simp: engine_inv_def lists_inv_def)
  ultimately have "ld_kind l = KindBlock"
    using inv rt runtime_key_inj by (metis engine_inv_def)
  with l rt show "block_hit (active e) (normalize_domain domain)"
    by (force simp: block_hit_def active_lists_def matches_any_covers)
next
  assume "block_hit (active e) (normalize_domain domain)"
  then obtain k l where l: "(k, l) \<in> set (eng_lists e)" "k \<notin> disabled_keys (eng_runtimes e)"
    "ld_kind l = KindBlock" "matches_any (ld_domains l) (normalize_domain domain)"
    by (auto simp: block_hit_def active_lists_def matches_any_covers)
  obtain rt where "rt \<in> set (eng_runtimes e)" "rt_key rt = k" "rt_kind rt = KindBlock"
    using inv l by (fastforce simp: engine_inv_def lists_inv_def)
  moreover have "map_of (eng_lists e) k = Some l"
    using inv l(1) by (auto simp: engine_inv_def lists_inv_def)
  ultimately show "blocked_by e domain \<noteq> []"
    using l n by (force simp: blocked_by_def filter_empty_conv Let_def)
qed

lemma set_list_disabled_active:
  assumes "set_first_disabled name b (eng_runtimes e) = Some rts"
    and "set_list_disabled b name e = (True, e')"
  shows "eng_runtimes e' = rts \<and> eng_lists e' = eng_lists e"
  using assms by (auto simp: set_list_disabled_def rebuild_snapshot_def)

lemma set_first_disabled_undo:
  assumes "set_first_disabled name True rts = Some rts'"
    and "\<forall>rt\<in>set rts. rt_name rt = name \<longrightarrow> \<not> rt_disabled rt"
  shows "set_first_disabled name False rts' = Some rts"
proof -
  obtain pre rt post where s: "rts = pre @ rt # post" "rts' = pre @ rt\<lparr>rt_disabled := True\<rparr> # post"
    "rt_name rt = name" "\<forall>x\<in>set pre. rt_name x \<noteq> name"
    using set_first_disabled_Some [OF assms(1)] by blast
  have "\<not> rt_disabled rt" using s assms(2) by simp
  then have "rt\<lparr>rt_disabled := False\<rparr> = rt" by simp
  with s show ?thesis by (simp add: set_first_disabled_append)
qed

subsection \<open>The cache repository as an interface\<close>

locale filter_cache_repository =
  fixes R :: "'r cache_repo" and up :: "'r \<Rightarrow> bool"
  assumes store_up: "up r \<Longrightarrow> fst (repo_store R doc r) = Inr ()"
    and load_stored: "repo_store R doc r = (Inr (), r') \<Longrightarrow> repo_load R r' (fd_key doc) = Inr (Some doc)"
    and load_other: "repo_store R doc r = (Inr (), r') \<Longrightarrow> key \<noteq> fd_key doc \<Longrightarrow>
      repo_load R r' key = repo_load R r key"
    and store_failed: "repo_store R doc r = (Inl err, r') \<Longrightarrow> r' = r"
begin

lemma persist_then_load:
  assumes "up r" and "doc_to_json J \<lparr>cd_kind = cached_kind (rt_kind rt),
      cd_domains = sorted_list_of_set B, cd_exceptions = sorted_list_of_set E\<rparr> = Inr payload"
    and "persist_list_document J (Some R) rt B E r = (res, r')"
  shows "res = Inr () \<and> repo_load R r' (rt_key rt) = Inr (Some \<lparr>fd_key = rt_key rt, fd_value = payload\<rparr>)"
proof -
  obtain r1 where "repo_store R \<lparr>fd_key = rt_key rt, fd_value = payload\<rparr> r = (Inr (), r1)"
    using store_up [OF assms(1)] by (metis prod.collapse)
  then show ?thesis
    using assms(2,3) load_stored by (force simp: persist_list_document_def)
qed

lemma persist_keeps_other:
  assumes "persist_list_document J (Some R) rt B E r = (res, r')" and "key \<noteq> rt_key rt"
  shows "repo_load R r' key = repo_load R r key"
  using assms load_other store_failed
  by (fastforce simp: persist_list_document_def Let_def split: sum.splits prod.splits)

lemma fold_restore_other:
  assumes "fold (restore_one J R r) rts (lsts, n, ms) = (lsts', n', ms')"
    and "k \<notin> rt_key ` set rts"
  shows "map_of lsts' k = map_of lsts k"
  using assms
proof (induction rts arbitrary: lsts n ms)
  case (Cons rt rts)
  obtain lsts1 n1 ms1 where one: "restore_one J R r rt (lsts, n, ms) = (lsts1, n1, ms1)"
    using prod_cases3 by blast
  have "map_of lsts1 k = map_of lsts k"
    using one Cons.prems(2)
    by (auto simp: restore_one_def Let_def split: sum.splits option.splits if_splits)
  with Cons one show ?case by auto
qed simp

lemma fold_restore_loaded:
  assumes "fold (restore_one J R r) rts (lsts, n, ms) = (lsts', n', ms')"
    and "k \<in> rt_key ` set rts" and "\<forall>rt\<in>set rts. rt_key rt = k \<longrightarrow> rt_kind rt = kd"
    and "repo_load R r k = Inr (Some doc)" and "doc_from_json J (fd_value doc) = Inr d"
    and "cached_kind kd = cd_kind d"
  shows "map_of lsts' k = Some \<lparr>ld_kind = kd, ld_domains = set (cd_domains d),
    ld_exceptions = set (cd_exceptions d)\<rparr>"
  using assms(1-3)
proof (induction rts arbitrary: lsts n ms)
  case (Cons x rts)
  obtain lsts1 n1 ms1 where one: "restore_one J R r x (lsts, n, ms) = (lsts1, n1, ms1)"
    using prod_cases3 by blast
  with Cons.prems have rest: "fold (restore_one J R r) rts (lsts1, n1, ms1) = (lsts', n', ms')" by simp
  show ?case
  proof (cases "k \<in> rt_key ` set rts")
    case True
    with Cons.IH [OF rest] Cons.prems show ?thesis by simp
  next
    case False
    with Cons.prems have "rt_key x = k" and "rt_kind x = kd" by auto
    then have "map_of lsts1 k = Some \<lparr>ld_kind = kd, ld_domains = set (cd_domains d),
        ld_exceptions = set (cd_exceptions d)\<rparr>"
      using one assms(4-6) by (auto simp: restore_one_def Let_def)
    then show ?thesis using fold_restore_other [OF rest] False by auto
  qed
qed simp

lemma restart_loads:
  assumes "from_config_with_cache J config (Some R) r ms = Inr (e, ms')"
    and "rt \<in> set (eng_runtimes e)"
    and "repo_load R r (rt_key rt) = Inr (Some doc)" and "doc_from_json J (fd_value doc) = Inr d"
    and "cached_kind (rt_kind rt) = cd_kind d"
  shows "map_of (eng_lists e) (rt_key rt) = Some \<lparr>ld_kind = rt_kind rt,
    ld_domains = set (cd_domains d), ld_exceptions = set (cd_exceptions d)\<rparr>"
proof -
  have inv: "engine_inv e" by (rule from_config_inv [OF assms(1)])
  obtain v4 v6 rts where e: "try_restore_document_cache J (Some R) r (engine_new v4 v6 rts, ms) = (e, ms')"
    using assms(1) by (auto simp: from_config_with_cache_def)
  obtain lsts n ms1 where f: "fold (restore_one J R r) rts ([], 0, ms) = (lsts, n, ms1)"
    using prod_cases3 by blast
  with e have "eng_lists e = lsts" and rts: "eng_runtimes e = rts"
    by (auto simp: try_restore_document_cache_def engine_new_def rebuild_snapshot_def split: if_splits)
  moreover have "\<forall>x\<in>set rts. rt_key x = rt_key rt \<longrightarrow> rt_kind x = rt_kind rt"
    using inv runtime_key_inj [OF _ _ assms(2)] rts by (auto simp: engine_inv_def)
  moreover have "rt_key rt \<in> rt_key ` set rts" using assms(2) rts by simp
  ultimately show ?thesis using fold_restore_loaded [OF f _ _ assms(3-5)] by blast
qed

lemma refresh_then_restart:
  assumes up: "up r"
    and json: "\<forall>d s. doc_to_json J d = Inr s \<longrightarrow> doc_from_json J s = Inr d"
    and ser: "doc_to_json J \<lparr>cd_kind = cached_kind (rt_kind rt), cd_domains = sorted_list_of_set B,
        cd_exceptions = sorted_list_of_set E\<rparr> = Inr payload"
    and fetch: "fetch_list_content io (rt_url rt) = Inr content"
    and parse: "parse_list_content L content (rt_format rt) = (B, E, skipped)"
    and refresh: "refresh_single_list L J (Some R) io rt (e, r) = (e', r')"
    and restart: "from_config_with_cache J config (Some R) r' ms = Inr (e2, ms2)"
    and rt2: "rt2 \<in> set (eng_runtimes e2)" "rt_key rt2 = rt_key rt" "rt_kind rt2 = rt_kind rt"
  shows "map_of (eng_lists e2) (rt_key rt) = map_of (eng_lists e') (rt_key rt)"
proof -
  obtain res where p: "persist_list_document J (Some R) rt B E r = (res, r')"
    using refresh fetch parse by (auto simp: refresh_single_list_def Let_def prod_eq_iff)
  have fin: "finite B" "finite E" using parse_list_content_finite [OF parse] by auto
  have load: "repo_load R r' (rt_key rt2) = Inr (Some \<lparr>fd_key = rt_key rt, fd_value = payload\<rparr>)"
    using persist_then_load [OF up ser p] rt2 by simp
  have json': "doc_from_json J (fd_value \<lparr>fd_key = rt_key rt, fd_value = payload\<rparr>) =
      Inr \<lparr>cd_kind = cached_kind (rt_kind rt), cd_domains = sorted_list_of_set B,
        cd_exceptions = sorted_list_of_set E\<rparr>"
    using json ser by simp
  have "map_of (eng_lists e2) (rt_key rt) =
      Some \<lparr>ld_kind = rt_kind rt, ld_domains = B, ld_exceptions = E\<rparr>"
    using restart_loads [OF restart rt2(1) load json'] rt2 fin by simp
  then show ?thesis
    using refresh fetch parse by (auto simp: refresh_single_list_def rebuild_snapshot_def Let_def)
qed

end

interpretation sqlx_cache: filter_cache_repository sqlx_cache_repo db_up
  by unfold_locales
    (auto simp: sqlx_cache_repo_def sqlx_cache_store_def sqlx_cache_load_def split: if_splits)

subsection \<open>Properties\<close>

text \<open>A configuration with one list of each kind, and sources that can be fetched.\<close>

definition example_config :: dns_filter_config where
  "example_config = empty_config\<lparr>
     cfg_blocklists := [\<lparr>nl_name = ''ads'', nl_url = ''ads.txt'', nl_interval = Some ''1h'',
                         nl_enabled = None, nl_list_type = Some ''domains''\<rparr>],
     cfg_allowlists := [\<lparr>nl_name = ''ok'', nl_url = ''ok.txt'', nl_interval = None,
                         nl_enabled = None, nl_list_type = Some ''domains''\<rparr>]\<rparr>"

definition example_io :: list_io where
  "example_io =
     \<lparr>http_get_text = (\<lambda>_. Inl ''offline''),
      read_to_string = (\<lambda>f. if f = ''ads.txt'' then Inr ''ads.example''
                            else if f = ''ok.txt'' then Inr ''cdn.ads.example'' else Inl ''no file'')\<rparr>"

definition example_doc :: cached_list_document where
  "example_doc = \<lparr>cd_kind = CachedBlock, cd_domains = [''ads.example''], cd_exceptions = []\<rparr>"

definition example_codec :: doc_codec where
  "example_codec =
     \<lparr>doc_to_json = (\<lambda>d. if d = example_doc then Inr ''doc'' else Inl ''unsupported''),
      doc_from_json = (\<lambda>s. if s = ''doc'' then Inr example_doc else Inl ''malformed'')\<rparr>"

abbreviation example_lib :: dns_lib where
  "example_lib \<equiv> table_lib [] (\<lambda>_. True)"

abbreviation example_db :: cache_db where
  "example_db \<equiv> \<lparr>db_up = True, filter_cache_documents = []\<rparr>"

text \<open>The engine built from it, and the engine after both lists were refreshed.\<close>

definition example_runtimes :: "list_runtime list" where
  "example_runtimes =
     [\<lparr>rt_key = ''block:ads'', rt_name = ''ads'', rt_url = ''ads.txt'', rt_interval = 3600,
       rt_kind = KindBlock, rt_format = Domains, rt_disabled = False\<rparr>,
      \<lparr>rt_key = ''allow:ok'', rt_name = ''ok'', rt_url = ''ok.txt'', rt_interval = 43200,
       rt_kind = KindAllow, rt_format = Domains, rt_disabled = False\<rparr>]"

definition example_start :: filter_engine where
  "example_start = engine_new 0 0 example_runtimes"

definition example_engine :: "(string \<times> list_domains) list \<Rightarrow> string set \<Rightarrow> string set \<Rightarrow> filter_engine" where
  "example_engine lsts b a = example_start\<lparr>eng_lists := lsts, eng_snapshot := \<lparr>snap_blocked = b, snap_allowed = a\<rparr>\<rparr>"

definition example_ads_list :: "string \<times> list_domains" where
  "example_ads_list =
     (''block:ads'', \<lparr>ld_kind = KindBlock, ld_domains = {''ads.example''}, ld_exceptions = {}\<rparr>)"

definition example_ok_list :: "string \<times> list_domains" where
  "example_ok_list =
     (''allow:ok'', \<lparr>ld_kind = KindAllow, ld_domains = {''cdn.ads.example''}, ld_exceptions = {}\<rparr>)"

definition example_half :: "filter_engine \<times> cache_db" where
  "example_half = (example_engine [example_ads_list] {''ads.example''} {},
     \<lparr>db_up = True, filter_cache_documents = [(''block:ads'', ''doc'')]\<rparr>)"

definition example_loaded :: "filter_engine \<times> cache_db" where
  "example_loaded =
     (example_engine [example_ads_list, example_ok_list] {''ads.example''} {''cdn.ads.example''},
     \<lparr>db_up = True, filter_cache_documents = [(''block:ads'', ''doc'')]\<rparr>)"

definition refresh_nth :: "nat \<Rightarrow> filter_engine \<times> cache_db \<Rightarrow> filter_engine \<times> cache_db" where
  "refresh_nth i s = refresh_single_list example_lib example_codec (Some sqlx_cache_repo) example_io
     (eng_runtimes (fst s) ! i) s"

lemma example_start_from_config:
  "from_config_with_cache example_codec example_config (Some sqlx_cache_repo) example_db None
     = Inr (example_start, None)"
  by code_simp

lemma example_refresh_ads: "refresh_nth 0 (example_start, example_db) = example_half"
  by code_simp

lemma example_refresh_ok: "refresh_nth 1 example_half = example_loaded"
  by code_simp

lemma example_reachable:
  "sequential_engine example_lib example_codec (Some sqlx_cache_repo) example_loaded"
proof -
  let ?R = "sequential_engine example_lib example_codec (Some sqlx_cache_repo)"
  have step: "?R (refresh_nth i s)" if "?R s" "i < length (eng_runtimes (fst s))" for i s
    unfolding refresh_nth_def using that sequential_engine.refresh [of _ _ _ "fst s" "snd s"] by simp
  have two: "length (eng_runtimes example_start) = 2" "length (eng_runtimes (fst example_half)) = 2"
    by (simp_all add: example_half_def example_engine_def example_start_def engine_new_def
        example_runtimes_def)
  have "?R (example_start, example_db)"
    by (rule sequential_engine.start [OF example_start_from_config])
  from step [OF this, of 0] have "?R example_half" using two by (simp add: example_refresh_ads)
  from step [OF this, of 1] show ?thesis using two(2) unfolding example_refresh_ok by simp
qed

text \<open>
  C2. In every engine reached by refreshes and administrative operations that run one after another,
  a query is decided by the enabled lists alone: a name that an exception or an enabled allowlist
  covers is allowed, whatever the blocklists say; otherwise a name that an enabled blocklist covers is
  blocked; every other name, and a name that is empty after normalisation, is neutral. When a disable
  overlaps a refresh this can fail (\<open>FilterConcurrency.disable_can_be_lost\<close>).
\<close>

theorem decide_by_enabled_lists:
  assumes "sequential_engine L J repo (e, r)"
  shows "decide e domain =
    (let n = normalize_domain domain;
         S = {l. \<exists>k. (k, l) \<in> set (eng_lists e) \<and>
                (\<forall>rt\<in>set (eng_runtimes e). rt_key rt = k \<longrightarrow> \<not> rt_disabled rt)}
     in if n = [] then DecNeutral
        else if \<exists>l\<in>S. (\<exists>d\<in>ld_exceptions l. covers d n)
                  \<or> (ld_kind l = KindAllow \<and> (\<exists>d\<in>ld_domains l. covers d n)) then DecAllow
        else if \<exists>l\<in>S. ld_kind l = KindBlock \<and> (\<exists>d\<in>ld_domains l. covers d n) then DecBlock
        else DecNeutral)"
proof -
  have active: "active e = {l. \<exists>k. (k, l) \<in> set (eng_lists e) \<and>
      (\<forall>rt\<in>set (eng_runtimes e). rt_key rt = k \<longrightarrow> \<not> rt_disabled rt)}"
    by (force simp: active_lists_def disabled_keys_def)
  have "decide e domain = verdict (active e) domain"
    using inv_decide sequential_engine_inv [OF assms] by simp
  then show ?thesis unfolding active verdict_def allow_hit_def block_hit_def Let_def .
qed

theorem decide_by_enabled_lists_witness:
  "decide (fst example_loaded) ''www.Ads.example.'' = DecBlock
   \<and> decide (fst example_loaded) ''cdn.ads.example'' = DecAllow
   \<and> (\<exists>(k, l)\<in>set (eng_lists (fst example_loaded)).
        ld_kind l = KindBlock \<and> (\<exists>d\<in>ld_domains l. covers d ''www.ads.example''))"
proof -
  have b: "decide (fst example_loaded) ''www.Ads.example.'' = DecBlock" by code_simp
  have a: "decide (fst example_loaded) ''cdn.ads.example'' = DecAllow" by code_simp
  have n: "normalize_domain ''www.Ads.example.'' = ''www.ads.example''" by code_simp
  have r: "sequential_engine example_lib example_codec (Some sqlx_cache_repo)
      (fst example_loaded, snd example_loaded)" using example_reachable by simp
  from decide_by_enabled_lists [OF r, of "''www.Ads.example.''"] a b n show ?thesis
    by (fastforce simp: Let_def split: if_splits)
qed

text \<open>
  A blocked name is always explained: \<open>blocked_by\<close> is then not empty, and the names it returns
  are exactly those of the enabled blocklists whose domains cover the query.
\<close>

theorem blocked_by_explains:
  assumes "sequential_engine L J repo (e, r)" and "normalize_domain domain \<noteq> []"
  shows "(decide e domain = DecBlock \<longrightarrow> blocked_by e domain \<noteq> [])
    \<and> (blocked_by e domain \<noteq> [] \<longrightarrow> decide e domain \<in> {DecBlock, DecAllow})
    \<and> set (blocked_by e domain) =
        {rt_name rt | rt l. rt \<in> set (eng_runtimes e) \<and> rt_kind rt = KindBlock
           \<and> rt_key rt \<notin> disabled_keys (eng_runtimes e)
           \<and> map_of (eng_lists e) (rt_key rt) = Some l
           \<and> (\<exists>d\<in>ld_domains l. covers d (normalize_domain domain))}"
proof (intro conjI)
  note inv = sequential_engine_inv [OF assms(1), simplified]
  show "decide e domain = DecBlock \<longrightarrow> blocked_by e domain \<noteq> []"
    using inv_decide [OF inv] blocked_by_iff [OF inv assms(2)]
    by (simp add: verdict_def Let_def)
  show "blocked_by e domain \<noteq> [] \<longrightarrow> decide e domain \<in> {DecBlock, DecAllow}"
    using inv_decide [OF inv] blocked_by_iff [OF inv assms(2)] assms(2)
    by (simp add: verdict_def Let_def)
  show "set (blocked_by e domain) =
        {rt_name rt | rt l. rt \<in> set (eng_runtimes e) \<and> rt_kind rt = KindBlock
           \<and> rt_key rt \<notin> disabled_keys (eng_runtimes e)
           \<and> map_of (eng_lists e) (rt_key rt) = Some l
           \<and> (\<exists>d\<in>ld_domains l. covers d (normalize_domain domain))}"
    using assms(2) by (force simp: blocked_by_def Let_def matches_any_covers split: option.splits)
qed

theorem blocked_by_explains_witness:
  "blocked_by (fst example_loaded) ''www.ads.example'' = [''ads'']
   \<and> decide (fst example_loaded) ''www.ads.example'' \<in> {DecBlock, DecAllow}"
proof -
  have n: "normalize_domain ''www.ads.example'' \<noteq> []" by code_simp
  have b: "blocked_by (fst example_loaded) ''www.ads.example'' = [''ads'']" by code_simp
  have "sequential_engine example_lib example_codec (Some sqlx_cache_repo)
      (fst example_loaded, snd example_loaded)" using example_reachable by simp
  from blocked_by_explains [OF this n] b show ?thesis by simp
qed

text \<open>
  Disabling a list by name succeeds exactly when a list has that name. It takes the first list of
  that name out of every later decision and leaves the decisions of all other lists as they were;
  enabling it again gives back the very engine there was before.
\<close>

theorem disable_enable_list:
  assumes "sequential_engine L J repo (e, r)"
  shows "(fst (disable_list name e) \<longleftrightarrow> name \<in> rt_name ` set (eng_runtimes e))
    \<and> (\<not> fst (disable_list name e) \<longrightarrow> snd (disable_list name e) = e)
    \<and> (\<forall>rt domain. find (\<lambda>rt. rt_name rt = name) (eng_runtimes e) = Some rt \<longrightarrow>
         decide (snd (disable_list name e)) domain =
         verdict (active_lists (insert (rt_key rt) (disabled_keys (eng_runtimes e))) (eng_lists e)) domain)
    \<and> ((\<forall>rt\<in>set (eng_runtimes e). rt_name rt = name \<longrightarrow> \<not> rt_disabled rt) \<longrightarrow>
         snd (enable_list name (snd (disable_list name e))) = e)"
proof (cases "set_first_disabled name True (eng_runtimes e)")
  case None
  then have no: "name \<notin> rt_name ` set (eng_runtimes e)" by (simp add: set_first_disabled_None)
  then have "find (\<lambda>rt. rt_name rt = name) (eng_runtimes e) = None" by (auto simp: find_None)
  with None no show ?thesis
    by (simp add: disable_list_def enable_list_def set_list_disabled_def
        set_first_disabled_None [THEN iffD2])
next
  case (Some rts)
  have inv: "engine_inv e" using sequential_engine_inv [OF assms] by simp
  obtain pre rt post where s: "eng_runtimes e = pre @ rt # post"
    "rts = pre @ rt\<lparr>rt_disabled := True\<rparr> # post" "rt_name rt = name" "\<forall>x\<in>set pre. rt_name x \<noteq> name"
    using set_first_disabled_Some [OF Some] by blast
  let ?e = "rebuild_snapshot (e\<lparr>eng_runtimes := rts\<rparr>)"
  have d: "disable_list name e = (True, ?e)" by (simp add: disable_list_def set_list_disabled_def Some)
  have keys: "disabled_keys rts = insert (rt_key rt) (disabled_keys (eng_runtimes e))"
    by (auto simp: s disabled_keys_def)
  have first: "find (\<lambda>rt. rt_name rt = name) (eng_runtimes e) = Some rt"
  proof -
    have "find (\<lambda>x. rt_name x = name) pre = None" using s(4) by (simp add: find_None)
    with s(1,3) show ?thesis by (simp add: find_append)
  qed
  have "engine_inv ?e" using set_list_disabled_inv [OF inv, of True name] d
    by (simp add: disable_list_def)
  then have "decide ?e domain = verdict (active_lists (disabled_keys rts) (eng_lists e)) domain" for domain
    using inv_decide [of ?e] by (simp add: rebuild_snapshot_def)
  moreover have "snd (enable_list name ?e) = e"
    if "\<forall>rt\<in>set (eng_runtimes e). rt_name rt = name \<longrightarrow> \<not> rt_disabled rt"
    using set_first_disabled_undo [OF Some that] inv
    by (simp add: enable_list_def set_list_disabled_def rebuild_snapshot_def engine_inv_def)
  ultimately show ?thesis using d keys first s(1,3) by auto
qed

theorem disable_enable_list_witness:
  "decide (snd (disable_list ''ads'' (fst example_loaded))) ''www.ads.example'' = DecNeutral
   \<and> snd (enable_list ''ads'' (snd (disable_list ''ads'' (fst example_loaded)))) = fst example_loaded"
proof -
  have r: "sequential_engine example_lib example_codec (Some sqlx_cache_repo)
      (fst example_loaded, snd example_loaded)" using example_reachable by simp
  have "decide (snd (disable_list ''ads'' (fst example_loaded))) ''www.ads.example'' = DecNeutral"
    by code_simp
  moreover have "list_all (\<lambda>rt. \<not> rt_disabled rt) (eng_runtimes (fst example_loaded))" by code_simp
  ultimately show ?thesis
    using disable_enable_list [OF r, of "''ads''"] by (simp add: list_all_iff)
qed

text \<open>
  C27. A refresh survives a restart: once a list was fetched, parsed and stored in the database, an
  engine built from a configuration that has the list starts with exactly the domains and exceptions
  that the running engine had for it, before any download.
\<close>

theorem refresh_survives_restart:
  assumes "db_up db"
    and "\<forall>d s. doc_to_json J d = Inr s \<longrightarrow> doc_from_json J s = Inr d"
    and "doc_to_json J \<lparr>cd_kind = cached_kind (rt_kind rt), cd_domains = sorted_list_of_set B,
        cd_exceptions = sorted_list_of_set E\<rparr> = Inr payload"
    and "fetch_list_content io (rt_url rt) = Inr content"
    and "parse_list_content L content (rt_format rt) = (B, E, skipped)"
    and "refresh_single_list L J (Some sqlx_cache_repo) io rt (e, db) = (e', db')"
    and "from_config_with_cache J config (Some sqlx_cache_repo) db' ms = Inr (e2, ms2)"
    and "rt2 \<in> set (eng_runtimes e2)" and "rt_key rt2 = rt_key rt" and "rt_kind rt2 = rt_kind rt"
  shows "map_of (eng_lists e2) (rt_key rt) = map_of (eng_lists e') (rt_key rt)"
  by (rule sqlx_cache.refresh_then_restart [OF assms])

theorem refresh_survives_restart_witness:
  "\<exists>e2 ms2. from_config_with_cache example_codec example_config (Some sqlx_cache_repo)
        (snd (refresh_nth 0 (example_start, example_db))) None = Inr (e2, ms2)
      \<and> map_of (eng_lists e2) ''block:ads''
          = map_of (eng_lists (fst (refresh_nth 0 (example_start, example_db)))) ''block:ads''
      \<and> map_of (eng_lists e2) ''block:ads'' \<noteq> None"
proof -
  let ?rt = "example_runtimes ! 0"
  have rt: "rt_kind ?rt = KindBlock" "rt_key ?rt = ''block:ads''" "rt_url ?rt = ''ads.txt''"
    "rt_format ?rt = Domains"
    by (simp_all add: example_runtimes_def)
  have json: "\<forall>d s. doc_to_json example_codec d = Inr s \<longrightarrow> doc_from_json example_codec s = Inr d"
    by (simp add: example_codec_def)
  have ser: "doc_to_json example_codec \<lparr>cd_kind = cached_kind (rt_kind ?rt),
      cd_domains = sorted_list_of_set {''ads.example''}, cd_exceptions = sorted_list_of_set {}\<rparr>
      = Inr ''doc''" unfolding rt by (simp add: example_codec_def example_doc_def)
  have fetch: "fetch_list_content example_io (rt_url ?rt) = Inr ''ads.example''"
    unfolding rt by code_simp
  have parse: "parse_list_content example_lib ''ads.example'' (rt_format ?rt)
      = ({''ads.example''}, {}, 0)" unfolding rt by code_simp
  have ref: "refresh_single_list example_lib example_codec (Some sqlx_cache_repo) example_io ?rt
      (example_start, example_db) = (fst example_half, snd example_half)"
    using example_refresh_ads by (simp add: refresh_nth_def example_start_def engine_new_def)
  have restart: "from_config_with_cache example_codec example_config (Some sqlx_cache_repo)
      (snd example_half) None = Inr (fst example_half, None)" by code_simp
  have rt2: "?rt \<in> set (eng_runtimes (fst example_half))"
    by (simp add: example_half_def example_engine_def example_start_def engine_new_def
        example_runtimes_def)
  have "map_of (eng_lists (fst example_half)) ''block:ads'' \<noteq> None"
    by (simp add: example_half_def example_engine_def example_ads_list_def)
  with refresh_survives_restart [OF _ json ser fetch parse ref restart rt2 refl refl] restart
  show ?thesis unfolding rt example_refresh_ads by simp
qed

end
