(* ===== verification/RequestPipeline.thy ===== *)
theory RequestPipeline
  imports UpstreamResolver FilterEngine
begin

text \<open>
  The request pipeline (\<open>src/use_cases/request_pipeline.rs\<close>, \<open>src/use_cases/plugin_handler.rs\<close>): a chain
  of stages, each of which answers a request, passes it on or fails, and the response builders.

  A stage maps a request and the world to \<open>Ok(Some response)\<close>, \<open>Ok(None)\<close> or an error, and the world
  after it. The stages that hold a trait object take it as an argument: the upstream stage a resolver,
  the filter stage the record \<open>domain_filter\<close> and the value of the shared flag when it is read.
\<close>

subsection \<open>The chains\<close>

fun pipeline_handle :: "('q \<Rightarrow> 'r option) list \<Rightarrow> 'q \<Rightarrow> 'r option" where
  "pipeline_handle [] request = None"
| "pipeline_handle (stage # stages) request =
     (case stage request of
        Some response \<Rightarrow> Some response
      | None \<Rightarrow> pipeline_handle stages request)"

record dns_request =
  rq_query :: bytes
  rq_client_query_id :: u16

definition dns_request_new :: "bytes \<Rightarrow> dns_request" where
  "dns_request_new query = \<lparr>rq_query = query, rq_client_query_id = query_id query\<rparr>"

datatype pipeline_error = Upstream upstream_error

type_synonym 'n stage = "dns_request \<Rightarrow> 'n world \<Rightarrow> (pipeline_error + bytes option) \<times> 'n world"

fun handle_request :: "'n stage list \<Rightarrow> 'n stage" where
  "handle_request [] request w = (Inr None, w)"
| "handle_request (stage # stages) request w =
     (case stage request w of
        (Inl e, w') \<Rightarrow> (Inl e, w')
      | (Inr (Some response), w') \<Rightarrow> (Inr (Some response), w')
      | (Inr None, w') \<Rightarrow> handle_request stages request w')"

datatype any_query_policy = AnyPassthrough | AnyRefused | AnyNotImp

subsection \<open>Responses\<close>

definition make_a_record :: "dns_name \<Rightarrow> ipv4_addr \<Rightarrow> dns_record" where
  "make_a_record name addr = record_from_rdata name 60 (RdA addr)"

definition make_aaaa_record :: "dns_name \<Rightarrow> ipv6_addr \<Rightarrow> dns_record" where
  "make_aaaa_record name addr = record_from_rdata name 60 (RdAAAA addr)"

definition sinkhole_message :: "dns_message \<Rightarrow> ipv4_addr \<Rightarrow> ipv6_addr \<Rightarrow> dns_message" where
  "sinkhole_message query v4 v6 =
     (let response = (message_new (m_id query) MtResponse OpQuery)
            \<lparr>m_recursion_desired := m_recursion_desired query, m_recursion_available := True,
             m_response_code := NoError\<rparr>;
          response = fold add_query (m_queries query) response
      in case m_queries query of
           [] \<Rightarrow> response
         | question # _ \<Rightarrow>
             (let name = q_name question in
              case q_type question of
                TypeA \<Rightarrow> add_answer (make_a_record name v4) response
              | TypeAAAA \<Rightarrow> add_answer (make_aaaa_record name v6) response
              | TypeANY \<Rightarrow> add_answer (make_aaaa_record name v6)
                            (add_answer (make_a_record name v4) response)
              | _ \<Rightarrow> response))"

definition build_sinkhole_response :: "dns_lib \<Rightarrow> dns_message \<Rightarrow> ipv4_addr \<Rightarrow> ipv6_addr \<Rightarrow> bytes" where
  "build_sinkhole_response L query v4 v6 = encode_or L (sinkhole_message query v4 v6) []"

definition error_message :: "dns_lib \<Rightarrow> bytes \<Rightarrow> response_code \<Rightarrow> dns_message" where
  "error_message L query_bytes code =
     (let response = (message_new 0 MtResponse OpQuery)
            \<lparr>m_recursion_available := True, m_response_code := code\<rparr>
      in case lib_from_vec L query_bytes of
           Inl _ \<Rightarrow> response
         | Inr query \<Rightarrow>
             fold add_query (m_queries query)
               (response\<lparr>m_id := m_id query, m_recursion_desired := m_recursion_desired query\<rparr>))"

definition build_error_response :: "dns_lib \<Rightarrow> bytes \<Rightarrow> response_code \<Rightarrow> bytes" where
  "build_error_response L query_bytes code = encode_or L (error_message L query_bytes code) []"

definition build_servfail_response :: "dns_lib \<Rightarrow> bytes \<Rightarrow> bytes" where
  "build_servfail_response L query_bytes = build_error_response L query_bytes ServFail"

definition build_nodata_response :: "dns_lib \<Rightarrow> bytes \<Rightarrow> bytes" where
  "build_nodata_response L query_bytes = build_error_response L query_bytes NoError"

fun is_dnssec_nodata_protocol_error :: "upstream_error \<Rightarrow> bool" where
  "is_dnssec_nodata_protocol_error (Protocol message) \<longleftrightarrow>
     str_contains message ''Dns(Nsec'' \<or> str_contains message ''Nsec {''"
| "is_dnssec_nodata_protocol_error (WithSource _ inner) \<longleftrightarrow> is_dnssec_nodata_protocol_error inner"
| "is_dnssec_nodata_protocol_error _ \<longleftrightarrow> False"

definition fix_response_id :: "dns_lib \<Rightarrow> bytes \<Rightarrow> u16 \<Rightarrow> bytes" where
  "fix_response_id L response client_query_id =
     (case lib_from_vec L response of
        Inl _ \<Rightarrow> response
      | Inr message \<Rightarrow> encode_or L (message\<lparr>m_id := client_query_id\<rparr>) response)"

subsection \<open>The stages\<close>

text \<open>The \<open>DomainFilter\<close> trait object as the filter stage uses it.\<close>

record domain_filter =
  df_decide :: "string \<Rightarrow> filter_decision"
  df_blocked_by :: "string \<Rightarrow> string list"
  df_sinkhole_ipv4 :: ipv4_addr
  df_sinkhole_ipv6 :: ipv6_addr

definition engine_filter :: "filter_engine \<Rightarrow> domain_filter" where
  "engine_filter e =
     \<lparr>df_decide = decide e, df_blocked_by = blocked_by e, df_sinkhole_ipv4 = eng_sinkhole_v4 e,
      df_sinkhole_ipv6 = eng_sinkhole_v6 e\<rparr>"

definition dns_filter_stage :: "dns_lib \<Rightarrow> domain_filter \<Rightarrow> bool \<Rightarrow> 'n stage" where
  "dns_filter_stage L F filtering_enabled request w =
     (if \<not> filtering_enabled then (Inr None, record_metrics (record_dns_query Passthrough) w)
      else case lib_from_vec L (rq_query request) of
        Inl _ \<Rightarrow> (Inr None, w)
      | Inr message \<Rightarrow>
          (case m_queries message of
             [] \<Rightarrow> (Inr None, w)
           | first_query # _ \<Rightarrow>
               (let domain = lib_name_to_ascii L (q_name first_query) in
                case df_decide F domain of
                  DecAllow \<Rightarrow> (Inr None, record_metrics (record_dns_query Allowed) w)
                | DecNeutral \<Rightarrow> (Inr None, record_metrics (record_dns_query Passthrough) w)
                | DecBlock \<Rightarrow>
                    (let blocked_by = df_blocked_by F domain;
                         w = record_metrics (record_dns_query Blocked) w;
                         w = record_metrics (record_blocklist_hit blocked_by) w
                     in (Inr (Some (build_sinkhole_response L message
                                      (df_sinkhole_ipv4 F) (df_sinkhole_ipv6 F))), w)))))"

definition dns_upstream_stage :: "dns_lib \<Rightarrow> 'n upstream \<Rightarrow> 'n stage" where
  "dns_upstream_stage L resolver request w =
     (case up_resolve resolver (rq_query request) w of
        (Inl error, w) \<Rightarrow>
          if is_dnssec_nodata_protocol_error error
          then (Inr (Some (build_nodata_response L (rq_query request))), w)
          else (Inr (Some (build_servfail_response L (rq_query request))), w)
      | (Inr response, w) \<Rightarrow> (Inr (Some (fix_response_id L response (rq_client_query_id request))), w))"

definition any_query_policy_stage :: "dns_lib \<Rightarrow> any_query_policy \<Rightarrow> 'n stage" where
  "any_query_policy_stage L policy request w =
     (if policy = AnyPassthrough then (Inr None, w)
      else case lib_from_vec L (rq_query request) of
        Inl _ \<Rightarrow> (Inr None, w)
      | Inr message \<Rightarrow>
          (case m_queries message of
             [] \<Rightarrow> (Inr None, w)
           | first_query # _ \<Rightarrow>
               if q_type first_query \<noteq> TypeANY then (Inr None, w)
               else
                 (case policy of
                    AnyPassthrough \<Rightarrow> (Inr None, w)
                  | AnyRefused \<Rightarrow> (Inr (Some (build_error_response L (rq_query request) Refused)), w)
                  | AnyNotImp \<Rightarrow> (Inr (Some (build_error_response L (rq_query request) NotImp)), w))))"

definition servfail_fallback_stage :: "dns_lib \<Rightarrow> 'n stage" where
  "servfail_fallback_stage L request w = (Inr (Some (build_servfail_response L (rq_query request))), w)"

definition wasm_plugin_stage :: "'n stage" where
  "wasm_plugin_stage request w = (Inr None, w)"

subsection \<open>The messages that are built\<close>

lemma fold_add_query [simp]:
  "fold add_query qs m = m\<lparr>m_queries := m_queries m @ qs\<rparr>"
  by (induction qs arbitrary: m) (auto simp: add_query_def)

lemma sinkhole_message_header:
  "m_id (sinkhole_message query v4 v6) = m_id query
   \<and> m_type (sinkhole_message query v4 v6) = MtResponse
   \<and> m_response_code (sinkhole_message query v4 v6) = NoError
   \<and> m_recursion_desired (sinkhole_message query v4 v6) = m_recursion_desired query
   \<and> m_queries (sinkhole_message query v4 v6) = m_queries query"
  by (auto simp: sinkhole_message_def message_new_def add_answer_def Let_def
      split: list.split record_type.split)

lemma sinkhole_message_answers:
  "m_answers (sinkhole_message query v4 v6) =
    (case m_queries query of
       [] \<Rightarrow> []
     | q # _ \<Rightarrow> (if q_type q \<in> {TypeA, TypeANY} then [make_a_record (q_name q) v4] else [])
              @ (if q_type q \<in> {TypeAAAA, TypeANY} then [make_aaaa_record (q_name q) v6] else []))"
  by (auto simp: sinkhole_message_def message_new_def add_answer_def Let_def
      split: list.split record_type.split)

lemma error_message_fields:
  "m_response_code (error_message L q code) = code \<and> m_type (error_message L q code) = MtResponse
   \<and> m_answers (error_message L q code) = []
   \<and> (\<forall>m. lib_from_vec L q = Inr m \<longrightarrow>
        m_id (error_message L q code) = m_id m \<and> m_queries (error_message L q code) = m_queries m)"
  by (auto simp: error_message_def message_new_def Let_def split: sum.split)

subsection \<open>Stages as an interface\<close>

text \<open>
  A stage of this program, with its configuration \<open>'c\<close>, never fails, and keeps an invariant of the world
  when what it is given does.
\<close>

locale request_stage =
  fixes stage :: "'c \<Rightarrow> 'n stage" and pre :: "'c \<Rightarrow> bool" and I :: "'n world \<Rightarrow> bool"
  assumes stage_ok: "\<exists>x. fst (stage c r w) = Inr x"
    and stage_keeps: "pre c \<Longrightarrow> I w \<Longrightarrow> I (snd (stage c r w))"
begin

lemma stage_cases:
  obtains (answer) b w' where "stage c r w = (Inr (Some b), w')"
  | (pass) w' where "stage c r w = (Inr None, w')"
  using stage_ok [of c r w] by (cases "stage c r w") (auto split: option.splits, metis not_None_eq)

lemma before_answering:
  assumes "\<And>w. \<exists>b. fst (handle_request rest r w) = Inr (Some b)"
  shows "\<exists>b. fst (handle_request (stage c # rest) r w) = Inr (Some b)"
  by (rule stage_cases [of c r w]) (use assms in auto)

lemma handle_keeps:
  assumes "pre c" and "\<And>w. I w \<Longrightarrow> I (snd (handle_request rest r w))" and "I w"
  shows "I (snd (handle_request (stage c # rest) r w))"
  by (rule stage_cases [of c r w])
    (use assms stage_keeps [OF assms(1,3), of r] in auto)

end

lemma filter_stage_keeps:
  "world_ok cap w \<Longrightarrow> world_ok cap (snd (dns_filter_stage L F b r w))"
  by (auto simp: dns_filter_stage_def world_ok_def record_metrics_def Let_def
      split: sum.split list.split filter_decision.split intro: inv_intros)

interpretation filter_st: request_stage
  "\<lambda>(L, F, enabled). dns_filter_stage L F enabled" "\<lambda>_. True" "world_ok cap"
proof unfold_locales
  fix c r and w :: "'n world"
  show "\<exists>x. fst ((case c of (L, F, enabled) \<Rightarrow> dns_filter_stage L F enabled) r w) = Inr x"
    by (cases c) (auto simp: dns_filter_stage_def Let_def split: sum.split list.split filter_decision.split)
qed (auto intro: filter_stage_keeps split: prod.split)

interpretation upstream_st: request_stage
  "\<lambda>(L, resolver). dns_upstream_stage L resolver" "\<lambda>(L, resolver). keeps (world_ok cap) resolver" "world_ok cap"
  by unfold_locales
    (auto simp: dns_upstream_stage_def split: prod.split sum.split dest: keepsD)

interpretation any_st: request_stage
  "\<lambda>(L, policy). any_query_policy_stage L policy" "\<lambda>_. True" "world_ok cap"
  by unfold_locales
    (auto simp: any_query_policy_stage_def split: prod.split sum.split list.split any_query_policy.split)

interpretation servfail_st: request_stage servfail_fallback_stage "\<lambda>_. True" "world_ok cap"
  by unfold_locales (auto simp: servfail_fallback_stage_def)

interpretation wasm_st: request_stage "\<lambda>_ :: unit. wasm_plugin_stage" "\<lambda>_. True" "world_ok cap"
  by unfold_locales (auto simp: wasm_plugin_stage_def)

subsection \<open>The filter as an interface\<close>

text \<open>What the filter stage relies on: a blocked name has at least one list to attribute it to.\<close>

locale domain_filter_contract =
  fixes filter_of :: "'s \<Rightarrow> domain_filter" and inv :: "'s \<Rightarrow> bool"
  assumes block_explained: "inv s \<Longrightarrow> df_decide (filter_of s) d = DecBlock \<Longrightarrow> df_blocked_by (filter_of s) d \<noteq> []"
begin

lemma block_stage:
  assumes "inv s" and "lib_from_vec L (rq_query req) = Inr m" and "m_queries m = q # qs"
    and "df_decide (filter_of s) (lib_name_to_ascii L (q_name q)) = DecBlock"
  shows "\<exists>names. names \<noteq> [] \<and> names = df_blocked_by (filter_of s) (lib_name_to_ascii L (q_name q))
    \<and> dns_filter_stage L (filter_of s) True req w =
      (Inr (Some (build_sinkhole_response L m (df_sinkhole_ipv4 (filter_of s)) (df_sinkhole_ipv6 (filter_of s)))),
       w\<lparr>w_metrics := map_option (\<lambda>ms. ms\<lparr>dns_queries_total := Suc (dns_queries_total ms),
            dns_queries_blocked := Suc (dns_queries_blocked ms),
            blocklist_hits_total := fold counter_inc names (blocklist_hits_total ms)\<rparr>) (w_metrics w)\<rparr>)"
  using assms block_explained
  by (auto simp: dns_filter_stage_def record_metrics_def record_dns_query_def record_blocklist_hit_def
      option.map_comp comp_def Let_def intro!: arg_cong2 [where f = map_option])

end

interpretation engine_df: domain_filter_contract engine_filter engine_inv
proof unfold_locales
  fix e d assume inv: "engine_inv e" and "df_decide (engine_filter e) d = DecBlock"
  then have block: "verdict (active e) d = DecBlock" using inv_decide by (simp add: engine_filter_def)
  then have "normalize_domain d \<noteq> []" and "block_hit (active e) (normalize_domain d)"
    by (auto simp: verdict_def Let_def split: if_splits)
  then show "df_blocked_by (engine_filter e) d \<noteq> []"
    using blocked_by_iff [OF inv] by (simp add: engine_filter_def)
qed

subsection \<open>Properties\<close>

text \<open>
  C14. A query that the filter blocks is answered on the spot: the network is not touched, the answer
  carries the identifier and the questions of the query with code \<open>NoError\<close>, and its records are
  exactly the sinkhole addresses for the type that was asked (one for A, one for AAAA, both for ANY,
  none otherwise). The query is counted once as blocked, and as a hit of every list that blocks it.
\<close>

theorem blocked_query_is_sinkholed:
  assumes "codec_ok L" and "engine_inv e"
    and "lib_from_vec L (rq_query req) = Inr m" and "m_queries m = q # qs"
    and "decide e (lib_name_to_ascii L (q_name q)) = DecBlock"
    and "lib_to_vec L (sinkhole_message m (eng_sinkhole_v4 e) (eng_sinkhole_v6 e)) = Inr b"
  shows "\<exists>w' a. dns_filter_stage L (engine_filter e) True req w = (Inr (Some b), w') \<and> w_net w' = w_net w
    \<and> lib_from_vec L b = Inr a \<and> m_id a = m_id m \<and> m_response_code a = NoError \<and> m_queries a = m_queries m
    \<and> m_answers a =
        (if q_type q \<in> {TypeA, TypeANY} then [record_from_rdata (q_name q) 60 (RdA (eng_sinkhole_v4 e))] else [])
        @ (if q_type q \<in> {TypeAAAA, TypeANY} then [record_from_rdata (q_name q) 60 (RdAAAA (eng_sinkhole_v6 e))] else [])
    \<and> (\<forall>ms. w_metrics w = Some ms \<longrightarrow> (\<exists>ms'. w_metrics w' = Some ms'
        \<and> dns_queries_blocked ms' = dns_queries_blocked ms + 1 \<and> dns_queries_total ms' = dns_queries_total ms + 1
        \<and> blocklist_hits_total ms' =
            fold counter_inc (blocked_by e (lib_name_to_ascii L (q_name q))) (blocklist_hits_total ms)))"
proof -
  have blk: "df_decide (engine_filter e) (lib_name_to_ascii L (q_name q)) = DecBlock"
    using assms(5) by (simp add: engine_filter_def)
  let ?names = "blocked_by e (lib_name_to_ascii L (q_name q))"
  let ?w = "w\<lparr>w_metrics := map_option (\<lambda>ms. ms\<lparr>dns_queries_total := Suc (dns_queries_total ms),
            dns_queries_blocked := Suc (dns_queries_blocked ms),
            blocklist_hits_total := fold counter_inc ?names (blocklist_hits_total ms)\<rparr>) (w_metrics w)\<rparr>"
  have "dns_filter_stage L (engine_filter e) True req w = (Inr (Some b), ?w)"
    using engine_df.block_stage [OF assms(2-4) blk, of w] assms(6)
    by (simp add: build_sinkhole_response_def encode_or_def engine_filter_def)
  moreover have "lib_from_vec L b = Inr (sinkhole_message m (eng_sinkhole_v4 e) (eng_sinkhole_v6 e))"
    using codec_okD assms(1,6) by blast
  ultimately show ?thesis
    using sinkhole_message_header [of m] sinkhole_message_answers [of m] assms(4)
    by (auto simp: make_a_record_def make_aaaa_record_def)
qed

text \<open>
  The upstream stage always answers: with the upstream's message under the identifier the client
  used; on an upstream error with an empty answer for the client's questions, whose code is \<open>NoError\<close>
  for a DNSSEC denial of existence and \<open>ServFail\<close> for every other error.
\<close>

theorem upstream_stage_answers:
  assumes "codec_ok L" and "lib_from_vec L (rq_query req) = Inr m"
    and "up_resolve resolver (rq_query req) w = (res, w')"
    and "\<forall>err code. res = Inl err \<longrightarrow> (\<exists>b. lib_to_vec L (error_message L (rq_query req) code) = Inr b)"
    and "\<forall>r a. res = Inr r \<longrightarrow> lib_from_vec L r = Inr a \<longrightarrow>
      (\<exists>b. lib_to_vec L (a\<lparr>m_id := rq_client_query_id req\<rparr>) = Inr b)"
  shows "\<exists>b. dns_upstream_stage L resolver req w = (Inr (Some b), w')
    \<and> (\<forall>r a. res = Inr r \<longrightarrow> lib_from_vec L r = Inr a \<longrightarrow>
         lib_from_vec L b = Inr (a\<lparr>m_id := rq_client_query_id req\<rparr>))
    \<and> (\<forall>err. res = Inl err \<longrightarrow> (\<exists>a. lib_from_vec L b = Inr a \<and> m_id a = m_id m
         \<and> m_queries a = m_queries m \<and> m_answers a = []
         \<and> m_response_code a = (if is_dnssec_nodata_protocol_error err then NoError else ServFail)))"
proof (cases res)
  case (Inl err)
  let ?code = "if is_dnssec_nodata_protocol_error err then NoError else ServFail"
  obtain b where b: "lib_to_vec L (error_message L (rq_query req) ?code) = Inr b" using assms(4) Inl by blast
  have "dns_upstream_stage L resolver req w = (Inr (Some b), w')"
    using b Inl assms(3)
    by (auto simp: dns_upstream_stage_def build_nodata_response_def build_servfail_response_def
        build_error_response_def encode_or_def split: if_splits)
  then show ?thesis
    using Inl codec_okD [OF assms(1) b] error_message_fields [of L "rq_query req" ?code] assms(2) by auto
next
  case (Inr r)
  have "dns_upstream_stage L resolver req w = (Inr (Some (fix_response_id L r (rq_client_query_id req))), w')"
    using Inr assms(3) by (simp add: dns_upstream_stage_def)
  moreover have "lib_from_vec L (fix_response_id L r (rq_client_query_id req)) = Inr (a\<lparr>m_id := rq_client_query_id req\<rparr>)"
    if "lib_from_vec L r = Inr a" for a
    using that assms(1,5) Inr by (fastforce simp: fix_response_id_def encode_or_def dest: codec_okD)
  ultimately show ?thesis using Inr by auto
qed

subsection \<open>Instances\<close>

definition ads_query :: dns_message where
  "ads_query = add_query \<lparr>q_name = DnsName [''ads'', ''example''], q_type = TypeA, q_class = 1\<rparr>
     (message_new 258 MtQuery OpQuery)"

definition ads_request :: dns_request where
  "ads_request = dns_request_new [1, 2, 3]"

definition ads_lib :: dns_lib where
  "ads_lib = table_lib
     [(ads_query, [1, 2, 3]), (sinkhole_message ads_query 0 0, [1, 2, 4]),
      (ads_query\<lparr>m_type := MtResponse, m_id := 9\<rparr>, [0, 9]),
      (ads_query\<lparr>m_type := MtResponse, m_id := 258\<rparr>, [1, 2, 5])] (\<lambda>_. True)"

lemma ads_lib_facts:
  "codec_ok ads_lib" "lib_from_vec ads_lib (rq_query ads_request) = Inr ads_query"
proof -
  show "codec_ok ads_lib" unfolding ads_lib_def by (rule table_lib_codec_ok) simp
  show "lib_from_vec ads_lib (rq_query ads_request) = Inr ads_query" by code_simp
qed

theorem blocked_query_is_sinkholed_witness:
  "\<exists>w' a. dns_filter_stage ads_lib (engine_filter (fst example_loaded)) True ads_request example_world
      = (Inr (Some [1, 2, 4]), w') \<and> w_net w' = 0 \<and> lib_from_vec ads_lib [1, 2, 4] = Inr a
    \<and> m_answers a = [record_from_rdata (DnsName [''ads'', ''example'']) 60 (RdA 0)]"
proof -
  let ?q = "\<lparr>q_name = DnsName [''ads'', ''example''], q_type = TypeA, q_class = 1 :: u16\<rparr>"
  have inv: "engine_inv (fst example_loaded)" using sequential_engine_inv [OF example_reachable] .
  have qs: "m_queries ads_query = [?q]" by (simp add: ads_query_def add_query_def message_new_def)
  have dec: "decide (fst example_loaded) (lib_name_to_ascii ads_lib (q_name ?q)) = DecBlock" by code_simp
  have enc: "lib_to_vec ads_lib (sinkhole_message ads_query (eng_sinkhole_v4 (fst example_loaded))
      (eng_sinkhole_v6 (fst example_loaded))) = Inr [1, 2, 4]" by code_simp
  have v4: "eng_sinkhole_v4 (fst example_loaded) = 0"
    by (simp add: example_loaded_def example_engine_def example_start_def engine_new_def)
  from blocked_query_is_sinkholed [OF ads_lib_facts(1) inv ads_lib_facts(2) qs dec enc, of example_world]
  show ?thesis by (fastforce simp: v4 example_world_def)
qed

theorem upstream_stage_answers_witness:
  "\<exists>b. fst (dns_upstream_stage ads_lib (net_upstream ''x'' (\<lambda>q n. (Inr [0, 9], n))) ads_request example_world)
      = Inr (Some b)
    \<and> lib_from_vec ads_lib b = Inr (ads_query\<lparr>m_type := MtResponse, m_id := 258\<rparr>)"
proof -
  let ?r = "net_upstream ''x'' (\<lambda>q n. (Inr [0, 9], n))"
  have up: "up_resolve ?r (rq_query ads_request) example_world = (Inr [0, 9], example_world)"
    by (simp add: net_upstream_def example_world_def)
  have dec: "lib_from_vec ads_lib [0, 9] = Inr (ads_query\<lparr>m_type := MtResponse, m_id := 9\<rparr>)" by code_simp
  have enc: "lib_to_vec ads_lib (ads_query\<lparr>m_type := MtResponse, m_id := 258\<rparr>) = Inr [1, 2, 5]" by code_simp
  have rid: "rq_client_query_id ads_request = 258" by code_simp
  from upstream_stage_answers [OF ads_lib_facts up] dec enc rid
  show ?thesis by auto
qed

end
