(* ===== verification/ZoneAuthority.thy ===== *)
theory ZoneAuthority
  imports UpstreamResolver FilterLists
begin

text \<open>
  Authoritative answers for local zones (\<open>src/use_cases/zone_authority.rs\<close>): reading a zone document
  into a snapshot, answering queries from it, refreshing it, and listing and searching its records.

  The JSON library gives a document; the content of a source comes from the file system or from an
  HTTP client. All three are arguments (\<open>zone_io\<close>); the checks the code makes on what they return are
  modelled. A snapshot is a value: the resolver reads the current one, a refresh replaces it.
\<close>

subsection \<open>Data\<close>

datatype json =
    JNull
  | JBool bool
  | JInt int
  | JFloat string
  | JString string
  | JArray "json list"
  | JObject "(string \<times> json) list"

record zone_json_record =
  zj_name :: string
  zj_type :: string
  zj_ttl :: "u32 option"
  zj_data :: json

record zone_json_document =
  zd_zone :: string
  zd_ttl_default :: "u32 option"
  zd_serial :: "string option"
  zd_records :: "zone_json_record list"

datatype zone_source = SourceFile string | SourceUrl string

datatype zone_source_auth = Bearer string | Basic string string

record zone_snapshot =
  zs_zone :: string
  zs_records_by_name :: "(string, dns_record list) hash_map"
  zs_soa :: "dns_record option"

datatype zone_error =
    UnsupportedScheme string
  | SourceError string
  | SourceTooLarge int
  | JsonError string
  | EmptyJsonZone
  | EmptyConfiguredZone
  | ZoneMismatch string string
  | EmptyRecordName
  | InvalidRecordName string
  | EmptyName
  | InvalidDnsName string string
  | InvalidField string
  | OutOfRange string
  | NotStrings string
  | InvalidAddress string
  | InvalidIodefUrl string
  | UnsupportedCaaTag string
  | HexOddLength
  | HexNotUtf8
  | HexInvalidPair string
  | UnsupportedRecordType string

record zone_response =
  hr_content_length :: "int option"
  hr_text :: "string + string"

record zone_io =
  zio_read_file :: "string \<Rightarrow> string + string"
  zio_get :: "zone_source_auth option \<Rightarrow> string \<Rightarrow> string + zone_response"
  zio_parse_document :: "string \<Rightarrow> string + zone_json_document"

definition max_zone_source_bytes :: int where
  "max_zone_source_bytes = 2 * 1024 * 1024"

definition default_url_check_interval_secs :: u64 where
  "default_url_check_interval_secs = 15 * 60"

subsection \<open>Names\<close>

definition normalize_name :: "string \<Rightarrow> string option" where
  "normalize_name value =
     (let trimmed = trim_end_char (trim value) (CHR ''.'')
      in if trimmed = [] then None else Some (to_ascii_lowercase trimmed))"

definition fqdn_to_name :: "dns_lib \<Rightarrow> string \<Rightarrow> zone_error + dns_name" where
  "fqdn_to_name L value =
     res_bind (ok_or EmptyName (normalize_name value)) (\<lambda>normalized.
     map_err (InvalidDnsName value) (lib_name_from_ascii L (normalized @ ''.'')))"

definition domain_matches_zone :: "string \<Rightarrow> string \<Rightarrow> bool" where
  "domain_matches_zone domain zone \<longleftrightarrow>
     domain = zone
     \<or> (case strip_suffix domain zone of
          None \<Rightarrow> False
        | Some pre \<Rightarrow> ends_with_char pre (CHR ''.''))"

definition resolve_record_name :: "string \<Rightarrow> string \<Rightarrow> zone_error + string" where
  "resolve_record_name zone label =
     (let label = trim label in
      if label = [] then Inl EmptyRecordName
      else if label = ''@'' then Inr zone
      else if ends_with_char label (CHR ''.'')
      then ok_or (InvalidRecordName label) (normalize_name label)
      else ok_or (InvalidRecordName label) (normalize_name (label @ ''.'' @ zone)))"

subsection \<open>Fields of a record\<close>

fun json_get :: "json \<Rightarrow> string \<Rightarrow> json option" where
  "json_get (JObject members) key = map_of members key"
| "json_get _ key = None"

fun json_as_str :: "json \<Rightarrow> string option" where
  "json_as_str (JString s) = Some s"
| "json_as_str _ = None"

fun json_as_array :: "json \<Rightarrow> json list option" where
  "json_as_array (JArray vs) = Some vs"
| "json_as_array _ = None"

fun json_as_u64 :: "json \<Rightarrow> int option" where
  "json_as_u64 (JInt i) = (if 0 \<le> i \<and> i < 2 ^ 64 then Some i else None)"
| "json_as_u64 _ = None"

fun json_as_i64 :: "json \<Rightarrow> int option" where
  "json_as_i64 (JInt i) = (if - (2 ^ 63) \<le> i \<and> i < 2 ^ 63 then Some i else None)"
| "json_as_i64 _ = None"

definition get_str :: "json \<Rightarrow> string \<Rightarrow> zone_error + string" where
  "get_str value key = ok_or (InvalidField key) (Option.bind (json_get value key) json_as_str)"

definition get_unsigned :: "int \<Rightarrow> json \<Rightarrow> string \<Rightarrow> zone_error + int" where
  "get_unsigned limit value key =
     res_bind (ok_or (InvalidField key) (Option.bind (json_get value key) json_as_u64)) (\<lambda>number.
     if number < limit then Inr number else Inl (OutOfRange key))"

definition get_u16 :: "json \<Rightarrow> string \<Rightarrow> zone_error + u16" where
  "get_u16 value key = map_ok word_of_int (get_unsigned (2 ^ 16) value key)"

definition get_u8 :: "json \<Rightarrow> string \<Rightarrow> zone_error + u8" where
  "get_u8 value key = map_ok word_of_int (get_unsigned (2 ^ 8) value key)"

definition get_u32 :: "json \<Rightarrow> string \<Rightarrow> zone_error + u32" where
  "get_u32 value key = map_ok word_of_int (get_unsigned (2 ^ 32) value key)"

definition get_i32 :: "json \<Rightarrow> string \<Rightarrow> zone_error + i32" where
  "get_i32 value key =
     res_bind (ok_or (InvalidField key) (Option.bind (json_get value key) json_as_i64)) (\<lambda>number.
     if - (2 ^ 31) \<le> number \<and> number < 2 ^ 31 then Inr (word_of_int number) else Inl (OutOfRange key))"

definition get_string_array :: "json \<Rightarrow> string \<Rightarrow> zone_error + string list" where
  "get_string_array value key =
     res_bind (ok_or (InvalidField key) (Option.bind (json_get value key) json_as_array)) (\<lambda>values.
     res_map_list (\<lambda>item. ok_or (NotStrings key) (json_as_str item)) values)"

definition parse_issue_issuer_name :: "dns_lib \<Rightarrow> string \<Rightarrow> zone_error + dns_name option" where
  "parse_issue_issuer_name L value =
     (if value = [] \<or> value = '';'' then Inr None
      else map_ok Some (fqdn_to_name L value))"

text \<open>
  Hexadecimal strings. \<open>u8::from_str_radix\<close> takes an optional leading plus sign before the digits;
  a chunk of two bytes is a string when both are ASCII or when they form one character.
\<close>

definition two_bytes_utf8 :: "char \<Rightarrow> char \<Rightarrow> bool" where
  "two_bytes_utf8 a b \<longleftrightarrow>
     (let x = (of_char a :: int); y = (of_char b :: int)
      in (x < 128 \<and> y < 128) \<or> (194 \<le> x \<and> x \<le> 223 \<and> 128 \<le> y \<and> y \<le> 191))"

fun u8_from_hex_pair :: "char \<Rightarrow> char \<Rightarrow> u8 option" where
  "u8_from_hex_pair a b =
     (if a = CHR ''+'' then map_option word_of_int (digit_of 16 b)
      else
        (case (digit_of 16 a, digit_of 16 b) of
           (Some x, Some y) \<Rightarrow> Some (word_of_int (16 * x + y))
         | _ \<Rightarrow> None))"

fun decode_pairs :: "string \<Rightarrow> zone_error + bytes" where
  "decode_pairs (a # b # rest) =
     (if \<not> two_bytes_utf8 a b then Inl HexNotUtf8
      else
        res_bind (ok_or (HexInvalidPair [a, b]) (u8_from_hex_pair a b)) (\<lambda>byte.
        res_bind (decode_pairs rest) (\<lambda>bs. Inr (byte # bs))))"
| "decode_pairs _ = Inr []"

definition decode_hex :: "string \<Rightarrow> zone_error + bytes" where
  "decode_hex value =
     (let cleaned = trim value in
      if cleaned = [] then Inr []
      else if length cleaned mod 2 \<noteq> 0 then Inl HexOddLength
      else decode_pairs cleaned)"

definition parse_caa :: "dns_lib \<Rightarrow> json \<Rightarrow> zone_error + caa" where
  "parse_caa L data =
     res_bind (get_u8 data ''flags'') (\<lambda>flags_raw.
     res_bind (get_str data ''tag'') (\<lambda>tag.
     res_bind (get_str data ''value'') (\<lambda>value.
     (let issuer_critical = (flags_raw AND 0x80 \<noteq> 0);
          tag_raw = to_ascii_lowercase (trim tag);
          value_raw = trim value
      in if tag_raw = ''issue'' then
           map_ok (CaaIssue issuer_critical) (parse_issue_issuer_name L value_raw)
         else if tag_raw = ''issuewild'' then
           map_ok (CaaIssueWild issuer_critical) (parse_issue_issuer_name L value_raw)
         else if tag_raw = ''iodef'' then
           map_ok (CaaIodef issuer_critical)
             (map_err (\<lambda>_. InvalidIodefUrl value_raw) (lib_url_parse L value_raw))
         else Inl (UnsupportedCaaTag tag_raw)))))"

definition parse_soa :: "dns_lib \<Rightarrow> json \<Rightarrow> zone_error + rdata" where
  "parse_soa L data =
     res_bind (res_bind (get_str data ''mname'') (fqdn_to_name L)) (\<lambda>mname.
     res_bind (res_bind (get_str data ''rname'') (fqdn_to_name L)) (\<lambda>rname.
     res_bind (get_u32 data ''serial'') (\<lambda>serial.
     res_bind (get_i32 data ''refresh'') (\<lambda>refresh.
     res_bind (get_i32 data ''retry'') (\<lambda>retry.
     res_bind (get_i32 data ''expire'') (\<lambda>expire.
     res_bind (get_u32 data ''minimum'') (\<lambda>minimum.
     Inr (RdSOA mname rname serial refresh retry expire minimum))))))))"

definition parse_rdata :: "dns_lib \<Rightarrow> zone_json_record \<Rightarrow> zone_error + rdata" where
  "parse_rdata L entry =
     (let rtype = to_ascii_uppercase (trim (zj_type entry));
          data = zj_data entry;
          target = (\<lambda>key. res_bind (get_str data key) (fqdn_to_name L))
      in
      if rtype = ''A'' then
        res_bind (get_str data ''address'') (\<lambda>s.
        map_ok RdA (ok_or (InvalidAddress (zj_name entry)) (parse_ipv4 s)))
      else if rtype = ''AAAA'' then
        res_bind (get_str data ''address'') (\<lambda>s.
        map_ok RdAAAA (ok_or (InvalidAddress (zj_name entry)) (parse_ipv6 s)))
      else if rtype = ''NS'' then map_ok RdNS (target ''target'')
      else if rtype = ''CNAME'' then map_ok RdCNAME (target ''target'')
      else if rtype = ''PTR'' then map_ok RdPTR (target ''target'')
      else if rtype = ''MX'' then
        res_bind (get_u16 data ''priority'') (\<lambda>priority.
        map_ok (RdMX priority) (target ''exchange''))
      else if rtype = ''TXT'' then map_ok RdTXT (get_string_array data ''values'')
      else if rtype = ''SOA'' then parse_soa L data
      else if rtype = ''SRV'' then
        res_bind (get_u16 data ''priority'') (\<lambda>priority.
        res_bind (get_u16 data ''weight'') (\<lambda>weight.
        res_bind (get_u16 data ''port'') (\<lambda>port.
        map_ok (RdSRV priority weight port) (target ''target''))))
      else if rtype = ''CAA'' then map_ok RdCAA (parse_caa L data)
      else if rtype = ''TLSA'' then
        res_bind (get_u8 data ''usage'') (\<lambda>usage.
        res_bind (get_u8 data ''selector'') (\<lambda>selector.
        res_bind (get_u8 data ''matching_type'') (\<lambda>matching.
        res_bind (get_str data ''certificate'') (\<lambda>certificate.
        map_ok (RdTLSA usage selector matching) (decode_hex certificate)))))
      else if rtype = ''NAPTR'' then
        res_bind (get_u16 data ''order'') (\<lambda>order.
        res_bind (get_u16 data ''preference'') (\<lambda>preference.
        res_bind (get_str data ''flags'') (\<lambda>flags.
        res_bind (get_str data ''service'') (\<lambda>service.
        res_bind (get_str data ''regexp'') (\<lambda>regexp.
        map_ok (RdNAPTR order preference flags service regexp) (target ''replacement''))))))
      else Inl (UnsupportedRecordType rtype))"

definition parse_record :: "dns_lib \<Rightarrow> zone_json_record \<Rightarrow> dns_name \<Rightarrow> u32 \<Rightarrow> zone_error + dns_record" where
  "parse_record L entry name ttl = map_ok (record_from_rdata name ttl) (parse_rdata L entry)"

subsection \<open>Loading a zone\<close>

definition parse_zone_source :: "string \<Rightarrow> zone_error + zone_source" where
  "parse_zone_source source =
     (let source = trim source in
      if starts_with source ''http://'' \<or> starts_with source ''https://'' then Inr (SourceUrl source)
      else case strip_prefix source ''file://'' of
        Some path \<Rightarrow> Inr (SourceFile path)
      | None \<Rightarrow>
          if str_contains source ''://'' then Inl (UnsupportedScheme source)
          else Inr (SourceFile source))"

fun load_source_content ::
  "zone_io \<Rightarrow> zone_source \<Rightarrow> zone_source_auth option \<Rightarrow> zone_error + string" where
  "load_source_content io (SourceFile path) auth = map_err SourceError (zio_read_file io path)"
| "load_source_content io (SourceUrl url) auth =
     res_bind (map_err SourceError (zio_get io auth url)) (\<lambda>response.
     res_bind
       (case hr_content_length response of
          Some n \<Rightarrow> if n > max_zone_source_bytes then Inl (SourceTooLarge n) else Inr ()
        | None \<Rightarrow> Inr ()) (\<lambda>_.
     res_bind (map_err SourceError (hr_text response)) (\<lambda>body.
     if int (length body) > max_zone_source_bytes then Inl (SourceTooLarge (int (length body)))
     else Inr body)))"

definition push_record ::
  "string \<Rightarrow> dns_record \<Rightarrow> (string, dns_record list) hash_map \<Rightarrow> (string, dns_record list) hash_map" where
  "push_record key r m = hm_insert key ((case map_of m key of None \<Rightarrow> [] | Some rs \<Rightarrow> rs) @ [r]) m"

definition has_type :: "record_type \<Rightarrow> dns_record list option \<Rightarrow> bool" where
  "has_type t rs \<longleftrightarrow> (case rs of None \<Rightarrow> False | Some rs \<Rightarrow> list_ex (\<lambda>r. record_type_of r = t) rs)"

definition ensure_default_apex_ns ::
  "dns_lib \<Rightarrow> string \<Rightarrow> u32 \<Rightarrow> (string, dns_record list) hash_map
   \<Rightarrow> zone_error + (string, dns_record list) hash_map" where
  "ensure_default_apex_ns L zone ttl_default m =
     (if has_type TypeNS (map_of m zone) then Inr m
      else
        res_bind (fqdn_to_name L (''ns1.'' @ zone)) (\<lambda>ns_target.
        res_bind (fqdn_to_name L zone) (\<lambda>zone_name.
        Inr (push_record zone (record_from_rdata zone_name ttl_default (RdNS ns_target)) m))))"

definition parse_serial_or_default :: "string option \<Rightarrow> u32 \<Rightarrow> u32" where
  "parse_serial_or_default value dflt =
     (case Option.bind value (\<lambda>raw. parse_u32 (trim raw)) of None \<Rightarrow> dflt | Some n \<Rightarrow> n)"

definition build_default_soa_record ::
  "dns_lib \<Rightarrow> zone_json_document \<Rightarrow> string \<Rightarrow> u32 \<Rightarrow> zone_error + dns_record" where
  "build_default_soa_record L document zone ttl_default =
     res_bind (fqdn_to_name L zone) (\<lambda>zone_name.
     res_bind (fqdn_to_name L (''ns1.'' @ zone)) (\<lambda>mname.
     res_bind (fqdn_to_name L (''hostmaster.'' @ zone)) (\<lambda>rname.
     Inr (record_from_rdata zone_name ttl_default
       (RdSOA mname rname (parse_serial_or_default (zd_serial document) 1) 3600 900 604800 300)))))"

text \<open>The loop over the entries of the document: the records by name and the SOA found so far.\<close>

fun load_entries ::
  "dns_lib \<Rightarrow> string \<Rightarrow> u32 \<Rightarrow> zone_json_record list
   \<Rightarrow> (string, dns_record list) hash_map \<times> dns_record option
   \<Rightarrow> zone_error + (string, dns_record list) hash_map \<times> dns_record option" where
  "load_entries L zone ttl_default [] acc = Inr acc"
| "load_entries L zone ttl_default (entry # entries) (m, soa) =
     res_bind (resolve_record_name zone (zj_name entry)) (\<lambda>name_key.
     res_bind (fqdn_to_name L name_key) (\<lambda>name.
     res_bind (parse_record L entry name (case zj_ttl entry of None \<Rightarrow> ttl_default | Some t \<Rightarrow> t)) (\<lambda>record.
     load_entries L zone ttl_default entries
       (push_record name_key record m,
        if record_type_of record = TypeSOA \<and> name_key = zone \<and> soa = None then Some record else soa))))"

definition load_document :: "dns_lib \<Rightarrow> string \<Rightarrow> zone_json_document \<Rightarrow> zone_error + zone_snapshot" where
  "load_document L expected_zone document =
     res_bind (ok_or EmptyJsonZone (normalize_name (zd_zone document))) (\<lambda>json_zone.
     res_bind (ok_or EmptyConfiguredZone (normalize_name expected_zone)) (\<lambda>expected.
     if json_zone \<noteq> expected then Inl (ZoneMismatch expected json_zone)
     else
       (let ttl_default = (case zd_ttl_default document of None \<Rightarrow> 3600 | Some t \<Rightarrow> t) in
        res_bind (load_entries L json_zone ttl_default (zd_records document) ([], None)) (\<lambda>(m, soa).
        res_bind (ensure_default_apex_ns L json_zone ttl_default m) (\<lambda>m.
        case soa of
          Some r \<Rightarrow> Inr \<lparr>zs_zone = json_zone, zs_records_by_name = m, zs_soa = Some r\<rparr>
        | None \<Rightarrow>
            res_bind (build_default_soa_record L document json_zone ttl_default) (\<lambda>r.
            Inr \<lparr>zs_zone = json_zone, zs_records_by_name = push_record json_zone r m,
                 zs_soa = Some r\<rparr>))))))"

definition load_snapshot ::
  "dns_lib \<Rightarrow> zone_io \<Rightarrow> string \<Rightarrow> zone_source \<Rightarrow> zone_source_auth option \<Rightarrow> zone_error + zone_snapshot" where
  "load_snapshot L io expected_zone source auth =
     res_bind (load_source_content io source auth) (\<lambda>content.
     res_bind (map_err JsonError (zio_parse_document io content)) (load_document L expected_zone))"

text \<open>
  \<open>from_source\<close> gives the initial snapshot and, for a URL, the refresh task that is started with its
  interval; one tick of that task replaces the snapshot or keeps the last good one.
\<close>

definition authority_from_source ::
  "dns_lib \<Rightarrow> zone_io \<Rightarrow> string \<Rightarrow> string \<Rightarrow> u64 option \<Rightarrow> zone_source_auth option
   \<Rightarrow> zone_error + zone_snapshot \<times> (string \<times> u64) option" where
  "authority_from_source L io zone source check_interval auth =
     res_bind (parse_zone_source source) (\<lambda>source.
     res_bind (load_snapshot L io zone source auth) (\<lambda>initial.
     Inr (initial,
       case source of
         SourceFile _ \<Rightarrow> None
       | SourceUrl url \<Rightarrow>
           Some (url, case check_interval of None \<Rightarrow> default_url_check_interval_secs | Some i \<Rightarrow> i))))"

definition refresh_zone ::
  "dns_lib \<Rightarrow> zone_io \<Rightarrow> string \<Rightarrow> string \<Rightarrow> zone_source_auth option \<Rightarrow> zone_snapshot \<Rightarrow> zone_snapshot" where
  "refresh_zone L io zone url auth snapshot =
     (case load_snapshot L io zone (SourceUrl url) auth of
        Inl _ \<Rightarrow> snapshot
      | Inr new_snapshot \<Rightarrow> new_snapshot)"

subsection \<open>Answering\<close>

definition filter_answers :: "dns_record list \<Rightarrow> record_type \<Rightarrow> dns_record list" where
  "filter_answers records query_type =
     (if query_type = TypeANY then records
      else filter (\<lambda>r. record_type_of r = query_type) records)"

definition add_glue :: "dns_lib \<Rightarrow> dns_record list \<Rightarrow> dns_record list \<Rightarrow> dns_record list" where
  "add_glue L target_records glue =
     fold (\<lambda>r glue.
       if record_type_of r \<noteq> TypeA \<and> record_type_of r \<noteq> TypeAAAA then glue
       else if list_ex (\<lambda>existing. lib_record_eq L existing r) glue then glue
       else glue @ [r]) target_records glue"

definition collect_ns_glue_records ::
  "dns_lib \<Rightarrow> dns_record list \<Rightarrow> (string, dns_record list) hash_map \<Rightarrow> dns_record list" where
  "collect_ns_glue_records L answers m =
     fold (\<lambda>answer glue.
       (case r_data answer of
          RdNS target \<Rightarrow>
            (case Option.bind (normalize_name (lib_name_to_ascii L target)) (map_of m) of
               None \<Rightarrow> glue
             | Some target_records \<Rightarrow> add_glue L target_records glue)
        | _ \<Rightarrow> glue)) answers []"

definition authority_message ::
  "dns_lib \<Rightarrow> zone_snapshot \<Rightarrow> dns_message \<Rightarrow> dns_query \<Rightarrow> string \<Rightarrow> dns_message" where
  "authority_message L snapshot request question query_name =
     (let response = add_query question ((message_new (m_id request) MtResponse OpQuery)
            \<lparr>m_recursion_desired := m_recursion_desired request, m_recursion_available := False,
             m_authoritative := True\<rparr>);
          with_soa = (\<lambda>m. case zs_soa snapshot of None \<Rightarrow> m | Some soa \<Rightarrow> add_authority soa m)
      in
      if \<not> domain_matches_zone query_name (zs_zone snapshot) then response\<lparr>m_response_code := Refused\<rparr>
      else case map_of (zs_records_by_name snapshot) query_name of
        None \<Rightarrow> with_soa (response\<lparr>m_response_code := NXDomain\<rparr>)
      | Some records \<Rightarrow>
          (let answers = filter_answers records (q_type question);
               answers = (if answers = [] \<and> q_type question \<noteq> TypeCNAME
                          then filter_answers records TypeCNAME else answers)
           in if answers = [] then with_soa (response\<lparr>m_response_code := NoError\<rparr>)
              else
                fold add_additional (collect_ns_glue_records L answers (zs_records_by_name snapshot))
                  (fold add_answer answers (response\<lparr>m_response_code := NoError\<rparr>))))"

definition authority_resolve :: "dns_lib \<Rightarrow> zone_snapshot \<Rightarrow> bytes \<Rightarrow> upstream_error + bytes" where
  "authority_resolve L snapshot query =
     res_bind (map_err (\<lambda>e. Protocol (''invalid DNS query: '' @ e)) (lib_from_vec L query)) (\<lambda>request.
     case m_queries request of
       [] \<Rightarrow> Inl (Protocol ''DNS query has no question'')
     | question # _ \<Rightarrow>
         res_bind (ok_or (Protocol ''invalid query name'')
             (normalize_name (lib_name_to_ascii L (q_name question)))) (\<lambda>query_name.
         map_err (\<lambda>e. Protocol
             ((if domain_matches_zone query_name (zs_zone snapshot)
               then ''failed to encode DNS response: '' else ''failed to encode refused response: '') @ e))
           (lib_to_vec L (authority_message L snapshot request question query_name))))"

definition authority_upstream :: "dns_lib \<Rightarrow> string \<Rightarrow> zone_snapshot \<Rightarrow> 'n upstream" where
  "authority_upstream L zone snapshot =
     \<lparr>up_label = ''zone:'' @ zone, up_resolve = (\<lambda>query w. (authority_resolve L snapshot query, w))\<rparr>"

subsection \<open>Listing and searching\<close>

text \<open>
  The display of a record's data and the fuzzy matcher come from libraries (\<open>Display\<close> of addresses and
  names, \<open>SkimMatcherV2\<close>) and are arguments. \<open>to_uppercase\<close> is Unicode: besides the ASCII letters, the
  only character whose upper case occurs in a type name is the long s (bytes C5 BF).
\<close>

record zone_record =
  zr_name :: string
  zr_record_type :: record_type
  zr_ttl :: u32
  zr_data :: string
  zr_zone :: string

fun upcase_long_s :: "string \<Rightarrow> string" where
  "upcase_long_s (a # b # s) =
     (if a = CHR 0xC5 \<and> b = CHR 0xBF then CHR ''S'' # upcase_long_s s
      else a # upcase_long_s (b # s))"
| "upcase_long_s s = s"

definition parse_record_type_filter :: "string \<Rightarrow> record_type option" where
  "parse_record_type_filter s =
     map_of [(''A'', TypeA), (''AAAA'', TypeAAAA), (''NS'', TypeNS), (''CNAME'', TypeCNAME),
             (''PTR'', TypePTR), (''MX'', TypeMX), (''TXT'', TypeTXT), (''SOA'', TypeSOA),
             (''SRV'', TypeSRV), (''CAA'', TypeCAA), (''TLSA'', TypeTLSA), (''NAPTR'', TypeNAPTR)]
       (to_ascii_uppercase (upcase_long_s s))"

definition record_to_zone_record :: "(rdata \<Rightarrow> string) \<Rightarrow> dns_record \<Rightarrow> string \<Rightarrow> string \<Rightarrow> zone_record" where
  "record_to_zone_record display r name zone =
     \<lparr>zr_name = name, zr_record_type = record_type_of r, zr_ttl = r_ttl r, zr_data = display (r_data r),
      zr_zone = zone\<rparr>"

definition type_matches :: "record_type option \<Rightarrow> dns_record \<Rightarrow> bool" where
  "type_matches type_filter r \<longleftrightarrow> (case type_filter of None \<Rightarrow> True | Some t \<Rightarrow> record_type_of r = t)"

definition snapshot_to_zone_records ::
  "(rdata \<Rightarrow> string) \<Rightarrow> zone_snapshot \<Rightarrow> record_type option \<Rightarrow> zone_record list" where
  "snapshot_to_zone_records display snapshot type_filter =
     concat (map (\<lambda>(name, records).
       map (\<lambda>r. record_to_zone_record display r name (zs_zone snapshot))
         (filter (type_matches type_filter) records))
       (zs_records_by_name snapshot))"

definition record_count :: "zone_snapshot \<Rightarrow> nat" where
  "record_count snapshot = sum_list (map (length \<circ> snd) (zs_records_by_name snapshot))"

definition list_records ::
  "(rdata \<Rightarrow> string) \<Rightarrow> zone_snapshot \<Rightarrow> string option \<Rightarrow> zone_record list" where
  "list_records display snapshot record_type =
     snapshot_to_zone_records display snapshot (Option.bind record_type parse_record_type_filter)"

definition search_records ::
  "(rdata \<Rightarrow> string) \<Rightarrow> (string \<Rightarrow> string \<Rightarrow> int option) \<Rightarrow> zone_snapshot
   \<Rightarrow> string \<Rightarrow> string option \<Rightarrow> nat \<Rightarrow> (zone_record \<times> int) list" where
  "search_records display fuzzy_match snapshot query record_type limit =
     (let type_filter = Option.bind record_type parse_record_type_filter;
          scored = concat (map (\<lambda>(name, records).
            (let score = fuzzy_match name query in
             List.map_filter (\<lambda>r. map_option (\<lambda>s.
                 (record_to_zone_record display r name (zs_zone snapshot), s)) score)
               (filter (type_matches type_filter) records)))
            (zs_records_by_name snapshot))
      in take limit (sort_key (\<lambda>b. - snd b) scored))"

subsection \<open>Lemmas on names and zones\<close>

lemma normalize_name_Some:
  "normalize_name v = Some n \<Longrightarrow>
   n \<noteq> [] \<and> \<not> ends_with_char n (CHR ''.'') \<and> to_ascii_lowercase n = n"
  by (auto simp: normalize_name_def Let_def ends_with_char_lowercase trim_end_char_not_ends split: if_splits)

lemma domain_matches_zone_covers: "domain_matches_zone d z \<longleftrightarrow> covers z d"
proof
  assume "domain_matches_zone d z"
  then consider "d = z" | pre where "d = pre @ z" "ends_with_char pre (CHR ''.'')"
    by (auto simp: domain_matches_zone_def split: option.splits)
  then show "covers z d"
  proof cases
    case 2
    then have "pre = butlast pre @ [CHR ''.'']" by (metis append_butlast_last_id ends_with_char_def)
    then have "d = butlast pre @ CHR ''.'' # z" using 2(1) by (metis append.assoc append_Cons append_Nil)
    then show ?thesis by (metis covers_sub)
  qed simp
next
  assume "covers z d"
  then show "domain_matches_zone d z"
    by (auto simp: covers_def domain_matches_zone_def suffix_def ends_with_char_def split: option.splits)
qed

lemma push_record_lookup:
  "map_of (push_record k r m) k' =
     (if k' = k then Some ((case map_of m k of None \<Rightarrow> [] | Some rs \<Rightarrow> rs) @ [r]) else map_of m k')"
  by (simp add: push_record_def)

lemma resolve_record_name_normal:
  assumes "resolve_record_name zone label = Inr key" and "normalize_name v = Some zone"
  shows "key \<noteq> [] \<and> \<not> ends_with_char key (CHR ''.'') \<and> to_ascii_lowercase key = key"
  using assms normalize_name_Some
  by (auto simp: resolve_record_name_def Let_def split: if_splits)

subsection \<open>The snapshot invariant\<close>

definition normal_key :: "string \<Rightarrow> bool" where
  "normal_key k \<longleftrightarrow> k \<noteq> [] \<and> \<not> ends_with_char k (CHR ''.'') \<and> to_ascii_lowercase k = k"

definition records_inv :: "(string, dns_record list) hash_map \<Rightarrow> bool" where
  "records_inv m \<longleftrightarrow> distinct (map fst m) \<and> (\<forall>k rs. map_of m k = Some rs \<longrightarrow> normal_key k \<and> rs \<noteq> [])"

definition soa_inv :: "string \<Rightarrow> (string, dns_record list) hash_map \<Rightarrow> dns_record option \<Rightarrow> bool" where
  "soa_inv zone m soa \<longleftrightarrow> (\<forall>r. soa = Some r \<longrightarrow> record_type_of r = TypeSOA \<and>
     (\<exists>rs. map_of m zone = Some rs \<and> r \<in> set rs))"

definition snapshot_inv :: "zone_snapshot \<Rightarrow> bool" where
  "snapshot_inv s \<longleftrightarrow>
     normal_key (zs_zone s) \<and> records_inv (zs_records_by_name s)
     \<and> zs_soa s \<noteq> None \<and> soa_inv (zs_zone s) (zs_records_by_name s) (zs_soa s)
     \<and> has_type TypeNS (map_of (zs_records_by_name s) (zs_zone s))"

lemma records_inv_push: "records_inv m \<Longrightarrow> normal_key k \<Longrightarrow> records_inv (push_record k r m)"
  by (auto simp: records_inv_def push_record_lookup push_record_def)

lemma soa_inv_push: "soa_inv zone m soa \<Longrightarrow> soa_inv zone (push_record k r m) soa"
  by (fastforce simp: soa_inv_def push_record_lookup)

lemma has_type_push:
  "has_type t (map_of m z) \<Longrightarrow> has_type t (map_of (push_record k r m) z)"
  "record_type_of r = t \<Longrightarrow> has_type t (map_of (push_record z r m) z)"
  by (auto simp: has_type_def push_record_lookup list_ex_iff split: option.splits)

lemma load_entries_inv:
  assumes "load_entries L zone ttl es (m, soa) = Inr (m', soa')" and "normalize_name v = Some zone"
    and "records_inv m" and "soa_inv zone m soa"
  shows "records_inv m' \<and> soa_inv zone m' soa'"
  using assms
proof (induction es arbitrary: m soa)
  case (Cons entry es)
  from Cons.prems(1) obtain key name r where key: "resolve_record_name zone (zj_name entry) = Inr key"
    and rest: "load_entries L zone ttl es (push_record key r m,
      if record_type_of r = TypeSOA \<and> key = zone \<and> soa = None then Some r else soa) = Inr (m', soa')"
    by auto
  have "normal_key key"
    using resolve_record_name_normal [OF key Cons.prems(2)] by (simp add: normal_key_def)
  then have "records_inv (push_record key r m)" using Cons.prems(3) records_inv_push by blast
  moreover have "soa_inv zone (push_record key r m)
      (if record_type_of r = TypeSOA \<and> key = zone \<and> soa = None then Some r else soa)"
    using soa_inv_push [OF Cons.prems(4)] by (auto simp: soa_inv_def push_record_lookup)
  ultimately show ?case using Cons.IH [OF rest Cons.prems(2)] by blast
qed simp

lemma ensure_default_apex_ns_inv:
  assumes "ensure_default_apex_ns L zone ttl m = Inr m'" and "normal_key zone"
  shows "has_type TypeNS (map_of m' zone) \<and> (records_inv m \<longrightarrow> records_inv m')
    \<and> (soa_inv zone m soa \<longrightarrow> soa_inv zone m' soa)"
  using assms
  by (auto simp: ensure_default_apex_ns_def record_type_of_def record_from_rdata_def
      intro!: has_type_push(2) records_inv_push soa_inv_push split: if_splits)

lemma load_document_inv:
  assumes "load_document L expected doc = Inr s"
  shows "snapshot_inv s \<and> normalize_name expected = Some (zs_zone s)"
proof -
  from assms obtain zone ttl m soa m2 where
    zone: "normalize_name (zd_zone doc) = Some zone" "normalize_name expected = Some zone"
    and es: "load_entries L zone ttl (zd_records doc) ([], None) = Inr (m, soa)"
    and ns: "ensure_default_apex_ns L zone ttl m = Inr m2"
    and s: "(case soa of
          Some r \<Rightarrow> Inr \<lparr>zs_zone = zone, zs_records_by_name = m2, zs_soa = Some r\<rparr>
        | None \<Rightarrow> res_bind (build_default_soa_record L doc zone ttl) (\<lambda>r.
            Inr \<lparr>zs_zone = zone, zs_records_by_name = push_record zone r m2, zs_soa = Some r\<rparr>)) = Inr s"
    by (auto simp: load_document_def Let_def split: if_splits)
  have nk: "normal_key zone" using normalize_name_Some [OF zone(1)] by (simp add: normal_key_def)
  have "records_inv m \<and> soa_inv zone m soa"
  proof -
    have "records_inv []" and "soa_inv zone [] None" by (auto simp: records_inv_def soa_inv_def)
    then show ?thesis using load_entries_inv [OF es zone(1)] by blast
  qed
  then have inv: "records_inv m2" "soa_inv zone m2 soa" "has_type TypeNS (map_of m2 zone)"
    using ensure_default_apex_ns_inv [OF ns nk] by auto
  show ?thesis
  proof (cases soa)
    case (Some r)
    then show ?thesis using s inv nk zone(2) by (auto simp: snapshot_inv_def)
  next
    case None
    then obtain r where r: "build_default_soa_record L doc zone ttl = Inr r"
      "s = \<lparr>zs_zone = zone, zs_records_by_name = push_record zone r m2, zs_soa = Some r\<rparr>"
      using s by auto
    then have "record_type_of r = TypeSOA"
      by (auto simp: build_default_soa_record_def record_type_of_def record_from_rdata_def)
    then show ?thesis
      using r(2) inv nk zone(2) records_inv_push [OF inv(1) nk] has_type_push(1) [OF inv(3), of zone r]
      by (auto simp: snapshot_inv_def soa_inv_def push_record_lookup)
  qed
qed

text \<open>Every entry of the document is found again under its name.\<close>

lemma push_record_mono:
  "map_of m k = Some rs \<Longrightarrow> \<exists>rs'. map_of (push_record k' r m) k = Some rs' \<and> set rs \<subseteq> set rs'"
  by (auto simp: push_record_lookup)

lemma load_entries_mono:
  assumes "load_entries L zone ttl es (m, soa) = Inr (m', soa')" and "map_of m k = Some rs"
  shows "\<exists>rs'. map_of m' k = Some rs' \<and> set rs \<subseteq> set rs'"
  using assms
proof (induction es arbitrary: m soa rs)
  case (Cons entry es)
  from Cons.prems(1) obtain key r soa1 where
    "load_entries L zone ttl es (push_record key r m, soa1) = Inr (m', soa')" by auto
  with Cons.IH push_record_mono [OF Cons.prems(2), of key r] show ?case by (meson order_trans)
qed auto

lemma load_entries_complete:
  assumes "load_entries L zone ttl es (m, soa) = Inr (m', soa')" and "entry \<in> set es"
  shows "\<exists>key name r rs. resolve_record_name zone (zj_name entry) = Inr key \<and> fqdn_to_name L key = Inr name
    \<and> parse_record L entry name (case zj_ttl entry of None \<Rightarrow> ttl | Some t \<Rightarrow> t) = Inr r
    \<and> map_of m' key = Some rs \<and> r \<in> set rs"
  using assms
proof (induction es arbitrary: m soa)
  case (Cons e es)
  from Cons.prems(1) obtain key name r soa1 where
    e: "resolve_record_name zone (zj_name e) = Inr key" "fqdn_to_name L key = Inr name"
      "parse_record L e name (case zj_ttl e of None \<Rightarrow> ttl | Some t \<Rightarrow> t) = Inr r"
    and rest: "load_entries L zone ttl es (push_record key r m, soa1) = Inr (m', soa')" by auto
  show ?case
  proof (cases "entry = e")
    case True
    have "\<exists>rs. map_of (push_record key r m) key = Some rs \<and> r \<in> set rs"
      by (simp add: push_record_lookup)
    then have "\<exists>rs. map_of m' key = Some rs \<and> r \<in> set rs" using load_entries_mono [OF rest] by blast
    then show ?thesis using e True by blast
  next
    case False
    then show ?thesis using Cons.IH [OF rest] Cons.prems(2) by simp
  qed
qed simp

subsection \<open>Properties\<close>

text \<open>
  C33. A zone document that loads gives a complete zone: it is the configured zone, its records are
  filed under normalised names, its apex has an NS record and a SOA record (the default ones if the
  document has none), and every entry of the document is found under its name with its parsed data.
\<close>

theorem zone_load_complete:
  assumes "load_document L expected doc = Inr s"
  shows "normalize_name expected = Some (zs_zone s)
    \<and> (\<forall>k rs. map_of (zs_records_by_name s) k = Some rs \<longrightarrow>
         k \<noteq> [] \<and> \<not> ends_with_char k (CHR ''.'') \<and> to_ascii_lowercase k = k \<and> rs \<noteq> [])
    \<and> (\<exists>soa apex. zs_soa s = Some soa \<and> map_of (zs_records_by_name s) (zs_zone s) = Some apex
         \<and> soa \<in> set apex \<and> record_type_of soa = TypeSOA
         \<and> (\<exists>ns\<in>set apex. record_type_of ns = TypeNS))
    \<and> (\<forall>entry\<in>set (zd_records doc). \<exists>key name r rs.
         resolve_record_name (zs_zone s) (zj_name entry) = Inr key \<and> fqdn_to_name L key = Inr name
         \<and> parse_rdata L entry = Inr (r_data r) \<and> r_name r = name
         \<and> map_of (zs_records_by_name s) key = Some rs \<and> r \<in> set rs)"
proof -
  have inv: "snapshot_inv s" and exp: "normalize_name expected = Some (zs_zone s)"
    using load_document_inv [OF assms] by auto
  from assms obtain ttl m soa m2 where
    es: "load_entries L (zs_zone s) ttl (zd_records doc) ([], None) = Inr (m, soa)"
    and ns: "ensure_default_apex_ns L (zs_zone s) ttl m = Inr m2"
    and recs: "zs_records_by_name s = m2 \<or> (\<exists>r. zs_records_by_name s = push_record (zs_zone s) r m2)"
    by (fastforce simp: load_document_def Let_def split: if_splits option.splits)
  have m2: "m2 = m \<or> (\<exists>r. m2 = push_record (zs_zone s) r m)"
    using ns by (auto simp: ensure_default_apex_ns_def split: if_splits)
  have mono: "\<exists>rs'. map_of (zs_records_by_name s) k = Some rs' \<and> set rs \<subseteq> set rs'"
    if found: "map_of m k = Some rs" for k rs
  proof -
    obtain rs1 where "map_of m2 k = Some rs1" "set rs \<subseteq> set rs1"
      using m2 found push_record_mono [OF found] by (metis subset_refl)
    then show ?thesis using recs push_record_mono [of m2 k rs1] by (metis subset_trans subset_refl)
  qed
  have entry: "\<exists>key name r rs. resolve_record_name (zs_zone s) (zj_name entry) = Inr key
      \<and> fqdn_to_name L key = Inr name \<and> parse_rdata L entry = Inr (r_data r) \<and> r_name r = name
      \<and> map_of (zs_records_by_name s) key = Some rs \<and> r \<in> set rs"
    if mem: "entry \<in> set (zd_records doc)" for entry
  proof -
    obtain key name r rs where e: "resolve_record_name (zs_zone s) (zj_name entry) = Inr key"
      "fqdn_to_name L key = Inr name" "map_of m key = Some rs" "r \<in> set rs"
      and p: "parse_record L entry name (case zj_ttl entry of None \<Rightarrow> ttl | Some t \<Rightarrow> t) = Inr r"
      using load_entries_complete [OF es mem] by blast
    have "parse_rdata L entry = Inr (r_data r) \<and> r_name r = name"
      using p by (auto simp: parse_record_def record_from_rdata_def)
    then show ?thesis using e mono [OF e(3)] by blast
  qed
  obtain soa_r apex where "zs_soa s = Some soa_r" "map_of (zs_records_by_name s) (zs_zone s) = Some apex"
    "soa_r \<in> set apex" "record_type_of soa_r = TypeSOA" "\<exists>ns\<in>set apex. record_type_of ns = TypeNS"
    using inv by (auto simp: snapshot_inv_def soa_inv_def has_type_def list_ex_iff)
  then show ?thesis using exp inv entry
    by (auto simp: snapshot_inv_def records_inv_def normal_key_def)
qed

lemma fold_add_answer: "fold add_answer rs m = m\<lparr>m_answers := m_answers m @ rs\<rparr>"
  by (induction rs arbitrary: m) (auto simp: add_answer_def)

lemma fold_add_additional: "fold add_additional rs m = m\<lparr>m_additionals := m_additionals m @ rs\<rparr>"
  by (induction rs arbitrary: m) (auto simp: add_additional_def)

lemmas authority_message_simps = authority_message_def message_new_def add_query_def
  add_authority_def fold_add_answer fold_add_additional Let_def

text \<open>
  C32. What an authoritative answer says. It repeats the identifier and the question and is marked
  authoritative. A name outside the zone is refused. A name without records does not exist
  (\<open>NXDomain\<close>); a name with records but none of the type asked, nor a CNAME, exists without data
  (\<open>NoError\<close>, no answer); both carry the SOA of the zone. Otherwise the answers are exactly the
  records of the type asked (all of them for ANY) or, when there are none, the CNAME records.
\<close>

theorem authority_answer:
  assumes "snapshot_inv s" and "a = authority_message L s request q n"
  shows "m_id a = m_id request \<and> m_queries a = [q] \<and> m_authoritative a \<and> m_type a = MtResponse
    \<and> (\<not> covers (zs_zone s) n \<longrightarrow> m_response_code a = Refused \<and> m_answers a = [] \<and> m_authorities a = [])
    \<and> (covers (zs_zone s) n \<longrightarrow> map_of (zs_records_by_name s) n = None \<longrightarrow>
         m_response_code a = NXDomain \<and> m_answers a = [] \<and> m_authorities a = [the (zs_soa s)])
    \<and> (\<forall>rs. covers (zs_zone s) n \<longrightarrow> map_of (zs_records_by_name s) n = Some rs \<longrightarrow>
         m_response_code a = NoError
         \<and> m_answers a =
             (if q_type q = TypeANY then rs
              else if \<exists>r\<in>set rs. record_type_of r = q_type q
              then filter (\<lambda>r. record_type_of r = q_type q) rs
              else filter (\<lambda>r. record_type_of r = TypeCNAME) rs)
         \<and> m_authorities a = (if m_answers a = [] then [the (zs_soa s)] else []))"
proof -
  obtain soa where soa: "zs_soa s = Some soa" using assms(1) by (auto simp: snapshot_inv_def)
  show ?thesis
  proof (cases "covers (zs_zone s) n")
    case False
    then show ?thesis
      unfolding assms(2) by (simp add: authority_message_simps domain_matches_zone_covers)
  next
    case True
    show ?thesis
    proof (cases "map_of (zs_records_by_name s) n")
      case None
      with True soa show ?thesis
        unfolding assms(2) by (simp add: authority_message_simps domain_matches_zone_covers)
    next
      case (Some rs)
      have "rs \<noteq> []" using Some assms(1) by (auto simp: snapshot_inv_def records_inv_def)
      with True Some soa show ?thesis
        unfolding assms(2)
        by (auto simp: authority_message_simps domain_matches_zone_covers filter_answers_def filter_empty_conv)
    qed
  qed
qed

text \<open>
  Every zone a resolver serves is well formed, whatever its source returns over time: a zone
  that starts satisfies the snapshot invariant for the configured name, a refresh that fails at any
  step keeps the snapshot that was being served, and a refresh that succeeds serves the new one, for
  the same zone and again well formed.
\<close>

theorem zone_refresh_safe:
  assumes "authority_from_source L io zone source interval auth = Inr (s0, task)"
    and "s = fold (\<lambda>(io, url) s. refresh_zone L io zone url auth s) ticks s0"
  shows "snapshot_inv s \<and> zs_zone s = zs_zone s0
    \<and> (\<forall>io url e. load_snapshot L io zone (SourceUrl url) auth = Inl e \<longrightarrow> refresh_zone L io zone url auth s = s)
    \<and> (\<forall>io url s'. load_snapshot L io zone (SourceUrl url) auth = Inr s' \<longrightarrow> refresh_zone L io zone url auth s = s')"
proof -
  have load: "snapshot_inv s' \<and> normalize_name zone = Some (zs_zone s')"
    if "load_snapshot L io' zone src auth = Inr s'" for io' src s'
    using that load_document_inv by (auto simp: load_snapshot_def)
  let ?good = "\<lambda>t. snapshot_inv t \<and> normalize_name zone = Some (zs_zone t)"
  have s0: "?good s0" using assms(1) load by (auto simp: authority_from_source_def)
  have one: "?good (refresh_zone L io' zone url auth t)" if "?good t" for io' url t
    using that load by (auto simp: refresh_zone_def split: sum.split)
  have "?good t \<Longrightarrow> ?good (fold (\<lambda>(io, url) s. refresh_zone L io zone url auth s) ticks t)" for t
  proof (induction ticks arbitrary: t)
    case (Cons tick ticks)
    then show ?case using one by (cases tick) simp
  qed simp
  then have "?good s" using s0 assms(2) by blast
  then show ?thesis using s0 by (auto simp: refresh_zone_def)
qed

subsection \<open>Certificate data\<close>

definition hex_char :: "nat \<Rightarrow> char" where
  "hex_char d = ''0123456789abcdef'' ! d"

definition encode_hex :: "bytes \<Rightarrow> string" where
  "encode_hex bs = concat (map (\<lambda>b. [hex_char (unat b div 16), hex_char (unat b mod 16)]) bs)"

lemma hex_char_facts:
  assumes "d < 16"
  shows "digit_of 16 (hex_char d) = Some (int d) \<and> hex_char d \<noteq> CHR ''+''
    \<and> (of_char (hex_char d) :: int) < 128 \<and> 32 < (of_char (hex_char d) :: int)"
proof -
  have "list_all (\<lambda>d. digit_of 16 (hex_char d) = Some (int d) \<and> hex_char d \<noteq> CHR ''+''
    \<and> (of_char (hex_char d) :: int) < 128 \<and> 32 < (of_char (hex_char d) :: int)) [0..<16]" by code_simp
  then show ?thesis using assms by (auto simp: list_all_iff)
qed

lemma unat_byte: "unat (b :: u8) < 256"
  using unsigned_less [of b] by simp

lemma encode_hex_trim: "trim (encode_hex bs) = encode_hex bs"
proof (rule trim_ws_free, rule ws_free_no_lead, rule ballI)
  fix c assume "c \<in> set (encode_hex bs)"
  then obtain b :: u8 where "c = hex_char (unat b div 16) \<or> c = hex_char (unat b mod 16)"
    by (auto simp: encode_hex_def)
  moreover have "unat b div 16 < 16" "unat b mod 16 < 16" using unat_byte [of b] by auto
  ultimately obtain d where "d < 16" "c = hex_char d" by blast
  then show "\<not> ws_lead c" using hex_char_facts by (fastforce dest: ws_lead_range)
qed

lemma decode_encode_pairs: "decode_pairs (encode_hex bs) = Inr bs"
proof (induction bs)
  case (Cons b bs)
  have "unat b div 16 < 16" "unat b mod 16 < 16" using unat_byte [of b] by auto
  note f = hex_char_facts [OF this(1)] hex_char_facts [OF this(2)]
  have "word_of_int (16 * int (unat b div 16) + int (unat b mod 16)) = b"
    by (metis mult_div_mod_eq of_nat_add of_nat_mult of_nat_numeral uint_nat word_of_int_uint)
  then show ?case using Cons f by (simp add: encode_hex_def two_bytes_utf8_def Let_def)
qed (simp add: encode_hex_def)

text \<open>Certificate data survives hexadecimal encoding: decoding the digits of any bytes gives them back.\<close>

theorem decode_hex_roundtrip: "decode_hex (encode_hex bs) = Inr bs"
proof (cases "bs = []")
  case False
  have "length (encode_hex bs) = 2 * length bs" by (induction bs) (auto simp: encode_hex_def)
  moreover from this False have "encode_hex bs \<noteq> []" by auto
  ultimately show ?thesis by (simp add: decode_hex_def encode_hex_trim decode_encode_pairs Let_def)
qed (simp add: decode_hex_def encode_hex_def)

text \<open>
  The hexadecimal decoder accepts text that is not hexadecimal: a plus sign in front of a digit
  is read as a byte, because each pair goes through an integer parser that allows a sign.
\<close>

theorem decode_hex_accepts_sign: "decode_hex ''+f'' = Inr [15] \<and> digit_of 16 (CHR ''+'') = None"
  by code_simp

subsection \<open>Instances\<close>

definition lan_document :: zone_json_document where
  "lan_document =
     \<lparr>zd_zone = ''LAN.'', zd_ttl_default = None, zd_serial = Some ''7'',
      zd_records = [\<lparr>zj_name = ''nas'', zj_type = ''a'', zj_ttl = Some 60,
                     zj_data = JObject [(''address'', JString ''10.0.0.2'')]\<rparr>]\<rparr>"

definition lan_io :: zone_io where
  "lan_io = \<lparr>zio_read_file = (\<lambda>_. Inr ''{}''), zio_get = (\<lambda>_ _. Inl ''offline''),
     zio_parse_document = (\<lambda>_. Inr lan_document)\<rparr>"

definition lan_lib :: dns_lib where
  "lan_lib = table_lib [] (\<lambda>_. True)"

definition lan_snapshot :: zone_snapshot where
  "lan_snapshot =
     (let apex = DnsName [''lan'']; ns = DnsName [''ns1'', ''lan''];
          soa = record_from_rdata apex 3600 (RdSOA ns (DnsName [''hostmaster'', ''lan'']) 7 3600 900 604800 300)
      in \<lparr>zs_zone = ''lan'',
          zs_records_by_name =
            [(''nas.lan'', [record_from_rdata (DnsName [''nas'', ''lan'']) 60 (RdA 0x0A000002)]),
             (''lan'', [record_from_rdata apex 3600 (RdNS ns), soa])],
          zs_soa = Some soa\<rparr>)"

lemma lan_load: "load_document lan_lib ''lan'' lan_document = Inr lan_snapshot"
  by code_simp

theorem zone_load_complete_witness:
  "\<exists>key name r rs. resolve_record_name ''lan'' ''nas'' = Inr key \<and> fqdn_to_name lan_lib key = Inr name
     \<and> r_name r = name \<and> map_of (zs_records_by_name lan_snapshot) key = Some rs \<and> r \<in> set rs"
proof -
  have "zs_zone lan_snapshot = ''lan''" by (simp add: lan_snapshot_def Let_def)
  with zone_load_complete [OF lan_load] show ?thesis by (force simp: lan_document_def)
qed

theorem authority_answer_witness:
  "m_response_code (authority_message lan_lib lan_snapshot (message_new 5 MtQuery OpQuery)
     \<lparr>q_name = DnsName [''x'', ''lan''], q_type = TypeA, q_class = 1\<rparr> ''x.lan'') = NXDomain"
proof -
  have inv: "snapshot_inv lan_snapshot" using load_document_inv [OF lan_load] by simp
  have "covers (zs_zone lan_snapshot) ''x.lan''" and "map_of (zs_records_by_name lan_snapshot) ''x.lan'' = None"
    by code_simp+
  with authority_answer [OF inv refl, of lan_lib "message_new 5 MtQuery OpQuery" _ "''x.lan''"]
  show ?thesis by simp
qed

theorem zone_refresh_safe_witness:
  "snapshot_inv (refresh_zone lan_lib lan_io ''lan'' ''http://z'' None lan_snapshot)
   \<and> refresh_zone lan_lib lan_io ''lan'' ''http://z'' None lan_snapshot = lan_snapshot"
proof -
  have start: "authority_from_source lan_lib lan_io ''lan'' ''zone.json'' None None = Inr (lan_snapshot, None)"
    by code_simp
  have fail: "load_snapshot lan_lib lan_io ''lan'' (SourceUrl ''http://z'') None = Inl (SourceError ''offline'')"
    by code_simp
  from zone_refresh_safe [OF start, of lan_snapshot "[]"] fail
  have "refresh_zone lan_lib lan_io ''lan'' ''http://z'' None lan_snapshot = lan_snapshot"
    and "snapshot_inv lan_snapshot" by auto
  then show ?thesis by simp
qed

end
