(* ===== verification/ZoneForwarding.thy ===== *)
theory ZoneForwarding
  imports RequestPipeline ZoneAuthority
begin

text \<open>
  Zone-specific forwarding (\<open>src/use_cases/zone_forwarding.rs\<close>): entries that bind a zone to its own
  resolver, and the two pipeline stages that forward to the entry with the longest zone name that
  matches the query, one stage for the zones that bypass the filter and one for those that do not.

  \<open>zone_forwarding.rs\<close> and \<open>zone_authority.rs\<close> each have their own test of whether a name lies in a
  zone. The locale \<open>zone_matcher\<close> states what both promise, and holds the facts on nested zones.
\<close>

subsection \<open>Entries\<close>

record 'n zone_entry =
  ze_zone :: string
  ze_bypass_filter :: bool
  ze_fallback_to_default_resolvers :: bool
  ze_resolver :: "'n upstream"
  ze_searchable :: "zone_snapshot option"

definition normalize_zone :: "string \<Rightarrow> string option" where
  "normalize_zone value =
     (let trimmed = trim_end_char (trim value) (CHR ''.'') in
      if trimmed = [] then (if trim value = ''.'' then Some ''.'' else None)
      else Some (to_ascii_lowercase trimmed))"

definition forward_matches_zone :: "string \<Rightarrow> string \<Rightarrow> bool" where
  "forward_matches_zone domain zone \<longleftrightarrow>
     zone = ''.'' \<or> domain = zone
     \<or> (case strip_suffix domain zone of
          None \<Rightarrow> False
        | Some pre \<Rightarrow> ends_with_char pre (CHR ''.''))"

definition zone_entry_new ::
  "string \<Rightarrow> bool \<Rightarrow> bool \<Rightarrow> 'n upstream \<Rightarrow> string + 'n zone_entry" where
  "zone_entry_new zone bypass_filter fallback resolver =
     res_bind (ok_or ''zone name must not be empty'' (normalize_zone zone)) (\<lambda>zone.
     Inr \<lparr>ze_zone = zone, ze_bypass_filter = bypass_filter,
          ze_fallback_to_default_resolvers = fallback, ze_resolver = resolver, ze_searchable = None\<rparr>)"

definition with_searchable :: "zone_snapshot \<Rightarrow> 'n zone_entry \<Rightarrow> 'n zone_entry" where
  "with_searchable searchable entry = entry\<lparr>ze_searchable := Some searchable\<rparr>"

subsection \<open>The stages\<close>

definition sort_entries :: "'n zone_entry list \<Rightarrow> 'n zone_entry list" where
  "sort_entries entries = sort_key (\<lambda>entry. - int (length (ze_zone entry))) entries"

definition bypass_only :: "'n zone_entry list \<Rightarrow> 'n zone_entry list" where
  "bypass_only entries = sort_entries (filter ze_bypass_filter entries)"

definition non_bypass :: "'n zone_entry list \<Rightarrow> 'n zone_entry list" where
  "non_bypass entries = sort_entries (filter (\<lambda>entry. \<not> ze_bypass_filter entry) entries)"

definition matching_entry :: "'n zone_entry list \<Rightarrow> string \<Rightarrow> 'n zone_entry option" where
  "matching_entry entries domain =
     Option.bind (normalize_zone domain) (\<lambda>normalized_domain.
       find (\<lambda>entry. forward_matches_zone normalized_domain (ze_zone entry)) entries)"

definition extract_query_name :: "dns_lib \<Rightarrow> bytes \<Rightarrow> string option" where
  "extract_query_name L query =
     Option.bind (res_ok (lib_from_vec L query)) (\<lambda>message.
     case m_queries message of
       [] \<Rightarrow> None
     | q # _ \<Rightarrow> Some (lib_name_to_ascii L (q_name q)))"

definition zone_forwarding_stage :: "dns_lib \<Rightarrow> 'n zone_entry list \<Rightarrow> 'n stage" where
  "zone_forwarding_stage L entries request w =
     (case Option.bind (extract_query_name L (rq_query request)) (matching_entry entries) of
        None \<Rightarrow> (Inr None, w)
      | Some entry \<Rightarrow>
          (case up_resolve (ze_resolver entry) (rq_query request) w of
             (Inr response, w) \<Rightarrow>
               (Inr (Some (fix_response_id L response (rq_client_query_id request))), w)
           | (Inl error, w) \<Rightarrow>
               if ze_fallback_to_default_resolvers entry then (Inr None, w)
               else (Inr (Some (build_servfail_response L (rq_query request))), w)))"

subsection \<open>Zone membership as an interface\<close>

locale zone_matcher =
  fixes matches :: "string \<Rightarrow> string \<Rightarrow> bool"
  assumes matches_covers: "z \<noteq> ''.'' \<Longrightarrow> matches d z \<longleftrightarrow> covers z d"
begin

lemma matches_self: "z \<noteq> ''.'' \<Longrightarrow> matches z z"
  by (simp add: matches_covers)

lemma matches_label_boundary:
  "z \<noteq> ''.'' \<Longrightarrow> matches d z \<Longrightarrow> d = z \<or> (\<exists>sub. d = sub @ CHR ''.'' # z)"
  by (auto simp: matches_covers covers_def suffix_def)

text \<open>Of two zones that both hold a name, the shorter holds the longer.\<close>

lemma matches_nested:
  assumes "z \<noteq> ''.''" and "z' \<noteq> ''.''" and "matches d z" and "matches d z'" and "length z \<le> length z'"
  shows "matches z' z"
proof -
  have c: "covers z d" "covers z' d" using assms matches_covers by auto
  have suf: "suffix z d" "suffix z' d" using c by (auto simp: covers_def dest: suffix_ConsD)
  then have zz: "suffix z z'" using assms(5) by (metis suffix_length_suffix)
  show ?thesis
  proof (cases "z' = z")
    case False
    then have lt: "length z < length z'" using zz assms(5) by (auto simp: suffix_def)
    then have "d \<noteq> z" using suf(2) suffix_length_le by fastforce
    then have "suffix (CHR ''.'' # z) d" using c(1) by (simp add: covers_def)
    moreover have "length (CHR ''.'' # z) \<le> length z'" using lt by simp
    ultimately have "suffix (CHR ''.'' # z) z'" using suf(2) suffix_length_suffix by blast
    then show ?thesis using matches_covers [OF assms(1)] by (simp add: covers_def)
  qed (simp add: matches_self assms(1))
qed

end

interpretation authority_zone: zone_matcher domain_matches_zone
  by unfold_locales (rule domain_matches_zone_covers)

lemma forward_matches_zone_eq:
  "forward_matches_zone d z \<longleftrightarrow> z = ''.'' \<or> domain_matches_zone d z"
  by (auto simp: forward_matches_zone_def domain_matches_zone_def)

interpretation forward_zone: zone_matcher forward_matches_zone
  by unfold_locales (simp add: forward_matches_zone_eq domain_matches_zone_covers)

subsection \<open>Lemmas on the stage\<close>

lemma sort_entries_props:
  "set (sort_entries es) = set es"
  "sorted (map (\<lambda>e. - int (length (ze_zone e))) (sort_entries es))"
  by (simp_all add: sort_entries_def)

lemma find_sorted_longest:
  assumes "sorted (map (\<lambda>e. - int (length (ze_zone e))) es)" and "find P es = Some e"
    and "e' \<in> set es" and "P e'"
  shows "length (ze_zone e') \<le> length (ze_zone e)"
proof -
  obtain pre post where es: "es = pre @ e # post" and "\<forall>y\<in>set pre. \<not> P y"
    using find_split [OF assms(2)] by blast
  then have "e' = e \<or> e' \<in> set post" using assms(3,4) by auto
  then show ?thesis using assms(1) unfolding es by (auto simp: sorted_append)
qed

lemma matching_entry_None:
  "matching_entry es d = None \<longleftrightarrow>
     (\<forall>n. normalize_zone d = Some n \<longrightarrow> (\<forall>e\<in>set es. \<not> forward_matches_zone n (ze_zone e)))"
  by (cases "normalize_zone d") (auto simp: matching_entry_def find_None)

interpretation zone_st: request_stage
  "\<lambda>(L, entries). zone_forwarding_stage L entries"
  "\<lambda>(L :: dns_lib, entries :: 'n zone_entry list). \<forall>e\<in>set entries. keeps (world_ok cap) (ze_resolver e)"
  "world_ok cap"
proof unfold_locales
  fix c r and w :: "'n world"
  show "\<exists>x. fst ((case c of (L, entries) \<Rightarrow> zone_forwarding_stage L entries) r w) = Inr x"
    by (cases c) (auto simp: zone_forwarding_stage_def split: option.split prod.split sum.split)
next
  fix c r and w :: "'n world"
  assume pre: "case c of (L :: dns_lib, entries :: 'n zone_entry list) \<Rightarrow>
      \<forall>e\<in>set entries. keeps (world_ok cap) (ze_resolver e)"
    and w: "world_ok cap w"
  obtain L entries where c: "c = (L, entries)" by fastforce
  have "world_ok cap w'"
    if "matching_entry entries d = Some e" "up_resolve (ze_resolver e) q w = (res, w')" for d e q res w'
  proof -
    have "e \<in> set entries" using that(1) by (auto simp: matching_entry_def bind_eq_Some_conv dest: find_SomeD)
    then have "keeps (world_ok cap) (ze_resolver e)" using pre c by simp
    from keepsD [OF this w that(2)] show ?thesis .
  qed
  then show "world_ok cap (snd ((case c of (L, entries) \<Rightarrow> zone_forwarding_stage L entries) r w))"
    using w by (auto simp: c zone_forwarding_stage_def bind_eq_Some_conv split: option.split prod.split sum.split)
qed

subsection \<open>Properties\<close>

text \<open>
  C31. The entry that a zone stage picks is one of its own entries whose zone holds the query name, and
  no entry with a matching zone has a longer zone name. If its zone is not the root, that is the most
  specific zone: it lies inside every other matching zone. The root zone is an exception, because its
  name counts as one character: listed first, it is picked although a zone with a one-letter name
  matches as well (\<open>root_zone_hides_single_letter\<close>). The query is passed on exactly when no entry's
  zone holds the name. Membership respects label boundaries.
\<close>

theorem zone_longest_match:
  assumes "stage_entries = bypass_only entries \<or> stage_entries = non_bypass entries"
    and "normalize_zone domain = Some n"
  shows "case matching_entry stage_entries domain of
      None \<Rightarrow> \<forall>e\<in>set stage_entries. \<not> forward_matches_zone n (ze_zone e)
    | Some e \<Rightarrow> e \<in> set entries \<and> (ze_zone e = ''.'' \<or> n = ze_zone e \<or> (\<exists>sub. n = sub @ ''.'' @ ze_zone e))
        \<and> (\<forall>e'\<in>set stage_entries. forward_matches_zone n (ze_zone e') \<longrightarrow>
             length (ze_zone e') \<le> length (ze_zone e)
             \<and> (ze_zone e \<noteq> ''.'' \<longrightarrow> forward_matches_zone (ze_zone e) (ze_zone e')))"
proof (cases "matching_entry stage_entries domain")
  case None
  then have "\<forall>e\<in>set stage_entries. \<not> forward_matches_zone n (ze_zone e)"
    using assms(2) by (simp add: matching_entry_None)
  then show ?thesis using None by simp
next
  case (Some e)
  then have find: "find (\<lambda>entry. forward_matches_zone n (ze_zone entry)) stage_entries = Some e"
    using assms(2) by (simp add: matching_entry_def)
  then have e: "e \<in> set stage_entries" "forward_matches_zone n (ze_zone e)" by (auto dest: find_SomeD)
  have sorted: "sorted (map (\<lambda>e. - int (length (ze_zone e))) stage_entries)"
    and sub: "set stage_entries \<subseteq> set entries"
    using assms(1) by (auto simp: bypass_only_def non_bypass_def sort_entries_props)
  have "length (ze_zone e') \<le> length (ze_zone e)
      \<and> (ze_zone e \<noteq> ''.'' \<longrightarrow> forward_matches_zone (ze_zone e) (ze_zone e'))"
    if "e' \<in> set stage_entries" "forward_matches_zone n (ze_zone e')" for e'
  proof -
    have "length (ze_zone e') \<le> length (ze_zone e)" using find_sorted_longest [OF sorted find] that by blast
    then show ?thesis using forward_zone.matches_nested [of "ze_zone e'" "ze_zone e" n] that e
      by (auto simp: forward_matches_zone_def)
  qed
  moreover have "ze_zone e = ''.'' \<or> n = ze_zone e \<or> (\<exists>sub. n = sub @ ''.'' @ ze_zone e)"
    using forward_zone.matches_label_boundary [of "ze_zone e" n] e(2) by auto
  ultimately show ?thesis using Some e sub by auto
qed

text \<open>
  What a zone stage answers: with the zone resolver's response under the client's identifier when
  it succeeds; on an error with \<open>ServFail\<close>, unless the entry falls back to the default resolvers, in
  which case the request is passed on; and never with anything when no zone matches, without any
  resolver being asked.
\<close>

theorem zone_stage_outcome:
  assumes "extract_query_name L (rq_query req) = Some d"
  shows "case matching_entry es d of
      None \<Rightarrow> zone_forwarding_stage L es req w = (Inr None, w)
    | Some e \<Rightarrow>
        (case up_resolve (ze_resolver e) (rq_query req) w of
           (Inr r, w') \<Rightarrow> zone_forwarding_stage L es req w
              = (Inr (Some (fix_response_id L r (rq_client_query_id req))), w')
         | (Inl err, w') \<Rightarrow> zone_forwarding_stage L es req w
              = (Inr (if ze_fallback_to_default_resolvers e then None
                      else Some (encode_or L (error_message L (rq_query req) ServFail) [])), w'))"
  using assms
  by (auto simp: zone_forwarding_stage_def build_servfail_response_def build_error_response_def
      split: option.split prod.split sum.split)

text \<open>
  The root zone can hide a single-letter zone: both names have length one, so the entry that
  comes first in the configuration wins, although every name lies in the root zone and the other zone
  is the more specific.
\<close>

theorem root_zone_hides_single_letter:
  "\<exists>(root :: nat zone_entry) x. ze_zone root = ''.'' \<and> ze_zone x = ''x''
     \<and> matching_entry (non_bypass [root, x]) ''host.x'' = Some root
     \<and> matching_entry (non_bypass [x, root]) ''host.x'' = Some x
     \<and> forward_matches_zone ''host.x'' (ze_zone x)"
proof -
  let ?e = "\<lambda>z. \<lparr>ze_zone = z, ze_bypass_filter = False, ze_fallback_to_default_resolvers = False,
      ze_resolver = example_upstream, ze_searchable = None\<rparr>"
  have n: "normalize_zone ''host.x'' = Some ''host.x''" by code_simp
  have m: "forward_matches_zone ''host.x'' ''.''" "forward_matches_zone ''host.x'' ''x''" by code_simp+
  have "matching_entry (non_bypass [?e ''.'', ?e ''x'']) ''host.x'' = Some (?e ''.'')"
    "matching_entry (non_bypass [?e ''x'', ?e ''.'']) ''host.x'' = Some (?e ''x'')"
    by (simp_all add: matching_entry_def non_bypass_def sort_entries_def n m)
  then show ?thesis using m by (intro exI [of _ "?e ''.''"] exI [of _ "?e ''x''"]) simp
qed

definition example_zone :: "string \<Rightarrow> nat upstream \<Rightarrow> nat zone_entry" where
  "example_zone z r = \<lparr>ze_zone = z, ze_bypass_filter = True, ze_fallback_to_default_resolvers = False,
     ze_resolver = r, ze_searchable = None\<rparr>"

theorem zone_longest_match_witness:
  "matching_entry (bypass_only [example_zone ''lan'' broken_upstream, example_zone ''b.lan'' example_upstream]) ''x.B.lan.''
     = Some (example_zone ''b.lan'' example_upstream)
   \<and> forward_matches_zone ''b.lan'' ''lan''"
proof -
  let ?lan = "example_zone ''lan'' broken_upstream" and ?b = "example_zone ''b.lan'' example_upstream"
  let ?es = "bypass_only [?lan, ?b]"
  have n: "normalize_zone ''x.B.lan.'' = Some ''x.b.lan''" by code_simp
  have m: "forward_matches_zone ''x.b.lan'' ''lan''" "forward_matches_zone ''x.b.lan'' ''b.lan''" by code_simp+
  have es: "?es = [?b, ?lan]" by (simp add: bypass_only_def sort_entries_def example_zone_def)
  have e: "matching_entry ?es ''x.B.lan.'' = Some ?b"
    unfolding es by (simp add: matching_entry_def n m(2) example_zone_def)
  have "?lan \<in> set ?es" by (simp add: es)
  moreover have "ze_zone ?b \<noteq> ''.''" by (simp add: example_zone_def)
  moreover have "forward_matches_zone ''x.b.lan'' (ze_zone ?lan)" using m by (simp add: example_zone_def)
  ultimately have "forward_matches_zone (ze_zone ?b) (ze_zone ?lan)"
    using zone_longest_match [OF disjI1 [OF refl] n, of "[?lan, ?b]"] unfolding e option.case by blast
  then show ?thesis using e by (simp add: example_zone_def)
qed

theorem zone_stage_outcome_witness:
  "zone_forwarding_stage ads_lib [example_zone ''ads.example'' broken_upstream] ads_request example_world
   = (Inr (Some (encode_or ads_lib (error_message ads_lib [1, 2, 3] ServFail) [])), example_world)"
proof -
  have d: "extract_query_name ads_lib (rq_query ads_request) = Some ''ads.example.''" by code_simp
  have n: "normalize_zone ''ads.example.'' = Some ''ads.example''" by code_simp
  have m: "forward_matches_zone ''ads.example'' ''ads.example''" by code_simp
  have e: "matching_entry [example_zone ''ads.example'' broken_upstream] ''ads.example.''
      = Some (example_zone ''ads.example'' broken_upstream)"
    by (simp add: matching_entry_def n m example_zone_def)
  have r: "up_resolve (ze_resolver (example_zone ''ads.example'' broken_upstream)) (rq_query ads_request) example_world
      = (Inl Timeout, example_world)"
    by (simp add: example_zone_def broken_upstream_def net_upstream_def example_world_def)
  from zone_stage_outcome [OF d, of "[example_zone ''ads.example'' broken_upstream]" example_world]
  show ?thesis unfolding e option.case r
    by (simp add: example_zone_def ads_request_def dns_request_new_def)
qed

end
