(* ===== verification/ZoneDiscovery.thy ===== *)
theory ZoneDiscovery
  imports ZoneForwarding ConfigSchema
begin

text \<open>
  Zone discovery (\<open>src/use_cases/zone_discovery.rs\<close>): an index document fetched over HTTP names zones
  and where to load them from; each zone that is accepted becomes an entry served authoritatively.

  The HTTP client, the JSON library and the \<open>url\<close> crate's \<open>join\<close> are arguments; the size limits, the
  filters and the handling of references are modelled.
\<close>

subsection \<open>Data\<close>

record zone_index_entry =
  ix_href :: string
  ix_name :: string
  ix_zone_type :: string

datatype discovery_error =
    EmptyAddress
  | NotHttp string
  | BothTokenAndBasic
  | IncompleteBasic
  | InvalidAllowedType string
  | IndexFetch string
  | IndexTooLarge int
  | IndexJson string
  | BadBaseUrl string
  | BadHref string string
  | ZoneLoadFailed string zone_error
  | ZoneEntryFailed string string

record discovery_io =
  dio_zone_io :: zone_io
  dio_parse_index :: "string \<Rightarrow> string + zone_index_entry list"
  dio_url_join :: "url \<Rightarrow> string \<Rightarrow> string + string"

definition max_index_bytes :: int where
  "max_index_bytes = 512 * 1024"

definition valid_zone_types :: "string list" where
  "valid_zone_types = [''reverse'', ''forward'', ''reverse-aggregate'']"

subsection \<open>Operations\<close>

definition fetch_zone_index ::
  "discovery_io \<Rightarrow> string \<Rightarrow> zone_source_auth option \<Rightarrow> discovery_error + zone_index_entry list" where
  "fetch_zone_index io url auth =
     res_bind (map_err IndexFetch (zio_get (dio_zone_io io) auth url)) (\<lambda>response.
     res_bind
       (case hr_content_length response of
          Some n \<Rightarrow> if n > max_index_bytes then Inl (IndexTooLarge n) else Inr ()
        | None \<Rightarrow> Inr ()) (\<lambda>_.
     res_bind (map_err IndexFetch (hr_text response)) (\<lambda>body.
     if int (length body) > max_index_bytes then Inl (IndexTooLarge (int (length body)))
     else map_err IndexJson (dio_parse_index io body))))"

definition resolve_href :: "discovery_io \<Rightarrow> url \<Rightarrow> string \<Rightarrow> string + string" where
  "resolve_href io base_url href =
     (if starts_with href ''http://'' \<or> starts_with href ''https://'' then Inr href
      else dio_url_join io base_url href)"

text \<open>\<open>is_some_and(|v| !v.trim().is_empty())\<close>.\<close>

definition non_blank :: "string option \<Rightarrow> bool" where
  "non_blank v \<longleftrightarrow> (case v of None \<Rightarrow> False | Some s \<Rightarrow> trim s \<noteq> [])"

definition trimmed :: "string option \<Rightarrow> string" where
  "trimmed v = (case v of None \<Rightarrow> [] | Some s \<Rightarrow> trim s)"

definition build_discovery_auth ::
  "zone_server_authentication_config option \<Rightarrow> discovery_error + zone_source_auth option" where
  "build_discovery_auth auth_config =
     (case auth_config of
        None \<Rightarrow> Inr None
      | Some config \<Rightarrow>
          (let has_token = non_blank (za_token config);
               has_username = non_blank (za_username config);
               has_password = non_blank (za_password config)
           in if \<not> has_token \<and> \<not> has_username \<and> \<not> has_password then Inr None
              else if has_token \<and> (has_username \<or> has_password) then Inl BothTokenAndBasic
              else if has_username \<noteq> has_password then Inl IncompleteBasic
              else if has_token then Inr (Some (Bearer (trimmed (za_token config))))
              else Inr (Some (Basic (trimmed (za_username config)) (trimmed (za_password config))))))"

definition normalize_discovery_zone :: "string \<Rightarrow> string" where
  "normalize_discovery_zone name =
     (let s = to_ascii_lowercase (trim name)
      in case strip_suffix s ''.'' of None \<Rightarrow> s | Some t \<Rightarrow> t)"

definition zone_wanted :: "zone_discovery_config \<Rightarrow> string list \<Rightarrow> zone_index_entry \<Rightarrow> bool" where
  "zone_wanted discovery existing item \<longleftrightarrow>
     (zd_allowed_types discovery = []
      \<or> list_ex (\<lambda>t. eq_ignore_ascii_case t (ix_zone_type item)) (zd_allowed_types discovery))
     \<and> \<not> list_ex (\<lambda>e. normalize_discovery_zone e = normalize_discovery_zone (ix_name item)) existing"

definition discovered_entry ::
  "dns_lib \<Rightarrow> discovery_io \<Rightarrow> zone_discovery_config \<Rightarrow> zone_source_auth option \<Rightarrow> url \<Rightarrow> u64 option
   \<Rightarrow> zone_index_entry \<Rightarrow> discovery_error + 'n zone_entry" where
  "discovered_entry L io discovery auth base_url check_interval item =
     res_bind (map_err (BadHref (ix_href item)) (resolve_href io base_url (ix_href item))) (\<lambda>resolved_href.
     res_bind (map_err (ZoneLoadFailed (ix_name item))
       (authority_from_source L (dio_zone_io io) (ix_name item) resolved_href check_interval auth))
       (\<lambda>(snapshot, _).
     map_ok (with_searchable snapshot)
       (map_err (ZoneEntryFailed (ix_name item))
         (zone_entry_new (ix_name item) (zd_bypass_filter discovery)
           (zd_fallback_to_default_resolvers discovery)
           (authority_upstream L (ix_name item) snapshot)))))"

definition build_zone_discovery_entries ::
  "dns_lib \<Rightarrow> discovery_io \<Rightarrow> zone_discovery_config \<Rightarrow> string list \<Rightarrow> u64 option
   \<Rightarrow> discovery_error + 'n zone_entry list" where
  "build_zone_discovery_entries L io discovery existing check_interval =
     (let address = trim (zd_address discovery) in
      if address = [] then Inl EmptyAddress
      else if \<not> starts_with address ''http://'' \<and> \<not> starts_with address ''https://''
      then Inl (NotHttp address)
      else
        res_bind (build_discovery_auth (zd_authentication discovery)) (\<lambda>auth.
        case find (\<lambda>t. \<not> List.member valid_zone_types t) (zd_allowed_types discovery) of
          Some t \<Rightarrow> Inl (InvalidAllowedType t)
        | None \<Rightarrow>
            res_bind (fetch_zone_index io address auth) (\<lambda>index.
            res_bind (map_err BadBaseUrl (lib_url_parse L address)) (\<lambda>base_url.
            res_map_list (discovered_entry L io discovery auth base_url check_interval)
              (filter (zone_wanted discovery existing) index)))))"

subsection \<open>Properties\<close>

lemma discovered_entry_ok:
  assumes "discovered_entry L io discovery auth base iv item = Inr e"
  shows "normalize_zone (ix_name item) = Some (ze_zone e)
    \<and> ze_bypass_filter e = zd_bypass_filter discovery
    \<and> ze_fallback_to_default_resolvers e = zd_fallback_to_default_resolvers discovery
    \<and> (\<exists>s. ze_searchable e = Some s \<and> snapshot_inv s \<and> ze_resolver e = authority_upstream L (ix_name item) s)"
proof -
  from assms obtain href s task where
    src: "authority_from_source L (dio_zone_io io) (ix_name item) href iv auth = Inr (s, task)"
    and e: "map_ok (with_searchable s) (map_err (ZoneEntryFailed (ix_name item))
         (zone_entry_new (ix_name item) (zd_bypass_filter discovery)
           (zd_fallback_to_default_resolvers discovery) (authority_upstream L (ix_name item) s))) = Inr e"
    by (auto simp: discovered_entry_def)
  obtain src' where "load_snapshot L (dio_zone_io io) (ix_name item) src' auth = Inr s"
    using src by (auto simp: authority_from_source_def)
  then have "snapshot_inv s" using load_document_inv by (auto simp: load_snapshot_def)
  with e show ?thesis by (auto simp: zone_entry_new_def with_searchable_def)
qed

text \<open>
  What discovery adds: one entry for every zone of the index that is wanted, in the order of the
  index, none for a zone of a type that is not allowed or whose name is already configured; every
  entry serves, for its own name, a well-formed snapshot, with the filter and fallback settings of
  the discovery source.
\<close>

theorem discovery_entries_sound:
  assumes "build_zone_discovery_entries L io discovery existing iv = Inr entries"
  shows "\<exists>index auth. fetch_zone_index io (trim (zd_address discovery)) auth = Inr index
    \<and> list_all2 (\<lambda>item e. normalize_zone (ix_name item) = Some (ze_zone e)
          \<and> ze_bypass_filter e = zd_bypass_filter discovery
          \<and> ze_fallback_to_default_resolvers e = zd_fallback_to_default_resolvers discovery
          \<and> (\<exists>s. ze_searchable e = Some s \<and> snapshot_inv s
               \<and> ze_resolver e = authority_upstream L (ix_name item) s))
        (filter (zone_wanted discovery existing) index) entries
    \<and> (\<forall>item\<in>set index. zone_wanted discovery existing item \<longrightarrow>
         (zd_allowed_types discovery = [] \<or>
          (\<exists>t\<in>set (zd_allowed_types discovery) \<inter> set valid_zone_types.
             to_ascii_lowercase t = to_ascii_lowercase (ix_zone_type item)))
         \<and> (\<forall>z\<in>set existing. normalize_discovery_zone z \<noteq> normalize_discovery_zone (ix_name item)))"
proof -
  from assms obtain auth index base where index: "fetch_zone_index io (trim (zd_address discovery)) auth = Inr index"
    and valid: "find (\<lambda>t. \<not> List.member valid_zone_types t) (zd_allowed_types discovery) = None"
    and es: "res_map_list (discovered_entry L io discovery auth base iv)
        (filter (zone_wanted discovery existing) index) = Inr entries"
    by (auto simp: build_zone_discovery_entries_def Let_def split: if_splits option.splits)
  have "list_all2 (\<lambda>item e. normalize_zone (ix_name item) = Some (ze_zone e)
          \<and> ze_bypass_filter e = zd_bypass_filter discovery
          \<and> ze_fallback_to_default_resolvers e = zd_fallback_to_default_resolvers discovery
          \<and> (\<exists>s. ze_searchable e = Some s \<and> snapshot_inv s
               \<and> ze_resolver e = authority_upstream L (ix_name item) s))
        (filter (zone_wanted discovery existing) index) entries"
    using es unfolding res_map_list_Inr by (rule list_all2_mono) (rule discovered_entry_ok)
  moreover have "zd_allowed_types discovery = [] \<or>
      (\<exists>t\<in>set (zd_allowed_types discovery) \<inter> set valid_zone_types.
         to_ascii_lowercase t = to_ascii_lowercase (ix_zone_type item))"
    if "zone_wanted discovery existing item" for item
    using that valid by (auto simp: zone_wanted_def eq_ignore_ascii_case_def list_ex_iff find_None)
  moreover have "\<forall>z\<in>set existing. normalize_discovery_zone z \<noteq> normalize_discovery_zone (ix_name item)"
    if "zone_wanted discovery existing item" for item
    using that by (auto simp: zone_wanted_def list_ex_iff)
  ultimately show ?thesis using index by blast
qed

subsection \<open>Instances\<close>

text \<open>An index server that refers to a file of the machine the program runs on.\<close>

definition index_io :: "string \<Rightarrow> discovery_io" where
  "index_io href =
     \<lparr>dio_zone_io =
        \<lparr>zio_read_file = (\<lambda>p. if p = ''/etc/lan.json'' then Inr ''local'' else Inl ''no such file''),
         zio_get = (\<lambda>_ u. if u = ''http://index'' then Inr \<lparr>hr_content_length = None, hr_text = Inr ''index''\<rparr>
                          else Inl ''unreachable''),
         zio_parse_document = (\<lambda>c. if c = ''local'' then Inr lan_document else Inl ''malformed'')\<rparr>,
      dio_parse_index = (\<lambda>_. Inr [\<lparr>ix_href = href, ix_name = ''lan'', ix_zone_type = ''forward''\<rparr>]),
      dio_url_join = (\<lambda>_ h. if str_contains h ''://'' then Inr h else Inr (''http://index/'' @ h))\<rparr>"

definition index_config :: zone_discovery_config where
  "index_config = \<lparr>zd_enabled = True, zd_address = ''http://index'', zd_check_interval = None,
     zd_allowed_types = [''forward''], zd_bypass_filter = True,
     zd_fallback_to_default_resolvers = False, zd_authentication = None\<rparr>"

lemma index_entry:
  "(build_zone_discovery_entries lan_lib (index_io ''file:///etc/lan.json'') index_config [] None
      :: discovery_error + nat zone_entry list)
   = Inr [\<lparr>ze_zone = ''lan'', ze_bypass_filter = True, ze_fallback_to_default_resolvers = False,
           ze_resolver = authority_upstream lan_lib ''lan'' lan_snapshot, ze_searchable = Some lan_snapshot\<rparr>]"
proof -
  have a: "trim (zd_address index_config) = ''http://index''" by code_simp
  have f: "fetch_zone_index (index_io ''file:///etc/lan.json'') ''http://index'' None
      = Inr [\<lparr>ix_href = ''file:///etc/lan.json'', ix_name = ''lan'', ix_zone_type = ''forward''\<rparr>]"
    by (simp add: fetch_zone_index_def index_io_def max_index_bytes_def)
  have h: "resolve_href (index_io ''file:///etc/lan.json'') (Url ''http://index'') ''file:///etc/lan.json''
      = Inr ''file:///etc/lan.json''" by code_simp
  have s: "authority_from_source lan_lib (dio_zone_io (index_io ''file:///etc/lan.json'')) ''lan''
      ''file:///etc/lan.json'' None None = Inr (lan_snapshot, None)" by code_simp
  have z: "normalize_zone ''lan'' = Some ''lan''" by code_simp
  have w: "zone_wanted index_config []
      \<lparr>ix_href = ''file:///etc/lan.json'', ix_name = ''lan'', ix_zone_type = ''forward''\<rparr>" by code_simp
  have v: "find (\<lambda>t. \<not> List.member valid_zone_types t) (zd_allowed_types index_config) = None" by code_simp
  have b: "build_discovery_auth (zd_authentication index_config) = Inr None"
    by (simp add: index_config_def build_discovery_auth_def)
  have u: "lib_url_parse lan_lib ''http://index'' = Inr (Url ''http://index'')"
    by (simp add: lan_lib_def table_lib_def)
  have st: "starts_with ''http://index'' ''http://''" by code_simp
  have c: "zd_bypass_filter index_config = True" "zd_fallback_to_default_resolvers index_config = False"
    by (simp_all add: index_config_def)
  show ?thesis
    unfolding build_zone_discovery_entries_def a Let_def b v
    by (simp add: st f u w h s z c discovered_entry_def zone_entry_new_def with_searchable_def)
qed

theorem discovery_entries_sound_witness:
  "\<exists>(e :: nat zone_entry) s. build_zone_discovery_entries lan_lib (index_io ''file:///etc/lan.json'') index_config [] None
      = Inr [e] \<and> ze_searchable e = Some s \<and> snapshot_inv s"
proof -
  have "snapshot_inv lan_snapshot"
    using discovery_entries_sound [OF index_entry] unfolding list_all2_Cons2 by force
  then show ?thesis using index_entry by auto
qed

text \<open>
  A discovery index can make the program load a zone from a local file: a reference with the
  scheme \<open>file\<close> resolves to itself, and the loader of zone sources reads it from the file system.
\<close>

theorem discovery_reads_local_file:
  "\<exists>io. (\<exists>e. zio_get (dio_zone_io io) None ''file:///etc/lan.json'' = Inl e)
     \<and> (\<exists>(entry :: nat zone_entry) s. build_zone_discovery_entries lan_lib io index_config [] None = Inr [entry]
          \<and> ze_searchable entry = Some s
          \<and> load_snapshot lan_lib (dio_zone_io io) ''lan'' (SourceFile ''/etc/lan.json'') None = Inr s)"
proof -
  have "load_snapshot lan_lib (dio_zone_io (index_io ''file:///etc/lan.json'')) ''lan''
      (SourceFile ''/etc/lan.json'') None = Inr lan_snapshot" by code_simp
  moreover have "zio_get (dio_zone_io (index_io ''file:///etc/lan.json'')) None ''file:///etc/lan.json''
      = Inl ''unreachable''" by (simp add: index_io_def)
  ultimately show ?thesis
    by (intro exI [of _ "index_io ''file:///etc/lan.json''"]) (auto simp: index_entry)
qed

end
