(* ===== verification/UpstreamClients.thy ===== *)
theory UpstreamClients
  imports UpstreamResolver RustNet ZoneAuthority
begin

text \<open>
  The transport clients (\<open>src/frameworks/upstream/dns_client.rs\<close>, \<open>dot_client.rs\<close>, \<open>doh_client.rs\<close>,
  \<open>doq_client.rs\<close>): endpoint parsing, bootstrap resolution of host names, and resolution over a
  connection that is kept between queries.

  The protocol stacks (\<open>hickory-net\<close>, \<open>rustls\<close>, \<open>quinn\<close>, the \<open>url\<close>, \<open>http\<close> and \<open>base64\<close> crates and the
  operating system's resolver) are not part of the repository: their operations are the fields of the record
  \<open>net_lib\<close>, over connections \<open>'c\<close> and an external state \<open>'x\<close>. A call of a client is one step: the
  connection cache is read at its start and written at its end.
\<close>

subsection \<open>The network libraries\<close>

record outbound_routing =
  or_bind_address :: "ip_addr option"
  or_fwmark :: "u32 option"

definition no_routing :: outbound_routing where
  "no_routing = \<lparr>or_bind_address = None, or_fwmark = None\<rparr>"

definition routing_is_empty :: "outbound_routing \<Rightarrow> bool" where
  "routing_is_empty r \<longleftrightarrow> or_bind_address r = None \<and> or_fwmark r = None"

text \<open>The parts of a parsed URL that the sources read.\<close>

record url_parts =
  url_scheme :: string
  url_host :: "string option"
  url_port :: "u16 option"
  url_path :: string

datatype net_request =
    Ask dns_name u16 record_type
  | Send dns_message

datatype net_failure = NetTimeout | NetError string

datatype sock_kind = StreamSocket | DgramSocket

datatype sock_op =
    NewSocket bool sock_kind
  | SetMark u32
  | BindTo socket_addr
  | SetNodelay
  | SetNonblocking
  | ConnectTo socket_addr int
  | WrapUdp

datatype quic_socket = QuicDefault | QuicBound socket_addr | QuicMarked socket_addr u32

datatype connect_target =
    TcpTo socket_addr outbound_routing
  | TlsTo socket_addr string outbound_routing
  | HttpsTo socket_addr string string "string option" outbound_routing
  | QuicTo socket_addr string quic_socket

record ('c, 'x) net_lib =
  nt_lookup_host :: "string \<Rightarrow> u16 \<Rightarrow> 'x \<Rightarrow> (string + socket_addr list) \<times> 'x"
  nt_udp_exchange :: "socket_addr \<Rightarrow> outbound_routing \<Rightarrow> net_request \<Rightarrow> 'x \<Rightarrow> (net_failure + dns_message) \<times> 'x"
  nt_connect :: "connect_target \<Rightarrow> 'x \<Rightarrow> (string + 'c) \<times> 'x"
  nt_exchange :: "'c \<Rightarrow> net_request \<Rightarrow> 'x \<Rightarrow> (net_failure + dns_message) \<times> 'x"
  nt_sock_op :: "sock_op \<Rightarrow> 'x \<Rightarrow> (string + unit) \<times> 'x"
  nt_plain_connect_tcp :: "socket_addr \<Rightarrow> socket_addr option \<Rightarrow> int option \<Rightarrow> 'x \<Rightarrow> (string + unit) \<times> 'x"
  nt_plain_bind_udp :: "socket_addr \<Rightarrow> socket_addr \<Rightarrow> 'x \<Rightarrow> (string + unit) \<times> 'x"
  nt_random_u16 :: "'x \<Rightarrow> u16 \<times> 'x"
  nt_parse_url :: "string \<Rightarrow> string + url_parts"
  nt_base64 :: "string \<Rightarrow> string"
  nt_header_value :: "string \<Rightarrow> string + string"

fun net_error :: "net_failure \<Rightarrow> upstream_error" where
  "net_error NetTimeout = Timeout"
| "net_error (NetError e) = Protocol e"

definition encode_response :: "dns_lib \<Rightarrow> dns_message \<Rightarrow> upstream_error + bytes" where
  "encode_response L m = map_err Protocol (lib_to_vec L m)"

definition extract_question :: "dns_lib \<Rightarrow> bytes \<Rightarrow> upstream_error + dns_name \<times> u16 \<times> record_type" where
  "extract_question L query =
     res_bind (map_err Protocol (lib_from_vec L query)) (\<lambda>message.
     case m_queries message of
       [] \<Rightarrow> Inl (Protocol ''query contains no questions'')
     | q # _ \<Rightarrow> Inr (q_name q, q_class q, q_type q))"

text \<open>\<open>Display\<close> of the errors, and the texts that the messages contain.\<close>

fun show_upstream_error :: "upstream_error \<Rightarrow> string" where
  "show_upstream_error (IoError e) = ''I/O error: '' @ e"
| "show_upstream_error Timeout = ''query timed out''"
| "show_upstream_error (Protocol m) = ''protocol error: '' @ m"
| "show_upstream_error AllFailed = ''all upstreams failed''"
| "show_upstream_error (WithSource resolver inner) = ''['' @ resolver @ ''] '' @ show_upstream_error inner"

definition quoted :: "string \<Rightarrow> string" where
  "quoted s = [CHR 0x27] @ s @ [CHR 0x27]"

definition host_port :: "string \<Rightarrow> u16 \<Rightarrow> string" where
  "host_port host port = quoted (host @ '':'' @ show_port port)"

subsection \<open>Sockets with outbound routing\<close>

text \<open>
  \<open>connect_tcp\<close> and \<open>bind_udp\<close> of \<open>runtime.rs\<close>, by which the libraries open sockets: the sequence of socket
  operations, each of which ends the call when it fails.
\<close>

fun run_ops :: "('c, 'x) net_lib \<Rightarrow> sock_op list \<Rightarrow> 'x \<Rightarrow> (string + unit) \<times> 'x" where
  "run_ops N [] x = (Inr (), x)"
| "run_ops N (op # ops) x =
     (case nt_sock_op N op x of
        (Inl e, x) \<Rightarrow> (Inl e, x)
      | (Inr _, x) \<Rightarrow> run_ops N ops x)"

definition mark_ops :: "outbound_routing \<Rightarrow> sock_op list" where
  "mark_ops routing = (case or_fwmark routing of None \<Rightarrow> [] | Some mark \<Rightarrow> [SetMark mark])"

definition connect_tcp_ops ::
  "outbound_routing \<Rightarrow> socket_addr \<Rightarrow> socket_addr option \<Rightarrow> int option \<Rightarrow> sock_op list" where
  "connect_tcp_ops routing server_addr bind_addr timeout =
     (let effective_bind = (case or_bind_address routing of
            Some ip \<Rightarrow> Some (socket_addr_new ip 0) | None \<Rightarrow> bind_addr)
      in [NewSocket (is_ipv4 (socket_ip server_addr)) StreamSocket] @ mark_ops routing @
         (case effective_bind of None \<Rightarrow> [] | Some bind \<Rightarrow> [BindTo bind]) @
         [SetNodelay, SetNonblocking,
          ConnectTo server_addr (case timeout of None \<Rightarrow> from_secs 5 | Some t \<Rightarrow> t)])"

definition connect_tcp ::
  "('c, 'x) net_lib \<Rightarrow> outbound_routing \<Rightarrow> socket_addr \<Rightarrow> socket_addr option \<Rightarrow> int option \<Rightarrow> 'x
   \<Rightarrow> (string + unit) \<times> 'x" where
  "connect_tcp N routing server_addr bind_addr timeout x =
     (if routing_is_empty routing then nt_plain_connect_tcp N server_addr bind_addr timeout x
      else run_ops N (connect_tcp_ops routing server_addr bind_addr timeout) x)"

definition bind_udp_ops :: "outbound_routing \<Rightarrow> socket_addr \<Rightarrow> sock_op list" where
  "bind_udp_ops routing local_addr =
     (let effective_local = (case or_bind_address routing of
            Some ip \<Rightarrow> socket_addr_new ip 0 | None \<Rightarrow> local_addr)
      in [NewSocket (is_ipv4 (socket_ip effective_local)) DgramSocket] @ mark_ops routing @
         [SetNonblocking, BindTo effective_local, WrapUdp])"

definition bind_udp ::
  "('c, 'x) net_lib \<Rightarrow> outbound_routing \<Rightarrow> socket_addr \<Rightarrow> socket_addr \<Rightarrow> 'x \<Rightarrow> (string + unit) \<times> 'x" where
  "bind_udp N routing local_addr server_addr x =
     (if routing_is_empty routing then nt_plain_bind_udp N local_addr server_addr x
      else run_ops N (bind_udp_ops routing local_addr) x)"

subsection \<open>Resolution over a kept connection\<close>

text \<open>
  The common shape of \<open>resolve_tcp\<close>, \<open>resolve_dot\<close>, \<open>resolve_doh\<close> and \<open>resolve_doq\<close>: the kept connection
  is tried first; when it fails it is dropped and a fresh one is made, which is kept once it has
  answered.
\<close>

definition fresh_exchange ::
  "('x \<Rightarrow> (upstream_error + 'c) \<times> 'x) \<Rightarrow> ('c \<Rightarrow> 'x \<Rightarrow> (upstream_error + dns_message) \<times> 'x)
   \<Rightarrow> dns_lib \<Rightarrow> 'x \<Rightarrow> (upstream_error + bytes) \<times> 'c option \<times> 'x" where
  "fresh_exchange connect exchange L x =
     (case connect x of
        (Inl e, x) \<Rightarrow> (Inl e, None, x)
      | (Inr c, x) \<Rightarrow>
          (case exchange c x of
             (Inl e, x) \<Rightarrow> (Inl e, None, x)
           | (Inr response, x) \<Rightarrow> (encode_response L response, Some c, x)))"

definition kept_exchange ::
  "('x \<Rightarrow> (upstream_error + 'c) \<times> 'x) \<Rightarrow> ('c \<Rightarrow> 'x \<Rightarrow> (upstream_error + dns_message) \<times> 'x)
   \<Rightarrow> dns_lib \<Rightarrow> 'c option \<Rightarrow> 'x \<Rightarrow> (upstream_error + bytes) \<times> 'c option \<times> 'x" where
  "kept_exchange connect exchange L cached x =
     (case cached of
        None \<Rightarrow> fresh_exchange connect exchange L x
      | Some c \<Rightarrow>
          (case exchange c x of
             (Inr response, x) \<Rightarrow> (encode_response L response, Some c, x)
           | (Inl _, x) \<Rightarrow> fresh_exchange connect exchange L x))"

definition ask ::
  "('c, 'x) net_lib \<Rightarrow> net_request \<Rightarrow> 'c \<Rightarrow> 'x \<Rightarrow> (upstream_error + dns_message) \<times> 'x" where
  "ask N request c x = (case nt_exchange N c request x of (r, x) \<Rightarrow> (map_err net_error r, x))"

definition open_to ::
  "('c, 'x) net_lib \<Rightarrow> string \<Rightarrow> connect_target \<Rightarrow> 'x \<Rightarrow> (upstream_error + 'c) \<times> 'x" where
  "open_to N what target x =
     (case nt_connect N target x of (r, x) \<Rightarrow> (map_err (\<lambda>e. Protocol (what @ e)) r, x))"

subsection \<open>Plain DNS\<close>

definition resolve_udp ::
  "dns_lib \<Rightarrow> ('c, 'x) net_lib \<Rightarrow> socket_addr \<Rightarrow> outbound_routing \<Rightarrow> bytes \<Rightarrow> 'x \<Rightarrow> (upstream_error + bytes) \<times> 'x" where
  "resolve_udp L N address routing query x =
     (case extract_question L query of
        Inl e \<Rightarrow> (Inl e, x)
      | Inr (name, query_class, query_type) \<Rightarrow>
          (case nt_udp_exchange N address routing (Ask name query_class query_type) x of
             (Inl e, x) \<Rightarrow> (Inl (net_error e), x)
           | (Inr response, x) \<Rightarrow> (encode_response L response, x)))"

definition resolve_tcp ::
  "dns_lib \<Rightarrow> ('c, 'x) net_lib \<Rightarrow> socket_addr \<Rightarrow> outbound_routing \<Rightarrow> bytes
   \<Rightarrow> 'c option \<Rightarrow> 'x \<Rightarrow> (upstream_error + bytes) \<times> 'c option \<times> 'x" where
  "resolve_tcp L N address routing query cached x =
     (case extract_question L query of
        Inl e \<Rightarrow> (Inl e, cached, x)
      | Inr (name, query_class, query_type) \<Rightarrow>
          kept_exchange (open_to N [] (TcpTo address routing)) (ask N (Ask name query_class query_type)) L cached x)"

definition dns_client_resolve ::
  "dns_lib \<Rightarrow> ('c, 'x) net_lib \<Rightarrow> socket_addr \<Rightarrow> outbound_routing \<Rightarrow> bytes
   \<Rightarrow> 'c option \<Rightarrow> 'x \<Rightarrow> (upstream_error + bytes) \<times> 'c option \<times> 'x" where
  "dns_client_resolve L N address routing query cached x =
     (case resolve_udp L N address routing query x of
        (Inl e, x) \<Rightarrow> (Inl e, cached, x)
      | (Inr response, x) \<Rightarrow>
          (case lib_from_vec L response of
             Inl e \<Rightarrow> (Inl (Protocol e), cached, x)
           | Inr msg \<Rightarrow>
               if m_truncation msg then resolve_tcp L N address routing query cached x
               else (Inr response, cached, x)))"

subsection \<open>Endpoints\<close>

datatype endpoint = Static socket_addr | Hostname string u16

record stream_client =
  cl_endpoint :: endpoint
  cl_server_name :: string
  cl_bootstrap_resolvers :: "socket_addr list"
  cl_routing :: outbound_routing
  cl_label :: string

definition default_bootstrap :: "socket_addr list" where
  "default_bootstrap = [SocketV4 0x01010101 53]"

definition dot_default_port :: u16 where "dot_default_port = 853"

definition doq_default_port :: u16 where "doq_default_port = 8853"

definition doh_default_port :: u16 where "doh_default_port = 443"

definition doh_default_path :: string where "doh_default_path = ''/dns-query''"

definition host_without_trailing_dot :: "string \<Rightarrow> string" where
  "host_without_trailing_dot value = trim_end_char value (CHR ''.'')"

definition fqdn_host :: "string \<Rightarrow> string" where
  "fqdn_host value = (if ends_with_char value (CHR ''.'') then value else value @ ''.'')"

text \<open>The two clients differ in the name of the protocol in labels and messages, and in the default port.\<close>

definition stream_client_new :: "string \<Rightarrow> socket_addr \<Rightarrow> string \<Rightarrow> stream_client" where
  "stream_client_new scheme address server_name =
     \<lparr>cl_endpoint = Static address, cl_server_name = server_name,
      cl_bootstrap_resolvers = default_bootstrap, cl_routing = no_routing,
      cl_label = scheme @ ''://'' @ server_name\<rparr>"

definition stream_client_hostname :: "string \<Rightarrow> string \<Rightarrow> u16 \<Rightarrow> stream_client" where
  "stream_client_hostname scheme host port =
     \<lparr>cl_endpoint = Hostname host port, cl_server_name = host_without_trailing_dot host,
      cl_bootstrap_resolvers = default_bootstrap, cl_routing = no_routing,
      cl_label = scheme @ ''://'' @ host_without_trailing_dot host\<rparr>"

definition with_bootstrap_resolvers ::
  "socket_addr list \<Rightarrow> 'z stream_client_scheme \<Rightarrow> 'z stream_client_scheme" where
  "with_bootstrap_resolvers resolvers c =
     (if resolvers \<noteq> [] then c\<lparr>cl_bootstrap_resolvers := resolvers\<rparr> else c)"

definition with_routing :: "outbound_routing \<Rightarrow> 'z stream_client_scheme \<Rightarrow> 'z stream_client_scheme" where
  "with_routing routing c = c\<lparr>cl_routing := routing\<rparr>"

definition validate_label :: "string \<Rightarrow> string \<Rightarrow> upstream_error + unit" where
  "validate_label proto label =
     (if label = [] \<or> length label > 63
      then Inl (Protocol (''invalid '' @ proto @ '' hostname label length''))
      else if hd label = CHR ''-'' \<or> last label = CHR ''-''
      then Inl (Protocol (''invalid '' @ proto @ '' hostname label; leading/trailing hyphen is not allowed''))
      else if \<not> list_all (\<lambda>c. is_ascii_alphanumeric c \<or> c = CHR ''-'') label
      then Inl (Protocol (''invalid '' @ proto @ '' hostname label characters''))
      else Inr ())"

definition validate_hostname :: "string \<Rightarrow> string \<Rightarrow> upstream_error + unit" where
  "validate_hostname proto host =
     (if host = [] \<or> length host > 253
      then Inl (Protocol (''invalid '' @ proto @ '' hostname length''))
      else map_ok (\<lambda>_. ()) (res_map_list (validate_label proto) (split_char (CHR ''.'') host)))"

definition parse_hostname_with_optional_port ::
  "string \<Rightarrow> u16 \<Rightarrow> string \<Rightarrow> upstream_error + (string \<times> u16) option" where
  "parse_hostname_with_optional_port proto default_port value =
     (let whole =
        (let host = host_without_trailing_dot value in
         res_bind (validate_hostname proto host) (\<lambda>_. Inr (Some (host, default_port))))
      in case rsplit_once value (CHR '':'') of
           Some (host, port_str) \<Rightarrow>
             if CHR '':'' \<notin> set host then
               (let host = host_without_trailing_dot host in
                res_bind (validate_hostname proto host) (\<lambda>_.
                res_bind (ok_or (Protocol (''invalid '' @ proto @ '' port '' @ quoted port_str)) (parse_u16 port_str)) (\<lambda>port.
                Inr (Some (host, port)))))
             else whole
         | None \<Rightarrow> whole)"

definition parse_endpoint ::
  "string \<Rightarrow> string \<Rightarrow> string \<Rightarrow> u16 \<Rightarrow> string \<Rightarrow> upstream_error + stream_client" where
  "parse_endpoint proto scheme url_prefix default_port value =
     (let endpoint = (case strip_prefix value url_prefix of None \<Rightarrow> value | Some e \<Rightarrow> e) in
      if trim endpoint = [] then Inl (Protocol (''invalid '' @ proto @ '' upstream address; endpoint is empty''))
      else case parse_socket_addr endpoint of
        Some address \<Rightarrow> Inr (stream_client_new scheme address (show_ip (socket_ip address)))
      | None \<Rightarrow>
          (case parse_ip_addr endpoint of
             Some ip \<Rightarrow> Inr (stream_client_new scheme (socket_addr_new ip default_port) (show_ip ip))
           | None \<Rightarrow>
               res_bind (parse_hostname_with_optional_port proto default_port endpoint) (\<lambda>parsed.
               case parsed of
                 Some (host, port) \<Rightarrow> Inr (stream_client_hostname scheme host port)
               | None \<Rightarrow> Inl (Protocol (''invalid '' @ proto @ '' upstream address'')))))"

definition dot_parse_endpoint :: "string \<Rightarrow> upstream_error + stream_client" where
  "dot_parse_endpoint value = parse_endpoint ''DoT'' ''dot'' ''tls://'' dot_default_port value"

definition doq_parse_endpoint :: "string \<Rightarrow> upstream_error + stream_client" where
  "doq_parse_endpoint value = parse_endpoint ''DoQ'' ''doq'' ''quic://'' doq_default_port value"

subsection \<open>Addresses of endpoints\<close>

definition build_bootstrap_query :: "dns_lib \<Rightarrow> string \<Rightarrow> string \<Rightarrow> record_type \<Rightarrow> upstream_error + bytes" where
  "build_bootstrap_query L proto host query_type =
     res_bind (map_err (\<lambda>e. Protocol (''invalid '' @ proto @ '' hostname '' @ quoted host @ '': '' @ e))
       (lib_name_from_ascii L (fqdn_host host))) (\<lambda>name.
     encode_response L
       (add_query \<lparr>q_name = name, q_type = query_type, q_class = 1\<rparr>
         ((message_new 1 MtQuery OpQuery)\<lparr>m_recursion_desired := True\<rparr>)))"

fun first_address :: "u16 \<Rightarrow> dns_record list \<Rightarrow> socket_addr option" where
  "first_address port [] = None"
| "first_address port (r # rs) =
     (case r_data r of
        RdA a \<Rightarrow> Some (SocketV4 a port)
      | RdAAAA a \<Rightarrow> Some (SocketV6 a port 0)
      | _ \<Rightarrow> first_address port rs)"

text \<open>The bootstrap client is made for one query and has no connection of its own.\<close>

definition try_extract_ip_from_response ::
  "dns_lib \<Rightarrow> ('c, 'x) net_lib \<Rightarrow> socket_addr \<Rightarrow> outbound_routing \<Rightarrow> bytes \<Rightarrow> u16 \<Rightarrow> 'x
   \<Rightarrow> (upstream_error + socket_addr) \<times> 'x" where
  "try_extract_ip_from_response L N resolver routing query port x =
     (case dns_client_resolve L N resolver routing query None x of
        (Inl e, _, x) \<Rightarrow> (Inl e, x)
      | (Inr response, _, x) \<Rightarrow>
          (case lib_from_vec L response of
             Inl e \<Rightarrow> (Inl (Protocol e), x)
           | Inr message \<Rightarrow>
               (ok_or (Protocol ''no A/AAAA records in bootstrap response'')
                  (first_address port (m_answers message)), x)))"

fun ask_bootstrap_resolvers ::
  "dns_lib \<Rightarrow> ('c, 'x) net_lib \<Rightarrow> outbound_routing \<Rightarrow> bytes \<Rightarrow> bytes \<Rightarrow> u16 \<Rightarrow> string \<Rightarrow> socket_addr list \<Rightarrow> 'x
   \<Rightarrow> (upstream_error + socket_addr) \<times> 'x" where
  "ask_bootstrap_resolvers L N routing a_query aaaa_query port host [] x =
     (Inl (Protocol (''bootstrap resolvers did not return usable A/AAAA records for '' @ quoted host)), x)"
| "ask_bootstrap_resolvers L N routing a_query aaaa_query port host (resolver # resolvers) x =
     (case try_extract_ip_from_response L N resolver routing a_query port x of
        (Inr address, x) \<Rightarrow> (Inr address, x)
      | (Inl _, x) \<Rightarrow>
          (case try_extract_ip_from_response L N resolver routing aaaa_query port x of
             (Inr address, x) \<Rightarrow> (Inr address, x)
           | (Inl _, x) \<Rightarrow> ask_bootstrap_resolvers L N routing a_query aaaa_query port host resolvers x))"

definition resolve_hostname_via_bootstrap ::
  "dns_lib \<Rightarrow> ('c, 'x) net_lib \<Rightarrow> string \<Rightarrow> outbound_routing \<Rightarrow> socket_addr list \<Rightarrow> string \<Rightarrow> u16 \<Rightarrow> 'x
   \<Rightarrow> (upstream_error + socket_addr) \<times> 'x" where
  "resolve_hostname_via_bootstrap L N proto routing resolvers host port x =
     (case build_bootstrap_query L proto host TypeA of
        Inl e \<Rightarrow> (Inl e, x)
      | Inr a_query \<Rightarrow>
          (case build_bootstrap_query L proto host TypeAAAA of
             Inl e \<Rightarrow> (Inl e, x)
           | Inr aaaa_query \<Rightarrow> ask_bootstrap_resolvers L N routing a_query aaaa_query port host resolvers x))"

definition resolve_address ::
  "dns_lib \<Rightarrow> ('c, 'x) net_lib \<Rightarrow> string \<Rightarrow> outbound_routing \<Rightarrow> endpoint \<Rightarrow> socket_addr list \<Rightarrow> 'x
   \<Rightarrow> (upstream_error + socket_addr) \<times> 'x" where
  "resolve_address L N proto bootstrap_routing endpoint resolvers x =
     (case endpoint of
        Static address \<Rightarrow> (Inr address, x)
      | Hostname host port \<Rightarrow>
          (case nt_lookup_host N host port x of
             (Inr addrs, x) \<Rightarrow>
               (ok_or (Protocol (''no resolved address for '' @ proto @ '' hostname '' @ host_port host port))
                  (case addrs of [] \<Rightarrow> None | a # _ \<Rightarrow> Some a), x)
           | (Inl os_error, x) \<Rightarrow>
               (case resolve_hostname_via_bootstrap L N proto bootstrap_routing resolvers host port x of
                  (r, x) \<Rightarrow>
                    (map_err (\<lambda>bootstrap_error.
                       Protocol (''failed to resolve '' @ proto @ '' hostname '' @ host_port host port @
                         '' using OS resolver ('' @ os_error @ '') and bootstrap resolvers ('' @
                         show_upstream_error bootstrap_error @ '')'')) r, x))))"

subsection \<open>DNS over TLS\<close>

definition dot_connect :: "dns_lib \<Rightarrow> ('c, 'x) net_lib \<Rightarrow> stream_client \<Rightarrow> 'x \<Rightarrow> (upstream_error + 'c) \<times> 'x" where
  "dot_connect L N c x =
     (case resolve_address L N ''DoT'' no_routing (cl_endpoint c) (cl_bootstrap_resolvers c) x of
        (Inl e, x) \<Rightarrow> (Inl e, x)
      | (Inr address, x) \<Rightarrow> open_to N [] (TlsTo address (cl_server_name c) (cl_routing c)) x)"

definition resolve_dot ::
  "dns_lib \<Rightarrow> ('c, 'x) net_lib \<Rightarrow> stream_client \<Rightarrow> bytes \<Rightarrow> 'c option \<Rightarrow> 'x
   \<Rightarrow> (upstream_error + bytes) \<times> 'c option \<times> 'x" where
  "resolve_dot L N c query cached x =
     (case extract_question L query of
        Inl e \<Rightarrow> (Inl e, cached, x)
      | Inr (name, query_class, query_type) \<Rightarrow>
          kept_exchange (dot_connect L N c) (ask N (Ask name query_class query_type)) L cached x)"

subsection \<open>DNS over HTTPS\<close>

record https_client = stream_client +
  hc_path :: string
  hc_auth_header :: "string option"

definition parse_doh_url :: "('c, 'x) net_lib \<Rightarrow> string \<Rightarrow> upstream_error + endpoint \<times> string \<times> string" where
  "parse_doh_url N url_str =
     res_bind (map_err (\<lambda>e. Protocol (''invalid DoH URL '' @ quoted url_str @ '': '' @ e)) (nt_parse_url N url_str)) (\<lambda>url.
     if url_scheme url \<noteq> ''https''
     then Inl (Protocol (''DoH URL must use https scheme, got '' @ quoted (url_scheme url)))
     else
       res_bind (ok_or (Protocol ''DoH URL missing host'') (url_host url)) (\<lambda>host.
       (let port = (case url_port url of None \<Rightarrow> doh_default_port | Some p \<Rightarrow> p);
            path = (if url_path url = [] \<or> url_path url = ''/'' then doh_default_path else url_path url);
            endpoint = (case parse_ip_addr host of
                Some ip \<Rightarrow> Static (socket_addr_new ip port)
              | None \<Rightarrow> Hostname host port)
        in Inr (endpoint, host, path))))"

definition build_auth_headers :: "('c, 'x) net_lib \<Rightarrow> zone_source_auth \<Rightarrow> upstream_error + string" where
  "build_auth_headers N auth =
     (let value_str =
        (case auth of
           Bearer token \<Rightarrow> ''Bearer '' @ token
         | Basic username password \<Rightarrow> ''Basic '' @ nt_base64 N (username @ '':'' @ password))
      in map_err (\<lambda>e. Protocol (''invalid auth header value: '' @ e)) (nt_header_value N value_str))"

definition https_client_new ::
  "('c, 'x) net_lib \<Rightarrow> string \<Rightarrow> zone_source_auth option \<Rightarrow> upstream_error + https_client" where
  "https_client_new N url auth =
     res_bind (parse_doh_url N url) (\<lambda>(endpoint, server_name, path).
     res_bind (case auth of None \<Rightarrow> Inr None | Some a \<Rightarrow> map_ok Some (build_auth_headers N a)) (\<lambda>auth_headers.
     Inr \<lparr>cl_endpoint = endpoint, cl_server_name = server_name,
          cl_bootstrap_resolvers = default_bootstrap, cl_routing = no_routing,
          cl_label = ''doh://'' @ server_name @ path, hc_path = path, hc_auth_header = auth_headers\<rparr>))"

definition doh_connect :: "dns_lib \<Rightarrow> ('c, 'x) net_lib \<Rightarrow> https_client \<Rightarrow> 'x \<Rightarrow> (upstream_error + 'c) \<times> 'x" where
  "doh_connect L N c x =
     (case resolve_address L N ''DoH'' no_routing (cl_endpoint c) (cl_bootstrap_resolvers c) x of
        (Inl e, x) \<Rightarrow> (Inl e, x)
      | (Inr address, x) \<Rightarrow>
          open_to N ''DoH connect error: ''
            (HttpsTo address (cl_server_name c) (hc_path c) (hc_auth_header c) (cl_routing c)) x)"

text \<open>\<open>send_query\<close> of \<open>doh_client.rs\<close>: a new message with a random identifier.\<close>

definition doh_send_query ::
  "('c, 'x) net_lib \<Rightarrow> dns_name \<Rightarrow> u16 \<Rightarrow> record_type \<Rightarrow> 'c \<Rightarrow> 'x \<Rightarrow> (upstream_error + dns_message) \<times> 'x" where
  "doh_send_query N name query_class query_type c x =
     (case nt_random_u16 N x of (ident, x) \<Rightarrow>
        ask N (Send (add_query \<lparr>q_name = name, q_type = query_type, q_class = query_class\<rparr>
          ((message_new ident MtQuery OpQuery)\<lparr>m_recursion_desired := True\<rparr>))) c x)"

definition resolve_doh ::
  "dns_lib \<Rightarrow> ('c, 'x) net_lib \<Rightarrow> https_client \<Rightarrow> bytes \<Rightarrow> 'c option \<Rightarrow> 'x
   \<Rightarrow> (upstream_error + bytes) \<times> 'c option \<times> 'x" where
  "resolve_doh L N c query cached x =
     (case extract_question L query of
        Inl e \<Rightarrow> (Inl e, cached, x)
      | Inr (name, query_class, query_type) \<Rightarrow>
          kept_exchange (doh_connect L N c) (doh_send_query N name query_class query_type) L cached x)"

subsection \<open>DNS over QUIC\<close>

definition build_doq_request :: "dns_lib \<Rightarrow> bytes \<Rightarrow> upstream_error + net_request" where
  "build_doq_request L query =
     res_bind (map_err Protocol (lib_from_vec L query)) (\<lambda>message.
     if m_queries message = [] then Inl (Protocol ''query contains no questions'')
     else Inr (Send (message\<lparr>m_id := 0\<rparr>)))"

definition quic_local_addr :: "outbound_routing \<Rightarrow> socket_addr \<Rightarrow> upstream_error + socket_addr" where
  "quic_local_addr routing server_addr =
     (case or_bind_address routing of
        Some ip \<Rightarrow>
          if is_ipv4 ip \<noteq> is_ipv4 (socket_ip server_addr)
          then Inl (Protocol (''DoQ bind_address '' @ quoted (show_ip ip) @ '' does not match upstream address family ''
                 @ quoted (show_socket_addr server_addr)))
          else Inr (socket_addr_new ip 0)
      | None \<Rightarrow>
          (case server_addr of
             SocketV4 _ _ \<Rightarrow> Inr (SocketV4 0 0)
           | SocketV6 _ _ _ \<Rightarrow> Inr (SocketV6 0 0 0)))"

definition build_quic_socket ::
  "('c, 'x) net_lib \<Rightarrow> socket_addr \<Rightarrow> outbound_routing \<Rightarrow> 'x \<Rightarrow> (upstream_error + socket_addr) \<times> 'x" where
  "build_quic_socket N server_addr routing x =
     (case quic_local_addr routing server_addr of
        Inl e \<Rightarrow> (Inl e, x)
      | Inr local_addr \<Rightarrow>
          (case run_ops N
             ([NewSocket (is_ipv4 (socket_ip local_addr)) DgramSocket] @ mark_ops routing @
              [SetNonblocking, BindTo local_addr, WrapUdp]) x of
             (Inl e, x) \<Rightarrow> (Inl (IoError e), x)
           | (Inr _, x) \<Rightarrow> (Inr local_addr, x)))"

definition doq_connect :: "dns_lib \<Rightarrow> ('c, 'x) net_lib \<Rightarrow> stream_client \<Rightarrow> 'x \<Rightarrow> (upstream_error + 'c) \<times> 'x" where
  "doq_connect L N c x =
     (case resolve_address L N ''DoQ'' (cl_routing c) (cl_endpoint c) (cl_bootstrap_resolvers c) x of
        (Inl e, x) \<Rightarrow> (Inl e, x)
      | (Inr address, x) \<Rightarrow>
          (case or_fwmark (cl_routing c) of
             Some mark \<Rightarrow>
               (case build_quic_socket N address (cl_routing c) x of
                  (Inl e, x) \<Rightarrow> (Inl e, x)
                | (Inr local_addr, x) \<Rightarrow>
                    open_to N ''DoQ connect error: '' (QuicTo address (cl_server_name c) (QuicMarked local_addr mark)) x)
           | None \<Rightarrow>
               open_to N ''DoQ connect error: ''
                 (QuicTo address (cl_server_name c)
                   (case or_bind_address (cl_routing c) of
                      Some ip \<Rightarrow> QuicBound (socket_addr_new ip 0)
                    | None \<Rightarrow> QuicDefault)) x))"

definition resolve_doq ::
  "dns_lib \<Rightarrow> ('c, 'x) net_lib \<Rightarrow> stream_client \<Rightarrow> bytes \<Rightarrow> 'c option \<Rightarrow> 'x
   \<Rightarrow> (upstream_error + bytes) \<times> 'c option \<times> 'x" where
  "resolve_doq L N c query cached x =
     (case build_doq_request L query of
        Inl e \<Rightarrow> (Inl e, cached, x)
      | Inr request \<Rightarrow> kept_exchange (doq_connect L N c) (ask N request) L cached x)"

subsection \<open>The clients as resolvers\<close>

text \<open>The connections that the clients keep, by the identity of the client, and the rest of the network.\<close>

record ('c, 'x) transport =
  tr_conns :: "nat \<times> nat \<Rightarrow> 'c option"
  tr_ext :: 'x

definition client_upstream ::
  "string \<Rightarrow> nat \<times> nat \<Rightarrow> (bytes \<Rightarrow> 'c option \<Rightarrow> 'x \<Rightarrow> (upstream_error + bytes) \<times> 'c option \<times> 'x)
   \<Rightarrow> ('c, 'x) transport upstream" where
  "client_upstream label cid resolve =
     net_upstream label (\<lambda>query t.
       case resolve query (tr_conns t cid) (tr_ext t) of
         (r, conn, x) \<Rightarrow> (r, t\<lparr>tr_conns := (tr_conns t)(cid := conn), tr_ext := x\<rparr>))"

definition dns_udp_tcp_client ::
  "dns_lib \<Rightarrow> ('c, 'x) net_lib \<Rightarrow> nat \<times> nat \<Rightarrow> socket_addr \<Rightarrow> outbound_routing \<Rightarrow> ('c, 'x) transport upstream" where
  "dns_udp_tcp_client L N cid address routing =
     client_upstream (''dns://'' @ show_socket_addr address) cid (dns_client_resolve L N address routing)"

definition dns_tls_client ::
  "dns_lib \<Rightarrow> ('c, 'x) net_lib \<Rightarrow> nat \<times> nat \<Rightarrow> stream_client \<Rightarrow> ('c, 'x) transport upstream" where
  "dns_tls_client L N cid c = client_upstream (cl_label c) cid (resolve_dot L N c)"

definition dns_https_client ::
  "dns_lib \<Rightarrow> ('c, 'x) net_lib \<Rightarrow> nat \<times> nat \<Rightarrow> https_client \<Rightarrow> ('c, 'x) transport upstream" where
  "dns_https_client L N cid c = client_upstream (cl_label c) cid (resolve_doh L N c)"

definition dns_quic_client ::
  "dns_lib \<Rightarrow> ('c, 'x) net_lib \<Rightarrow> nat \<times> nat \<Rightarrow> stream_client \<Rightarrow> ('c, 'x) transport upstream" where
  "dns_quic_client L N cid c = client_upstream (cl_label c) cid (resolve_doq L N c)"

subsection \<open>Kept connections as an interface\<close>

text \<open>
  What the four transports over a stream have in common: a request is made from the query or the query is
  rejected, and the request is exchanged over the kept connection.
\<close>

locale stream_transport =
  fixes resolve :: "'cl \<Rightarrow> bytes \<Rightarrow> 'c option \<Rightarrow> 'x \<Rightarrow> (upstream_error + bytes) \<times> 'c option \<times> 'x"
    and request :: "bytes \<Rightarrow> upstream_error + 'r"
    and connect :: "'cl \<Rightarrow> 'x \<Rightarrow> (upstream_error + 'c) \<times> 'x"
    and exchange :: "'r \<Rightarrow> 'c \<Rightarrow> 'x \<Rightarrow> (upstream_error + dns_message) \<times> 'x"
    and L :: dns_lib
  assumes resolve_eq: "resolve cl q cached x =
    (case request q of
       Inl e \<Rightarrow> (Inl e, cached, x)
     | Inr r \<Rightarrow> kept_exchange (connect cl) (exchange r) L cached x)"
begin

text \<open>An answer comes over the kept connection, or over a new one after the kept one failed or was missing.\<close>

lemma answered:
  "resolve cl q cached x = (Inr b, kept, x') \<longleftrightarrow>
    (\<exists>r c m. request q = Inr r \<and> kept = Some c \<and> lib_to_vec L m = Inr b \<and>
      (cached = Some c \<and> exchange r c x = (Inr m, x') \<or>
       (\<exists>x1 x2. (cached = None \<and> x1 = x \<or> (\<exists>c0 e. cached = Some c0 \<and> exchange r c0 x = (Inl e, x1))) \<and>
          connect cl x1 = (Inr c, x2) \<and> exchange r c x2 = (Inr m, x'))))"
  by (fastforce simp: resolve_eq kept_exchange_def fresh_exchange_def encode_response_def
      split: sum.splits option.splits prod.splits)

text \<open>A connection is kept only if it was kept before or was opened by this client.\<close>

lemma kept_opened:
  assumes "resolve cl q cached x = (res, Some c, x')"
  shows "cached = Some c \<or> (\<exists>x1 x2. connect cl x1 = (Inr c, x2))"
  using assms by (fastforce simp: resolve_eq kept_exchange_def fresh_exchange_def
      split: sum.splits option.splits prod.splits)

text \<open>A failed connection is never kept, so that the next query opens a new one.\<close>

lemma failure_drops:
  assumes "resolve cl q cached x = (Inl e, kept, x')" and "request q = Inr r"
    and "\<And>m. \<exists>b. lib_to_vec L m = Inr b"
  shows "kept = None"
proof -
  have "encode_response L m \<noteq> Inl e" for m e using assms(3) [of m] by (auto simp: encode_response_def)
  then show ?thesis
    using assms(1,2) by (auto simp: resolve_eq kept_exchange_def fresh_exchange_def
        split: sum.splits option.splits prod.splits)
qed

lemma kept_invariant:
  assumes "\<And>x c x'. connect cl x = (Inr c, x') \<Longrightarrow> P c" and "pred_option P cached"
    and "resolve cl q cached x = (res, kept, x')"
  shows "pred_option P kept"
  using kept_opened [of cl q cached x res _ x'] assms by (cases kept) auto

end

interpretation tcp_stream: stream_transport
  "\<lambda>(address, routing). resolve_tcp L N address routing" "extract_question L"
  "\<lambda>(address, routing). open_to N [] (TcpTo address routing)" "\<lambda>(n, c, t). ask N (Ask n c t)" L
  by unfold_locales (simp add: resolve_tcp_def split: sum.split prod.split)

interpretation dot_stream: stream_transport
  "resolve_dot L N" "extract_question L" "dot_connect L N" "\<lambda>(n, c, t). ask N (Ask n c t)" L
  by unfold_locales (simp add: resolve_dot_def split: sum.split prod.split)

interpretation doh_stream: stream_transport
  "resolve_doh L N" "extract_question L" "doh_connect L N" "\<lambda>(n, c, t). doh_send_query N n c t" L
  by unfold_locales (simp add: resolve_doh_def split: sum.split prod.split)

interpretation doq_stream: stream_transport
  "resolve_doq L N" "build_doq_request L" "doq_connect L N" "ask N" L
  by unfold_locales (simp add: resolve_doq_def)

subsection \<open>Sequences of queries\<close>

text \<open>A client serving queries one after the other: the connection kept at the end, and the network.\<close>

fun serve ::
  "(bytes \<Rightarrow> 'c option \<Rightarrow> 'x \<Rightarrow> (upstream_error + bytes) \<times> 'c option \<times> 'x)
   \<Rightarrow> bytes list \<Rightarrow> 'c option \<Rightarrow> 'x \<Rightarrow> 'c option \<times> 'x" where
  "serve resolve [] kept x = (kept, x)"
| "serve resolve (q # qs) kept x =
     (case resolve q kept x of (_, kept, x) \<Rightarrow> serve resolve qs kept x)"

context stream_transport
begin

lemma serve_invariant:
  assumes "\<And>x c x'. connect cl x = (Inr c, x') \<Longrightarrow> P c"
  shows "pred_option P cached \<Longrightarrow> pred_option P (fst (serve (resolve cl) qs cached x))"
proof (induction qs arbitrary: cached x)
  case (Cons q qs)
  obtain res kept x' where r: "resolve cl q cached x = (res, kept, x')" by (metis prod_cases3)
  then have "pred_option P kept" using kept_invariant [OF assms Cons.prems r] by simp
  then show ?case using Cons.IH r by simp
qed simp

end

text \<open>What the libraries promise of a connection: it goes where it was opened to.\<close>

definition opens_as_asked :: "('c, 'x) net_lib \<Rightarrow> ('c \<Rightarrow> connect_target) \<Rightarrow> bool" where
  "opens_as_asked N conn_target \<longleftrightarrow> (\<forall>t x c x'. nt_connect N t x = (Inr c, x') \<longrightarrow> conn_target c = t)"

lemma open_to_target:
  "opens_as_asked N ct \<Longrightarrow> open_to N what t x = (Inr c, x') \<Longrightarrow> ct c = t"
  by (auto simp: open_to_def opens_as_asked_def split: prod.splits)

lemma resolve_address_static:
  "resolve_address L N p r (Static a) rs x = (Inr address, x') \<Longrightarrow> address = a"
  by (simp add: resolve_address_def)

definition target_of_dot :: "stream_client \<Rightarrow> connect_target \<Rightarrow> bool" where
  "target_of_dot c t \<longleftrightarrow>
     (case t of
        TlsTo a server routing \<Rightarrow>
          server = cl_server_name c \<and> routing = cl_routing c \<and>
          (case cl_endpoint c of Static address \<Rightarrow> a = address | Hostname _ _ \<Rightarrow> True)
      | _ \<Rightarrow> False)"

definition target_of_doh :: "https_client \<Rightarrow> connect_target \<Rightarrow> bool" where
  "target_of_doh c t \<longleftrightarrow>
     (case t of
        HttpsTo a server path auth routing \<Rightarrow>
          server = cl_server_name c \<and> path = hc_path c \<and> auth = hc_auth_header c \<and> routing = cl_routing c \<and>
          (case cl_endpoint c of Static address \<Rightarrow> a = address | Hostname _ _ \<Rightarrow> True)
      | _ \<Rightarrow> False)"

definition target_of_doq :: "stream_client \<Rightarrow> connect_target \<Rightarrow> bool" where
  "target_of_doq c t \<longleftrightarrow>
     (case t of
        QuicTo a server socket \<Rightarrow>
          server = cl_server_name c \<and>
          (case cl_endpoint c of Static address \<Rightarrow> a = address | Hostname _ _ \<Rightarrow> True) \<and>
          (case or_fwmark (cl_routing c) of
             Some mark \<Rightarrow> (\<exists>local_addr. quic_local_addr (cl_routing c) a = Inr local_addr \<and> socket = QuicMarked local_addr mark)
           | None \<Rightarrow> socket = (case or_bind_address (cl_routing c) of
                 Some ip \<Rightarrow> QuicBound (socket_addr_new ip 0) | None \<Rightarrow> QuicDefault))
      | _ \<Rightarrow> False)"

lemma dot_connect_target:
  "opens_as_asked N ct \<Longrightarrow> dot_connect L N c x = (Inr conn, x') \<Longrightarrow> target_of_dot c (ct conn)"
  by (auto simp: dot_connect_def target_of_dot_def split: sum.splits prod.splits endpoint.splits
      dest!: open_to_target resolve_address_static)

lemma doh_connect_target:
  "opens_as_asked N ct \<Longrightarrow> doh_connect L N c x = (Inr conn, x') \<Longrightarrow> target_of_doh c (ct conn)"
  by (auto simp: doh_connect_def target_of_doh_def split: sum.splits prod.splits endpoint.splits
      dest!: open_to_target resolve_address_static)

lemma build_quic_socket_addr:
  "build_quic_socket N a r x = (Inr local_addr, x') \<Longrightarrow> quic_local_addr r a = Inr local_addr"
  by (auto simp: build_quic_socket_def split: sum.splits prod.splits)

lemma doq_connect_target:
  "opens_as_asked N ct \<Longrightarrow> doq_connect L N c x = (Inr conn, x') \<Longrightarrow> target_of_doq c (ct conn)"
  by (auto simp: doq_connect_def target_of_doq_def split: sum.splits prod.splits endpoint.splits option.splits
      dest!: open_to_target resolve_address_static build_quic_socket_addr)

text \<open>
  C15. An encrypted client sends queries only over connections of its own: after any sequence of queries,
  starting with none, the connection that a DoT, DoH or DoQ client keeps was opened to its own server name
  (and, for an endpoint given by address, to that address), with its own outbound routing and, for DoH,
  its own path and credentials.
\<close>

theorem kept_connection_own:
  assumes "opens_as_asked N ct"
  shows "pred_option (\<lambda>conn. target_of_dot c (ct conn)) (fst (serve (resolve_dot L N c) qs None x)) \<and>
    pred_option (\<lambda>conn. target_of_doh h (ct conn)) (fst (serve (resolve_doh L N h) qs None x)) \<and>
    pred_option (\<lambda>conn. target_of_doq c (ct conn)) (fst (serve (resolve_doq L N c) qs None x))"
  by (intro conjI dot_stream.serve_invariant doh_stream.serve_invariant doq_stream.serve_invariant)
    (auto intro: dot_connect_target doh_connect_target doq_connect_target assms)

subsection \<open>Endpoints are read back\<close>

lemma res_map_list_ok_iff:
  "(\<exists>ys. res_map_list f xs = Inr ys) \<longleftrightarrow> (\<forall>x\<in>set xs. \<exists>y. f x = Inr y)"
  by (induction xs) auto

lemma validate_hostname_iff:
  "validate_hostname proto host = Inr () \<longleftrightarrow>
     length host \<le> 253 \<and>
     (\<forall>label\<in>set (split_char (CHR ''.'') host).
        label \<noteq> [] \<and> length label \<le> 63 \<and> hd label \<noteq> CHR ''-'' \<and> last label \<noteq> CHR ''-'' \<and>
        list_all (\<lambda>c. is_ascii_alphanumeric c \<or> c = CHR ''-'') label)"
proof -
  have "(\<exists>u. validate_label proto label = Inr u) \<longleftrightarrow>
      label \<noteq> [] \<and> length label \<le> 63 \<and> hd label \<noteq> CHR ''-'' \<and> last label \<noteq> CHR ''-'' \<and>
      list_all (\<lambda>c. is_ascii_alphanumeric c \<or> c = CHR ''-'') label" for label
    by (auto simp: validate_label_def)
  moreover have "[] \<in> set (split_char (CHR ''.'') host)" if "host = []" using that by simp
  ultimately show ?thesis
    by (auto simp: validate_hostname_def res_map_list_ok_iff)
qed

lemma join_char_set: "c \<in> set (join_char d ws) \<Longrightarrow> c = d \<or> (\<exists>w\<in>set ws. c \<in> set w)"
proof (induction ws)
  case (Cons w ws)
  then show ?case by (cases ws) auto
qed simp

lemma hostname_chars:
  assumes "validate_hostname proto host = Inr ()" and "c \<in> set host"
  shows "is_ascii_alphanumeric c \<or> c = CHR ''-'' \<or> c = CHR ''.''"
  using assms join_char_set [of c "CHR ''.''" "split_char (CHR ''.'') host"]
  by (auto simp: validate_hostname_iff list_all_iff)

lemma hostname_no_sep:
  assumes "validate_hostname proto host = Inr ()"
  shows "CHR '':'' \<notin> set host" "CHR ''/'' \<notin> set host" "list_all visible host"
proof -
  have no: "\<not> (is_ascii_alphanumeric c \<or> c = CHR ''-'' \<or> c = CHR ''.'')" if "c = CHR '':'' \<or> c = CHR ''/''" for c
    using that by (auto simp: is_ascii_alphanumeric_def is_ascii_alpha_def is_ascii_upper_def is_ascii_digit_def)
  then show "CHR '':'' \<notin> set host" "CHR ''/'' \<notin> set host" using hostname_chars [OF assms] by blast+
  have "visible c" if "is_ascii_alphanumeric c \<or> c = CHR ''-'' \<or> c = CHR ''.''" for c
    using that by (auto simp: visible_def is_ascii_alphanumeric_def is_ascii_alpha_def is_ascii_upper_def
        is_ascii_digit_def Let_def)
  then show "list_all visible host" using hostname_chars [OF assms] by (auto simp: list_all_iff)
qed

lemma hostname_no_trailing_dot:
  assumes "validate_hostname proto host = Inr ()"
  shows "host_without_trailing_dot host = host"
proof (cases "ends_with_char host (CHR ''.'')")
  case True
  then obtain h where "host = h @ CHR ''.'' # []" by (cases host rule: rev_cases) (auto simp: ends_with_char_def)
  then have "[] \<in> set (split_char (CHR ''.'') host)" by (simp add: split_char_append_sep)
  then show ?thesis using assms by (auto simp: validate_hostname_iff)
qed (simp add: host_without_trailing_dot_def trim_end_char_id)

lemma parse_endpoint_no_slash:
  assumes "CHR ''/'' \<notin> set e" and "CHR ''/'' \<in> set url_prefix" and "p = [] \<or> p = url_prefix"
  shows "(case strip_prefix (p @ e) url_prefix of None \<Rightarrow> p @ e | Some r \<Rightarrow> r) = e"
proof (cases "p = url_prefix")
  case False
  then have "\<not> prefix url_prefix e" using assms by (auto simp: prefix_def)
  then show ?thesis using assms(3) False by (auto split: option.split simp: prefix_def)
qed (simp add: strip_prefix_def)

lemma show_ipv4_no_slash: "CHR ''/'' \<notin> set (show_ipv4 a)"
proof -
  have "\<not> is_ascii_digit (CHR ''/'')" by (simp add: is_ascii_digit_def)
  then show ?thesis using show_ipv4_chars(2) by fastforce
qed

lemma parse_endpoint_static:
  assumes "p = [] \<or> p = url_prefix" and "CHR ''/'' \<in> set url_prefix"
  shows "map_ok cl_endpoint (parse_endpoint proto scheme url_prefix dflt (p @ show_ipv4 a @ '':'' @ show_port port)) =
      Inr (Static (SocketV4 a port))"
    and "map_ok cl_endpoint (parse_endpoint proto scheme url_prefix dflt (p @ show_ipv4 a)) =
      Inr (Static (SocketV4 a dflt))"
proof -
  have colon: "visible (CHR '':'')" by (simp add: visible_def)
  have "trim (show_ipv4 a @ '':'' @ show_port port) \<noteq> []" and "trim (show_ipv4 a) \<noteq> []"
    using trim_visible [of "show_ipv4 a @ '':'' @ show_port port"] trim_visible [of "show_ipv4 a"]
      show_ipv4_first [of a] show_addr_visible colon by auto
  moreover note parse_endpoint_no_slash [OF _ assms(2,1)] show_ipv4_no_slash
  ultimately show "map_ok cl_endpoint (parse_endpoint proto scheme url_prefix dflt (p @ show_ipv4 a @ '':'' @ show_port port)) =
      Inr (Static (SocketV4 a port))"
    and "map_ok cl_endpoint (parse_endpoint proto scheme url_prefix dflt (p @ show_ipv4 a)) =
      Inr (Static (SocketV4 a dflt))"
    by (simp_all add: parse_endpoint_def stream_client_new_def socket_addr_new_def Let_def)
qed

lemma parse_endpoint_hostname:
  assumes "p = [] \<or> p = url_prefix" and "CHR ''/'' \<in> set url_prefix"
    and host: "validate_hostname proto host = Inr ()" and "e = host @ '':'' @ show_port port"
    and "parse_socket_addr e = None" and "parse_ip_addr e = None"
  shows "map_ok cl_endpoint (parse_endpoint proto scheme url_prefix dflt (p @ e)) = Inr (Hostname host port)"
proof -
  have colon: "visible (CHR '':'')" by (simp add: visible_def)
  have "trim e \<noteq> []"
    using trim_visible [of e] hostname_no_sep(3) [OF host] show_addr_visible(2) colon assms(4) by simp
  moreover have "CHR ''/'' \<notin> set e" using assms(4) hostname_no_sep(2) [OF host] by simp
  moreover have "parse_hostname_with_optional_port proto dflt e = Inr (Some (host, port))"
    using assms(4) hostname_no_sep(1) [OF host] host hostname_no_trailing_dot [OF host]
    by (simp add: parse_hostname_with_optional_port_def rsplit_once_last)
  ultimately show ?thesis
    using assms(5,6) parse_endpoint_no_slash [OF _ assms(2,1), of e]
    by (simp add: parse_endpoint_def stream_client_hostname_def)
qed

text \<open>
  Endpoints of DoT upstreams are read back as written, with or without the \<open>tls://\<close> prefix: an IPv4
  address and port give that address, an address alone gives it with port 853, and a valid host name
  and port (that do not themselves read as an address) give that name and port.
\<close>

theorem dot_endpoint_roundtrip:
  assumes "p = [] \<or> p = ''tls://''"
  shows "map_ok cl_endpoint (dot_parse_endpoint (p @ show_socket_addr (SocketV4 a port))) = Inr (Static (SocketV4 a port)) \<and>
    map_ok cl_endpoint (dot_parse_endpoint (p @ show_ipv4 a)) = Inr (Static (SocketV4 a 853)) \<and>
    (validate_hostname ''DoT'' host = Inr () \<and> parse_socket_addr (host @ '':'' @ show_port port) = None \<and>
     parse_ip_addr (host @ '':'' @ show_port port) = None \<longrightarrow>
     map_ok cl_endpoint (dot_parse_endpoint (p @ host @ '':'' @ show_port port)) = Inr (Hostname host port))"
  using parse_endpoint_static [OF assms] parse_endpoint_hostname [OF assms]
  by (simp add: dot_parse_endpoint_def dot_default_port_def)

theorem dot_endpoint_roundtrip_witness:
  "map_ok cl_endpoint (dot_parse_endpoint ''tls://9.9.9.9:8853'') = Inr (Static (SocketV4 0x09090909 8853)) \<and>
   map_ok cl_endpoint (dot_parse_endpoint ''tls://dns.example:8853'') = Inr (Hostname ''dns.example'' 8853)"
proof -
  have "validate_hostname ''DoT'' ''dns.example'' = Inr () \<and> show_ipv4 0x09090909 = ''9.9.9.9'' \<and> show_port 8853 = ''8853''"
    by code_simp
  moreover have "parse_socket_addr ''dns.example:8853'' = None \<and> parse_ip_addr ''dns.example:8853'' = None"
    by code_simp
  ultimately show ?thesis
    using dot_endpoint_roundtrip [of "''tls://''" "0x09090909" 8853 "''dns.example''"] by simp
qed

subsection \<open>Truncated answers\<close>

text \<open>
  A plain client never hands out a truncated UDP answer when TCP works: an answer it gives is either an
  UDP answer without the truncation flag, with the kept connection untouched, or an answer to the same
  question over a TCP connection, which is then kept: the connection kept before, or a new one when there
  was none or it failed.
\<close>

theorem truncated_answer_retried:
  assumes "dns_client_resolve L N address routing q cached x = (Inr b, kept, x')"
  shows "\<exists>n c t. extract_question L q = Inr (n, c, t) \<and>
    ((\<exists>m. resolve_udp L N address routing q x = (Inr b, x') \<and> lib_from_vec L b = Inr m \<and> \<not> m_truncation m \<and>
        kept = cached) \<or>
     (\<exists>u m x0 conn m'. resolve_udp L N address routing q x = (Inr u, x0) \<and> lib_from_vec L u = Inr m \<and> m_truncation m \<and>
        kept = Some conn \<and> lib_to_vec L m' = Inr b \<and>
        (cached = Some conn \<and> ask N (Ask n c t) conn x0 = (Inr m', x') \<or>
         (\<exists>x1 x2. (cached = None \<and> x1 = x0 \<or> (\<exists>c0 e. cached = Some c0 \<and> ask N (Ask n c t) c0 x0 = (Inl e, x1))) \<and>
            open_to N [] (TcpTo address routing) x1 = (Inr conn, x2) \<and> ask N (Ask n c t) conn x2 = (Inr m', x')))))"
proof -
  obtain u x0 m where u: "resolve_udp L N address routing q x = (Inr u, x0)" "lib_from_vec L u = Inr m"
    using assms by (auto simp: dns_client_resolve_def split: sum.splits prod.splits)
  then obtain n c t where q: "extract_question L q = Inr (n, c, t)"
    by (auto simp: resolve_udp_def split: sum.splits prod.splits)
  show ?thesis
  proof (cases "m_truncation m")
    case False
    then show ?thesis using assms u q by (auto simp: dns_client_resolve_def)
  next
    case True
    then have "resolve_tcp L N address routing q cached x0 = (Inr b, kept, x')"
      using assms u by (simp add: dns_client_resolve_def)
    then show ?thesis
      using u q True tcp_stream.answered [where cl = "(address, routing)" and q = q and cached = cached and x = x0]
      by auto
  qed
qed

subsection \<open>Outbound routing\<close>

text \<open>The operations that were carried out, the failed one included.\<close>

fun attempted :: "('c, 'x) net_lib \<Rightarrow> sock_op list \<Rightarrow> 'x \<Rightarrow> (sock_op \<times> bool) list" where
  "attempted N [] x = []"
| "attempted N (op # ops) x =
     (case nt_sock_op N op x of
        (Inl e, x) \<Rightarrow> [(op, False)]
      | (Inr _, x) \<Rightarrow> (op, True) # attempted N ops x)"

lemma attempted_prefix: "prefix (map fst (attempted N ops x)) ops"
  by (induction ops arbitrary: x) (auto split: sum.splits prod.splits)

lemma attempted_last:
  "(op, b) \<in> set (attempted N (ops @ [op]) x) \<Longrightarrow> op \<notin> set ops \<Longrightarrow>
    \<forall>o'\<in>set ops. (o', True) \<in> set (attempted N (ops @ [op]) x)"
  by (induction ops arbitrary: x) (auto split: sum.splits prod.splits)

text \<open>
  C34. The TCP connections of the routed provider fail closed: with a mark or a source address
  configured, \<open>connect_tcp\<close> connects only on a socket on which every configured option has been set
  successfully; in particular a failure to set the mark or to bind prevents the connection. This is about
  TCP alone: not about the sockets of DoQ, and not about the bootstrap lookups of DoT and DoH, which go out
  without any option (\<open>bootstrap_routing_differs\<close>).
\<close>

theorem routing_fails_closed:
  assumes "\<not> routing_is_empty routing"
    and "(ConnectTo server t, ok) \<in> set (attempted N (connect_tcp_ops routing server bind timeout) x)"
  shows "(\<forall>mark. or_fwmark routing = Some mark \<longrightarrow>
        (SetMark mark, True) \<in> set (attempted N (connect_tcp_ops routing server bind timeout) x)) \<and>
    (\<forall>ip. or_bind_address routing = Some ip \<longrightarrow>
        (BindTo (socket_addr_new ip 0), True) \<in> set (attempted N (connect_tcp_ops routing server bind timeout) x)) \<and>
    fst (connect_tcp N routing server bind timeout x) = fst (run_ops N (connect_tcp_ops routing server bind timeout) x)"
proof -
  obtain ops c where ops: "connect_tcp_ops routing server bind timeout = ops @ [c]" "c \<notin> set ops"
    "\<forall>s t. ConnectTo s t \<in> set (ops @ [c]) \<longrightarrow> c = ConnectTo s t"
    "\<forall>mark. or_fwmark routing = Some mark \<longrightarrow> SetMark mark \<in> set ops"
    "\<forall>ip. or_bind_address routing = Some ip \<longrightarrow> BindTo (socket_addr_new ip 0) \<in> set ops"
    by (rule that [of "butlast (connect_tcp_ops routing server bind timeout)"
          "last (connect_tcp_ops routing server bind timeout)"])
      (auto simp: connect_tcp_ops_def mark_ops_def Let_def split: option.splits)
  have "ConnectTo server t \<in> set (ops @ [c])"
    using assms(2) attempted_prefix [of N "ops @ [c]" x] set_mono_prefix ops(1) by (metis fst_conv image_eqI list.set_map subsetD)
  then have "c = ConnectTo server t" using ops(3) by blast
  then have "\<forall>o'\<in>set ops. (o', True) \<in> set (attempted N (ops @ [c]) x)"
    using attempted_last [of c ok N ops x] assms(2) ops(1,2) by simp
  then show ?thesis using ops assms(1) by (simp add: connect_tcp_def)
qed

subsection \<open>Instances\<close>

text \<open>A network on which every operation works: a connection is its own target, the state counts operations.\<close>

definition example_net_lib :: "(connect_target, nat) net_lib" where
  "example_net_lib =
     \<lparr>nt_lookup_host = (\<lambda>_ port x. (Inr [SocketV4 0x09090909 port], x)),
      nt_udp_exchange = (\<lambda>_ _ _ x. (Inr (example_message\<lparr>m_truncation := True\<rparr>), Suc x)),
      nt_connect = (\<lambda>t x. (Inr t, Suc x)), nt_exchange = (\<lambda>_ _ x. (Inr example_message, Suc x)),
      nt_sock_op = (\<lambda>_ x. (Inr (), Suc x)), nt_plain_connect_tcp = (\<lambda>_ _ _ x. (Inr (), x)),
      nt_plain_bind_udp = (\<lambda>_ _ x. (Inr (), x)), nt_random_u16 = (\<lambda>x. (of_nat x, x)),
      nt_parse_url = (\<lambda>_. Inr \<lparr>url_scheme = ''https'', url_host = Some ''[2620:fe::fe]'', url_port = None,
                              url_path = ''/''\<rparr>),
      nt_base64 = (\<lambda>s. s), nt_header_value = Inr\<rparr>"

definition example_query :: dns_message where
  "example_query = add_query \<lparr>q_name = DnsName [''a''], q_type = TypeA, q_class = 1\<rparr> (message_new 258 MtQuery OpQuery)"

definition transport_lib :: dns_lib where
  "transport_lib = table_lib
     [(example_query, [1, 2, 5]), (example_message, [1, 2, 128, 9]),
      (example_message\<lparr>m_truncation := True\<rparr>, [1, 2, 130, 9])] (\<lambda>_. True)"

theorem kept_connection_own_witness:
  "fst (serve (resolve_dot transport_lib example_net_lib (stream_client_hostname ''dot'' ''dns.example'' 853))
     [[1, 2, 5], [1, 2, 5]] None 0) = Some (TlsTo (SocketV4 0x09090909 853) ''dns.example'' no_routing) \<and>
   target_of_dot (stream_client_hostname ''dot'' ''dns.example'' 853)
     (TlsTo (SocketV4 0x09090909 853) ''dns.example'' no_routing)"
proof -
  have "fst (serve (resolve_dot transport_lib example_net_lib (stream_client_hostname ''dot'' ''dns.example'' 853))
     [[1, 2, 5], [1, 2, 5]] None 0) = Some (TlsTo (SocketV4 0x09090909 853) ''dns.example'' no_routing)"
    by code_simp
  moreover have "opens_as_asked example_net_lib (\<lambda>c. c)" by (simp add: opens_as_asked_def example_net_lib_def)
  ultimately show ?thesis
    using kept_connection_own [of example_net_lib "\<lambda>c. c" "stream_client_hostname ''dot'' ''dns.example'' 853"
        transport_lib "[[1, 2, 5], [1, 2, 5]]" 0] by simp
qed

theorem truncated_answer_retried_witness:
  "fst (resolve_udp transport_lib example_net_lib (SocketV4 1 53) no_routing [1, 2, 5] 0) = Inr [1, 2, 130, 9] \<and>
   (\<exists>conn m' x1 x2. lib_to_vec transport_lib m' = Inr [1, 2, 128, 9] \<and>
      open_to example_net_lib [] (TcpTo (SocketV4 1 53) no_routing) x1 = (Inr conn, x2) \<and>
      ask example_net_lib (Ask (DnsName [''a'']) 1 TypeA) conn x2 = (Inr m', 3))"
proof -
  have "dns_client_resolve transport_lib example_net_lib (SocketV4 1 53) no_routing [1, 2, 5] None 0 =
      (Inr [1, 2, 128, 9], Some (TcpTo (SocketV4 1 53) no_routing), 3)" by code_simp
  note truncated_answer_retried [OF this]
  moreover have "extract_question transport_lib [1, 2, 5] = Inr (DnsName [''a''], 1, TypeA)" by code_simp
  moreover have "resolve_udp transport_lib example_net_lib (SocketV4 1 53) no_routing [1, 2, 5] 0 = (Inr [1, 2, 130, 9], 1)"
    by code_simp
  ultimately show ?thesis by auto
qed

theorem routing_fails_closed_witness:
  "(SetMark 7, True) \<in> set (attempted example_net_lib
     (connect_tcp_ops \<lparr>or_bind_address = Some (V4 5), or_fwmark = Some 7\<rparr> (SocketV4 1 53) None (Some 9)) 0) \<and>
   (BindTo (SocketV4 5 0), True) \<in> set (attempted example_net_lib
     (connect_tcp_ops \<lparr>or_bind_address = Some (V4 5), or_fwmark = Some 7\<rparr> (SocketV4 1 53) None (Some 9)) 0)"
proof -
  have "(ConnectTo (SocketV4 1 53) 9, True) \<in> set (attempted example_net_lib
     (connect_tcp_ops \<lparr>or_bind_address = Some (V4 5), or_fwmark = Some 7\<rparr> (SocketV4 1 53) None (Some 9)) 0)"
    by code_simp
  moreover have "\<not> routing_is_empty \<lparr>or_bind_address = Some (V4 5), or_fwmark = Some 7\<rparr>" by code_simp
  ultimately show ?thesis
    using routing_fails_closed [of "\<lparr>or_bind_address = Some (V4 5), or_fwmark = Some 7\<rparr>" "SocketV4 1 53" 9 True
        example_net_lib None "Some 9" 0] by (simp add: socket_addr_new_def)
qed

text \<open>
  A DoH URL whose host is an IPv6 address in brackets, as \<open>host_str\<close> of the \<open>url\<close> crate returns it, is not
  recognised as an address: the endpoint becomes a host name with brackets.
\<close>

theorem doh_ipv6_not_static:
  "parse_doh_url example_net_lib ''https://[2620:fe::fe]/'' =
     Inr (Hostname ''[2620:fe::fe]'' 443, ''[2620:fe::fe]'', ''/dns-query'') \<and>
   parse_ip_addr ''2620:fe::fe'' = Some (V6 0x262000fe0000000000000000000000fe)"
  by code_simp

text \<open>
  Bootstrap lookups of a DoT or DoH client go out without its outbound routing, those of a DoQ client with it.
\<close>

theorem bootstrap_routing_differs:
  "dot_connect L N (with_routing r c) x =
     (case resolve_address L N ''DoT'' no_routing (cl_endpoint c) (cl_bootstrap_resolvers c) x of
        (Inl e, x) \<Rightarrow> (Inl e, x)
      | (Inr address, x) \<Rightarrow> open_to N [] (TlsTo address (cl_server_name c) r) x) \<and>
   (\<forall>e. fst (resolve_address L N ''DoQ'' r (cl_endpoint c) (cl_bootstrap_resolvers c) x) = Inl e \<longrightarrow>
     fst (doq_connect L N (with_routing r c) x) = Inl e)"
  by (auto simp: dot_connect_def doq_connect_def with_routing_def split: sum.splits prod.splits)

end
