(* ===== verification/RecursiveResolver.thy ===== *)
theory RecursiveResolver
  imports UpstreamClients
begin

text \<open>
  The recursive resolver (\<open>src/frameworks/upstream/recursive_resolver.rs\<close>): where the root server addresses
  and the trust anchors come from, how the recursor is configured, and how its results become messages.
  The recursor itself is \<open>hickory-resolver\<close>'s and an argument, as are the file system and the parser of
  trust anchors.
\<close>

subsection \<open>Data\<close>

datatype nameserver_ip_family = Both | Ipv4Only | Ipv6Only

definition default_max_hops :: u8 where "default_max_hops = 12"

definition default_root_hints_paths :: "string list" where
  "default_root_hints_paths =
     [''/usr/share/dns/root.hints'', ''/usr/share/dns-root-data/root.hints'', ''/var/named/root.hints'']"

definition default_root_key_paths :: "string list" where
  "default_root_key_paths = [''/usr/share/dns/root.key'', ''/usr/share/dns-root-data/root.key'']"

definition root_hints_v4 :: "ipv4_addr list" where
  "root_hints_v4 = map ipv4_of_octets
     [[198, 41, 0, 4], [199, 9, 14, 201], [192, 33, 4, 12], [199, 7, 91, 13], [192, 203, 230, 10],
      [192, 5, 5, 241], [192, 112, 36, 4], [198, 97, 190, 53], [192, 36, 148, 17], [192, 58, 128, 30],
      [193, 0, 14, 129], [199, 7, 83, 42], [202, 12, 27, 33]]"

definition root_hints_v6 :: "ipv6_addr list" where
  "root_hints_v6 = map ipv6_of_groups
     [[0x2001, 0x503, 0xba3e, 0, 0, 0, 0x2, 0x30], [0x2001, 0x500, 0x200, 0, 0, 0, 0, 0xb],
      [0x2001, 0x500, 0x2, 0, 0, 0, 0, 0xc], [0x2001, 0x500, 0x2d, 0, 0, 0, 0, 0xd],
      [0x2001, 0x500, 0xa8, 0, 0, 0, 0, 0xe], [0x2001, 0x500, 0x2f, 0, 0, 0, 0, 0xf],
      [0x2001, 0x500, 0x12, 0, 0, 0, 0, 0xd0d], [0x2001, 0x500, 0x1, 0, 0, 0, 0, 0x53],
      [0x2001, 0x7fe, 0, 0, 0, 0, 0, 0x53], [0x2001, 0x503, 0xc27, 0, 0, 0, 0x2, 0x30],
      [0x2001, 0x7fd, 0, 0, 0, 0, 0, 1], [0x2001, 0x500, 0x9f, 0, 0, 0, 0, 0x42],
      [0x2001, 0xdc3, 0, 0, 0, 0, 0, 0x35]]"

subsection \<open>Root hints\<close>

definition parse_root_hint :: "string \<Rightarrow> socket_addr option" where
  "parse_root_hint line =
     (let line = trim line in
      if line = [] \<or> starts_with line '';'' then None
      else
        (let record =
           (case split_whitespace line of
              [_, _, rtype, rdata] \<Rightarrow> Some (rtype, rdata)
            | [_, _, _, rtype, rdata] \<Rightarrow> Some (rtype, rdata)
            | _ \<Rightarrow> None)
         in case record of
              None \<Rightarrow> None
            | Some (rtype, rdata) \<Rightarrow>
                if rtype = ''A'' then map_option (\<lambda>ip. SocketV4 ip 53) (parse_ipv4 rdata)
                else if rtype = ''AAAA'' then map_option (\<lambda>ip. SocketV6 ip 53 0) (parse_ipv6 rdata)
                else None))"

definition parse_root_hints :: "string \<Rightarrow> socket_addr list" where
  "parse_root_hints content = List.map_filter parse_root_hint (str_lines content)"

definition builtin_root_hints :: "socket_addr list" where
  "builtin_root_hints =
     map (\<lambda>ip. SocketV4 ip 53) root_hints_v4 @ map (\<lambda>ip. SocketV6 ip 53 0) root_hints_v6"

fun first_hints :: "(string \<Rightarrow> string + string) \<Rightarrow> string list \<Rightarrow> socket_addr list option" where
  "first_hints read_file [] = None"
| "first_hints read_file (path # paths) =
     (case read_file path of
        Inl _ \<Rightarrow> first_hints read_file paths
      | Inr content \<Rightarrow>
          (let addrs = parse_root_hints content in
           if addrs \<noteq> [] then Some addrs else first_hints read_file paths))"

definition load_root_hints :: "(string \<Rightarrow> string + string) \<Rightarrow> string option \<Rightarrow> socket_addr list" where
  "load_root_hints read_file root_hints_path =
     (case first_hints read_file
        (case root_hints_path of Some path \<Rightarrow> [path] | None \<Rightarrow> default_root_hints_paths) of
        Some addrs \<Rightarrow> addrs
      | None \<Rightarrow> builtin_root_hints)"

text \<open>Trust anchors are a list of keys; \<open>None\<close> stands for those compiled into the library.\<close>

fun first_key :: "(string \<Rightarrow> string + 'k list) \<Rightarrow> string list \<Rightarrow> 'k list option" where
  "first_key read_anchors [] = None"
| "first_key read_anchors (path # paths) =
     (case read_anchors path of
        Inl _ \<Rightarrow> first_key read_anchors paths
      | Inr anchors \<Rightarrow> if anchors = [] then first_key read_anchors paths else Some anchors)"

definition load_root_key :: "(string \<Rightarrow> string + 'k list) \<Rightarrow> string option \<Rightarrow> 'k list option" where
  "load_root_key read_anchors root_key_path =
     first_key read_anchors
       (case root_key_path of Some path \<Rightarrow> [path] | None \<Rightarrow> default_root_key_paths)"

subsection \<open>The recursor\<close>

datatype 'k dnssec_policy = SecurityUnaware | ValidateWithStaticKey "'k list option"

datatype ip_net = AllIpv4 | AllIpv6

record 'k recursor_config =
  rc_roots :: "ip_addr list"
  rc_dnssec :: "'k dnssec_policy"
  rc_recursion_limit :: u8
  rc_deny_server :: "ip_net list"
  rc_routing :: outbound_routing

text \<open>What the program asks of a \<open>RecursorError\<close>: its two tests, its text, and the data of the variant \<open>Negative\<close>.\<close>

record recursor_error =
  re_nx_domain :: bool
  re_no_records_found :: bool
  re_message :: string
  re_negative :: "(dns_record option \<times> dns_record list option) option"

definition family_allows :: "nameserver_ip_family \<Rightarrow> ip_addr \<Rightarrow> bool" where
  "family_allows family ip \<longleftrightarrow>
     (case family of Both \<Rightarrow> True | Ipv4Only \<Rightarrow> is_ipv4 ip | Ipv6Only \<Rightarrow> \<not> is_ipv4 ip)"

definition deny_nets :: "nameserver_ip_family \<Rightarrow> ip_net list" where
  "deny_nets family = (case family of Both \<Rightarrow> [] | Ipv4Only \<Rightarrow> [AllIpv6] | Ipv6Only \<Rightarrow> [AllIpv4])"

definition build_recursor_config ::
  "socket_addr list \<Rightarrow> u8 \<Rightarrow> nameserver_ip_family \<Rightarrow> bool \<Rightarrow> 'k list option \<Rightarrow> outbound_routing \<Rightarrow> 'k recursor_config" where
  "build_recursor_config root_hints max_hops family dnssec trust_anchor routing =
     \<lparr>rc_roots = filter (family_allows family) (map socket_ip root_hints),
      rc_dnssec = (if dnssec then ValidateWithStaticKey trust_anchor else SecurityUnaware),
      rc_recursion_limit = max_hops, rc_deny_server = deny_nets family, rc_routing = routing\<rparr>"

subsection \<open>Results as messages\<close>

definition echo_edns :: "dns_message \<Rightarrow> bool \<Rightarrow> dns_message \<Rightarrow> dns_message" where
  "echo_edns msg do_bit response =
     (case m_edns msg of
        None \<Rightarrow> response
      | Some client_edns \<Rightarrow>
          response\<lparr>m_edns := Some \<lparr>e_dnssec_ok = do_bit, e_max_payload = max (e_max_payload client_edns) 512,
                                 e_version = 0\<rparr>\<rparr>)"

definition client_do_bit :: "dns_message \<Rightarrow> bool" where
  "client_do_bit msg = (case m_edns msg of None \<Rightarrow> False | Some e \<Rightarrow> e_dnssec_ok e)"

definition positive_response :: "dns_message \<Rightarrow> dns_query \<Rightarrow> dns_message \<Rightarrow> dns_message" where
  "positive_response msg question response =
     (let response = response\<lparr>m_id := m_id msg, m_recursion_desired := True, m_recursion_available := True\<rparr>;
          response = (if m_queries response = [] then add_query question response else response)
      in echo_edns msg (client_do_bit msg) response)"

definition negative_response :: "dns_message \<Rightarrow> dns_query \<Rightarrow> recursor_error \<Rightarrow> dns_message" where
  "negative_response msg question e =
     (let response = (message_new (m_id msg) MtResponse OpQuery)
            \<lparr>m_recursion_desired := True, m_recursion_available := True\<rparr>;
          response = add_query question response;
          response = response\<lparr>m_response_code := (if re_nx_domain e then NXDomain else NoError)\<rparr>;
          response = echo_edns msg (client_do_bit msg) response
      in case re_negative e of
           Some (soa, authorities) \<Rightarrow>
             fold add_authority
               ((case soa of None \<Rightarrow> [] | Some r \<Rightarrow> [r]) @ (case authorities of None \<Rightarrow> [] | Some rs \<Rightarrow> rs)) response
         | None \<Rightarrow> response)"

definition recursive_resolve ::
  "dns_lib \<Rightarrow> (dns_query \<Rightarrow> bool \<Rightarrow> 'x \<Rightarrow> (recursor_error + dns_message) \<times> 'x) \<Rightarrow> bytes \<Rightarrow> 'x
   \<Rightarrow> (upstream_error + bytes) \<times> 'x" where
  "recursive_resolve L recursor query x =
     (case lib_from_vec L query of
        Inl e \<Rightarrow> (Inl (Protocol e), x)
      | Inr msg \<Rightarrow>
          (case m_queries msg of
             [] \<Rightarrow> (Inl (Protocol ''query contains no questions''), x)
           | question # _ \<Rightarrow>
               (case recursor \<lparr>q_name = q_name question, q_type = q_type question, q_class = 1\<rparr> (client_do_bit msg) x of
                  (Inr response, x) \<Rightarrow> (encode_response L (positive_response msg question response), x)
                | (Inl e, x) \<Rightarrow>
                    if re_nx_domain e \<or> re_no_records_found e
                    then (encode_response L (negative_response msg question e), x)
                    else (Inl (Protocol (re_message e)), x))))"

definition recursive_upstream ::
  "dns_lib \<Rightarrow> ('k recursor_config \<Rightarrow> dns_query \<Rightarrow> bool \<Rightarrow> 'x \<Rightarrow> (recursor_error + dns_message) \<times> 'x)
   \<Rightarrow> 'k recursor_config \<Rightarrow> ('c, 'x) transport upstream" where
  "recursive_upstream L recursor config =
     net_upstream ''recursive'' (\<lambda>query t.
       case recursive_resolve L (recursor config) query (tr_ext t) of (r, x) \<Rightarrow> (r, t\<lparr>tr_ext := x\<rparr>))"

subsection \<open>Properties\<close>

lemma first_hints_Some: "first_hints rd ps = Some addrs \<Longrightarrow> addrs \<noteq> [] \<and> (\<exists>content. addrs = parse_root_hints content)"
  by (induction ps) (auto simp: Let_def split: sum.splits if_splits)

fun socket_port :: "socket_addr \<Rightarrow> u16" where
  "socket_port (SocketV4 _ p) = p"
| "socket_port (SocketV6 _ p _) = p"

lemma parse_root_hints_port: "\<forall>a\<in>set (parse_root_hints content). socket_port a = 53"
  by (auto simp: parse_root_hints_def parse_root_hint_def Let_def List.map_filter_def
      split: if_splits option.splits list.splits)

lemma builtin_hints_facts:
  "length (filter (\<lambda>a. is_ipv4 (socket_ip a)) builtin_root_hints) = 13"
  "length (filter (\<lambda>a. \<not> is_ipv4 (socket_ip a)) builtin_root_hints) = 13"
  "\<forall>a\<in>set builtin_root_hints. socket_port a = 53"
  by (simp_all add: builtin_root_hints_def root_hints_v4_def root_hints_v6_def filter_map comp_def)

text \<open>
  Iterative resolution always has somewhere to start: whatever the file system holds and whatever path is
  configured, there is at least one root address and all have port 53. Without a usable file the compiled-in
  addresses are used, and these leave at least one root server for every choice of address family, none of
  it of a family that is denied.
\<close>

theorem root_hints_usable:
  "load_root_hints read_file path \<noteq> [] \<and> (\<forall>a\<in>set (load_root_hints read_file path). socket_port a = 53) \<and>
   rc_roots (build_recursor_config builtin_root_hints hops family dnssec anchor routing) \<noteq> [] \<and>
   (\<forall>ip\<in>set (rc_roots (build_recursor_config hints hops family dnssec anchor routing)).
      (is_ipv4 ip \<longrightarrow> AllIpv4 \<notin> set (deny_nets family)) \<and> (\<not> is_ipv4 ip \<longrightarrow> AllIpv6 \<notin> set (deny_nets family)))"
proof -
  have "load_root_hints read_file path \<noteq> []" "\<forall>a\<in>set (load_root_hints read_file path). socket_port a = 53"
    using first_hints_Some [of read_file "case path of Some p \<Rightarrow> [p] | None \<Rightarrow> default_root_hints_paths"]
      parse_root_hints_port builtin_hints_facts
    by (auto simp: load_root_hints_def split: option.splits)
  moreover have "filter (family_allows family) (map socket_ip builtin_root_hints) \<noteq> []"
    using builtin_hints_facts(1,2)
    by (cases family) (auto simp: family_allows_def filter_map comp_def builtin_root_hints_def root_hints_v4_def)
  ultimately show ?thesis
    by (auto simp: build_recursor_config_def deny_nets_def family_allows_def split: nameserver_ip_family.splits)
qed

lemma fold_add_authority [simp]: "fold add_authority rs m = m\<lparr>m_authorities := m_authorities m @ rs\<rparr>"
  by (induction rs arbitrary: m) (auto simp: add_authority_def)

lemma echo_edns_fields [simp]:
  "m_id (echo_edns msg d r) = m_id r" "m_queries (echo_edns msg d r) = m_queries r"
  "m_response_code (echo_edns msg d r) = m_response_code r" "m_authorities (echo_edns msg d r) = m_authorities r"
  "m_answers (echo_edns msg d r) = m_answers r" "m_recursion_available (echo_edns msg d r) = m_recursion_available r"
  "m_type (echo_edns msg d r) = m_type r"
  by (simp_all add: echo_edns_def split: option.split)

text \<open>
  What the recursive resolver answers: whenever it returns bytes, they decode to a message with the
  identifier of the query and a question, with recursion available; if the recursor reported a negative
  result, the message has no answers, its code is \<open>NXDomain\<close> exactly for a name that does not exist, and
  its authority section starts with the SOA record that the recursor found.
\<close>

theorem recursive_answer:
  assumes "codec_ok L" and "lib_from_vec L query = Inr msg"
    and "recursive_resolve L recursor query x = (Inr b, x')"
  shows "\<exists>q qs a. m_queries msg = q # qs \<and> lib_from_vec L b = Inr a \<and> m_id a = m_id msg \<and> m_queries a \<noteq> [] \<and>
    m_recursion_available a \<and>
    (case recursor \<lparr>q_name = q_name q, q_type = q_type q, q_class = 1\<rparr> (client_do_bit msg) x of
       (Inr response, _) \<Rightarrow> m_answers a = m_answers response \<and> m_response_code a = m_response_code response
     | (Inl e, _) \<Rightarrow> m_queries a = [q] \<and> m_answers a = [] \<and>
         m_response_code a = (if re_nx_domain e then NXDomain else NoError) \<and>
         (case re_negative e of
            Some (Some soa, _) \<Rightarrow> (\<exists>rest. m_authorities a = soa # rest)
          | _ \<Rightarrow> True))"
proof -
  obtain q qs where q: "m_queries msg = q # qs"
    using assms(2,3) by (cases "m_queries msg") (auto simp: recursive_resolve_def)
  obtain r x1 where r: "recursor \<lparr>q_name = q_name q, q_type = q_type q, q_class = 1\<rparr> (client_do_bit msg) x = (r, x1)"
    by fastforce
  define a where "a = (case r of Inr response \<Rightarrow> positive_response msg q response | Inl e \<Rightarrow> negative_response msg q e)"
  have "lib_to_vec L a = Inr b"
    using assms(2,3) q r
    by (auto simp: recursive_resolve_def a_def encode_response_def split: sum.splits if_splits)
  then have "lib_from_vec L b = Inr a" using codec_okD [OF assms(1)] by blast
  then show ?thesis using q r
    by (auto simp: a_def positive_response_def negative_response_def add_query_def message_new_def Let_def
        split: sum.splits option.splits)
qed

text \<open>An explicit path that cannot be read does not raise an error: the compiled-in addresses are used.\<close>

theorem unreadable_hints_fall_back:
  "load_root_hints (\<lambda>_. Inl ''no such file'') (Some ''/etc/root.hints'') = builtin_root_hints"
  by (simp add: load_root_hints_def)

text \<open>A recursor for a name that does not exist, whose zone's SOA record it found.\<close>

definition example_soa :: dns_record where
  "example_soa = record_from_rdata (DnsName []) 60 (RdSOA (DnsName []) (DnsName []) 1 2 3 4 5)"

definition nx_recursor :: "dns_query \<Rightarrow> bool \<Rightarrow> nat \<Rightarrow> (recursor_error + dns_message) \<times> nat" where
  "nx_recursor q d x =
     (Inl \<lparr>re_nx_domain = True, re_no_records_found = False, re_message = [],
           re_negative = Some (Some example_soa, None)\<rparr>, x)"

definition nx_lib :: dns_lib where
  "nx_lib = table_lib
     [(example_query, [1, 2, 5]),
      (negative_response example_query (hd (m_queries example_query))
         \<lparr>re_nx_domain = True, re_no_records_found = False, re_message = [],
          re_negative = Some (Some example_soa, None)\<rparr>, [1, 2, 131])] (\<lambda>_. True)"

theorem recursive_answer_witness:
  "\<exists>a rest. lib_from_vec nx_lib [1, 2, 131] = Inr a \<and> m_id a = 258 \<and> m_response_code a = NXDomain \<and>
     m_authorities a = example_soa # rest"
proof -
  have "codec_ok nx_lib" unfolding nx_lib_def by (rule table_lib_codec_ok) simp
  moreover have "lib_from_vec nx_lib [1, 2, 5] = Inr example_query" by code_simp
  moreover have "recursive_resolve nx_lib nx_recursor [1, 2, 5] 0 = (Inr [1, 2, 131], 0)" by code_simp
  ultimately show ?thesis
    using recursive_answer [of nx_lib "[1, 2, 5]" example_query nx_recursor 0 "[1, 2, 131]" 0]
    by (auto simp: nx_recursor_def example_query_def add_query_def message_new_def)
qed

theorem root_hints_usable_witness:
  "load_root_hints (\<lambda>_. Inl ''no such file'') None \<noteq> [] \<and>
   rc_roots (build_recursor_config builtin_root_hints 12 Ipv6Only True (None :: nat list option) no_routing) \<noteq> []"
  using root_hints_usable [of "\<lambda>_. Inl ''no such file''" None 12 Ipv6Only True "None :: nat list option" no_routing]
  by blast

end
