(* ===== verification/ConfigBootstrap.thy ===== *)
theory ConfigBootstrap
  imports ZoneDiscovery RecursiveResolver ChrootPaths
begin

text \<open>
  Construction of the running system from its configuration (\<open>src/use_cases/config_bootstrap.rs\<close>, lines
  253 to 893): the upstream resolvers with their strategies, caches and metrics, the zone entries, the
  domain filter and the request pipeline.

  Every object that Rust allocates with state of its own (a cache, a round-robin counter, a kept
  connection) gets an identity here: group 0 holds the default resolvers, group \<open>i + 1\<close> those of the \<open>i\<close>-th
  enabled zone, and a client is its group and its position. What lies outside the repository is collected
  in \<open>boot_env\<close>.
\<close>

subsection \<open>Environment and errors\<close>

record ('c, 'x, 'k) boot_env =
  be_lib :: dns_lib
  be_net :: "('c, 'x) net_lib"
  be_discovery :: discovery_io
  be_read_file :: "string \<Rightarrow> string + string"
  be_read_anchors :: "string \<Rightarrow> string + 'k list"
  be_recursor :: "'k recursor_config \<Rightarrow> dns_query \<Rightarrow> bool \<Rightarrow> 'x \<Rightarrow> (recursor_error + dns_message) \<times> 'x"

datatype boot_error =
    InvalidStrategy string
  | NoEnabledServers
  | NoBootstrapResolver
  | InvalidBootstrap string
  | InvalidDnsAddress string
  | InvalidEndpoint string string upstream_error
  | UnsupportedProtocol string
  | InvalidBindAddress string
  | InvalidTtl string string
  | InvalidCacheSettings string
  | InvalidAnyQueryPolicy string
  | AuthUnsupported string
  | AuthBoth
  | AuthIncomplete
  | AuthNotUrl
  | ZoneNoServers string
  | ZoneSeveralJson string nat
  | ZoneMixed string
  | ZoneEmptyAddress string
  | ZoneIntervalNotUrl string
  | ZoneInterval string string
  | ZoneSourceInvalid string zone_error
  | ZoneInvalid string boot_error
  | ZoneName string
  | DiscoveryInterval string string
  | ListInterval string string
  | EngineFailed engine_error

subsection \<open>Addresses\<close>

definition parse_dns_address :: "string \<Rightarrow> boot_error + socket_addr" where
  "parse_dns_address value = ok_or (InvalidDnsAddress value) (parse_socket_addr value)"

definition parse_bootstrap_resolver :: "string \<Rightarrow> boot_error + socket_addr" where
  "parse_bootstrap_resolver value =
     (case parse_socket_addr value of
        Some addr \<Rightarrow> Inr addr
      | None \<Rightarrow>
          (case parse_ip_addr value of
             Some ip \<Rightarrow> Inr (socket_addr_new ip 53)
           | None \<Rightarrow> Inl (InvalidBootstrap value)))"

definition parse_bootstrap_resolvers :: "string list \<Rightarrow> boot_error + socket_addr list" where
  "parse_bootstrap_resolvers values =
     (if values = [] then Inl NoBootstrapResolver else res_map_list parse_bootstrap_resolver values)"

definition needs_bootstrap :: "string list \<Rightarrow> bool" where
  "needs_bootstrap protocols \<longleftrightarrow> list_ex (\<lambda>p. p = ''dot'' \<or> p = ''doh'') protocols"

subsection \<open>Settings\<close>

definition parse_ttl :: "string \<Rightarrow> string option \<Rightarrow> boot_error + int option" where
  "parse_ttl field value =
     (case value of
        None \<Rightarrow> Inr None
      | Some v \<Rightarrow> map_ok (\<lambda>secs. Some (from_secs (uint secs))) (map_err (\<lambda>_. InvalidTtl field v) (parse_interval v)))"

definition build_resolver_cache_settings :: "dns_filter_config \<Rightarrow> boot_error + resolver_cache_settings" where
  "build_resolver_cache_settings config =
     (let cache = rs_cache (cfg_resolvers config) in
      res_bind (parse_ttl ''min_ttl'' (Option.bind cache rcc_min_ttl)) (\<lambda>min_ttl.
      res_bind (parse_ttl ''max_ttl'' (Option.bind cache rcc_max_ttl)) (\<lambda>max_ttl.
      (let settings =
         \<lparr>cs_enabled = (case cache of None \<Rightarrow> True | Some c \<Rightarrow> rcc_enabled c),
          cs_min_ttl = min_ttl, cs_max_ttl = max_ttl,
          cs_max_entries = (case Option.bind cache rcc_max_entries of
              None \<Rightarrow> cs_max_entries default_cache_settings | Some n \<Rightarrow> n)\<rparr>
       in res_bind (map_err InvalidCacheSettings (cache_settings_validate settings)) (\<lambda>_. Inr settings)))))"

definition build_any_query_policy :: "dns_filter_config \<Rightarrow> boot_error + any_query_policy" where
  "build_any_query_policy config =
     (case Option.bind (cfg_filtering config) fc_any_query_policy of
        None \<Rightarrow> Inr AnyNotImp
      | Some policy \<Rightarrow>
          (let p = to_ascii_lowercase (trim policy) in
           if p = ''passthrough'' then Inr AnyPassthrough
           else if p = ''refused'' then Inr AnyRefused
           else if p = ''notimp'' \<or> p = ''not_imp'' then Inr AnyNotImp
           else Inl (InvalidAnyQueryPolicy p)))"

definition validate_server_auth ::
  "string \<Rightarrow> bool \<Rightarrow> zone_server_authentication_config option \<Rightarrow> boot_error + zone_source_auth option" where
  "validate_server_auth protocol is_url auth_config =
     (case auth_config of
        None \<Rightarrow> Inr None
      | Some config \<Rightarrow>
          (let has_token = non_blank (za_token config);
               has_username = non_blank (za_username config);
               has_password = non_blank (za_password config)
           in if \<not> has_token \<and> \<not> has_username \<and> \<not> has_password then Inr None
              else if protocol \<noteq> ''json'' \<and> protocol \<noteq> ''doh'' then Inl (AuthUnsupported protocol)
              else if has_token \<and> (has_username \<or> has_password) then Inl AuthBoth
              else if has_username \<noteq> has_password then Inl AuthIncomplete
              else if \<not> is_url then Inl AuthNotUrl
              else if has_token then Inr (Some (Bearer (trimmed (za_token config))))
              else Inr (Some (Basic (trimmed (za_username config)) (trimmed (za_password config))))))"

subsection \<open>Single resolvers\<close>

definition ip_family :: "string option \<Rightarrow> nameserver_ip_family" where
  "ip_family v =
     (if v = Some ''ipv4'' then Ipv4Only else if v = Some ''ipv6'' then Ipv6Only else Both)"

definition build_recursive ::
  "('c, 'x, 'k) boot_env \<Rightarrow> u8 option \<Rightarrow> string option \<Rightarrow> bool option \<Rightarrow> string option \<Rightarrow> string option
   \<Rightarrow> outbound_routing \<Rightarrow> ('c, 'x) transport upstream" where
  "build_recursive E max_hops family dnssec root_hints_path root_key_path routing =
     (let dnssec = (case dnssec of None \<Rightarrow> True | Some b \<Rightarrow> b) in
      recursive_upstream (be_lib E) (be_recursor E)
        (build_recursor_config (load_root_hints (be_read_file E) root_hints_path)
          (case max_hops of None \<Rightarrow> default_max_hops | Some h \<Rightarrow> h) (ip_family family) dnssec
          (if dnssec then load_root_key (be_read_anchors E) root_key_path else None) routing))"

definition build_single_zone_upstream_resolver ::
  "('c, 'x, 'k) boot_env \<Rightarrow> nat \<times> nat \<Rightarrow> zone_server_config \<Rightarrow> socket_addr list
   \<Rightarrow> boot_error + ('c, 'x) transport upstream" where
  "build_single_zone_upstream_resolver E cid server bootstrap_resolvers =
     (let L = be_lib E; N = be_net E; protocol = zs_protocol server; addr = zs_address server in
      if protocol = ''dns'' then
        map_ok (\<lambda>a. dns_udp_tcp_client L N cid a no_routing) (parse_dns_address addr)
      else if protocol = ''dot'' then
        map_ok (\<lambda>c. dns_tls_client L N cid (with_bootstrap_resolvers bootstrap_resolvers c))
          (map_err (InvalidEndpoint ''DoT'' addr) (dot_parse_endpoint addr))
      else if protocol = ''doh'' then
        res_bind (validate_server_auth ''doh'' True (zs_authentication server)) (\<lambda>auth.
        map_ok (\<lambda>c. dns_https_client L N cid (with_bootstrap_resolvers bootstrap_resolvers c))
          (map_err (InvalidEndpoint ''DoH'' addr) (https_client_new N addr auth)))
      else if protocol = ''doq'' then
        map_ok (\<lambda>c. dns_quic_client L N cid (with_bootstrap_resolvers bootstrap_resolvers c))
          (map_err (InvalidEndpoint ''DoQ'' addr) (doq_parse_endpoint addr))
      else if protocol = ''recursive'' then
        Inr (build_recursive E (zs_max_hops server) (zs_nameserver_ip_family server) (zs_dnssec server)
          (zs_root_hints_path server) (zs_root_key_path server) no_routing)
      else Inl (UnsupportedProtocol protocol))"

definition server_routing :: "upstream_server \<Rightarrow> outbound_config option \<Rightarrow> boot_error + outbound_routing" where
  "server_routing server global_outbound =
     (let bind_address = (case us_bind_address server of
            Some s \<Rightarrow> Some s | None \<Rightarrow> Option.bind global_outbound ob_bind_address);
          fwmark = (case us_fwmark server of
            Some m \<Rightarrow> Some m | None \<Rightarrow> Option.bind global_outbound ob_fwmark)
      in case bind_address of
           None \<Rightarrow> Inr \<lparr>or_bind_address = None, or_fwmark = fwmark\<rparr>
         | Some s \<Rightarrow>
             (case parse_ip_addr s of
                None \<Rightarrow> Inl (InvalidBindAddress (us_address server))
              | Some ip \<Rightarrow> Inr \<lparr>or_bind_address = Some ip, or_fwmark = fwmark\<rparr>))"

definition build_plain_upstream_resolver ::
  "('c, 'x, 'k) boot_env \<Rightarrow> nat \<times> nat \<Rightarrow> upstream_server \<Rightarrow> socket_addr list \<Rightarrow> outbound_routing
   \<Rightarrow> boot_error + ('c, 'x) transport upstream" where
  "build_plain_upstream_resolver E cid server bootstrap_resolvers routing =
     (let L = be_lib E; N = be_net E; protocol = us_protocol server; addr = us_address server in
      if protocol = ''dns'' then
        map_ok (\<lambda>a. dns_udp_tcp_client L N cid a routing) (parse_dns_address addr)
      else if protocol = ''dot'' then
        map_ok (\<lambda>c. dns_tls_client L N cid (with_routing routing (with_bootstrap_resolvers bootstrap_resolvers c)))
          (map_err (InvalidEndpoint ''DoT'' addr) (dot_parse_endpoint addr))
      else if protocol = ''doh'' then
        res_bind (validate_server_auth ''doh'' True (us_authentication server)) (\<lambda>auth.
        map_ok (\<lambda>c. dns_https_client L N cid (with_routing routing (with_bootstrap_resolvers bootstrap_resolvers c)))
          (map_err (InvalidEndpoint ''DoH'' addr) (https_client_new N addr auth)))
      else if protocol = ''doq'' then
        map_ok (\<lambda>c. dns_quic_client L N cid (with_routing routing (with_bootstrap_resolvers bootstrap_resolvers c)))
          (map_err (InvalidEndpoint ''DoQ'' addr) (doq_parse_endpoint addr))
      else if protocol = ''recursive'' then
        Inr (build_recursive E (us_max_hops server) (us_nameserver_ip_family server) (us_dnssec server)
          (us_root_hints_path server) (us_root_key_path server) routing)
      else Inl (UnsupportedProtocol protocol))"

definition build_single_upstream_resolver ::
  "('c, 'x, 'k) boot_env \<Rightarrow> nat \<times> nat \<Rightarrow> upstream_server \<Rightarrow> socket_addr list \<Rightarrow> outbound_config option
   \<Rightarrow> boot_error + ('c, 'x) transport upstream" where
  "build_single_upstream_resolver E cid server bootstrap_resolvers global_outbound =
     res_bind (server_routing server global_outbound) (\<lambda>routing.
     map_ok (instrumented_upstream (us_protocol server @ ''://'' @ us_address server))
       (build_plain_upstream_resolver E cid server bootstrap_resolvers routing))"

subsection \<open>Groups of resolvers\<close>

definition with_cache ::
  "dns_lib \<Rightarrow> nat \<Rightarrow> resolver_cache_settings \<Rightarrow> 'n upstream \<Rightarrow> 'n upstream" where
  "with_cache L gid settings resolver =
     (if cs_enabled settings then cached_upstream L gid settings resolver else resolver)"

definition build_zone_upstream_resolver_group ::
  "('c, 'x, 'k) boot_env \<Rightarrow> nat \<Rightarrow> string \<Rightarrow> string list \<Rightarrow> zone_server_config list \<Rightarrow> resolver_cache_settings
   \<Rightarrow> boot_error + ('c, 'x) transport upstream" where
  "build_zone_upstream_resolver_group E gid strategy bootstrap_resolvers servers cache_settings =
     res_bind (map_err (\<lambda>_. InvalidStrategy strategy) (strategy_from_str strategy)) (\<lambda>strategy.
     if servers = [] then Inl NoEnabledServers
     else
       res_bind (if needs_bootstrap (map zs_protocol servers) then parse_bootstrap_resolvers bootstrap_resolvers
                 else Inr []) (\<lambda>bootstrap_addrs.
       res_bind (res_map_list (\<lambda>(i, server). build_single_zone_upstream_resolver E (gid, i) server bootstrap_addrs)
                  (enumerate 0 servers)) (\<lambda>resolvers.
       Inr (with_cache (be_lib E) gid cache_settings (strategy_upstream gid resolvers strategy)))))"

definition build_upstream_resolver_group ::
  "('c, 'x, 'k) boot_env \<Rightarrow> string \<Rightarrow> string list \<Rightarrow> upstream_server list \<Rightarrow> outbound_config option
   \<Rightarrow> resolver_cache_settings \<Rightarrow> boot_error + ('c, 'x) transport upstream" where
  "build_upstream_resolver_group E strategy bootstrap_resolvers servers global_outbound cache_settings =
     res_bind (map_err (\<lambda>_. InvalidStrategy strategy) (strategy_from_str strategy)) (\<lambda>strategy.
     (let enabled_servers = filter us_enabled servers in
      if enabled_servers = [] then Inl NoEnabledServers
      else
        res_bind (if needs_bootstrap (map us_protocol enabled_servers)
                  then parse_bootstrap_resolvers bootstrap_resolvers else Inr []) (\<lambda>bootstrap_resolvers.
        res_bind (res_map_list
                   (\<lambda>(i, server). build_single_upstream_resolver E (0, i) server bootstrap_resolvers global_outbound)
                   (enumerate 0 enabled_servers)) (\<lambda>resolvers.
        Inr (with_cache (be_lib E) 0 cache_settings (strategy_upstream 0 resolvers strategy))))))"

definition build_upstream_resolver ::
  "('c, 'x, 'k) boot_env \<Rightarrow> dns_filter_config \<Rightarrow> boot_error + ('c, 'x) transport upstream" where
  "build_upstream_resolver E config =
     res_bind (build_resolver_cache_settings config) (\<lambda>cache_settings.
     build_upstream_resolver_group E (rs_strategy (cfg_resolvers config))
       (rs_bootstrap_resolvers (cfg_resolvers config)) (rs_servers (cfg_resolvers config))
       (cfg_outbound config) cache_settings)"

subsection \<open>Zones\<close>

definition build_zone_json_resolver ::
  "('c, 'x, 'k) boot_env \<Rightarrow> resolver_zone_config \<Rightarrow> zone_server_config \<Rightarrow> boot_error + zone_snapshot" where
  "build_zone_json_resolver E zone server =
     (let address = trim (zs_address server);
          is_url = starts_with address ''http://'' \<or> starts_with address ''https://''
      in if address = [] then Inl (ZoneEmptyAddress (rz_zone zone))
         else if \<not> is_url \<and> zs_check_interval server \<noteq> None then Inl (ZoneIntervalNotUrl (rz_zone zone))
         else
           res_bind (validate_server_auth (zs_protocol server) is_url (zs_authentication server)) (\<lambda>auth.
           res_bind
             (case (is_url, zs_check_interval server) of
                (True, Some v) \<Rightarrow> map_ok Some (map_err (\<lambda>_. ZoneInterval (rz_zone zone) v) (parse_interval v))
              | _ \<Rightarrow> Inr None) (\<lambda>check_interval.
           map_ok fst (map_err (ZoneSourceInvalid (rz_zone zone))
             (authority_from_source (be_lib E) (dio_zone_io (be_discovery E)) (rz_zone zone) address check_interval auth)))))"

definition build_zone_entry ::
  "('c, 'x, 'k) boot_env \<Rightarrow> nat \<Rightarrow> resolver_zone_config \<Rightarrow> string list \<Rightarrow> resolver_cache_settings
   \<Rightarrow> boot_error + ('c, 'x) transport zone_entry" where
  "build_zone_entry E gid zone bootstrap_resolvers cache_settings =
     (let enabled_servers = filter zs_enabled (rz_servers zone);
          json_servers = filter (\<lambda>s. zs_protocol s = ''json'') enabled_servers;
          upstream_servers = filter (\<lambda>s. zs_protocol s \<noteq> ''json'') enabled_servers;
          entry = (\<lambda>resolver. map_err (\<lambda>_. ZoneName (rz_zone zone))
            (zone_entry_new (rz_zone zone) (rz_bypass_filter zone) (rz_fallback_to_default_resolvers zone) resolver))
      in if enabled_servers = [] then Inl (ZoneNoServers (rz_zone zone))
         else if json_servers \<noteq> [] \<and> upstream_servers = [] then
           (if length json_servers > 1 then Inl (ZoneSeveralJson (rz_zone zone) (length json_servers))
            else
              res_bind (build_zone_json_resolver E zone (hd json_servers)) (\<lambda>snapshot.
              map_ok (with_searchable snapshot)
                (entry (authority_upstream (be_lib E) (rz_zone zone) snapshot))))
         else if json_servers = [] then
           res_bind (map_err (ZoneInvalid (rz_zone zone))
             (build_zone_upstream_resolver_group E gid
               (case rz_strategy zone of None \<Rightarrow> ''failover'' | Some s \<Rightarrow> s)
               bootstrap_resolvers upstream_servers cache_settings)) entry
         else Inl (ZoneMixed (rz_zone zone)))"

fun add_discovered ::
  "('c, 'x, 'k) boot_env \<Rightarrow> string list \<Rightarrow> zone_discovery_config list \<Rightarrow> ('c, 'x) transport zone_entry list
   \<Rightarrow> boot_error + ('c, 'x) transport zone_entry list" where
  "add_discovered E manual_zone_names [] entries = Inr entries"
| "add_discovered E manual_zone_names (discovery # rest) entries =
     (if \<not> zd_enabled discovery then add_discovered E manual_zone_names rest entries
      else
        res_bind
          (case zd_check_interval discovery of
             None \<Rightarrow> Inr None
           | Some v \<Rightarrow> map_ok Some (map_err (\<lambda>_. DiscoveryInterval (zd_address discovery) v) (parse_interval v)))
          (\<lambda>check_interval.
           case build_zone_discovery_entries (be_lib E) (be_discovery E) discovery manual_zone_names check_interval of
             Inr discovered \<Rightarrow> add_discovered E manual_zone_names rest (entries @ discovered)
           | Inl _ \<Rightarrow> add_discovered E manual_zone_names rest entries))"

definition build_zone_entries ::
  "('c, 'x, 'k) boot_env \<Rightarrow> dns_filter_config \<Rightarrow> boot_error + ('c, 'x) transport zone_entry list" where
  "build_zone_entries E config =
     res_bind (build_resolver_cache_settings config) (\<lambda>cache_settings.
     (let zones = filter rz_enabled (rs_zones (cfg_resolvers config)) in
      res_bind (res_map_list
        (\<lambda>(i, zone). build_zone_entry E (Suc i) zone (rs_bootstrap_resolvers (cfg_resolvers config)) cache_settings)
        (enumerate 0 zones)) (\<lambda>entries.
      add_discovered E (map rz_zone zones) (rs_zone_discovery (cfg_resolvers config)) entries)))"

subsection \<open>Filter and pipeline\<close>

definition check_list_interval :: "named_list \<Rightarrow> boot_error + unit" where
  "check_list_interval l =
     (case nl_interval l of
        None \<Rightarrow> Inr ()
      | Some interval \<Rightarrow>
          map_ok (\<lambda>_. ()) (map_err (\<lambda>_. ListInterval (nl_name l) interval) (parse_interval interval)))"

definition build_domain_filter_with_cache ::
  "doc_codec \<Rightarrow> dns_filter_config \<Rightarrow> 'r cache_repo option \<Rightarrow> 'r \<Rightarrow> metrics_state option
   \<Rightarrow> boot_error + filter_engine \<times> metrics_state option" where
  "build_domain_filter_with_cache J config cache_repo r ms =
     res_bind (res_map_list check_list_interval (cfg_blocklists config @ cfg_allowlists config)) (\<lambda>_.
     map_err EngineFailed (from_config_with_cache J config cache_repo r ms))"

text \<open>The flag is \<open>Some\<close> when filtering can be switched off at run time; its value is read by the stage.\<close>

definition build_dns_request_pipeline_full ::
  "dns_lib \<Rightarrow> 'n upstream \<Rightarrow> domain_filter \<Rightarrow> any_query_policy \<Rightarrow> 'n zone_entry list \<Rightarrow> bool option \<Rightarrow> 'n stage list" where
  "build_dns_request_pipeline_full L resolver F policy zone_entries filtering_enabled =
     [zone_forwarding_stage L (bypass_only zone_entries),
      dns_filter_stage L F (case filtering_enabled of None \<Rightarrow> True | Some b \<Rightarrow> b),
      any_query_policy_stage L policy,
      zone_forwarding_stage L (non_bypass zone_entries),
      dns_upstream_stage L resolver,
      servfail_fallback_stage L]"

definition build_dns_request_pipeline_with_zone_entries ::
  "dns_lib \<Rightarrow> 'n upstream \<Rightarrow> domain_filter \<Rightarrow> any_query_policy \<Rightarrow> 'n zone_entry list \<Rightarrow> 'n stage list" where
  "build_dns_request_pipeline_with_zone_entries L resolver F policy zone_entries =
     build_dns_request_pipeline_full L resolver F policy zone_entries None"

definition build_dns_request_pipeline ::
  "dns_lib \<Rightarrow> 'n upstream \<Rightarrow> domain_filter \<Rightarrow> any_query_policy \<Rightarrow> 'n stage list" where
  "build_dns_request_pipeline L resolver F policy =
     build_dns_request_pipeline_with_zone_entries L resolver F policy []"

subsection \<open>Everything that is built keeps the invariant of the world\<close>

lemma res_map_list_pairs:
  assumes "res_map_list (\<lambda>(i, s). f i s) ps = Inr rs" and "\<And>i s r. f i s = Inr r \<Longrightarrow> P r"
  shows "\<forall>r\<in>set rs. P r"
proof
  fix r assume "r \<in> set rs"
  from res_map_list_Inr_set [OF assms(1) this] obtain i s where "f i s = Inr r" by fastforce
  then show "P r" by (rule assms(2))
qed

lemma client_keeps:
  "keeps (world_ok cap) (dns_udp_tcp_client L N cid a r)" "keeps (world_ok cap) (dns_tls_client L N cid c)"
  "keeps (world_ok cap) (dns_https_client L N cid h)" "keeps (world_ok cap) (dns_quic_client L N cid c)"
  "keeps (world_ok cap) (recursive_upstream L rec config)"
  by (simp_all add: dns_udp_tcp_client_def dns_tls_client_def dns_https_client_def dns_quic_client_def
      recursive_upstream_def client_upstream_def net_upstream_keeps)

lemma authority_keeps: "keeps I (authority_upstream L zone s)"
  by (simp add: keeps_def authority_upstream_def)

lemma plain_upstream_keeps:
  "build_plain_upstream_resolver E cid server bs routing = Inr r \<Longrightarrow> keeps (world_ok cap) r"
  by (auto simp: build_plain_upstream_resolver_def build_recursive_def Let_def client_keeps split: if_splits)

lemma single_upstream_keeps:
  "build_single_upstream_resolver E cid server bs global = Inr r \<Longrightarrow> keeps (world_ok cap) r"
  by (auto simp: build_single_upstream_resolver_def
      intro!: resolver_world.instrumented_keeps dest: plain_upstream_keeps)

lemma single_zone_keeps:
  "build_single_zone_upstream_resolver E cid server bs = Inr r \<Longrightarrow> keeps (world_ok cap) r"
  by (auto simp: build_single_zone_upstream_resolver_def build_recursive_def Let_def client_keeps split: if_splits)

lemma with_cache_keeps:
  assumes "\<forall>r\<in>set rs. keeps (world_ok cap) r" and "unat (cs_max_entries s) \<le> cap"
  shows "keeps (world_ok cap) (with_cache L g s (strategy_upstream g rs strategy))"
  using assms
  by (auto simp: with_cache_def intro: resolver_world.cached_keeps resolver_world.strategy_keeps)

lemma upstream_group_keeps:
  assumes "build_upstream_resolver_group E strategy bs servers global s = Inr r" and "unat (cs_max_entries s) \<le> cap"
  shows "keeps (world_ok cap) r"
proof -
  obtain strat addrs rs where rs: "res_map_list
      (\<lambda>(i, server). build_single_upstream_resolver E (0, i) server addrs global)
      (enumerate 0 (filter us_enabled servers)) = Inr rs"
    and r: "r = with_cache (be_lib E) 0 s (strategy_upstream 0 rs strat)"
    using assms(1) by (auto simp: build_upstream_resolver_group_def Let_def split: if_splits)
  have "\<forall>r\<in>set rs. keeps (world_ok cap) r"
    using rs by (rule res_map_list_pairs) (rule single_upstream_keeps)
  then show ?thesis unfolding r using assms(2) by (rule with_cache_keeps)
qed

lemma zone_group_keeps:
  assumes "build_zone_upstream_resolver_group E g strategy bs servers s = Inr r" and "unat (cs_max_entries s) \<le> cap"
  shows "keeps (world_ok cap) r"
proof -
  obtain strat addrs rs where rs: "res_map_list
      (\<lambda>(i, server). build_single_zone_upstream_resolver E (g, i) server addrs) (enumerate 0 servers) = Inr rs"
    and r: "r = with_cache (be_lib E) g s (strategy_upstream g rs strat)"
    using assms(1) by (auto simp: build_zone_upstream_resolver_group_def Let_def split: if_splits)
  have "\<forall>r\<in>set rs. keeps (world_ok cap) r"
    using rs by (rule res_map_list_pairs) (rule single_zone_keeps)
  then show ?thesis unfolding r using assms(2) by (rule with_cache_keeps)
qed

lemma zone_entry_keeps:
  assumes "build_zone_entry E g zone bs s = Inr e" and "unat (cs_max_entries s) \<le> cap"
  shows "keeps (world_ok cap) (ze_resolver e)"
  using assms zone_group_keeps
  by (auto simp: build_zone_entry_def zone_entry_new_def with_searchable_def Let_def authority_keeps
      split: if_splits)

lemma discovered_keeps:
  assumes "build_zone_discovery_entries L io discovery existing iv = Inr entries" and "e \<in> set entries"
  shows "keeps I (ze_resolver e)"
proof -
  obtain auth base index where "res_map_list (discovered_entry L io discovery auth base iv)
      (filter (zone_wanted discovery existing) index) = Inr entries"
    using assms(1) by (auto simp: build_zone_discovery_entries_def Let_def split: if_splits option.splits)
  then obtain item where "discovered_entry L io discovery auth base iv item = Inr e"
    using res_map_list_Inr_set assms(2) by metis
  then show ?thesis using discovered_entry_ok authority_keeps by metis
qed

lemma add_discovered_keeps:
  "add_discovered E names ds entries = Inr result \<Longrightarrow> \<forall>e\<in>set entries. keeps I (ze_resolver e) \<Longrightarrow>
    \<forall>e\<in>set result. keeps I (ze_resolver e)"
proof (induction ds arbitrary: entries)
  case (Cons d ds)
  show ?case
  proof (cases "zd_enabled d")
    case True
    obtain iv where iv: "(case build_zone_discovery_entries (be_lib E) (be_discovery E) d names iv of
        Inr discovered \<Rightarrow> add_discovered E names ds (entries @ discovered)
      | Inl _ \<Rightarrow> add_discovered E names ds entries) = Inr result"
      using Cons.prems(1) True by auto
    then consider (failed) "add_discovered E names ds entries = Inr result"
      | (found) discovered where "build_zone_discovery_entries (be_lib E) (be_discovery E) d names iv = Inr discovered"
          "add_discovered E names ds (entries @ discovered) = Inr result"
      by (auto split: sum.splits)
    then show ?thesis
    proof cases
      case found
      then have "\<forall>e\<in>set (entries @ discovered). keeps I (ze_resolver e)"
        using discovered_keeps Cons.prems(2) by auto
      then show ?thesis using found(2) Cons.IH by blast
    qed (use Cons in blast)
  qed (use Cons in auto)
qed simp

lemma zone_entries_keep:
  assumes "build_zone_entries E config = Inr entries"
    and "build_resolver_cache_settings config = Inr s" and "unat (cs_max_entries s) \<le> cap"
  shows "\<forall>e\<in>set entries. keeps (world_ok cap) (ze_resolver e)"
proof -
  obtain es where es: "res_map_list
      (\<lambda>(i, zone). build_zone_entry E (Suc i) zone (rs_bootstrap_resolvers (cfg_resolvers config)) s)
      (enumerate 0 (filter rz_enabled (rs_zones (cfg_resolvers config)))) = Inr es"
    and r: "add_discovered E (map rz_zone (filter rz_enabled (rs_zones (cfg_resolvers config))))
      (rs_zone_discovery (cfg_resolvers config)) es = Inr entries"
    using assms(1,2) by (auto simp: build_zone_entries_def Let_def)
  have "\<forall>e\<in>set es. keeps (world_ok cap) (ze_resolver e)"
    using es by (rule res_map_list_pairs) (rule zone_entry_keeps [OF _ assms(3)])
  then show ?thesis by (rule add_discovered_keeps [OF r])
qed

subsection \<open>Findings\<close>

text \<open>
  A group of DoQ upstreams does not depend on the configured bootstrap resolvers at all: they are not even parsed,
  and its clients keep the default \<open>1.1.1.1:53\<close>.
\<close>

theorem doq_group_ignores_bootstrap:
  assumes "\<forall>s\<in>set servers. us_protocol s = ''doq''"
  shows "build_upstream_resolver_group E strategy bs servers global cs =
    build_upstream_resolver_group E strategy bs' servers global cs"
proof -
  have "needs_bootstrap (map us_protocol (filter us_enabled servers)) = False"
    using assms by (auto simp: needs_bootstrap_def list_ex_iff)
  then show ?thesis by (simp add: build_upstream_resolver_group_def Let_def)
qed

text \<open>Credentials configured for a plain or DoT zone server are accepted and ignored.\<close>

theorem zone_dns_auth_ignored:
  assumes "zs_protocol server = ''dns'' \<or> zs_protocol server = ''dot''"
  shows "build_single_zone_upstream_resolver E cid (server\<lparr>zs_authentication := auth\<rparr>) bs =
      build_single_zone_upstream_resolver E cid server bs"
  using assms by (auto simp: build_single_zone_upstream_resolver_def Let_def)

text \<open>A zone with two enabled JSON servers is rejected, not served by the first.\<close>

theorem two_json_servers_rejected:
  assumes "filter zs_enabled (rz_servers zone) = [s1, s2]" and "zs_protocol s1 = ''json''" and "zs_protocol s2 = ''json''"
  shows "build_zone_entry E gid zone bs cs = Inl (ZoneSeveralJson (rz_zone zone) 2)"
  using assms by (simp add: build_zone_entry_def)

end
