(* ===== verification/Database.thy ===== *)
theory Database
  imports ConfigSchema "HOL-Library.List_Lexorder" "HOL-Library.Char_ord" "HOL-Library.Product_Lexorder"
begin

text \<open>
  The operational database: the record types (\<open>src/use_cases/repository_types.rs\<close>), the tables with the
  constraints of their schema, and the repositories over them (\<open>src/frameworks/database/filter_list_repo.rs\<close>,
  \<open>filtering_config_repo.rs\<close>, \<open>upstream_repo.rs\<close>, \<open>zone_repo.rs\<close>).

  A table is the list of its rows; a statement that violates a constraint returns an error and leaves the tables
  as they were, but a repository operation of several statements is not a transaction: what it did before the
  failing statement stays. Identifiers come from \<open>Uuid::new_v4\<close>: \<open>db_uuid\<close> is the sequence of the
  identifiers generated so far and later. Ordering of text is bytewise, as in SQLite.
\<close>

subsection \<open>Records\<close>

record filter_list_record =
  fl_id :: string
  fl_name :: string
  fl_kind :: string
  fl_url :: string
  fl_interval_seconds :: int
  fl_enabled :: bool
  fl_list_type :: string

record filtering_config_record =
  fr_sinkhole_ipv4 :: string
  fr_sinkhole_ipv6 :: string
  fr_any_query_policy :: string

record resolver_config_record =
  rr_strategy :: string
  rr_bootstrap_resolvers :: "string list"
  rr_dns_cache_enabled :: bool
  rr_dns_cache_min_ttl_seconds :: "int option"
  rr_dns_cache_max_ttl_seconds :: "int option"

record upstream_server_record =
  ur_id :: string
  ur_enabled :: bool
  ur_protocol :: string
  ur_address :: string
  ur_auth_token :: "string option"
  ur_auth_username :: "string option"
  ur_auth_password :: "string option"
  ur_max_hops :: "i32 option"
  ur_nameserver_ip_family :: "string option"
  ur_root_hints_path :: "string option"
  ur_root_key_path :: "string option"
  ur_dnssec :: bool
  ur_sort_order :: int
  ur_bind_address :: "string option"
  ur_fwmark :: "i32 option"

record zone_server_record =
  zv_id :: string
  zv_zone_id :: string
  zv_enabled :: bool
  zv_protocol :: string
  zv_address :: string
  zv_auth_token :: "string option"
  zv_auth_username :: "string option"
  zv_auth_password :: "string option"
  zv_check_interval :: "string option"
  zv_max_hops :: "i32 option"
  zv_nameserver_ip_family :: "string option"
  zv_root_hints_path :: "string option"
  zv_root_key_path :: "string option"
  zv_dnssec :: bool
  zv_sort_order :: int

record zone_record_row =
  zo_id :: string
  zo_zone :: string
  zo_enabled :: bool
  zo_bypass_filter :: bool
  zo_fallback_to_default_resolvers :: bool
  zo_strategy :: "string option"
  zo_servers :: "zone_server_record list"

record zone_discovery_record =
  di_id :: string
  di_enabled :: bool
  di_address :: string
  di_check_interval :: "string option"
  di_allowed_types :: "string list"
  di_bypass_filter :: bool
  di_fallback_to_default_resolvers :: bool
  di_auth_token :: "string option"
  di_auth_username :: "string option"
  di_auth_password :: "string option"

subsection \<open>Tables\<close>

datatype db_error =
    UniqueViolation string
  | CheckViolation string
  | ForeignKeyViolation string
  | IntervalInvalid string

record database =
  db_filter_lists :: "filter_list_record list"
  db_filtering :: filtering_config_record
  db_strategy :: string
  db_cache_enabled :: bool
  db_cache_min_ttl :: "int option"
  db_cache_max_ttl :: "int option"
  db_bootstrap :: "(string \<times> string \<times> int) list"
  db_servers :: "upstream_server_record list"
  db_zones :: "zone_record_row list"
  db_zone_servers :: "zone_server_record list"
  db_discovery :: "zone_discovery_record list"
  db_discovery_types :: "(string \<times> string \<times> string) list"
  db_uuid :: "nat \<Rightarrow> string"
  db_uuids_used :: nat

definition new_uuid :: "database \<Rightarrow> string \<times> database" where
  "new_uuid db = (db_uuid db (db_uuids_used db), db\<lparr>db_uuids_used := Suc (db_uuids_used db)\<rparr>)"

text \<open>A statement that may violate a constraint; the unit result of a repository operation.\<close>

type_synonym db_result = "(db_error + unit) \<times> database"

text \<open>Steps one after the other, up to the first error.\<close>

fun db_each :: "('a \<Rightarrow> database \<Rightarrow> db_result) \<Rightarrow> 'a list \<Rightarrow> database \<Rightarrow> db_result" where
  "db_each f [] db = (Inr (), db)"
| "db_each f (x # xs) db =
     (case f x db of
        (Inl e, db) \<Rightarrow> (Inl e, db)
      | (Inr _, db) \<Rightarrow> db_each f xs db)"

definition db_then :: "db_result \<Rightarrow> (database \<Rightarrow> db_result) \<Rightarrow> db_result" where
  "db_then r f = (case r of (Inl e, db) \<Rightarrow> (Inl e, db) | (Inr _, db) \<Rightarrow> f db)"

subsection \<open>Filter lists\<close>

definition filter_lists_get_all :: "database \<Rightarrow> filter_list_record list" where
  "filter_lists_get_all db = sort_key fl_name (db_filter_lists db)"

definition filter_lists_get_by_name :: "database \<Rightarrow> string \<Rightarrow> filter_list_record option" where
  "filter_lists_get_by_name db name = find (\<lambda>r. fl_name r = name) (db_filter_lists db)"

definition filter_lists_create :: "filter_list_record \<Rightarrow> database \<Rightarrow> db_result" where
  "filter_lists_create r db =
     (if list_ex (\<lambda>r'. fl_id r' = fl_id r) (db_filter_lists db) then (Inl (UniqueViolation ''filter_lists.id''), db)
      else if list_ex (\<lambda>r'. fl_name r' = fl_name r) (db_filter_lists db)
      then (Inl (UniqueViolation ''filter_lists.name''), db)
      else if fl_kind r \<noteq> ''block'' \<and> fl_kind r \<noteq> ''allow'' then (Inl (CheckViolation ''kind''), db)
      else (Inr (), db\<lparr>db_filter_lists := db_filter_lists db @ [r]\<rparr>))"

definition filter_lists_update :: "filter_list_record \<Rightarrow> database \<Rightarrow> db_result" where
  "filter_lists_update r db =
     (if \<not> list_ex (\<lambda>r'. fl_id r' = fl_id r) (db_filter_lists db) then (Inr (), db)
      else if list_ex (\<lambda>r'. fl_name r' = fl_name r \<and> fl_id r' \<noteq> fl_id r) (db_filter_lists db)
      then (Inl (UniqueViolation ''filter_lists.name''), db)
      else if fl_kind r \<noteq> ''block'' \<and> fl_kind r \<noteq> ''allow'' then (Inl (CheckViolation ''kind''), db)
      else (Inr (), db\<lparr>db_filter_lists := map (\<lambda>r'. if fl_id r' = fl_id r then r else r') (db_filter_lists db)\<rparr>))"

definition filter_lists_delete :: "string \<Rightarrow> database \<Rightarrow> db_result" where
  "filter_lists_delete ident db =
     (Inr (), db\<lparr>db_filter_lists := filter (\<lambda>r. fl_id r \<noteq> ident) (db_filter_lists db)\<rparr>)"

definition filter_lists_set_enabled :: "string \<Rightarrow> bool \<Rightarrow> database \<Rightarrow> db_result" where
  "filter_lists_set_enabled ident enabled db =
     (Inr (), db\<lparr>db_filter_lists :=
        map (\<lambda>r. if fl_id r = ident then r\<lparr>fl_enabled := enabled\<rparr> else r) (db_filter_lists db)\<rparr>)"

definition filter_lists_count :: "database \<Rightarrow> nat" where
  "filter_lists_count db = length (db_filter_lists db)"

subsection \<open>Filtering configuration\<close>

definition filtering_get :: "database \<Rightarrow> filtering_config_record" where
  "filtering_get db = db_filtering db"

definition filtering_update :: "filtering_config_record \<Rightarrow> database \<Rightarrow> db_result" where
  "filtering_update r db = (Inr (), db\<lparr>db_filtering := r\<rparr>)"

subsection \<open>Upstream configuration\<close>

definition get_resolver_config :: "database \<Rightarrow> resolver_config_record" where
  "get_resolver_config db =
     \<lparr>rr_strategy = db_strategy db,
      rr_bootstrap_resolvers = map (\<lambda>(_, address, _). address)
        (sort_key (\<lambda>(ident, _, sort_order). (sort_order, ident)) (db_bootstrap db)),
      rr_dns_cache_enabled = db_cache_enabled db, rr_dns_cache_min_ttl_seconds = db_cache_min_ttl db,
      rr_dns_cache_max_ttl_seconds = db_cache_max_ttl db\<rparr>"

definition insert_bootstrap :: "nat \<times> string \<Rightarrow> database \<Rightarrow> db_result" where
  "insert_bootstrap = (\<lambda>(i, address) db.
     (case new_uuid db of (ident, db) \<Rightarrow>
        if list_ex (\<lambda>(ident', _, _). ident' = ident) (db_bootstrap db) then (Inl (UniqueViolation ''bootstrap_resolvers.id''), db)
        else if list_ex (\<lambda>(_, address', _). address' = address) (db_bootstrap db)
        then (Inl (UniqueViolation ''bootstrap_resolvers.address''), db)
        else (Inr (), db\<lparr>db_bootstrap := db_bootstrap db @ [(ident, address, int i)]\<rparr>)))"

definition update_resolver_config :: "resolver_config_record \<Rightarrow> database \<Rightarrow> db_result" where
  "update_resolver_config r db =
     (let db = db\<lparr>db_strategy := rr_strategy r, db_cache_enabled := rr_dns_cache_enabled r,
                  db_cache_min_ttl := rr_dns_cache_min_ttl_seconds r,
                  db_cache_max_ttl := rr_dns_cache_max_ttl_seconds r\<rparr>;
          db = db\<lparr>db_bootstrap := []\<rparr>
      in db_each insert_bootstrap (enumerate 0 (rr_bootstrap_resolvers r)) db)"

definition get_all_servers :: "database \<Rightarrow> upstream_server_record list" where
  "get_all_servers db = sort_key (\<lambda>r. (ur_sort_order r, ur_id r)) (db_servers db)"

definition get_server_by_id :: "database \<Rightarrow> string \<Rightarrow> upstream_server_record option" where
  "get_server_by_id db ident = find (\<lambda>r. ur_id r = ident) (db_servers db)"

definition create_server :: "upstream_server_record \<Rightarrow> database \<Rightarrow> db_result" where
  "create_server r db =
     (if list_ex (\<lambda>r'. ur_id r' = ur_id r) (db_servers db) then (Inl (UniqueViolation ''upstream_servers.id''), db)
      else (Inr (), db\<lparr>db_servers := db_servers db @ [r]\<rparr>))"

definition update_server :: "upstream_server_record \<Rightarrow> database \<Rightarrow> db_result" where
  "update_server r db =
     (Inr (), db\<lparr>db_servers := map (\<lambda>r'. if ur_id r' = ur_id r then r else r') (db_servers db)\<rparr>)"

definition delete_server :: "string \<Rightarrow> database \<Rightarrow> db_result" where
  "delete_server ident db = (Inr (), db\<lparr>db_servers := filter (\<lambda>r. ur_id r \<noteq> ident) (db_servers db)\<rparr>)"

definition delete_all_servers :: "database \<Rightarrow> db_result" where
  "delete_all_servers db = (Inr (), db\<lparr>db_servers := []\<rparr>)"

subsection \<open>Zones\<close>

text \<open>Rows of \<open>zones\<close> are kept with an empty list of servers; the servers have a table of their own.\<close>

fun push_to_zone :: "zone_server_record \<Rightarrow> zone_record_row list \<Rightarrow> zone_record_row list" where
  "push_to_zone s [] = []"
| "push_to_zone s (z # zs) =
     (if zo_id z = zv_zone_id s then z\<lparr>zo_servers := zo_servers z @ [s]\<rparr> # zs
      else z # push_to_zone s zs)"

definition get_all_with_servers :: "database \<Rightarrow> zone_record_row list" where
  "get_all_with_servers db =
     (let zone_rows = map (\<lambda>z. z\<lparr>zo_servers := []\<rparr>) (sort_key zo_zone (db_zones db));
          server_rows = sort_key (\<lambda>s. (zv_sort_order s, zv_id s)) (db_zone_servers db)
      in fold push_to_zone server_rows zone_rows)"

definition get_by_zone :: "database \<Rightarrow> string \<Rightarrow> zone_record_row option" where
  "get_by_zone db zone =
     (case find (\<lambda>z. zo_zone z = zone) (db_zones db) of
        None \<Rightarrow> None
      | Some row \<Rightarrow>
          Some (row\<lparr>zo_servers :=
            sort_key (\<lambda>s. (zv_sort_order s, zv_id s)) (filter (\<lambda>s. zv_zone_id s = zo_id row) (db_zone_servers db))\<rparr>))"

definition create_zone :: "zone_record_row \<Rightarrow> database \<Rightarrow> db_result" where
  "create_zone r db =
     (if list_ex (\<lambda>z. zo_id z = zo_id r) (db_zones db) then (Inl (UniqueViolation ''zones.id''), db)
      else if list_ex (\<lambda>z. zo_zone z = zo_zone r) (db_zones db) then (Inl (UniqueViolation ''zones.zone''), db)
      else (Inr (), db\<lparr>db_zones := db_zones db @ [r\<lparr>zo_servers := []\<rparr>]\<rparr>))"

definition create_zone_server :: "zone_server_record \<Rightarrow> database \<Rightarrow> db_result" where
  "create_zone_server r db =
     (if list_ex (\<lambda>s. zv_id s = zv_id r) (db_zone_servers db) then (Inl (UniqueViolation ''zone_servers.id''), db)
      else if \<not> list_ex (\<lambda>z. zo_id z = zv_zone_id r) (db_zones db)
      then (Inl (ForeignKeyViolation ''zone_servers.zone_id''), db)
      else (Inr (), db\<lparr>db_zone_servers := db_zone_servers db @ [r]\<rparr>))"

definition update_zone :: "zone_record_row \<Rightarrow> database \<Rightarrow> db_result" where
  "update_zone r db =
     (if \<not> list_ex (\<lambda>z. zo_id z = zo_id r) (db_zones db) then (Inr (), db)
      else if list_ex (\<lambda>z. zo_zone z = zo_zone r \<and> zo_id z \<noteq> zo_id r) (db_zones db)
      then (Inl (UniqueViolation ''zones.zone''), db)
      else (Inr (), db\<lparr>db_zones := map (\<lambda>z. if zo_id z = zo_id r then r\<lparr>zo_servers := []\<rparr> else z) (db_zones db)\<rparr>))"

definition delete_zone :: "string \<Rightarrow> database \<Rightarrow> db_result" where
  "delete_zone ident db =
     (Inr (), db\<lparr>db_zones := filter (\<lambda>z. zo_id z \<noteq> ident) (db_zones db),
                 db_zone_servers := filter (\<lambda>s. zv_zone_id s \<noteq> ident) (db_zone_servers db)\<rparr>)"

definition delete_zone_servers :: "string \<Rightarrow> database \<Rightarrow> db_result" where
  "delete_zone_servers zone_id db =
     (Inr (), db\<lparr>db_zone_servers := filter (\<lambda>s. zv_zone_id s \<noteq> zone_id) (db_zone_servers db)\<rparr>)"

definition delete_all_zones :: "database \<Rightarrow> db_result" where
  "delete_all_zones db = (Inr (), db\<lparr>db_zones := [], db_zone_servers := []\<rparr>)"

subsection \<open>Zone discovery\<close>

fun push_type :: "string \<times> string \<times> string \<Rightarrow> zone_discovery_record list \<Rightarrow> zone_discovery_record list" where
  "push_type t [] = []"
| "push_type (ident, discovery_id, allowed_type) (d # ds) =
     (if di_id d = discovery_id then d\<lparr>di_allowed_types := di_allowed_types d @ [allowed_type]\<rparr> # ds
      else d # push_type (ident, discovery_id, allowed_type) ds)"

definition discovery_get_all :: "database \<Rightarrow> zone_discovery_record list" where
  "discovery_get_all db =
     (let rows = map (\<lambda>d. d\<lparr>di_allowed_types := []\<rparr>) (sort_key di_id (db_discovery db));
          type_rows = sort_key (\<lambda>(_, discovery_id, allowed_type). (discovery_id, allowed_type)) (db_discovery_types db)
      in fold push_type type_rows rows)"

definition discovery_get_by_id :: "database \<Rightarrow> string \<Rightarrow> zone_discovery_record option" where
  "discovery_get_by_id db ident =
     (case find (\<lambda>d. di_id d = ident) (db_discovery db) of
        None \<Rightarrow> None
      | Some row \<Rightarrow>
          Some (row\<lparr>di_allowed_types :=
            sort (map (\<lambda>(_, _, t). t) (filter (\<lambda>(_, d, _). d = ident) (db_discovery_types db)))\<rparr>))"

definition insert_allowed_type :: "string \<Rightarrow> string \<Rightarrow> database \<Rightarrow> db_result" where
  "insert_allowed_type discovery_id allowed_type db =
     (case new_uuid db of (ident, db) \<Rightarrow>
        if list_ex (\<lambda>(ident', _, _). ident' = ident) (db_discovery_types db)
        then (Inl (UniqueViolation ''zone_discovery_allowed_types.id''), db)
        else if list_ex (\<lambda>(_, d, t). d = discovery_id \<and> t = allowed_type) (db_discovery_types db)
        then (Inl (UniqueViolation ''zone_discovery_allowed_types''), db)
        else if \<not> list_ex (\<lambda>d. di_id d = discovery_id) (db_discovery db)
        then (Inl (ForeignKeyViolation ''zone_discovery_id''), db)
        else (Inr (), db\<lparr>db_discovery_types := db_discovery_types db @ [(ident, discovery_id, allowed_type)]\<rparr>))"

definition discovery_create :: "zone_discovery_record \<Rightarrow> database \<Rightarrow> db_result" where
  "discovery_create r db =
     (if list_ex (\<lambda>d. di_id d = di_id r) (db_discovery db) then (Inl (UniqueViolation ''zone_discovery.id''), db)
      else
        db_each (insert_allowed_type (di_id r)) (di_allowed_types r)
          (db\<lparr>db_discovery := db_discovery db @ [r\<lparr>di_allowed_types := []\<rparr>]\<rparr>))"

definition discovery_update :: "zone_discovery_record \<Rightarrow> database \<Rightarrow> db_result" where
  "discovery_update r db =
     (let db = db\<lparr>db_discovery := map (\<lambda>d. if di_id d = di_id r then r\<lparr>di_allowed_types := []\<rparr> else d) (db_discovery db)\<rparr>;
          db = db\<lparr>db_discovery_types := filter (\<lambda>(_, d, _). d \<noteq> di_id r) (db_discovery_types db)\<rparr>
      in db_each (insert_allowed_type (di_id r)) (di_allowed_types r) db)"

definition discovery_delete :: "string \<Rightarrow> database \<Rightarrow> db_result" where
  "discovery_delete ident db =
     (Inr (), db\<lparr>db_discovery := filter (\<lambda>d. di_id d \<noteq> ident) (db_discovery db),
                 db_discovery_types := filter (\<lambda>(_, d, _). d \<noteq> ident) (db_discovery_types db)\<rparr>)"

definition discovery_delete_all :: "database \<Rightarrow> db_result" where
  "discovery_delete_all db = (Inr (), db\<lparr>db_discovery := [], db_discovery_types := []\<rparr>)"

subsection \<open>Integrity\<close>

text \<open>The constraints of the schema, table by table.\<close>

definition lists_ok :: "filter_list_record list \<Rightarrow> bool" where
  "lists_ok rs \<longleftrightarrow> distinct (map fl_id rs) \<and> distinct (map fl_name rs) \<and>
     list_all (\<lambda>r. fl_kind r = ''block'' \<or> fl_kind r = ''allow'') rs"

definition bootstrap_ok :: "(string \<times> string \<times> int) list \<Rightarrow> bool" where
  "bootstrap_ok bs \<longleftrightarrow> distinct (map fst bs) \<and> distinct (map (\<lambda>b. fst (snd b)) bs)"

definition zones_ok :: "zone_record_row list \<Rightarrow> zone_server_record list \<Rightarrow> bool" where
  "zones_ok zs ss \<longleftrightarrow> distinct (map zo_id zs) \<and> distinct (map zo_zone zs) \<and> list_all (\<lambda>z. zo_servers z = []) zs \<and>
     distinct (map zv_id ss) \<and> list_all (\<lambda>s. zv_zone_id s \<in> zo_id ` set zs) ss"

definition discovery_ok :: "zone_discovery_record list \<Rightarrow> (string \<times> string \<times> string) list \<Rightarrow> bool" where
  "discovery_ok ds ts \<longleftrightarrow> distinct (map di_id ds) \<and> list_all (\<lambda>d. di_allowed_types d = []) ds \<and>
     distinct (map fst ts) \<and> distinct (map snd ts) \<and> list_all (\<lambda>t. fst (snd t) \<in> di_id ` set ds) ts"

definition db_ok :: "database \<Rightarrow> bool" where
  "db_ok db \<longleftrightarrow>
     lists_ok (db_filter_lists db) \<and> bootstrap_ok (db_bootstrap db) \<and> distinct (map ur_id (db_servers db)) \<and>
     zones_ok (db_zones db) (db_zone_servers db) \<and> discovery_ok (db_discovery db) (db_discovery_types db)"

text \<open>Every statement of the repositories, and a run of them.\<close>

datatype db_call =
    CallListCreate filter_list_record
  | CallListUpdate filter_list_record
  | CallListDelete string
  | CallListEnable string bool
  | CallFilteringUpdate filtering_config_record
  | CallResolverUpdate resolver_config_record
  | CallServerCreate upstream_server_record
  | CallServerUpdate upstream_server_record
  | CallServerDelete string
  | CallServerDeleteAll
  | CallZoneCreate zone_record_row
  | CallZoneUpdate zone_record_row
  | CallZoneServerCreate zone_server_record
  | CallZoneDelete string
  | CallZoneServersDelete string
  | CallZoneDeleteAll
  | CallDiscoveryCreate zone_discovery_record
  | CallDiscoveryUpdate zone_discovery_record
  | CallDiscoveryDelete string
  | CallDiscoveryDeleteAll

fun db_exec :: "db_call \<Rightarrow> database \<Rightarrow> db_result" where
  "db_exec (CallListCreate r) = filter_lists_create r"
| "db_exec (CallListUpdate r) = filter_lists_update r"
| "db_exec (CallListDelete i) = filter_lists_delete i"
| "db_exec (CallListEnable i b) = filter_lists_set_enabled i b"
| "db_exec (CallFilteringUpdate r) = filtering_update r"
| "db_exec (CallResolverUpdate r) = update_resolver_config r"
| "db_exec (CallServerCreate r) = create_server r"
| "db_exec (CallServerUpdate r) = update_server r"
| "db_exec (CallServerDelete i) = delete_server i"
| "db_exec CallServerDeleteAll = delete_all_servers"
| "db_exec (CallZoneCreate r) = create_zone r"
| "db_exec (CallZoneUpdate r) = update_zone r"
| "db_exec (CallZoneServerCreate r) = create_zone_server r"
| "db_exec (CallZoneDelete i) = delete_zone i"
| "db_exec (CallZoneServersDelete i) = delete_zone_servers i"
| "db_exec CallZoneDeleteAll = delete_all_zones"
| "db_exec (CallDiscoveryCreate r) = discovery_create r"
| "db_exec (CallDiscoveryUpdate r) = discovery_update r"
| "db_exec (CallDiscoveryDelete i) = discovery_delete i"
| "db_exec CallDiscoveryDeleteAll = discovery_delete_all"

lemma db_each_keeps:
  assumes "\<And>x db. x \<in> set xs \<Longrightarrow> I db \<Longrightarrow> I (snd (f x db))" and "I db"
  shows "I (snd (db_each f xs db))"
  using assms
proof (induction xs arbitrary: db)
  case (Cons x xs)
  obtain r db' where f: "f x db = (r, db')" by fastforce
  then have "I db'" using Cons.prems(1) [of x db] Cons.prems(2) by simp
  then show ?case using Cons f by (auto split: sum.splits)
qed simp

lemma distinct_filter_map [intro]: "distinct (map f xs) \<Longrightarrow> distinct (map f (filter P xs))"
  by (induction xs) auto

text \<open>Replacing a row in a table with a key keeps the keys, and another unique column if no other row has the new value.\<close>

lemma update_row_keys [simp]: "map key (map (\<lambda>r'. if key r' = key r then r else r') rs) = map key rs"
  by auto

lemma update_row_unique:
  assumes "distinct (map name rs)" and "\<forall>r'\<in>set rs. name r' = name r \<longrightarrow> key r' = key r"
    and "distinct (map key rs)"
  shows "distinct (map name (map (\<lambda>r'. if key r' = key r then r else r') rs))"
  using assms
proof (induction rs)
  case (Cons a rs)
  let ?upd = "\<lambda>r'. if key r' = key r then r else r'"
  have IH: "distinct (map name (map ?upd rs))" using Cons by simp
  have sub: "name ` set (map ?upd rs) \<subseteq> name ` set rs \<union> {name r}" by auto
  show ?case
  proof (cases "key a = key r")
    case True
    then have "map ?upd rs = rs" using Cons.prems(3) by (intro map_idI) (auto simp: image_iff)
    moreover have "name r \<notin> name ` set rs"
      using Cons.prems(2,3) True by (auto simp: image_iff)
    ultimately show ?thesis using Cons.prems(1) True by simp
  next
    case False
    then have "name a \<noteq> name r" using Cons.prems(2) by auto
    then have "name a \<notin> name ` set (map ?upd rs)" using sub Cons.prems(1) by auto
    then have nin: "name a \<notin> set (map name (map ?upd rs))" by (simp only: set_map not_False_eq_True)
    have "map ?upd (a # rs) = a # map ?upd rs" using False by simp
    then show ?thesis using IH nin by (simp only: list.map(2) distinct.simps simp_thms)
  qed
qed simp

lemma db_okI:
  "lists_ok (db_filter_lists db) \<Longrightarrow> bootstrap_ok (db_bootstrap db) \<Longrightarrow> distinct (map ur_id (db_servers db)) \<Longrightarrow>
    zones_ok (db_zones db) (db_zone_servers db) \<Longrightarrow> discovery_ok (db_discovery db) (db_discovery_types db) \<Longrightarrow> db_ok db"
  by (simp add: db_ok_def)

lemma lists_calls_keep:
  assumes "db_ok db"
  shows "db_ok (snd (filter_lists_create r db))" "db_ok (snd (filter_lists_update r db))"
    "db_ok (snd (filter_lists_delete i db))" "db_ok (snd (filter_lists_set_enabled i b db))"
    "db_ok (snd (filtering_update fr db))"
proof -
  let ?rs = "db_filter_lists db"
  have ok: "lists_ok ?rs" using assms by (simp add: db_ok_def)
  have "lists_ok (?rs @ [r])" if "fst (filter_lists_create r db) = Inr ()"
    using that ok by (auto simp: lists_ok_def filter_lists_create_def list_ex_iff split: if_splits)
  then show "db_ok (snd (filter_lists_create r db))"
    using assms by (auto simp: db_ok_def filter_lists_create_def)
  have "lists_ok (map (\<lambda>r'. if fl_id r' = fl_id r then r else r') ?rs)"
    if "\<not> list_ex (\<lambda>r'. fl_name r' = fl_name r \<and> fl_id r' \<noteq> fl_id r) ?rs" "fl_kind r = ''block'' \<or> fl_kind r = ''allow''"
  proof -
    have "distinct (map fl_name (map (\<lambda>r'. if fl_id r' = fl_id r then r else r') ?rs))"
      using ok that(1) by (intro update_row_unique) (auto simp: lists_ok_def list_ex_iff)
    then show ?thesis using ok that(2) unfolding lists_ok_def update_row_keys by (auto simp: list_all_iff)
  qed
  then show "db_ok (snd (filter_lists_update r db))" using assms by (auto simp: db_ok_def filter_lists_update_def)
  show "db_ok (snd (filter_lists_delete i db))"
    using assms by (auto simp: db_ok_def lists_ok_def filter_lists_delete_def list_all_iff)
  show "db_ok (snd (filter_lists_set_enabled i b db))"
    using assms
    by (auto simp: db_ok_def lists_ok_def filter_lists_set_enabled_def list_all_iff comp_def if_distrib [of fl_id]
        if_distrib [of fl_name] cong: if_cong)
  show "db_ok (snd (filtering_update fr db))" using assms by (simp add: db_ok_def filtering_update_def)
qed

lemma insert_bootstrap_keeps: "db_ok db \<Longrightarrow> db_ok (snd (insert_bootstrap p db))"
  by (cases p) (auto simp: insert_bootstrap_def new_uuid_def db_ok_def bootstrap_ok_def list_ex_iff)

lemma server_calls_keep:
  assumes "db_ok db"
  shows "db_ok (snd (update_resolver_config rr db))" "db_ok (snd (create_server r db))"
    "db_ok (snd (update_server r db))" "db_ok (snd (delete_server i db))" "db_ok (snd (delete_all_servers db))"
proof -
  show "db_ok (snd (update_resolver_config rr db))"
    unfolding update_resolver_config_def Let_def
    by (rule db_each_keeps, rule insert_bootstrap_keeps) (use assms in \<open>auto simp: db_ok_def bootstrap_ok_def\<close>)
  show "db_ok (snd (create_server r db))" "db_ok (snd (delete_server i db))" "db_ok (snd (delete_all_servers db))"
    using assms by (auto simp: db_ok_def create_server_def delete_server_def delete_all_servers_def list_ex_iff)
  have "distinct (map ur_id (map (\<lambda>r'. if ur_id r' = ur_id r then r else r') (db_servers db)))"
    unfolding update_row_keys using assms by (simp add: db_ok_def)
  then show "db_ok (snd (update_server r db))" using assms by (simp add: db_ok_def update_server_def del: map_map)
qed

lemma zone_calls_keep:
  assumes "db_ok db"
  shows "db_ok (snd (create_zone r db))" "db_ok (snd (update_zone r db))" "db_ok (snd (create_zone_server s db))"
    "db_ok (snd (delete_zone i db))" "db_ok (snd (delete_zone_servers i db))" "db_ok (snd (delete_all_zones db))"
proof -
  let ?zs = "db_zones db"
  have ok: "zones_ok ?zs (db_zone_servers db)" using assms by (simp add: db_ok_def)
  show "db_ok (snd (create_zone r db))"
    using assms by (auto simp: db_ok_def zones_ok_def create_zone_def list_ex_iff list_all_iff)
  let ?r = "r\<lparr>zo_servers := []\<rparr>"
  have upd: "map (\<lambda>z. if zo_id z = zo_id r then ?r else z) ?zs = map (\<lambda>z. if zo_id z = zo_id ?r then ?r else z) ?zs" by simp
  have "zones_ok (map (\<lambda>z. if zo_id z = zo_id r then ?r else z) ?zs) (db_zone_servers db)"
    if "\<not> list_ex (\<lambda>z. zo_zone z = zo_zone r \<and> zo_id z \<noteq> zo_id r) ?zs"
  proof -
    have "distinct (map zo_zone (map (\<lambda>z. if zo_id z = zo_id ?r then ?r else z) ?zs))"
      using ok that by (intro update_row_unique) (auto simp: zones_ok_def list_ex_iff)
    moreover have "zo_id ` set (map (\<lambda>z. if zo_id z = zo_id ?r then ?r else z) ?zs) = zo_id ` set ?zs"
      using update_row_keys [of zo_id ?r ?zs] by (metis list.set_map)
    ultimately show ?thesis using ok unfolding upd zones_ok_def update_row_keys by (auto simp: list_all_iff)
  qed
  then show "db_ok (snd (update_zone r db))" using assms by (auto simp: db_ok_def update_zone_def)
  show "db_ok (snd (create_zone_server s db))"
    using assms
    by (auto simp: db_ok_def zones_ok_def create_zone_server_def list_ex_iff list_all_iff intro: rev_image_eqI)
  show "db_ok (snd (delete_zone i db))" "db_ok (snd (delete_zone_servers i db))" "db_ok (snd (delete_all_zones db))"
    using assms by (auto simp: db_ok_def zones_ok_def delete_zone_def delete_zone_servers_def delete_all_zones_def list_all_iff)
qed

lemma insert_allowed_type_keeps: "db_ok db \<Longrightarrow> db_ok (snd (insert_allowed_type i t db))"
  by (auto simp: insert_allowed_type_def new_uuid_def db_ok_def discovery_ok_def list_ex_iff list_all_iff)

lemma discovery_calls_keep:
  assumes "db_ok db"
  shows "db_ok (snd (discovery_create r db))" "db_ok (snd (discovery_update r db))"
    "db_ok (snd (discovery_delete i db))" "db_ok (snd (discovery_delete_all db))"
proof -
  let ?ds = "db_discovery db"
  have ok: "discovery_ok ?ds (db_discovery_types db)" using assms by (simp add: db_ok_def)
  show "db_ok (snd (discovery_create r db))"
  proof (cases "list_ex (\<lambda>d. di_id d = di_id r) ?ds")
    case False
    then have "db_ok (db\<lparr>db_discovery := ?ds @ [r\<lparr>di_allowed_types := []\<rparr>]\<rparr>)"
      using assms by (auto simp: db_ok_def discovery_ok_def list_ex_iff list_all_iff)
    then have "db_ok (snd (db_each (insert_allowed_type (di_id r)) (di_allowed_types r)
        (db\<lparr>db_discovery := ?ds @ [r\<lparr>di_allowed_types := []\<rparr>]\<rparr>)))"
      by (rule db_each_keeps [rotated]) (rule insert_allowed_type_keeps)
    then show ?thesis using False by (simp add: discovery_create_def)
  qed (use assms in \<open>simp add: discovery_create_def\<close>)
  let ?r = "r\<lparr>di_allowed_types := []\<rparr>"
  have "map di_id (map (\<lambda>d. if di_id d = di_id r then ?r else d) ?ds) = map di_id ?ds" by auto
  moreover from this have "di_id ` set (map (\<lambda>d. if di_id d = di_id r then ?r else d) ?ds) = di_id ` set ?ds"
    by (metis list.set_map)
  moreover from calculation(1) have "distinct (map di_id (map (\<lambda>d. if di_id d = di_id r then ?r else d) ?ds))"
    using ok unfolding discovery_ok_def by metis
  ultimately have "discovery_ok (map (\<lambda>d. if di_id d = di_id r then ?r else d) ?ds)
      (filter (\<lambda>(_, d, _). d \<noteq> di_id r) (db_discovery_types db))"
    using ok unfolding discovery_ok_def by (auto simp: list_all_iff simp del: map_map)
  then have "db_ok (db\<lparr>db_discovery := map (\<lambda>d. if di_id d = di_id r then ?r else d) ?ds,
      db_discovery_types := filter (\<lambda>(_, d, _). d \<noteq> di_id r) (db_discovery_types db)\<rparr>)"
    using assms by (simp add: db_ok_def del: map_map)
  then have "db_ok (snd (db_each (insert_allowed_type (di_id r)) (di_allowed_types r)
      (db\<lparr>db_discovery := map (\<lambda>d. if di_id d = di_id r then ?r else d) ?ds,
          db_discovery_types := filter (\<lambda>(_, d, _). d \<noteq> di_id r) (db_discovery_types db)\<rparr>)))"
    by (rule db_each_keeps [rotated]) (rule insert_allowed_type_keeps)
  then show "db_ok (snd (discovery_update r db))" by (simp add: discovery_update_def)
  show "db_ok (snd (discovery_delete i db))" "db_ok (snd (discovery_delete_all db))"
    using assms by (auto simp: db_ok_def discovery_ok_def discovery_delete_def discovery_delete_all_def list_all_iff)
qed

lemmas calls_keep = lists_calls_keep server_calls_keep zone_calls_keep discovery_calls_keep

lemma db_exec_keeps: "db_ok db \<Longrightarrow> db_ok (snd (db_exec c db))"
  by (cases c) (auto intro: calls_keep)

section \<open>The repository of zones as a map\<close>

subsection \<open>Rows found by a key\<close>

lemma find_append_new: "find P (xs @ [x]) = (case find P xs of None \<Rightarrow> if P x then Some x else None | Some y \<Rightarrow> Some y)"
  by (induction xs) auto

lemma find_unique:
  "distinct (map key xs) \<Longrightarrow> x \<in> set xs \<Longrightarrow> find (\<lambda>y. key y = key x) xs = Some x"
proof (induction xs)
  case (Cons y ys)
  show ?case
  proof (cases "y = x")
    case False
    then have "x \<in> set ys" using Cons.prems(2) by simp
    moreover from this have "key y \<noteq> key x" using Cons.prems(1) by (metis distinct.simps(2) image_eqI list.set_map list.simps(9))
    ultimately show ?thesis using Cons by simp
  qed simp
qed simp

lemma find_replaced:
  assumes "distinct (map ident xs)" "old \<in> set xs" "ident new = ident old" "key new = key old" "distinct (map key xs)"
  shows "find (\<lambda>x. key x = n) (map (\<lambda>x. if ident x = ident new then new else x) xs) =
    (if n = key old then Some new else find (\<lambda>x. key x = n) xs)"
  using assms
proof (induction xs)
  case (Cons x xs)
  show ?case
  proof (cases "x = old")
    case True
    have "ident y \<noteq> ident old" if "y \<in> set xs" for y
      using Cons.prems(1) that True by (metis distinct.simps(2) image_eqI list.set_map list.simps(9))
    then have "map (\<lambda>x. if ident x = ident new then new else x) xs = xs" using Cons.prems(3) by (intro map_idI) auto
    then show ?thesis using True Cons.prems by auto
  next
    case False
    then have old: "old \<in> set xs" using Cons.prems(2) by simp
    then have "ident x \<noteq> ident old" "key x \<noteq> key old"
      using Cons.prems(1,5) by (metis distinct.simps(2) image_eqI list.set_map list.simps(9))+
    then show ?thesis using Cons old by auto
  qed
qed simp

lemma find_removed:
  assumes "distinct (map ident xs)" "old \<in> set xs" "distinct (map key xs)"
  shows "find (\<lambda>x. key x = n) (filter (\<lambda>x. ident x \<noteq> ident old) xs) =
    (if n = key old then None else find (\<lambda>x. key x = n) xs)"
  using assms
proof (induction xs)
  case (Cons x xs)
  show ?case
  proof (cases "x = old")
    case True
    have "ident y \<noteq> ident old \<and> key y \<noteq> key old" if "y \<in> set xs" for y
      using Cons.prems(1,3) that True by (metis distinct.simps(2) image_eqI list.set_map list.simps(9))
    then have "filter (\<lambda>x. ident x \<noteq> ident old) xs = xs" "find (\<lambda>x. key x = key old) xs = None"
      by (auto simp: filter_id_conv find_None_iff)
    then show ?thesis using True by auto
  next
    case False
    then have old: "old \<in> set xs" using Cons.prems(2) by simp
    then have "ident x \<noteq> ident old" "key x \<noteq> key old"
      using Cons.prems(1,3) by (metis distinct.simps(2) image_eqI list.set_map list.simps(9))+
    then show ?thesis using Cons old by auto
  qed
qed simp

subsection \<open>Zones with their servers\<close>

lemma push_to_zone_map:
  "distinct (map zo_id zs) \<Longrightarrow>
    push_to_zone s zs = map (\<lambda>z. if zo_id z = zv_zone_id s then z\<lparr>zo_servers := zo_servers z @ [s]\<rparr> else z) zs"
proof (induction zs)
  case (Cons z zs)
  have "zo_id z \<notin> zo_id ` set zs" using Cons.prems by simp
  then have "zo_id x \<noteq> zo_id z" if "x \<in> set zs" for x using that by (metis imageI)
  with Cons show ?case by (auto intro!: map_idI [symmetric])
qed simp

lemma fold_push_to_zone:
  "distinct (map zo_id zs) \<Longrightarrow>
    fold push_to_zone ss zs =
      map (\<lambda>z. z\<lparr>zo_servers := zo_servers z @ filter (\<lambda>s. zv_zone_id s = zo_id z) ss\<rparr>) zs"
proof (induction ss arbitrary: zs)
  case (Cons s ss)
  let ?zs = "push_to_zone s zs"
  have ids: "map zo_id ?zs = map zo_id zs" by (induction zs) auto
  then have "fold push_to_zone ss ?zs =
      map (\<lambda>z. z\<lparr>zo_servers := zo_servers z @ filter (\<lambda>s. zv_zone_id s = zo_id z) ss\<rparr>) ?zs"
    using Cons by simp
  also have "\<dots> = map (\<lambda>z. z\<lparr>zo_servers := zo_servers z @ filter (\<lambda>s. zv_zone_id s = zo_id z) (s # ss)\<rparr>) zs"
    using Cons.prems by (simp add: push_to_zone_map)
  finally show ?case by simp
qed simp

text \<open>
  What the repository holds, as \<open>get_by_zone\<close> reads it: a map from the names of zones to their rows, each with its
  servers in order.
\<close>

abbreviation in_order :: "zone_server_record list \<Rightarrow> zone_server_record list" where
  "in_order \<equiv> sort_key (\<lambda>s. (zv_sort_order s, zv_id s))"

definition servers_of :: "string \<Rightarrow> database \<Rightarrow> zone_server_record list" where
  "servers_of ident db = in_order (filter (\<lambda>s. zv_zone_id s = ident) (db_zone_servers db))"

lemma get_by_zone_eq:
  "get_by_zone db name = map_option (\<lambda>z. z\<lparr>zo_servers := servers_of (zo_id z) db\<rparr>) (find (\<lambda>z. zo_zone z = name) (db_zones db))"
  by (simp add: get_by_zone_def servers_of_def split: option.split)

lemma get_by_zone_row:
  assumes "get_by_zone db name = Some row"
  obtains z where "z \<in> set (db_zones db)" "zo_zone z = name" "zo_id z = zo_id row"
    "row = z\<lparr>zo_servers := servers_of (zo_id z) db\<rparr>"
  using assms that by (auto simp: get_by_zone_eq dest!: find_SomeD)

lemma in_order_again: "in_order (in_order xs @ [v]) = in_order (xs @ [v])"
proof (rule properties_for_sort_key)
  fix k
  assume "k \<in> set (in_order (xs @ [v]))"
  let ?key = "\<lambda>s. (zv_sort_order s, zv_id s)"
  have "filter (\<lambda>x. ?key k = ?key x) (in_order ys) = filter (\<lambda>x. ?key k = ?key x) ys" for ys
    using sort_key_stable [of ?key "?key k" ys] by (simp only: eq_commute [of "?key k"])
  then show "filter (\<lambda>x. ?key k = ?key x) (in_order (xs @ [v])) = filter (\<lambda>x. ?key k = ?key x) (in_order xs @ [v])"
    by (simp only: filter_append)
qed simp_all

lemma no_servers_of:
  assumes "db_ok db" and "\<not> list_ex (\<lambda>z. zo_id z = ident) (db_zones db)"
  shows "servers_of ident db = []"
proof -
  have "filter (\<lambda>s. zv_zone_id s = ident) (db_zone_servers db) = []"
    using assms by (force simp: db_ok_def zones_ok_def list_ex_iff list_all_iff filter_empty_conv)
  then show ?thesis by (simp add: servers_of_def)
qed

lemma create_zone_map:
  assumes "db_ok db" and "create_zone z db = (Inr (), db')"
  shows "get_by_zone db (zo_zone z) = None \<and> get_by_zone db' = (get_by_zone db)(zo_zone z \<mapsto> z\<lparr>zo_servers := []\<rparr>)"
proof -
  have new: "\<not> list_ex (\<lambda>y. zo_id y = zo_id z) (db_zones db)" "\<not> list_ex (\<lambda>y. zo_zone y = zo_zone z) (db_zones db)"
    and db': "db' = db\<lparr>db_zones := db_zones db @ [z\<lparr>zo_servers := []\<rparr>]\<rparr>"
    using assms(2) by (auto simp: create_zone_def split: if_splits)
  have same: "servers_of i db' = servers_of i db" for i by (simp add: servers_of_def db')
  have none: "find (\<lambda>y. zo_zone y = zo_zone z) (db_zones db) = None" using new(2) by (auto simp: find_None_iff list_ex_iff)
  have "get_by_zone db' n = ((get_by_zone db)(zo_zone z \<mapsto> z\<lparr>zo_servers := []\<rparr>)) n" for n
    using none no_servers_of [OF assms(1) new(1)]
    by (auto simp: get_by_zone_eq same) (auto simp: db' find_append_new split: option.splits)
  then show ?thesis using none by (auto simp: get_by_zone_eq)
qed

lemma other_zone:
  assumes "distinct (map zo_id zs)" and "z \<in> set zs" and "find (\<lambda>y. zo_zone y = n) zs = Some y" and "n \<noteq> zo_zone z"
  shows "zo_id y \<noteq> zo_id z"
proof
  assume "zo_id y = zo_id z"
  moreover have y: "y \<in> set zs" "zo_zone y = n" using find_SomeD [OF assms(3)] by simp_all
  ultimately have "y = z" using assms(1,2) by (simp add: distinct_map inj_on_def)
  then show False using assms(4) y(2) by simp
qed

lemma create_zone_server_map:
  assumes "db_ok db" and "create_zone_server v db = (Inr (), db')"
  shows "\<exists>row. get_by_zone db (zo_zone row) = Some row \<and> zo_id row = zv_zone_id v \<and>
    get_by_zone db' = (get_by_zone db)(zo_zone row \<mapsto> row\<lparr>zo_servers := in_order (zo_servers row @ [v])\<rparr>)"
proof -
  have db': "db' = db\<lparr>db_zone_servers := db_zone_servers db @ [v]\<rparr>" and "list_ex (\<lambda>z. zo_id z = zv_zone_id v) (db_zones db)"
    using assms(2) by (auto simp: create_zone_server_def split: if_splits)
  then obtain z where z: "z \<in> set (db_zones db)" "zo_id z = zv_zone_id v" by (auto simp: list_ex_iff)
  have ids: "distinct (map zo_id (db_zones db))" "distinct (map zo_zone (db_zones db))"
    using assms(1) by (auto simp: db_ok_def zones_ok_def)
  let ?row = "z\<lparr>zo_servers := servers_of (zo_id z) db\<rparr>"
  have found: "find (\<lambda>y. zo_zone y = zo_zone z) (db_zones db) = Some z" using find_unique [OF ids(2) z(1)] .
  have servers: "servers_of i db' = (if i = zo_id z then in_order (servers_of i db @ [v]) else servers_of i db)" for i
    using z(2) unfolding servers_of_def db' by (simp add: in_order_again)
  note other = other_zone [OF ids(1) z(1)]
  have zones: "db_zones db' = db_zones db" by (simp add: db')
  have "get_by_zone db' n = ((get_by_zone db)(zo_zone ?row \<mapsto> ?row\<lparr>zo_servers := in_order (zo_servers ?row @ [v])\<rparr>)) n" for n
    using found other [of n] unfolding get_by_zone_eq zones servers
    by (cases "find (\<lambda>y. zo_zone y = n) (db_zones db)") auto
  then show ?thesis using found z(2) by (intro exI [of _ ?row]) (auto simp: get_by_zone_eq)
qed

lemma update_zone_map:
  assumes "db_ok db" and "update_zone z db = (Inr (), db')" and "get_by_zone db name = Some row" and "zo_id row = zo_id z"
  shows "get_by_zone db' = (get_by_zone db)(name := None, zo_zone z \<mapsto> z\<lparr>zo_servers := zo_servers row\<rparr>)"
proof -
  obtain old where old: "old \<in> set (db_zones db)" "zo_zone old = name" "zo_id old = zo_id z" "row = old\<lparr>zo_servers := servers_of (zo_id z) db\<rparr>"
    using get_by_zone_row [OF assms(3)] assms(4) by metis
  let ?z = "z\<lparr>zo_servers := []\<rparr>"
  have free: "\<not> list_ex (\<lambda>y. zo_zone y = zo_zone z \<and> zo_id y \<noteq> zo_id z) (db_zones db)"
    and db': "db' = db\<lparr>db_zones := map (\<lambda>y. if zo_id y = zo_id z then ?z else y) (db_zones db)\<rparr>"
    using assms(2) old(1,3) by (auto simp: update_zone_def list_ex_iff split: if_splits)
  have ids: "distinct (map zo_id (db_zones db))" "distinct (map zo_zone (db_zones db))"
    using assms(1) by (auto simp: db_ok_def zones_ok_def)
  have same: "servers_of i db' = servers_of i db" for i by (simp add: servers_of_def db')
  have only: "y = old" if "y \<in> set (db_zones db)" "zo_id y = zo_id z \<or> zo_zone y = name" for y
    using that ids old(1,2,3) by (auto simp: distinct_map inj_on_def)
  have keeps: "db_ok db'" using zone_calls_keep(2) [OF assms(1), of z] assms(2) by simp
  then have names': "distinct (map zo_zone (db_zones db'))" by (simp add: db_ok_def zones_ok_def)
  have found: "find (\<lambda>y. zo_zone y = n) (db_zones db') =
      (if n = zo_zone z then Some ?z else if n = name then None else find (\<lambda>y. zo_zone y = n) (db_zones db))" for n
  proof -
    have "?z \<in> set (db_zones db')" using old(1,3) by (force simp: db')
    from find_unique [OF names' this] have "find (\<lambda>y. zo_zone y = zo_zone z) (db_zones db') = Some ?z" by simp
    moreover have "find (\<lambda>y. zo_zone y = name) (db_zones db') = None" if "name \<noteq> zo_zone z"
      using that only old(3) by (auto simp: find_None_iff db')
    moreover have "find (\<lambda>y. zo_zone y = n) (map (\<lambda>y. if zo_id y = zo_id z then ?z else y) ys) = find (\<lambda>y. zo_zone y = n) ys"
      if "n \<noteq> zo_zone z" "n \<noteq> name" "set ys \<subseteq> set (db_zones db)" for ys
      using that(3)
    proof (induction ys)
      case (Cons y ys)
      then show ?case using that(1,2) only [of y] old(2,3) by auto
    qed simp
    ultimately show ?thesis by (simp add: db')
  qed
  have "get_by_zone db' n = ((get_by_zone db)(name := None, zo_zone z \<mapsto> z\<lparr>zo_servers := zo_servers row\<rparr>)) n" for n
    using old(4) by (simp add: get_by_zone_eq same found)
  then show ?thesis by blast
qed

lemma delete_zone_map:
  assumes "db_ok db" and "get_by_zone db name = Some row" and "delete_zone (zo_id row) db = (Inr (), db')"
  shows "get_by_zone db' = (get_by_zone db)(name := None)"
proof -
  obtain old where old: "old \<in> set (db_zones db)" "zo_zone old = name" "zo_id old = zo_id row"
    using get_by_zone_row [OF assms(2)] by metis
  have db': "db_zones db' = filter (\<lambda>z. zo_id z \<noteq> zo_id old) (db_zones db)"
      "db_zone_servers db' = filter (\<lambda>s. zv_zone_id s \<noteq> zo_id old) (db_zone_servers db)"
    using assms(3) old(3) by (auto simp: delete_zone_def)
  have ids: "distinct (map zo_id (db_zones db))" "distinct (map zo_zone (db_zones db))"
    using assms(1) by (auto simp: db_ok_def zones_ok_def)
  have same: "servers_of i db' = servers_of i db" if "i \<noteq> zo_id old" for i
    using that unfolding servers_of_def db' filter_filter by (intro arg_cong [where f = in_order] filter_cong) auto
  note other = other_zone [OF ids(1) old(1), unfolded old(2)]
  have "get_by_zone db' n = ((get_by_zone db)(name := None)) n" for n
    using find_removed [OF ids(1) old(1) ids(2), of n] other [of n] same old(2)
    by (cases "find (\<lambda>y. zo_zone y = n) (db_zones db)") (auto simp: get_by_zone_eq db'(1))
  then show ?thesis by blast
qed

lemma delete_zone_servers_map:
  assumes "db_ok db" and "get_by_zone db name = Some row" and "delete_zone_servers (zo_id row) db = (Inr (), db')"
  shows "get_by_zone db' = (get_by_zone db)(name \<mapsto> row\<lparr>zo_servers := []\<rparr>)"
proof -
  obtain old where old: "old \<in> set (db_zones db)" "zo_zone old = name" "zo_id old = zo_id row" "row = old\<lparr>zo_servers := servers_of (zo_id old) db\<rparr>"
    using get_by_zone_row [OF assms(2)] by metis
  have db': "db_zones db' = db_zones db"
      "db_zone_servers db' = filter (\<lambda>s. zv_zone_id s \<noteq> zo_id old) (db_zone_servers db)"
    using assms(3) old(3) by (auto simp: delete_zone_servers_def)
  have ids: "distinct (map zo_id (db_zones db))" "distinct (map zo_zone (db_zones db))"
    using assms(1) by (auto simp: db_ok_def zones_ok_def)
  have same: "servers_of i db' = (if i = zo_id old then [] else servers_of i db)" for i
    unfolding servers_of_def db' filter_filter by (auto intro: filter_False arg_cong [where f = in_order] filter_cong)
  have found: "find (\<lambda>y. zo_zone y = name) (db_zones db) = Some old" using find_unique [OF ids(2) old(1)] old(2) by simp
  note other = other_zone [OF ids(1) old(1), unfolded old(2)]
  have "get_by_zone db' n = ((get_by_zone db)(name \<mapsto> row\<lparr>zo_servers := []\<rparr>)) n" for n
    using other [of n] found old(4) unfolding get_by_zone_eq db'(1) same
    by (cases "find (\<lambda>y. zo_zone y = n) (db_zones db)") auto
  then show ?thesis by blast
qed

lemma all_zones_read:
  assumes "db_ok db"
  shows "set (get_all_with_servers db) = ran (get_by_zone db) \<and> sorted (map zo_zone (get_all_with_servers db))"
proof -
  have ids: "distinct (map zo_id (db_zones db))" "distinct (map zo_zone (db_zones db))"
    using assms by (auto simp: db_ok_def zones_ok_def)
  have "distinct (map zo_id (sort_key zo_zone (db_zones db)))" using ids(1) by (simp add: distinct_map)
  then have "distinct (map zo_id (map (\<lambda>z. z\<lparr>zo_servers := []\<rparr>) (sort_key zo_zone (db_zones db))))" by (simp add: comp_def)
  from fold_push_to_zone [OF this] have all: "get_all_with_servers db =
      map (\<lambda>z. z\<lparr>zo_servers := servers_of (zo_id z) db\<rparr>) (sort_key zo_zone (db_zones db))"
    by (simp add: get_all_with_servers_def Let_def comp_def servers_of_def filter_sort)
  have "ran (get_by_zone db) = (\<lambda>z. z\<lparr>zo_servers := servers_of (zo_id z) db\<rparr>) ` set (db_zones db)"
  proof (intro equalityI subsetI)
    fix row
    assume "row \<in> (\<lambda>z. z\<lparr>zo_servers := servers_of (zo_id z) db\<rparr>) ` set (db_zones db)"
    then obtain z where "z \<in> set (db_zones db)" "row = z\<lparr>zo_servers := servers_of (zo_id z) db\<rparr>" by blast
    then have "get_by_zone db (zo_zone z) = Some row" using find_unique [OF ids(2)] by (simp add: get_by_zone_eq)
    then show "row \<in> ran (get_by_zone db)" by (rule ranI)
  qed (auto simp: ran_def get_by_zone_eq dest!: find_SomeD)
  then show ?thesis by (simp add: all comp_def)
qed

text \<open>
  C17. The repository of zones implements a map from names to zones with their servers. In a consistent database,
  creating a zone adds it without servers under a new name; creating a server puts it into the zone it refers to, in
  order; an update moves the zone with that identifier to its new name with its new fields and the servers it has;
  deleting a zone removes it with its servers, and deleting its servers leaves the zone without any. No other zone is
  affected. The two ways of reading agree: the list of all zones has exactly the zones of the map, ordered by name.
\<close>

theorem zone_rows_refine_map:
  assumes "db_ok db"
  shows "(create_zone z db = (Inr (), db') \<longrightarrow>
      get_by_zone db (zo_zone z) = None \<and> get_by_zone db' = (get_by_zone db)(zo_zone z \<mapsto> z\<lparr>zo_servers := []\<rparr>)) \<and>
    (create_zone_server v db = (Inr (), db') \<longrightarrow>
      (\<exists>row. get_by_zone db (zo_zone row) = Some row \<and> zo_id row = zv_zone_id v \<and>
        get_by_zone db' = (get_by_zone db)(zo_zone row \<mapsto> row\<lparr>zo_servers :=
          sort_key (\<lambda>s. (zv_sort_order s, zv_id s)) (zo_servers row @ [v])\<rparr>))) \<and>
    (get_by_zone db name = Some row \<longrightarrow>
      (zo_id row = zo_id z \<and> update_zone z db = (Inr (), db') \<longrightarrow>
        get_by_zone db' = (get_by_zone db)(name := None, zo_zone z \<mapsto> z\<lparr>zo_servers := zo_servers row\<rparr>)) \<and>
      (delete_zone (zo_id row) db = (Inr (), db') \<longrightarrow> get_by_zone db' = (get_by_zone db)(name := None)) \<and>
      (delete_zone_servers (zo_id row) db = (Inr (), db') \<longrightarrow>
        get_by_zone db' = (get_by_zone db)(name \<mapsto> row\<lparr>zo_servers := []\<rparr>))) \<and>
    set (get_all_with_servers db) = ran (get_by_zone db) \<and> sorted (map zo_zone (get_all_with_servers db))"
  using create_zone_map [OF assms] create_zone_server_map [OF assms] update_zone_map [OF assms] delete_zone_map [OF assms]
    delete_zone_servers_map [OF assms] all_zones_read [OF assms] by blast

text \<open>
  The constraints of the schema hold after every sequence of repository calls, with any arguments and whether or not
  some of them fail half-way: identifiers and names stay unique, every list is a blocklist or an allowlist, and every
  server and every allowed type belongs to an existing zone or discovery source.
\<close>

theorem database_integrity:
  assumes "db_ok db"
  shows "db_ok (fold (\<lambda>c db. snd (db_exec c db)) calls db)"
  using assms by (induction calls arbitrary: db) (auto simp: db_exec_keeps)

text \<open>The database after the migrations: empty tables, the singleton rows with their defaults, one bootstrap resolver.\<close>

definition initial_database :: "(nat \<Rightarrow> string) \<Rightarrow> database" where
  "initial_database uuid =
     \<lparr>db_filter_lists = [],
      db_filtering = \<lparr>fr_sinkhole_ipv4 = ''0.0.0.0'', fr_sinkhole_ipv6 = ''::'', fr_any_query_policy = ''notimp''\<rparr>,
      db_strategy = ''round_robin'', db_cache_enabled = True, db_cache_min_ttl = None, db_cache_max_ttl = None,
      db_bootstrap = [(''migrated'', ''1.1.1.1'', 0)], db_servers = [], db_zones = [], db_zone_servers = [],
      db_discovery = [], db_discovery_types = [], db_uuid = uuid, db_uuids_used = 0\<rparr>"

lemma initial_database_ok: "db_ok (initial_database uuid)"
  by (simp add: db_ok_def lists_ok_def bootstrap_ok_def zones_ok_def discovery_ok_def initial_database_def)

definition example_list_record :: filter_list_record where
  "example_list_record = \<lparr>fl_id = ''1'', fl_name = ''ads'', fl_kind = ''block'', fl_url = ''u'',
     fl_interval_seconds = 60, fl_enabled = True, fl_list_type = ''hosts''\<rparr>"

definition example_zone_row :: zone_record_row where
  "example_zone_row = \<lparr>zo_id = ''z'', zo_zone = ''lan'', zo_enabled = True, zo_bypass_filter = True,
     zo_fallback_to_default_resolvers = False, zo_strategy = None, zo_servers = []\<rparr>"

theorem zone_rows_refine_map_witness:
  "\<exists>db'. create_zone example_zone_row (initial_database (\<lambda>_. ''u'')) = (Inr (), db') \<and>
     get_by_zone db' = [''lan'' \<mapsto> example_zone_row] \<and> set (get_all_with_servers db') = {example_zone_row}"
proof -
  let ?db = "initial_database (\<lambda>_. ''u'')"
  obtain db' where c: "create_zone example_zone_row ?db = (Inr (), db')"
    by (simp add: create_zone_def initial_database_def)
  have "get_by_zone ?db = Map.empty" by (auto simp: get_by_zone_def initial_database_def)
  with zone_rows_refine_map [OF initial_database_ok, of example_zone_row "\<lambda>_. ''u''" db'] c
  have m: "get_by_zone db' = [''lan'' \<mapsto> example_zone_row]" by (simp add: example_zone_row_def)
  moreover have "db_ok db'" using zone_calls_keep(1) [OF initial_database_ok, of example_zone_row] c by (metis snd_conv)
  moreover from this have "set (get_all_with_servers db') = ran (get_by_zone db')" using zone_rows_refine_map [of db'] by blast
  ultimately show ?thesis using c by simp
qed

theorem database_integrity_witness:
  "db_ok (fold (\<lambda>c db. snd (db_exec c db))
     [CallListCreate example_list_record, CallListCreate (example_list_record\<lparr>fl_id := ''2''\<rparr>),
      CallListEnable ''1'' False] (initial_database (\<lambda>_. ''u''))) \<and>
   fst (db_exec (CallListCreate (example_list_record\<lparr>fl_id := ''2''\<rparr>))
     (snd (db_exec (CallListCreate example_list_record) (initial_database (\<lambda>_. ''u''))))) =
     Inl (UniqueViolation ''filter_lists.name'')"
proof -
  have "fst (db_exec (CallListCreate (example_list_record\<lparr>fl_id := ''2''\<rparr>))
     (snd (db_exec (CallListCreate example_list_record) (initial_database (\<lambda>_. ''u''))))) =
     Inl (UniqueViolation ''filter_lists.name'')" by code_simp
  with database_integrity [OF initial_database_ok] show ?thesis by blast
qed

end
