(* ===== verification/ConfigDb.thy ===== *)
theory ConfigDb
  imports Database FilterEngine
begin

text \<open>
  The bridge between the configuration and the database: loading the operational settings
  (\<open>src/use_cases/config_from_db.rs\<close>) and importing the configuration file at the first start
  (\<open>src/use_cases/seed.rs\<close>). Infrastructure settings stay those of the file.
\<close>

subsection \<open>Loading\<close>

definition build_auth ::
  "string option \<Rightarrow> string option \<Rightarrow> string option \<Rightarrow> zone_server_authentication_config option" where
  "build_auth token username password =
     (if token \<noteq> None \<or> username \<noteq> None \<or> password \<noteq> None
      then Some \<lparr>za_token = token, za_username = username, za_password = password\<rparr> else None)"

definition named_list_of_record :: "filter_list_record \<Rightarrow> named_list" where
  "named_list_of_record r =
     \<lparr>nl_name = fl_name r, nl_url = fl_url r, nl_interval = Some (show_int (fl_interval_seconds r) @ ''s''),
      nl_enabled = Some (fl_enabled r), nl_list_type = Some (fl_list_type r)\<rparr>"

definition upstream_server_of_record :: "upstream_server_record \<Rightarrow> upstream_server" where
  "upstream_server_of_record s =
     \<lparr>us_enabled = ur_enabled s, us_protocol = ur_protocol s, us_address = ur_address s,
      us_authentication = build_auth (ur_auth_token s) (ur_auth_username s) (ur_auth_password s),
      us_max_hops = map_option ucast (ur_max_hops s), us_nameserver_ip_family = ur_nameserver_ip_family s,
      us_root_hints_path = ur_root_hints_path s, us_root_key_path = ur_root_key_path s,
      us_dnssec = Some (ur_dnssec s), us_bind_address = ur_bind_address s, us_fwmark = ur_fwmark s\<rparr>"

definition zone_server_of_record :: "zone_server_record \<Rightarrow> zone_server_config" where
  "zone_server_of_record s =
     \<lparr>zs_enabled = zv_enabled s, zs_protocol = zv_protocol s, zs_address = zv_address s,
      zs_authentication = build_auth (zv_auth_token s) (zv_auth_username s) (zv_auth_password s),
      zs_check_interval = zv_check_interval s, zs_max_hops = map_option ucast (zv_max_hops s),
      zs_nameserver_ip_family = zv_nameserver_ip_family s, zs_root_hints_path = zv_root_hints_path s,
      zs_root_key_path = zv_root_key_path s, zs_dnssec = Some (zv_dnssec s)\<rparr>"

definition zone_of_record :: "zone_record_row \<Rightarrow> resolver_zone_config" where
  "zone_of_record z =
     \<lparr>rz_zone = zo_zone z, rz_enabled = zo_enabled z, rz_bypass_filter = zo_bypass_filter z,
      rz_fallback_to_default_resolvers = zo_fallback_to_default_resolvers z, rz_strategy = zo_strategy z,
      rz_servers = map zone_server_of_record (zo_servers z)\<rparr>"

definition discovery_of_record :: "zone_discovery_record \<Rightarrow> zone_discovery_config" where
  "discovery_of_record d =
     \<lparr>zd_enabled = di_enabled d, zd_address = di_address d, zd_check_interval = di_check_interval d,
      zd_allowed_types = di_allowed_types d, zd_bypass_filter = di_bypass_filter d,
      zd_fallback_to_default_resolvers = di_fallback_to_default_resolvers d,
      zd_authentication = build_auth (di_auth_token d) (di_auth_username d) (di_auth_password d)\<rparr>"

text \<open>The configuration with what the database holds put in.\<close>

definition loaded_config :: "dns_filter_config \<Rightarrow> database \<Rightarrow> dns_filter_config" where
  "loaded_config config db =
     (let records = filter_lists_get_all db;
          filtering = filtering_get db;
          resolver = get_resolver_config db
      in config\<lparr>
        cfg_blocklists := map named_list_of_record (filter (\<lambda>r. fl_kind r = ''block'') records),
        cfg_allowlists := map named_list_of_record (filter (\<lambda>r. fl_kind r = ''allow'') records),
        cfg_filtering := Some
          \<lparr>fc_sinkhole_ipv4 = Some (fr_sinkhole_ipv4 filtering), fc_sinkhole_ipv6 = Some (fr_sinkhole_ipv6 filtering),
           fc_any_query_policy = Some (fr_any_query_policy filtering),
           fc_cache = Option.bind (cfg_filtering config) fc_cache\<rparr>,
        cfg_resolvers :=
          \<lparr>rs_strategy = rr_strategy resolver, rs_bootstrap_resolvers = rr_bootstrap_resolvers resolver,
           rs_cache = Some
             \<lparr>rcc_enabled = rr_dns_cache_enabled resolver,
              rcc_min_ttl = map_option (\<lambda>s. show_int s @ ''s'') (rr_dns_cache_min_ttl_seconds resolver),
              rcc_max_ttl = map_option (\<lambda>s. show_int s @ ''s'') (rr_dns_cache_max_ttl_seconds resolver),
              rcc_max_entries = None\<rparr>,
           rs_zones = map zone_of_record (get_all_with_servers db),
           rs_zone_discovery = map discovery_of_record (discovery_get_all db),
           rs_servers = map upstream_server_of_record (get_all_servers db)\<rparr>\<rparr>)"

text \<open>
  The function itself: six reads in this order, each of which may fail; the first error is returned and the
  configuration of the caller is then not used.
\<close>

datatype db_read = ReadLists | ReadFiltering | ReadResolver | ReadServers | ReadZones | ReadDiscovery

definition apply_db_config :: "(db_read \<Rightarrow> string option) \<Rightarrow> dns_filter_config \<Rightarrow> database \<Rightarrow> string + dns_filter_config" where
  "apply_db_config fails config db =
     (case List.map_filter fails [ReadLists, ReadFiltering, ReadResolver, ReadServers, ReadZones, ReadDiscovery] of
        e # _ \<Rightarrow> Inl e
      | [] \<Rightarrow> Inr (loaded_config config db))"

lemma apply_db_config_Inr: "apply_db_config fails config db = Inr c \<Longrightarrow> c = loaded_config config db"
  by (auto simp: apply_db_config_def split: list.splits)

subsection \<open>Seeding\<close>

definition default_interval_secs :: int where "default_interval_secs = 12 * 60 * 60"

text \<open>Multiplication of \<open>i64\<close> values, which wraps.\<close>

definition wrap_i64 :: "int \<Rightarrow> int" where
  "wrap_i64 x = (x + 2 ^ 63) mod 2 ^ 64 - 2 ^ 63"

definition suffixed_secs :: "string \<Rightarrow> char \<Rightarrow> int \<Rightarrow> int option" where
  "suffixed_secs s unit_char unit =
     (case strip_suffix s [unit_char] of
        None \<Rightarrow> None
      | Some number \<Rightarrow> map_option (\<lambda>n. wrap_i64 (n * unit)) (parse_i64 number))"

definition parse_interval_secs :: "string option \<Rightarrow> int" where
  "parse_interval_secs interval =
     (case interval of
        None \<Rightarrow> default_interval_secs
      | Some s \<Rightarrow>
          (let s = trim s in
           if s = [] then default_interval_secs
           else case suffixed_secs s (CHR ''h'') 3600 of
             Some n \<Rightarrow> n
           | None \<Rightarrow>
               (case suffixed_secs s (CHR ''m'') 60 of
                  Some n \<Rightarrow> n
                | None \<Rightarrow>
                    (case suffixed_secs s (CHR ''s'') 1 of
                       Some n \<Rightarrow> n
                     | None \<Rightarrow> (case parse_i64 s of Some n \<Rightarrow> n | None \<Rightarrow> default_interval_secs)))))"

definition seed_list :: "string \<Rightarrow> named_list \<Rightarrow> database \<Rightarrow> db_result" where
  "seed_list kind l db =
     (case new_uuid db of (ident, db) \<Rightarrow>
        filter_lists_create
          \<lparr>fl_id = ident, fl_name = nl_name l, fl_kind = kind, fl_url = nl_url l,
           fl_interval_seconds = parse_interval_secs (nl_interval l),
           fl_enabled = (case nl_enabled l of None \<Rightarrow> True | Some b \<Rightarrow> b),
           fl_list_type = (case nl_list_type l of None \<Rightarrow> ''adguard'' | Some t \<Rightarrow> t)\<rparr> db)"

definition seed_filter_lists :: "dns_filter_config \<Rightarrow> database \<Rightarrow> db_result" where
  "seed_filter_lists config db =
     db_then (db_each (seed_list ''block'') (cfg_blocklists config) db)
       (db_each (seed_list ''allow'') (cfg_allowlists config))"

definition seed_filtering_config :: "dns_filter_config \<Rightarrow> database \<Rightarrow> db_result" where
  "seed_filtering_config config db =
     (let filtering = cfg_filtering config;
          get = (\<lambda>f d. case Option.bind filtering f of None \<Rightarrow> d | Some s \<Rightarrow> s)
      in filtering_update
           \<lparr>fr_sinkhole_ipv4 = get fc_sinkhole_ipv4 ''0.0.0.0'', fr_sinkhole_ipv6 = get fc_sinkhole_ipv6 ''::'',
            fr_any_query_policy = get fc_any_query_policy ''notimp''\<rparr> db)"

definition ttl_secs :: "string option \<Rightarrow> db_error + int option" where
  "ttl_secs v =
     (case v of
        None \<Rightarrow> Inr None
      | Some s \<Rightarrow> map_ok (\<lambda>d. Some (sint d)) (map_err (\<lambda>_. IntervalInvalid s) (parse_interval s)))"

definition seed_resolver_config :: "dns_filter_config \<Rightarrow> database \<Rightarrow> db_result" where
  "seed_resolver_config config db =
     (let cache = rs_cache (cfg_resolvers config) in
      case ttl_secs (Option.bind cache rcc_min_ttl) of
        Inl e \<Rightarrow> (Inl e, db)
      | Inr min_ttl \<Rightarrow>
          (case ttl_secs (Option.bind cache rcc_max_ttl) of
             Inl e \<Rightarrow> (Inl e, db)
           | Inr max_ttl \<Rightarrow>
               update_resolver_config
                 \<lparr>rr_strategy = rs_strategy (cfg_resolvers config),
                  rr_bootstrap_resolvers = rs_bootstrap_resolvers (cfg_resolvers config),
                  rr_dns_cache_enabled = (case cache of None \<Rightarrow> True | Some c \<Rightarrow> rcc_enabled c),
                  rr_dns_cache_min_ttl_seconds = min_ttl, rr_dns_cache_max_ttl_seconds = max_ttl\<rparr> db))"

definition auth_field ::
  "(zone_server_authentication_config \<Rightarrow> string option) \<Rightarrow> zone_server_authentication_config option \<Rightarrow> string option" where
  "auth_field f auth = Option.bind auth f"

definition server_record :: "string \<Rightarrow> nat \<Rightarrow> upstream_server \<Rightarrow> upstream_server_record" where
  "server_record ident i server =
     \<lparr>ur_id = ident, ur_enabled = us_enabled server, ur_protocol = us_protocol server, ur_address = us_address server,
      ur_auth_token = auth_field za_token (us_authentication server),
      ur_auth_username = auth_field za_username (us_authentication server),
      ur_auth_password = auth_field za_password (us_authentication server),
      ur_max_hops = map_option ucast (us_max_hops server), ur_nameserver_ip_family = us_nameserver_ip_family server,
      ur_root_hints_path = us_root_hints_path server, ur_root_key_path = us_root_key_path server,
      ur_dnssec = (case us_dnssec server of None \<Rightarrow> True | Some b \<Rightarrow> b), ur_sort_order = int i,
      ur_bind_address = us_bind_address server, ur_fwmark = us_fwmark server\<rparr>"

definition seed_server :: "nat \<times> upstream_server \<Rightarrow> database \<Rightarrow> db_result" where
  "seed_server = (\<lambda>(i, server) db. case new_uuid db of (ident, db) \<Rightarrow> create_server (server_record ident i server) db)"

definition seed_upstream_servers :: "dns_filter_config \<Rightarrow> database \<Rightarrow> db_result" where
  "seed_upstream_servers config db = db_each seed_server (enumerate 0 (rs_servers (cfg_resolvers config))) db"

definition zone_server_record_of :: "string \<Rightarrow> string \<Rightarrow> nat \<Rightarrow> zone_server_config \<Rightarrow> zone_server_record" where
  "zone_server_record_of ident zone_id i server =
     \<lparr>zv_id = ident, zv_zone_id = zone_id, zv_enabled = zs_enabled server, zv_protocol = zs_protocol server,
      zv_address = zs_address server, zv_auth_token = auth_field za_token (zs_authentication server),
      zv_auth_username = auth_field za_username (zs_authentication server),
      zv_auth_password = auth_field za_password (zs_authentication server),
      zv_check_interval = zs_check_interval server, zv_max_hops = map_option ucast (zs_max_hops server),
      zv_nameserver_ip_family = zs_nameserver_ip_family server, zv_root_hints_path = zs_root_hints_path server,
      zv_root_key_path = zs_root_key_path server,
      zv_dnssec = (case zs_dnssec server of None \<Rightarrow> True | Some b \<Rightarrow> b), zv_sort_order = int i\<rparr>"

definition seed_zone_server :: "string \<Rightarrow> nat \<times> zone_server_config \<Rightarrow> database \<Rightarrow> db_result" where
  "seed_zone_server zone_id = (\<lambda>(i, server) db.
     case new_uuid db of (ident, db) \<Rightarrow> create_zone_server (zone_server_record_of ident zone_id i server) db)"

definition zone_row :: "string \<Rightarrow> resolver_zone_config \<Rightarrow> zone_record_row" where
  "zone_row zone_id zone =
     \<lparr>zo_id = zone_id, zo_zone = rz_zone zone, zo_enabled = rz_enabled zone,
      zo_bypass_filter = rz_bypass_filter zone,
      zo_fallback_to_default_resolvers = rz_fallback_to_default_resolvers zone,
      zo_strategy = rz_strategy zone, zo_servers = []\<rparr>"

definition seed_zone :: "resolver_zone_config \<Rightarrow> database \<Rightarrow> db_result" where
  "seed_zone zone db =
     (case new_uuid db of (zone_id, db) \<Rightarrow>
        db_then (create_zone (zone_row zone_id zone) db)
          (db_each (seed_zone_server zone_id) (enumerate 0 (rz_servers zone))))"

definition seed_zones :: "dns_filter_config \<Rightarrow> database \<Rightarrow> db_result" where
  "seed_zones config db = db_each seed_zone (rs_zones (cfg_resolvers config)) db"

definition seed_discovery :: "zone_discovery_config \<Rightarrow> database \<Rightarrow> db_result" where
  "seed_discovery discovery db =
     (case new_uuid db of (ident, db) \<Rightarrow>
        discovery_create
          \<lparr>di_id = ident, di_enabled = zd_enabled discovery, di_address = zd_address discovery,
           di_check_interval = zd_check_interval discovery, di_allowed_types = zd_allowed_types discovery,
           di_bypass_filter = zd_bypass_filter discovery,
           di_fallback_to_default_resolvers = zd_fallback_to_default_resolvers discovery,
           di_auth_token = auth_field za_token (zd_authentication discovery),
           di_auth_username = auth_field za_username (zd_authentication discovery),
           di_auth_password = auth_field za_password (zd_authentication discovery)\<rparr> db)"

definition seed_zone_discovery :: "dns_filter_config \<Rightarrow> database \<Rightarrow> db_result" where
  "seed_zone_discovery config db = db_each seed_discovery (rs_zone_discovery (cfg_resolvers config)) db"

definition seed_if_empty :: "dns_filter_config \<Rightarrow> database \<Rightarrow> (db_error + bool) \<times> database" where
  "seed_if_empty config db =
     (if filter_lists_count db > 0 \<or> length (get_all_servers db) > 0 then (Inr False, db)
      else
        (case db_then (seed_filter_lists config db) (\<lambda>db.
              db_then (seed_filtering_config config db) (\<lambda>db.
              db_then (seed_resolver_config config db) (\<lambda>db.
              db_then (seed_upstream_servers config db) (\<lambda>db.
              db_then (seed_zones config db) (seed_zone_discovery config))))) of
           (Inl e, db) \<Rightarrow> (Inl e, db)
         | (Inr _, db) \<Rightarrow> (Inr True, db)))"

subsection \<open>Seeding keeps the tables consistent\<close>

lemma db_then_keeps:
  assumes "db_ok (snd r)" and "\<And>db. db_ok db \<Longrightarrow> db_ok (snd (f db))"
  shows "db_ok (snd (db_then r f))"
  using assms by (cases r; cases "fst r") (auto simp: db_then_def)

lemma db_each_ok:
  "(\<And>x db. db_ok db \<Longrightarrow> db_ok (snd (f x db))) \<Longrightarrow> db_ok db \<Longrightarrow> db_ok (snd (db_each f xs db))"
  by (rule db_each_keeps)

lemma new_uuid_keeps: "db_ok db \<Longrightarrow> db_ok (snd (new_uuid db))"
  by (simp add: new_uuid_def db_ok_def)

lemma seed_steps_keep:
  assumes "db_ok db"
  shows "db_ok (snd (seed_list kind l db))" "db_ok (snd (seed_server p db))" "db_ok (snd (seed_zone_server zid q db))"
    "db_ok (snd (seed_discovery d db))"
  using new_uuid_keeps [OF assms]
  by (cases p; cases q; auto simp: seed_list_def seed_server_def seed_zone_server_def seed_discovery_def split_beta
      intro: calls_keep)+

lemma seed_zone_keeps: "db_ok db \<Longrightarrow> db_ok (snd (seed_zone z db))"
  unfolding seed_zone_def split_beta
  by (intro db_then_keeps db_each_ok seed_steps_keep calls_keep new_uuid_keeps)

lemma seed_if_empty_keeps: "db_ok db \<Longrightarrow> db_ok (snd (seed_if_empty config db))"
proof -
  assume ok: "db_ok db"
  have "db_ok (snd (seed_resolver_config config db))" if "db_ok db" for db
    using that by (auto simp: seed_resolver_config_def Let_def split: sum.split intro: calls_keep)
  then have "db_ok (snd (db_then (seed_filter_lists config db) (\<lambda>db.
              db_then (seed_filtering_config config db) (\<lambda>db.
              db_then (seed_resolver_config config db) (\<lambda>db.
              db_then (seed_upstream_servers config db) (\<lambda>db.
              db_then (seed_zones config db) (seed_zone_discovery config)))))))"
    unfolding seed_filter_lists_def seed_filtering_config_def seed_upstream_servers_def seed_zones_def
      seed_zone_discovery_def Let_def
    using ok by (intro db_then_keeps db_each_ok seed_steps_keep seed_zone_keeps calls_keep)
  then show ?thesis using ok by (auto simp: seed_if_empty_def split: prod.splits sum.splits)
qed

subsection \<open>What seeding writes\<close>

text \<open>The steps of seeding that succeed, and the tables that each of them leaves alone.\<close>

lemma db_then_Inr [simp]: "db_then r f = (Inr u, db') \<longleftrightarrow> (\<exists>v db. r = (Inr v, db) \<and> f db = (Inr u, db'))"
  by (auto simp: db_then_def split: prod.splits sum.splits)

lemma db_each_frame:
  assumes "\<And>x db r db'. f x db = (r, db') \<Longrightarrow> field db' = field db"
  shows "db_each f xs db = (r, db') \<Longrightarrow> field db' = field db"
proof (induction xs arbitrary: db)
  case (Cons x xs)
  obtain r1 db1 where f: "f x db = (r1, db1)" by fastforce
  then show ?case using Cons assms [OF f] by (cases r1) auto
qed simp

text \<open>A step that appends one row for each element.\<close>

lemma db_each_append:
  assumes "\<And>x db db'. f x db = (Inr (), db') \<Longrightarrow> \<exists>r. field db' = field db @ [r] \<and> P x r"
  shows "db_each f xs db = (Inr (), db') \<Longrightarrow> \<exists>rs. field db' = field db @ rs \<and> list_all2 P xs rs"
proof (induction xs arbitrary: db)
  case (Cons x xs)
  then obtain db1 where f: "f x db = (Inr (), db1)" "db_each f xs db1 = (Inr (), db')"
    by (auto split: prod.splits sum.splits)
  obtain r where "field db1 = field db @ [r]" "P x r" using assms [OF f(1)] by blast
  moreover obtain rs where "field db' = field db1 @ rs" "list_all2 P xs rs" using Cons.IH [OF f(2)] by blast
  ultimately show ?case by (intro exI [of _ "r # rs"]) simp
qed simp

lemma seed_list_row:
  "seed_list kind l db = (Inr (), db') \<Longrightarrow>
    \<exists>r. db_filter_lists db' = db_filter_lists db @ [r] \<and>
      (fl_kind r = kind \<and> fl_name r = nl_name l \<and> fl_url r = nl_url l \<and>
       fl_interval_seconds r = parse_interval_secs (nl_interval l) \<and>
       fl_enabled r = (case nl_enabled l of None \<Rightarrow> True | Some b \<Rightarrow> b) \<and>
       fl_list_type r = (case nl_list_type l of None \<Rightarrow> ''adguard'' | Some t \<Rightarrow> t))"
  by (auto simp: seed_list_def new_uuid_def filter_lists_create_def split: if_splits)

lemma seed_list_frame:
  "seed_list kind l db = (r, db') \<Longrightarrow>
    db_servers db' = db_servers db \<and> db_zones db' = db_zones db \<and> db_zone_servers db' = db_zone_servers db \<and>
    db_filtering db' = db_filtering db"
  by (auto simp: seed_list_def new_uuid_def filter_lists_create_def split: if_splits)

lemma insert_bootstrap_row:
  "insert_bootstrap p db = (Inr (), db') \<Longrightarrow>
    \<exists>b. db_bootstrap db' = db_bootstrap db @ [b] \<and> (case b of (_, address, i) \<Rightarrow> address = snd p \<and> i = int (fst p))"
  by (cases p) (auto simp: insert_bootstrap_def new_uuid_def split: if_splits)

lemma insert_bootstrap_frame:
  "insert_bootstrap p db = (r, db') \<Longrightarrow>
    db_filter_lists db' = db_filter_lists db \<and> db_servers db' = db_servers db \<and> db_zones db' = db_zones db \<and>
    db_zone_servers db' = db_zone_servers db \<and> db_filtering db' = db_filtering db \<and> db_strategy db' = db_strategy db \<and>
    db_cache_enabled db' = db_cache_enabled db \<and> db_cache_min_ttl db' = db_cache_min_ttl db \<and>
    db_cache_max_ttl db' = db_cache_max_ttl db"
  by (cases p) (auto simp: insert_bootstrap_def new_uuid_def split: if_splits)

lemma seed_server_row:
  "seed_server p db = (Inr (), db') \<Longrightarrow>
    \<exists>r. db_servers db' = db_servers db @ [r] \<and> (\<exists>ident. r = server_record ident (fst p) (snd p))"
  by (cases p) (auto simp: seed_server_def new_uuid_def create_server_def split: if_splits)

lemma seed_server_frame:
  "seed_server p db = (r, db') \<Longrightarrow> db_filter_lists db' = db_filter_lists db \<and> db_zones db' = db_zones db \<and>
    db_zone_servers db' = db_zone_servers db \<and> db_filtering db' = db_filtering db \<and> db_strategy db' = db_strategy db \<and>
    db_cache_enabled db' = db_cache_enabled db \<and> db_cache_min_ttl db' = db_cache_min_ttl db \<and>
    db_cache_max_ttl db' = db_cache_max_ttl db \<and> db_bootstrap db' = db_bootstrap db"
  by (cases p) (auto simp: seed_server_def new_uuid_def create_server_def split: if_splits)

lemma seed_zone_server_row:
  "seed_zone_server z p db = (Inr (), db') \<Longrightarrow>
    \<exists>r. db_zone_servers db' = db_zone_servers db @ [r] \<and> (\<exists>ident. r = zone_server_record_of ident z (fst p) (snd p))"
  by (cases p) (auto simp: seed_zone_server_def new_uuid_def create_zone_server_def split: if_splits)

text \<open>The tables other than those of the zones.\<close>

definition outside_zones :: "database \<Rightarrow> _" where
  "outside_zones db = (db_filter_lists db, db_servers db, db_filtering db, db_strategy db, db_cache_enabled db,
     db_cache_min_ttl db, db_cache_max_ttl db, db_bootstrap db)"

lemma seed_zone_server_frame:
  "seed_zone_server z p db = (r, db') \<Longrightarrow> outside_zones db' = outside_zones db \<and> db_zones db' = db_zones db"
  by (cases p) (auto simp: seed_zone_server_def new_uuid_def create_zone_server_def outside_zones_def split: if_splits)

lemma seed_zone_ok:
  assumes "seed_zone z db = (Inr (), db')"
  obtains zid rs where "outside_zones db' = outside_zones db" and "db_zones db' = db_zones db @ [zone_row zid z]"
    and "zid \<notin> zo_id ` set (db_zones db)" and "db_zone_servers db' = db_zone_servers db @ rs"
    and "list_all2 (\<lambda>p r. \<exists>ident. r = zone_server_record_of ident zid (fst p) (snd p)) (enumerate 0 (rz_servers z)) rs"
proof -
  obtain zid db1 where u: "new_uuid db = (zid, db1)" by fastforce
  then have 1: "outside_zones db1 = outside_zones db" "db_zones db1 = db_zones db" "db_zone_servers db1 = db_zone_servers db"
    by (auto simp: new_uuid_def outside_zones_def)
  obtain db2 where c: "create_zone (zone_row zid z) db1 = (Inr (), db2)"
    and e: "db_each (seed_zone_server zid) (enumerate 0 (rz_servers z)) db2 = (Inr (), db')"
    using assms u by (auto simp: seed_zone_def)
  have 2: "outside_zones db2 = outside_zones db1" "db_zones db2 = db_zones db1 @ [zone_row zid z]"
      "db_zone_servers db2 = db_zone_servers db1" "zid \<notin> zo_id ` set (db_zones db1)"
    using c by (auto simp: create_zone_def outside_zones_def zone_row_def list_ex_iff split: if_splits)
  have 3: "outside_zones db' = outside_zones db2" "db_zones db' = db_zones db2"
    using db_each_frame [where field = "\<lambda>db. (outside_zones db, db_zones db)", OF _ e]
    by (auto dest: seed_zone_server_frame)
  from db_each_append [where field = db_zone_servers and f = "seed_zone_server zid" and
      P = "\<lambda>p r. \<exists>ident. r = zone_server_record_of ident zid (fst p) (snd p)", OF seed_zone_server_row e]
  obtain rs where "db_zone_servers db' = db_zone_servers db2 @ rs"
    "list_all2 (\<lambda>p r. \<exists>ident. r = zone_server_record_of ident zid (fst p) (snd p)) (enumerate 0 (rz_servers z)) rs"
    by blast
  with that 1 2 3 show ?thesis by simp
qed

lemma seed_discovery_frame:
  assumes "seed_discovery d db = (r, db')"
  shows "outside_zones db' = outside_zones db \<and> db_zones db' = db_zones db \<and> db_zone_servers db' = db_zone_servers db"
proof -
  define field where "field db = (outside_zones db, db_zones db, db_zone_servers db)" for db
  have "field db' = field db" if "insert_allowed_type i t db = (r, db')" for i t db r db'
    using that by (auto simp: insert_allowed_type_def new_uuid_def field_def outside_zones_def split: if_splits)
  then have each: "field db' = field db" if "db_each (insert_allowed_type i) ts db = (r, db')" for i ts db r db'
    using db_each_frame [where field = field and f = "insert_allowed_type i"] that by blast
  obtain ident db1 where u: "new_uuid db = (ident, db1)" by fastforce
  then have 1: "field db1 = field db" by (auto simp: new_uuid_def field_def outside_zones_def)
  define row where "row = \<lparr>di_id = ident, di_enabled = zd_enabled d, di_address = zd_address d,
     di_check_interval = zd_check_interval d, di_allowed_types = zd_allowed_types d, di_bypass_filter = zd_bypass_filter d,
     di_fallback_to_default_resolvers = zd_fallback_to_default_resolvers d,
     di_auth_token = auth_field za_token (zd_authentication d),
     di_auth_username = auth_field za_username (zd_authentication d),
     di_auth_password = auth_field za_password (zd_authentication d)\<rparr>"
  have create: "discovery_create row db1 = (r, db')" using assms u by (simp add: seed_discovery_def row_def)
  have "field db' = field db1"
  proof (cases "list_ex (\<lambda>x. di_id x = di_id row) (db_discovery db1)")
    case False
    let ?db = "db1\<lparr>db_discovery := db_discovery db1 @ [row\<lparr>di_allowed_types := []\<rparr>]\<rparr>"
    have "field db' = field ?db" by (rule each [of "di_id row" "di_allowed_types row" _ r])
      (use create False in \<open>simp add: discovery_create_def\<close>)
    then show ?thesis by (simp add: field_def outside_zones_def)
  qed (use create in \<open>simp add: discovery_create_def\<close>)
  then show ?thesis using 1 by (simp add: field_def)
qed

subsection \<open>Sorting and grouping\<close>

lemma map_insort_key: "map f (insort_key (\<lambda>x. k (f x)) a xs) = insort_key k (f a) (map f xs)"
  by (induction xs) auto

lemma map_sort_key: "map f (sort_key (\<lambda>x. k (f x)) xs) = sort_key k (map f xs)"
  by (induction xs) (auto simp: map_insort_key sort_key_def)

text \<open>Rows created for consecutive positions are already in the order in which they are read.\<close>

lemma positions_sorted:
  assumes "list_all2 (\<lambda>p r. position r = int (fst p)) (enumerate n xs) rs"
  shows "sort_key (\<lambda>r. (position r, key r)) rs = rs"
proof (rule sort_key_id_if_sorted)
  have "i < j \<Longrightarrow> j < length rs \<Longrightarrow> position (rs ! i) < position (rs ! j)" for i j
    using list_all2_nthD2 [OF assms, of i] list_all2_nthD2 [OF assms, of j] list_all2_lengthD [OF assms]
    by (simp add: nth_enumerate_eq)
  then show "sorted (map (\<lambda>r. (position r, key r)) rs)"
    by (auto simp: sorted_iff_nth_mono_less less_eq_prod_def less_imp_le)
qed

text \<open>
  What the database gives back of a server and of a zone: an authentication without any field is no
  authentication, and an unset DNSSEC switch is on.
\<close>

definition normal_auth ::
  "zone_server_authentication_config option \<Rightarrow> zone_server_authentication_config option" where
  "normal_auth auth = (case auth of
     Some a \<Rightarrow> if za_token a = None \<and> za_username a = None \<and> za_password a = None then None else Some a
   | None \<Rightarrow> None)"

lemma stored_auth: "build_auth (auth_field za_token auth) (auth_field za_username auth) (auth_field za_password auth) = normal_auth auth"
  by (cases auth) (auto simp: normal_auth_def build_auth_def auth_field_def)

definition normal_server :: "upstream_server \<Rightarrow> upstream_server" where
  "normal_server s = s\<lparr>us_authentication := normal_auth (us_authentication s),
     us_dnssec := Some (us_dnssec s \<noteq> Some False)\<rparr>"

definition normal_zone_server :: "zone_server_config \<Rightarrow> zone_server_config" where
  "normal_zone_server s = s\<lparr>zs_authentication := normal_auth (zs_authentication s),
     zs_dnssec := Some (zs_dnssec s \<noteq> Some False)\<rparr>"

definition normal_zone :: "resolver_zone_config \<Rightarrow> resolver_zone_config" where
  "normal_zone z = z\<lparr>rz_servers := map normal_zone_server (rz_servers z)\<rparr>"

lemma hops_roundtrip [simp]: "ucast (ucast (h :: u8) :: i32) = h"
  by transfer (simp add: take_bit_take_bit)

lemma server_of_server_record [simp]: "upstream_server_of_record (server_record ident i s) = normal_server s"
  by (cases s) (auto simp: upstream_server_of_record_def server_record_def normal_server_def stored_auth
      option.map_comp comp_def option.map_ident split: option.splits)

lemma zone_server_of_server_record [simp]:
  "zone_server_of_record (zone_server_record_of ident zid i s) = normal_zone_server s"
  by (cases s) (auto simp: zone_server_of_record_def zone_server_record_of_def normal_zone_server_def stored_auth
      option.map_comp comp_def option.map_ident split: option.splits)

text \<open>A zone as it is read back: its row with the servers that belong to it.\<close>

definition loaded_zone :: "database \<Rightarrow> zone_record_row \<Rightarrow> resolver_zone_config" where
  "loaded_zone db z = zone_of_record (z\<lparr>zo_servers :=
     sort_key (\<lambda>s. (zv_sort_order s, zv_id s)) (filter (\<lambda>s. zv_zone_id s = zo_id z) (db_zone_servers db))\<rparr>)"

lemma load_zones:
  assumes "distinct (map zo_id (db_zones db))"
  shows "map zone_of_record (get_all_with_servers db) = sort_key rz_zone (map (loaded_zone db) (db_zones db))"
proof -
  have "distinct (map zo_id (sort_key zo_zone (db_zones db)))"
    using assms by (simp add: distinct_map)
  then have "get_all_with_servers db = map (\<lambda>z. z\<lparr>zo_servers :=
      sort_key (\<lambda>s. (zv_sort_order s, zv_id s)) (filter (\<lambda>s. zv_zone_id s = zo_id z) (db_zone_servers db))\<rparr>)
      (sort_key zo_zone (db_zones db))"
    by (simp add: get_all_with_servers_def fold_push_to_zone comp_def filter_sort)
  moreover have "rz_zone (loaded_zone db z) = zo_zone z" for z by (simp add: loaded_zone_def zone_of_record_def)
  ultimately show ?thesis
    using map_sort_key [of "loaded_zone db" rz_zone "db_zones db"]
    by (simp add: comp_def loaded_zone_def [symmetric, abs_def])
qed

definition zones_loaded :: "resolver_zone_config list \<Rightarrow> database \<Rightarrow> bool" where
  "zones_loaded zs db \<longleftrightarrow> distinct (map zo_id (db_zones db)) \<and>
     zv_zone_id ` set (db_zone_servers db) \<subseteq> zo_id ` set (db_zones db) \<and>
     map (loaded_zone db) (db_zones db) = map normal_zone zs"

lemma seed_zone_loaded:
  assumes "seed_zone z db = (Inr (), db')" "zones_loaded zs db"
  shows "zones_loaded (zs @ [z]) db' \<and> outside_zones db' = outside_zones db"
proof -
  from seed_zone_ok [OF assms(1)] obtain zid rs where out: "outside_zones db' = outside_zones db"
    and zones: "db_zones db' = db_zones db @ [zone_row zid z]" and fresh: "zid \<notin> zo_id ` set (db_zones db)"
    and servers: "db_zone_servers db' = db_zone_servers db @ rs"
    and rows: "list_all2 (\<lambda>p r. \<exists>ident. r = zone_server_record_of ident zid (fst p) (snd p)) (enumerate 0 (rz_servers z)) rs"
    by blast
  have rs: "zv_zone_id s = zid" if "s \<in> set rs" for s
    using rows that by (auto simp: list_all2_conv_all_nth in_set_conv_nth zone_server_record_of_def)
  have old: "loaded_zone db' row = loaded_zone db row" if "row \<in> set (db_zones db)" for row
  proof -
    have "zo_id row \<noteq> zid" using that fresh by blast
    then have "filter (\<lambda>s. zv_zone_id s = zo_id row) rs = []" using rs by (auto simp: filter_empty_conv)
    then show ?thesis by (simp add: loaded_zone_def servers)
  qed
  have "zv_zone_id s \<noteq> zid" if "s \<in> set (db_zone_servers db)" for s
    using that assms(2) fresh by (auto simp: zones_loaded_def)
  then have mine: "filter (\<lambda>s. zv_zone_id s = zid) (db_zone_servers db') = rs"
    using rs by (simp add: servers filter_id_conv filter_empty_conv)
  have "sort_key (\<lambda>s. (zv_sort_order s, zv_id s)) rs = rs"
    by (rule positions_sorted [where xs = "rz_servers z" and n = 0])
      (use rows in \<open>auto elim!: list_all2_mono simp: zone_server_record_of_def\<close>)
  moreover have "map zone_server_of_record rs = map normal_zone_server (rz_servers z)"
    using rows by (auto simp: list_all2_conv_all_nth nth_enumerate_eq intro!: nth_equalityI)
  ultimately have new: "loaded_zone db' (zone_row zid z) = normal_zone z"
    using mine by (simp add: loaded_zone_def zone_row_def zone_of_record_def normal_zone_def)
  have "map (loaded_zone db') (db_zones db) = map (loaded_zone db) (db_zones db)" using old by simp
  with assms(2) new fresh out rs show ?thesis
    by (auto simp: zones_loaded_def zones servers zone_row_def)
qed

lemma seed_zones_loaded:
  "db_each seed_zone ys db = (Inr (), db') \<Longrightarrow> zones_loaded zs db \<Longrightarrow>
    zones_loaded (zs @ ys) db' \<and> outside_zones db' = outside_zones db"
proof (induction ys arbitrary: zs db)
  case (Cons y ys)
  then obtain db1 where f: "seed_zone y db = (Inr (), db1)" "db_each seed_zone ys db1 = (Inr (), db')"
    by (auto split: prod.splits sum.splits)
  with seed_zone_loaded [OF f(1) Cons.prems(2)] Cons.IH [OF f(2), of "zs @ [y]"] show ?case by simp
qed simp

subsection \<open>Seeding and loading again\<close>

text \<open>What the database gives back of a filter list: its defaults filled in and its interval in seconds.\<close>

definition normal_list :: "named_list \<Rightarrow> named_list" where
  "normal_list l = l\<lparr>nl_interval := Some (show_int (parse_interval_secs (nl_interval l)) @ ''s''),
     nl_enabled := Some (nl_enabled l \<noteq> Some False),
     nl_list_type := Some (case nl_list_type l of None \<Rightarrow> ''adguard'' | Some t \<Rightarrow> t)\<rparr>"

lemma seed_lists_rows:
  assumes "db_each (seed_list kind) ls db = (Inr (), db')"
  obtains rs where "db_filter_lists db' = db_filter_lists db @ rs" "\<forall>r\<in>set rs. fl_kind r = kind"
    "map named_list_of_record rs = map normal_list ls"
proof -
  let ?P = "\<lambda>l r. fl_kind r = kind \<and> named_list_of_record r = normal_list l"
  have "\<exists>r. db_filter_lists db' = db_filter_lists db @ [r] \<and> ?P l r" if "seed_list kind l db = (Inr (), db')" for l db db'
    using seed_list_row [OF that] by (cases l) (auto simp: named_list_of_record_def normal_list_def split: option.splits)
  from db_each_append [where f = "seed_list kind" and field = db_filter_lists and P = ?P, OF this assms]
  obtain rs where "db_filter_lists db' = db_filter_lists db @ rs" and rs: "list_all2 ?P ls rs" by blast
  moreover have "\<forall>r\<in>set rs. fl_kind r = kind"
    using rs by (auto simp: list_all2_conv_all_nth in_set_conv_nth)
  moreover have "map named_list_of_record rs = map normal_list ls"
    using rs by (auto simp: list_all2_conv_all_nth intro!: nth_equalityI)
  ultimately show ?thesis using that by blast
qed

lemma seed_filter_lists_loaded:
  assumes "seed_filter_lists config db = (Inr (), db')" "db_filter_lists db = []"
  shows "map named_list_of_record (filter (\<lambda>r. fl_kind r = ''block'') (filter_lists_get_all db')) =
      sort_key nl_name (map normal_list (cfg_blocklists config)) \<and>
    map named_list_of_record (filter (\<lambda>r. fl_kind r = ''allow'') (filter_lists_get_all db')) =
      sort_key nl_name (map normal_list (cfg_allowlists config))"
proof -
  obtain db1 where b: "db_each (seed_list ''block'') (cfg_blocklists config) db = (Inr (), db1)"
    and a: "db_each (seed_list ''allow'') (cfg_allowlists config) db1 = (Inr (), db')"
    using assms(1) by (auto simp: seed_filter_lists_def)
  obtain bs where bs: "db_filter_lists db1 = bs" "\<forall>r\<in>set bs. fl_kind r = ''block''"
      "map named_list_of_record bs = map normal_list (cfg_blocklists config)"
    using seed_lists_rows [OF b] assms(2) by auto
  obtain as where as: "db_filter_lists db' = bs @ as" "\<forall>r\<in>set as. fl_kind r = ''allow''"
      "map named_list_of_record as = map normal_list (cfg_allowlists config)"
    using seed_lists_rows [OF a] bs(1) by auto
  have names: "map named_list_of_record (sort_key fl_name rs) = sort_key nl_name (map named_list_of_record rs)" for rs
    using map_sort_key [of named_list_of_record nl_name rs] by (simp add: named_list_of_record_def)
  have "filter (\<lambda>r. fl_kind r = ''block'') (bs @ as) = bs" "filter (\<lambda>r. fl_kind r = ''allow'') (bs @ as) = as"
    using bs(2) as(2) by (auto simp: filter_id_conv filter_empty_conv)
  then show ?thesis using bs(3) as(1,3) by (simp add: filter_lists_get_all_def filter_sort names)
qed

lemma update_resolver_config_read:
  assumes "update_resolver_config r db = (Inr (), db')"
  shows "get_resolver_config db' = r \<and> db_filter_lists db' = db_filter_lists db \<and> db_servers db' = db_servers db \<and>
    db_zones db' = db_zones db \<and> db_zone_servers db' = db_zone_servers db \<and> db_filtering db' = db_filtering db"
proof -
  define db0 where "db0 = db\<lparr>db_strategy := rr_strategy r, db_cache_enabled := rr_dns_cache_enabled r,
      db_cache_min_ttl := rr_dns_cache_min_ttl_seconds r, db_cache_max_ttl := rr_dns_cache_max_ttl_seconds r,
      db_bootstrap := []\<rparr>"
  have e: "db_each insert_bootstrap (enumerate 0 (rr_bootstrap_resolvers r)) db0 = (Inr (), db')"
    using assms by (simp add: update_resolver_config_def db0_def Let_def)
  define field where "field db = (db_filter_lists db, db_servers db, db_zones db, db_zone_servers db, db_filtering db,
      db_strategy db, db_cache_enabled db, db_cache_min_ttl db, db_cache_max_ttl db)" for db :: database
  have "field db' = field db" if "insert_bootstrap p db = (r, db')" for p db r db'
    using insert_bootstrap_frame [OF that] by (simp add: field_def)
  then have frame: "field db' = field db0" by (rule db_each_frame [OF _ e])
  let ?P = "\<lambda>p b. case b of (_, address, i) \<Rightarrow> address = snd p \<and> i = int (fst p)"
  from db_each_append [where f = insert_bootstrap and field = db_bootstrap and P = ?P, OF insert_bootstrap_row e]
  obtain bs where bs: "db_bootstrap db' = bs" and rows: "list_all2 ?P (enumerate 0 (rr_bootstrap_resolvers r)) bs"
    by (auto simp: db0_def)
  have "sort_key (\<lambda>(ident, _, sort_order). (sort_order, ident)) bs = sort_key (\<lambda>b. (snd (snd b), fst b)) bs"
    by (simp add: case_prod_unfold)
  also have "\<dots> = bs"
    by (rule positions_sorted [where n = 0 and xs = "rr_bootstrap_resolvers r"])
      (use rows in \<open>auto elim!: list_all2_mono\<close>)
  finally have "sort_key (\<lambda>(ident, _, sort_order). (sort_order, ident)) bs = bs" .
  moreover have "map (\<lambda>(_, address, _). address) bs = rr_bootstrap_resolvers r"
    using rows by (auto simp: list_all2_conv_all_nth nth_enumerate_eq split_beta intro!: nth_equalityI)
  ultimately show ?thesis using frame bs by (simp add: get_resolver_config_def field_def db0_def)
qed

lemma seed_servers_loaded:
  assumes "seed_upstream_servers config db = (Inr (), db')" "db_servers db = []"
  shows "map upstream_server_of_record (get_all_servers db') = map normal_server (rs_servers (cfg_resolvers config))"
proof -
  let ?xs = "rs_servers (cfg_resolvers config)"
  let ?P = "\<lambda>p r. \<exists>ident. r = server_record ident (fst p) (snd p)"
  from db_each_append [where f = seed_server and field = db_servers and P = ?P, OF seed_server_row
      assms(1) [unfolded seed_upstream_servers_def]]
  obtain rs where rs: "db_servers db' = rs" and rows: "list_all2 ?P (enumerate 0 ?xs) rs" using assms(2) by auto
  have "sort_key (\<lambda>r. (ur_sort_order r, ur_id r)) rs = rs"
    by (rule positions_sorted [where n = 0 and xs = ?xs])
      (use rows in \<open>auto elim!: list_all2_mono simp: server_record_def\<close>)
  moreover have "map upstream_server_of_record rs = map normal_server ?xs"
    using rows by (auto simp: list_all2_conv_all_nth nth_enumerate_eq intro!: nth_equalityI)
  ultimately show ?thesis using rs by (simp add: get_all_servers_def)
qed

text \<open>The tables that the steps after the filter lists leave alone, and those that the last steps leave alone.\<close>

lemma seed_filter_lists_frame:
  assumes "seed_filter_lists config db = (Inr (), db')"
  shows "db_servers db' = db_servers db \<and> db_zones db' = db_zones db \<and> db_zone_servers db' = db_zone_servers db"
proof -
  define field where "field db = (db_servers db, db_zones db, db_zone_servers db)" for db :: database
  have "field db' = field db" if "db_each (seed_list kind) ls db = (r, db')" for kind ls db r db'
    by (rule db_each_frame [OF _ that]) (auto simp: field_def dest: seed_list_frame)
  then have "field db' = field db" using assms by (fastforce simp: seed_filter_lists_def)
  then show ?thesis by (simp add: field_def)
qed

lemma seed_servers_frame:
  assumes "seed_upstream_servers config db = (Inr (), db')"
  shows "db_filter_lists db' = db_filter_lists db \<and> get_resolver_config db' = get_resolver_config db \<and>
    db_filtering db' = db_filtering db \<and> db_zones db' = db_zones db \<and> db_zone_servers db' = db_zone_servers db"
proof -
  define field where "field db = (db_filter_lists db, get_resolver_config db, db_filtering db, db_zones db,
    db_zone_servers db)" for db :: database
  have "field db' = field db"
    by (rule db_each_frame [OF _ assms [unfolded seed_upstream_servers_def]])
      (auto simp: field_def get_resolver_config_def dest: seed_server_frame)
  then show ?thesis by (simp add: field_def)
qed

lemma seed_zone_discovery_frame:
  assumes "seed_zone_discovery config db = (Inr (), db')"
  shows "outside_zones db' = outside_zones db \<and> db_zones db' = db_zones db \<and> db_zone_servers db' = db_zone_servers db"
proof -
  define field where "field db = (outside_zones db, db_zones db, db_zone_servers db)" for db :: database
  have "field db' = field db"
    by (rule db_each_frame [OF _ assms [unfolded seed_zone_discovery_def]])
      (auto simp: field_def dest: seed_discovery_frame)
  then show ?thesis by (simp add: field_def)
qed

lemma zones_loaded_cong:
  "db_zones db' = db_zones db \<Longrightarrow> db_zone_servers db' = db_zone_servers db \<Longrightarrow> zones_loaded zs db' = zones_loaded zs db"
  by (simp add: zones_loaded_def loaded_zone_def [abs_def])

text \<open>The state that a successful import of an empty database leaves.\<close>

lemma seeded_database:
  assumes seed: "seed_if_empty config db0 = (Inr True, db)"
    and empty: "db_filter_lists db0 = []" "db_servers db0 = []" "db_zones db0 = []" "db_zone_servers db0 = []"
  obtains db1 db4 where "seed_filter_lists config db0 = (Inr (), db1)" "db_filter_lists db = db_filter_lists db1"
    "map upstream_server_of_record (get_all_servers db) = map normal_server (rs_servers (cfg_resolvers config))"
    "rr_strategy (get_resolver_config db) = rs_strategy (cfg_resolvers config)"
    "rr_bootstrap_resolvers (get_resolver_config db) = rs_bootstrap_resolvers (cfg_resolvers config)"
    "zones_loaded (rs_zones (cfg_resolvers config)) db"
proof -
  obtain db1 db2 db3 db4 db5 where s1: "seed_filter_lists config db0 = (Inr (), db1)"
    and s2: "seed_filtering_config config db1 = (Inr (), db2)" and s3: "seed_resolver_config config db2 = (Inr (), db3)"
    and s4: "seed_upstream_servers config db3 = (Inr (), db4)" and s5: "seed_zones config db4 = (Inr (), db5)"
    and s6: "seed_zone_discovery config db5 = (Inr (), db)"
    using seed empty by (auto simp: seed_if_empty_def filter_lists_count_def get_all_servers_def
        split: if_splits prod.splits sum.splits)
  have db2: "db_filter_lists db2 = db_filter_lists db1" "db_servers db2 = db_servers db1" "db_zones db2 = db_zones db1"
      "db_zone_servers db2 = db_zone_servers db1"
    using s2 by (auto simp: seed_filtering_config_def filtering_update_def Let_def)
  obtain r where "update_resolver_config r db2 = (Inr (), db3)" and r: "rr_strategy r = rs_strategy (cfg_resolvers config)"
      "rr_bootstrap_resolvers r = rs_bootstrap_resolvers (cfg_resolvers config)"
    using s3 by (auto simp: seed_resolver_config_def Let_def split: sum.splits)
  note db3 = update_resolver_config_read [OF this(1)]
  note db1 = seed_filter_lists_frame [OF s1] and db4 = seed_servers_frame [OF s4]
  have "zones_loaded [] db4" using db1 db2 db3 db4 empty by (simp add: zones_loaded_def)
  from seed_zones_loaded [OF s5 [unfolded seed_zones_def] this]
  have db5: "zones_loaded (rs_zones (cfg_resolvers config)) db5" "outside_zones db5 = outside_zones db4" by simp_all
  note db = seed_zone_discovery_frame [OF s6]
  have out: "outside_zones db = outside_zones db4" using db db5 by simp
  then have "get_resolver_config db = r" "get_all_servers db = get_all_servers db4"
    using db3 db4 by (auto simp: outside_zones_def get_resolver_config_def get_all_servers_def)
  moreover have "db_filter_lists db = db_filter_lists db1" using out db2 db3 db4 by (simp add: outside_zones_def)
  moreover have "zones_loaded (rs_zones (cfg_resolvers config)) db" using db db5(1) zones_loaded_cong by blast
  moreover have "db_servers db3 = []" using db1 db2 db3 empty by simp
  ultimately show ?thesis using that s1 r seed_servers_loaded [OF s4] by metis
qed

text \<open>
  An interval that the import and the filter read alike: none at all, or a number of hours, minutes or seconds that
  fits into 63 bits as seconds.
\<close>

definition common_interval :: "named_list \<Rightarrow> bool" where
  "common_interval l \<longleftrightarrow> (case nl_interval l of
     None \<Rightarrow> True
   | Some v \<Rightarrow> (\<exists>n u. v = show_nat n @ [u] \<and> u \<in> set ''hms'' \<and> 0 \<le> n \<and> n * unit_secs u < 2 ^ 63))"

lemma parse_i64_show:
  assumes "0 \<le> n" and "n < 2 ^ 63"
  shows "parse_i64 (show_nat n) = Some n"
proof -
  obtain c r where c: "show_nat n = c # r" "is_ascii_digit c" using show_nat_hd [OF assms(1)] by blast
  then show ?thesis using assms parse_unsigned_show_nat [OF assms(1), of "2 ^ 63 - 1"]
    by (auto simp: parse_i64_def parse_signed_def is_ascii_digit_neq)
qed

lemma seed_reads_interval:
  assumes "u \<in> set ''hms''" and "0 \<le> n" and "n * unit_secs u < 2 ^ 63"
  shows "parse_interval_secs (Some (show_nat n @ [u])) = n * unit_secs u"
proof -
  have n: "n < 2 ^ 63" using assms by (auto simp: unit_secs_def split: if_splits)
  have "trim (show_nat n @ [u]) = show_nat n @ [u]" using interval_text_trim assms(1,2) by auto
  moreover have "suffixed_secs (show_nat n @ [u]) v k = (if u = v then Some (wrap_i64 (n * k)) else None)" for v k
    using parse_i64_show [OF assms(2) n] by (auto simp: suffixed_secs_def strip_suffix_def suffix_def)
  moreover have "wrap_i64 (n * unit_secs u) = n * unit_secs u"
    using assms(2,3) by (auto simp: wrap_i64_def unit_secs_def mod_pos_pos_trivial)
  ultimately show ?thesis using assms(1) by (auto simp: parse_interval_secs_def unit_secs_def)
qed

text \<open>The filter treats a list that went through the database as it treats the one of the file.\<close>

lemma normal_list_runtime:
  assumes "common_interval l"
  shows "build_runtime kind (normal_list l) = build_runtime kind l"
proof -
  have "\<exists>secs. 0 \<le> secs \<and> secs < 2 ^ 63 \<and> parse_interval_secs (nl_interval l) = secs \<and>
      (case nl_interval l of Some v \<Rightarrow> map_err (BadInterval (nl_name l)) (parse_interval v) | None \<Rightarrow> Inr default_list_interval_secs) =
        Inr (word_of_int secs)"
  proof (cases "nl_interval l")
    case None
    then show ?thesis by (simp add: parse_interval_secs_def default_interval_secs_def default_list_interval_secs_def)
  next
    case (Some v)
    then obtain n u where t: "v = show_nat n @ [u]" "u \<in> set ''hms''" "0 \<le> n" "n * unit_secs u < 2 ^ 63"
      using assms by (auto simp: common_interval_def)
    have "n < 2 ^ 64" "0 \<le> n * unit_secs u" using t(2-4) by (auto simp: unit_secs_def split: if_splits)
    moreover have "u \<in> set ''smhd''" using t(2) by auto
    ultimately show ?thesis using Some t seed_reads_interval [OF t(2-4)] parse_interval_eval [of n u] by simp
  qed
  then obtain secs where s: "0 \<le> secs" "secs < 2 ^ 63" "parse_interval_secs (nl_interval l) = secs"
    "(case nl_interval l of Some v \<Rightarrow> map_err (BadInterval (nl_name l)) (parse_interval v) | None \<Rightarrow> Inr default_list_interval_secs) =
        Inr (word_of_int secs)" by blast
  have "parse_interval (show_int secs @ ''s'') = Inr (word_of_int secs)"
    using parse_interval_eval [of secs "CHR ''s''"] s(1,2) by (simp add: show_int_def unit_secs_def)
  moreover have "list_format_from_option (Some (case nl_list_type l of None \<Rightarrow> ''adguard'' | Some t \<Rightarrow> t)) =
      list_format_from_option (nl_list_type l)"
    by (simp add: list_format_from_option_def split: option.split)
  ultimately show ?thesis using s(3,4) by (simp add: build_runtime_def normal_list_def)
qed

lemma normal_lists_runtimes:
  assumes "\<forall>l\<in>set ls. common_interval l"
  shows "build_runtimes (sort_key nl_name (map normal_list ls)) kind = build_runtimes (sort_key nl_name ls) kind"
proof -
  let ?on = "\<lambda>l. case nl_enabled l of None \<Rightarrow> True | Some b \<Rightarrow> b"
  have sorted: "sort_key nl_name (map normal_list ls) = map normal_list (sort_key nl_name ls)"
    using map_sort_key [of normal_list nl_name ls] by (simp add: normal_list_def)
  have on: "?on (normal_list l) = ?on l" for l
    by (cases "nl_enabled l") (auto simp: normal_list_def)
  have "res_map_list (build_runtime kind) (map normal_list (filter ?on xs)) = res_map_list (build_runtime kind) (filter ?on xs)"
    if "set xs \<subseteq> set ls" for xs
    using that assms by (induction xs) (auto simp: normal_list_runtime)
  then show ?thesis unfolding build_runtimes_def sorted filter_map comp_def on by simp
qed

text \<open>
  C8. Importing the configuration file into an empty database and loading it back gives the configuration: the same
  strategy and bootstrap resolvers, the upstream servers in their order, the zones ordered by zone with their servers in
  order (an unset DNSSEC switch is on, an authentication with no field is none), and the lists ordered by name with
  their addresses and switches. The filter builds from the loaded lists exactly what it builds from those of the
  file, refresh intervals included, provided that every interval is given in hours, minutes or seconds; an interval in
  days is lost (\<open>seed_interval_in_days\<close>). Settings of the infrastructure are those of the file, and a second
  start imports nothing.
\<close>

theorem seed_roundtrip:
  assumes "seed_if_empty config (initial_database uuid) = (Inr True, db)" and "apply_db_config fails config db = Inr loaded"
  shows "rs_servers (cfg_resolvers loaded) = map normal_server (rs_servers (cfg_resolvers config)) \<and>
    rs_zones (cfg_resolvers loaded) = sort_key rz_zone (map normal_zone (rs_zones (cfg_resolvers config))) \<and>
    rs_strategy (cfg_resolvers loaded) = rs_strategy (cfg_resolvers config) \<and>
    rs_bootstrap_resolvers (cfg_resolvers loaded) = rs_bootstrap_resolvers (cfg_resolvers config) \<and>
    (\<forall>(lists, kind) \<in> {(cfg_blocklists, KindBlock), (cfg_allowlists, KindAllow)}.
      map (\<lambda>l. (nl_name l, nl_url l, nl_enabled l \<noteq> Some False)) (lists loaded) =
        map (\<lambda>l. (nl_name l, nl_url l, nl_enabled l \<noteq> Some False)) (sort_key nl_name (lists config)) \<and>
      ((\<forall>l\<in>set (lists config). common_interval l) \<longrightarrow>
        build_runtimes (lists loaded) kind = build_runtimes (sort_key nl_name (lists config)) kind)) \<and>
    cfg_listen loaded = cfg_listen config \<and> cfg_security loaded = cfg_security config \<and>
    (rs_servers (cfg_resolvers config) = [] \<or> seed_if_empty other db = (Inr False, db))"
proof -
  have empty: "db_filter_lists (initial_database uuid) = []" "db_servers (initial_database uuid) = []"
    "db_zones (initial_database uuid) = []" "db_zone_servers (initial_database uuid) = []"
    by (simp_all add: initial_database_def)
  from seeded_database [OF assms(1) empty] obtain db1 where
    s1: "seed_filter_lists config (initial_database uuid) = (Inr (), db1)" "db_filter_lists db = db_filter_lists db1" and
    servers: "map upstream_server_of_record (get_all_servers db) = map normal_server (rs_servers (cfg_resolvers config))" and
    resolver: "rr_strategy (get_resolver_config db) = rs_strategy (cfg_resolvers config)"
      "rr_bootstrap_resolvers (get_resolver_config db) = rs_bootstrap_resolvers (cfg_resolvers config)" and
    zones: "zones_loaded (rs_zones (cfg_resolvers config)) db" by metis
  have "filter_lists_get_all db = filter_lists_get_all db1" using s1(2) by (simp add: filter_lists_get_all_def)
  then have lists: "cfg_blocklists loaded = sort_key nl_name (map normal_list (cfg_blocklists config))"
      "cfg_allowlists loaded = sort_key nl_name (map normal_list (cfg_allowlists config))"
    using seed_filter_lists_loaded [OF s1(1) empty(1)] apply_db_config_Inr [OF assms(2)] by (simp_all add: loaded_config_def Let_def)
  have ids: "map (\<lambda>l. (nl_name l, nl_url l, nl_enabled l \<noteq> Some False)) (sort_key nl_name (map normal_list ls)) =
      map (\<lambda>l. (nl_name l, nl_url l, nl_enabled l \<noteq> Some False)) (sort_key nl_name ls)" for ls
  proof -
    have "sort_key nl_name (map normal_list ls) = map normal_list (sort_key nl_name ls)"
      using map_sort_key [of normal_list nl_name ls] by (simp add: normal_list_def)
    then show ?thesis by (simp add: normal_list_def comp_def)
  qed
  have zones: "map zone_of_record (get_all_with_servers db) =
      sort_key rz_zone (map normal_zone (rs_zones (cfg_resolvers config)))"
    using zones load_zones [of db] by (simp add: zones_loaded_def)
  have "rs_servers (cfg_resolvers config) = [] \<or> length (get_all_servers db) > 0"
    using servers by (metis length_greater_0_conv map_is_Nil_conv)
  then have again: "rs_servers (cfg_resolvers config) = [] \<or> seed_if_empty other db = (Inr False, db)"
    by (auto simp: seed_if_empty_def)
  have "cfg_resolvers loaded = cfg_resolvers (loaded_config config db)" "cfg_listen loaded = cfg_listen config"
    "cfg_security loaded = cfg_security config"
    using apply_db_config_Inr [OF assms(2)] by (simp_all add: loaded_config_def Let_def)
  then show ?thesis using lists ids normal_lists_runtimes servers resolver zones again by (simp add: loaded_config_def Let_def)
qed

text \<open>A configuration with two lists, two servers and two zones given out of order.\<close>

definition example_zone_server :: "string \<Rightarrow> zone_server_config" where
  "example_zone_server address = \<lparr>zs_enabled = True, zs_protocol = ''dns'', zs_address = address, zs_authentication = None,
     zs_check_interval = None, zs_max_hops = None, zs_nameserver_ip_family = None, zs_root_hints_path = None,
     zs_root_key_path = None, zs_dnssec = None\<rparr>"

definition example_zone :: "string \<Rightarrow> resolver_zone_config" where
  "example_zone z = \<lparr>rz_zone = z, rz_enabled = True, rz_bypass_filter = False, rz_fallback_to_default_resolvers = False,
     rz_strategy = None, rz_servers = [example_zone_server ''b'', example_zone_server ''a'']\<rparr>"

definition example_list :: "string \<Rightarrow> named_list" where
  "example_list name = \<lparr>nl_name = name, nl_url = ''u'', nl_interval = Some ''2h'', nl_enabled = None, nl_list_type = None\<rparr>"

definition example_seed :: dns_filter_config where
  "example_seed = empty_config\<lparr>cfg_blocklists := [example_list ''b'', example_list ''a''],
     cfg_resolvers := (cfg_resolvers empty_config)\<lparr>
       rs_zones := [example_zone ''y'', example_zone ''x'']\<rparr>\<rparr>"

text \<open>Identifiers that are all different.\<close>

definition example_uuid :: "nat \<Rightarrow> string" where
  "example_uuid n = replicate n (CHR ''i'')"

theorem seed_roundtrip_witness:
  "fst (seed_if_empty example_seed (initial_database example_uuid)) = Inr True \<and>
   (\<exists>loaded. apply_db_config (\<lambda>_. None) example_seed (snd (seed_if_empty example_seed (initial_database example_uuid))) = Inr loaded \<and>
      rs_zones (cfg_resolvers loaded) = map normal_zone [example_zone ''x'', example_zone ''y''] \<and>
      build_runtimes (cfg_blocklists loaded) KindBlock = build_runtimes [example_list ''a'', example_list ''b''] KindBlock)"
proof -
  let ?r = "seed_if_empty example_seed (initial_database example_uuid)"
  have ok: "fst ?r = Inr True" by code_simp
  then have r: "?r = (Inr True, snd ?r)" by (metis prod.collapse)
  obtain loaded where l: "apply_db_config (\<lambda>_. None) example_seed (snd ?r) = Inr loaded"
    by (simp add: apply_db_config_def List.map_filter_def)
  note rt = seed_roundtrip [OF r l]
  have zones: "rs_zones (cfg_resolvers loaded) = sort_key rz_zone (map normal_zone (rs_zones (cfg_resolvers example_seed)))"
    using rt by blast
  have "\<exists>n u. ''2h'' = show_nat n @ [u] \<and> u \<in> set ''hms'' \<and> 0 \<le> n \<and> n * unit_secs u < 2 ^ 63"
  proof (intro exI [of _ 2] exI [of _ "CHR ''h''"] conjI)
    show "''2h'' = show_nat 2 @ ''h''" by code_simp
  qed (simp_all add: unit_secs_def)
  then have "\<forall>l\<in>set (cfg_blocklists example_seed). common_interval l"
    by (auto simp: example_seed_def example_list_def common_interval_def)
  then have lists: "build_runtimes (cfg_blocklists loaded) KindBlock = build_runtimes (sort_key nl_name (cfg_blocklists example_seed)) KindBlock"
    using rt by blast
  have "sort_key rz_zone (map normal_zone (rs_zones (cfg_resolvers example_seed))) = map normal_zone [example_zone ''x'', example_zone ''y'']"
    "sort_key nl_name (cfg_blocklists example_seed) = [example_list ''a'', example_list ''b'']" by code_simp+
  with zones lists l ok show ?thesis by metis
qed

text \<open>
  What the import loses: the size limit of the DNS cache; an interval in days, which the filter itself accepts; and
  after an error in the middle, what remains of the file, since the next start finds lists in the database.
\<close>

theorem seed_loses_cache_limit: "rs_cache (cfg_resolvers (loaded_config config db)) \<noteq> None \<and>
    Option.bind (rs_cache (cfg_resolvers (loaded_config config db))) rcc_max_entries = None"
  by (simp add: loaded_config_def Let_def)

theorem seed_interval_in_days:
  "parse_interval_secs (Some ''1d'') = 43200 \<and> parse_interval ''1d'' = Inr 86400"
  by code_simp

definition same_name_config :: dns_filter_config where
  "same_name_config = empty_config\<lparr>cfg_blocklists := [example_list ''a''], cfg_allowlists := [example_list ''a''],
     cfg_resolvers := (cfg_resolvers empty_config)\<lparr>rs_zones := [example_zone ''x'']\<rparr>\<rparr>"

theorem failed_seed_not_repeated:
  "case seed_if_empty same_name_config (initial_database example_uuid) of
     (r, db) \<Rightarrow> r = Inl (UniqueViolation ''filter_lists.name'') \<and> seed_if_empty same_name_config db = (Inr False, db) \<and>
       rs_zones (cfg_resolvers (loaded_config same_name_config db)) = []"
proof -
  let ?r = "seed_if_empty same_name_config (initial_database example_uuid)"
  have 1: "fst ?r = Inl (UniqueViolation ''filter_lists.name'')" by code_simp
  have 2: "filter_lists_count (snd ?r) > 0" by code_simp
  have 3: "rs_zones (cfg_resolvers (loaded_config same_name_config (snd ?r))) = []" by code_simp
  have "seed_if_empty same_name_config (snd ?r) = (Inr False, snd ?r)"
    using 2 by (simp add: seed_if_empty_def)
  with 1 3 show ?thesis by (simp add: case_prod_unfold)
qed

end
