(* ===== verification/ZoneRegistry.thy ===== *)
theory ZoneRegistry
  imports ZoneForwarding
begin

text \<open>
  The registry of searchable zones (\<open>src/use_cases/zone_registry.rs\<close>): listing all zones and searching
  their records, best matches first.
\<close>

record zone_metadata =
  zm_bypass_filter :: bool
  zm_fallback_to_default_resolvers :: bool

record zone_info =
  zi_name :: string
  zi_record_count :: nat
  zi_bypass_filter :: bool
  zi_fallback_to_default_resolvers :: bool

type_synonym zone_registry = "(zone_snapshot \<times> zone_metadata) list"

definition zone_count :: "zone_registry \<Rightarrow> nat" where
  "zone_count zones = length zones"

definition list_zones :: "zone_registry \<Rightarrow> zone_info list" where
  "list_zones zones =
     map (\<lambda>(searchable, meta).
       \<lparr>zi_name = zs_zone searchable, zi_record_count = record_count searchable,
        zi_bypass_filter = zm_bypass_filter meta,
        zi_fallback_to_default_resolvers = zm_fallback_to_default_resolvers meta\<rparr>) zones"

definition registry_search ::
  "(rdata \<Rightarrow> string) \<Rightarrow> (string \<Rightarrow> string \<Rightarrow> int option) \<Rightarrow> zone_registry
   \<Rightarrow> string \<Rightarrow> string option \<Rightarrow> string option \<Rightarrow> nat \<Rightarrow> (zone_record \<times> int) list \<times> nat" where
  "registry_search display fuzzy_match zones query zone_filter record_type limit =
     (let limit = min limit 500;
          selected = filter (\<lambda>(searchable, _).
            (case zone_filter of None \<Rightarrow> True | Some zf \<Rightarrow> zs_zone searchable = zf)) zones;
          all_results = concat (map (\<lambda>(searchable, _).
            search_records display fuzzy_match searchable query record_type limit) selected);
          sorted_results = sort_key (\<lambda>b. - snd b) all_results
      in (take limit sorted_results, length sorted_results))"

subsection \<open>Lemmas\<close>

lemma set_search_records:
  "p \<in> set (search_records display fm s query rt limit) \<Longrightarrow>
   \<exists>name rs r. (name, rs) \<in> set (zs_records_by_name s) \<and> r \<in> set rs
     \<and> type_matches (Option.bind rt parse_record_type_filter) r \<and> fm name query = Some (snd p)
     \<and> fst p = record_to_zone_record display r name (zs_zone s)"
  by (auto simp: search_records_def Let_def List.map_filter_def dest!: in_set_takeD split: option.splits)
    blast

lemma sorted_desc:
  "sorted (map (\<lambda>b. - snd b) xs) \<longleftrightarrow> sorted_wrt (\<lambda>a b. snd b \<le> snd a) (xs :: ('a \<times> int) list)"
  by (simp add: sorted_map)

subsection \<open>Properties\<close>

text \<open>
  A registry search returns at most 500 results and at most as many as asked for, best score
  first; every result is a record of a selected zone, of the type asked for, whose name matches the
  query with that score; and no result that was found but cut off scores higher than one returned.
\<close>

theorem registry_search_sound:
  assumes "registry_search display fm zones query zf rt limit = (results, found)"
  shows "length results \<le> limit \<and> length results \<le> 500 \<and> length results \<le> found
    \<and> sorted_wrt (\<lambda>a b. snd b \<le> snd a) results
    \<and> (\<forall>p\<in>set results. \<exists>s meta name rs r. (s, meta) \<in> set zones
         \<and> (\<forall>z. zf = Some z \<longrightarrow> zs_zone s = z)
         \<and> (name, rs) \<in> set (zs_records_by_name s) \<and> r \<in> set rs
         \<and> type_matches (Option.bind rt parse_record_type_filter) r
         \<and> fm name query = Some (snd p) \<and> fst p = record_to_zone_record display r name (zs_zone s))
    \<and> (\<exists>rest. length (results @ rest) = found
         \<and> (\<forall>p\<in>set results. \<forall>p'\<in>set rest. snd p' \<le> snd p))"
proof -
  let ?limit = "min limit 500"
  define all_results where "all_results = concat (map (\<lambda>(s, _).
      search_records display fm s query rt ?limit)
      (filter (\<lambda>(s, _). case zf of None \<Rightarrow> True | Some z \<Rightarrow> zs_zone s = z) zones))"
  define ordered where "ordered = sort_key (\<lambda>b. - snd b) all_results"
  have res: "results = take ?limit ordered" "found = length ordered"
    using assms by (auto simp: registry_search_def all_results_def ordered_def Let_def)
  have desc: "sorted_wrt (\<lambda>a b. snd b \<le> snd a) ordered"
    by (simp add: ordered_def flip: sorted_desc)
  have member: "\<exists>s meta name rs r. (s, meta) \<in> set zones \<and> (\<forall>z. zf = Some z \<longrightarrow> zs_zone s = z)
         \<and> (name, rs) \<in> set (zs_records_by_name s) \<and> r \<in> set rs
         \<and> type_matches (Option.bind rt parse_record_type_filter) r
         \<and> fm name query = Some (snd p) \<and> fst p = record_to_zone_record display r name (zs_zone s)"
    if "p \<in> set results" for p
  proof -
    have "p \<in> set all_results" using that res by (auto simp: ordered_def dest: in_set_takeD)
    then obtain s meta where s: "(s, meta) \<in> set zones" "\<forall>z. zf = Some z \<longrightarrow> zs_zone s = z"
      and "p \<in> set (search_records display fm s query rt ?limit)"
      by (auto simp: all_results_def split: option.splits)
    with set_search_records [OF this(3)] show ?thesis by blast
  qed
  have split: "sorted_wrt (\<lambda>a b. snd b \<le> snd a) (results @ drop ?limit ordered)"
    using desc res by simp
  then have "\<forall>p\<in>set results. \<forall>p'\<in>set (drop ?limit ordered). snd p' \<le> snd p"
    and "sorted_wrt (\<lambda>a b. snd b \<le> snd a) results"
    by (auto simp: sorted_wrt_append)
  moreover have "length (results @ drop ?limit ordered) = found" using res by simp
  moreover have "length results \<le> limit" "length results \<le> 500" "length results \<le> found"
    using res by auto
  ultimately show ?thesis using member by blast
qed

theorem registry_search_sound_witness:
  "\<exists>results found. registry_search (\<lambda>_. []) (\<lambda>n q. if n = q then Some 9 else None)
      [(lan_snapshot, \<lparr>zm_bypass_filter = True, zm_fallback_to_default_resolvers = False\<rparr>)]
      ''nas.lan'' None None 10 = (results, found) \<and> length results \<le> 10 \<and> length results = 1"
proof -
  let ?s = "registry_search (\<lambda>_. []) (\<lambda>n q. if n = q then Some 9 else None)
      [(lan_snapshot, \<lparr>zm_bypass_filter = True, zm_fallback_to_default_resolvers = False\<rparr>)]
      ''nas.lan'' None None 10"
  have one: "length (fst ?s) = 1" by code_simp
  from registry_search_sound [of _ _ _ _ _ _ _ "fst ?s" "snd ?s"] have "length (fst ?s) \<le> 10" by simp
  with one show ?thesis by (metis prod.collapse)
qed

end
