(* ===== verification/ServerOperations.thy ===== *)
theory ServerOperations
  imports ConfigBootstrap ConfigDb ZoneRegistry
begin

text \<open>
  The management operations shared by the HTTP interface, the MCP server and the control socket
  (\<open>src/use_cases/server_operations.rs\<close>): the running filter, the query log and the zones, and the
  creation, change and deletion of the rows of the database with their validation.

  An operation is a step on \<open>server_ops\<close>; operations run one after the other. The database is absent when
  it is not configured. A change that succeeds sends one message on the reload channel, whose messages so far
  are counted. \<open>Url::parse\<close> of the \<open>url\<close> crate is an argument of the operations that use it.
\<close>

subsection \<open>State, errors, sequencing\<close>

datatype server_operation_error =
    NotFound string
  | Unavailable string
  | InvalidInput string
  | Internal string
  | DatabaseFailed db_error
  | ChannelClosed

record server_ops =
  so_domain_filter :: filter_engine
  so_filtering_enabled :: bool
  so_query_log :: "query_log option"
  so_reload_open :: bool
  so_reloads_sent :: nat
  so_start_time :: u64
  so_zone_registry :: "zone_registry option"
  so_db :: "database option"

type_synonym 'a operation = "server_ops \<Rightarrow> (server_operation_error + 'a) \<times> server_ops"

definition op_ok :: "'a \<Rightarrow> 'a operation" where
  "op_ok a s = (Inr a, s)"

definition op_check :: "server_operation_error + 'a \<Rightarrow> 'a operation" where
  "op_check r s = (r, s)"

definition op_bind :: "'a operation \<Rightarrow> ('a \<Rightarrow> 'b operation) \<Rightarrow> 'b operation" where
  "op_bind m f s = (case m s of (Inl e, s) \<Rightarrow> (Inl e, s) | (Inr a, s) \<Rightarrow> f a s)"

text \<open>\<open>repos()\<close>, and a call of a repository.\<close>

definition repos :: "database operation" where
  "repos s = (ok_or (Unavailable ''database not configured'') (so_db s), s)"

definition on_db :: "(database \<Rightarrow> (db_error + 'a) \<times> database) \<Rightarrow> 'a operation" where
  "on_db f = op_bind repos (\<lambda>db s.
     case f db of (r, db) \<Rightarrow> (map_err DatabaseFailed r, s\<lparr>so_db := Some db\<rparr>))"

definition fresh_id :: "string operation" where
  "fresh_id = on_db (\<lambda>db. case new_uuid db of (ident, db) \<Rightarrow> (Inr ident, db))"

fun op_each :: "('a \<Rightarrow> 'b operation) \<Rightarrow> 'a list \<Rightarrow> 'b list operation" where
  "op_each f [] = op_ok []"
| "op_each f (x # xs) = op_bind (f x) (\<lambda>y. op_bind (op_each f xs) (\<lambda>ys. op_ok (y # ys)))"

subsection \<open>The running server\<close>

definition uptime_secs :: "u64 \<Rightarrow> server_ops \<Rightarrow> u64" where
  "uptime_secs now s = (if now \<ge> so_start_time s then now - so_start_time s else 0)"

record dns_lookup_result =
  dl_domain :: string
  dl_decision :: string
  dl_filtering_enabled :: bool

definition dns_lookup :: "string \<Rightarrow> server_ops \<Rightarrow> dns_lookup_result" where
  "dns_lookup domain s =
     \<lparr>dl_domain = domain,
      dl_decision = (case decide (so_domain_filter s) domain of
          DecAllow \<Rightarrow> ''allowed'' | DecBlock \<Rightarrow> ''blocked'' | DecNeutral \<Rightarrow> ''neutral (passthrough)''),
      dl_filtering_enabled = so_filtering_enabled s\<rparr>"

definition filter_status :: "server_ops \<Rightarrow> bool" where
  "filter_status s = so_filtering_enabled s"

definition set_filtering :: "bool \<Rightarrow> server_ops \<Rightarrow> (bool \<times> string) \<times> server_ops" where
  "set_filtering enabled s =
     ((enabled, if enabled then ''filtering enabled'' else ''filtering disabled''), s\<lparr>so_filtering_enabled := enabled\<rparr>)"

definition list_filters :: "server_ops \<Rightarrow> list_info list" where
  "list_filters s = list_names (so_domain_filter s)"

definition list_not_found :: "string \<Rightarrow> server_operation_error" where
  "list_not_found name = NotFound (''list '' @ quoted name @ '' not found'')"

text \<open>The result of the two refresh operations carries the refresh tasks that are started.\<close>

definition refresh_list_op :: "string \<Rightarrow> (string \<times> list_runtime list) operation" where
  "refresh_list_op name s =
     (case refresh_list name (so_domain_filter s) of
        (True, tasks) \<Rightarrow> (Inr (name, tasks), s)
      | (False, _) \<Rightarrow> (Inl (list_not_found name), s))"

definition refresh_all_lists_op :: "server_ops \<Rightarrow> string list \<times> list_runtime list" where
  "refresh_all_lists_op s = refresh_all_lists (so_domain_filter s)"

definition enable_list_op :: "string \<Rightarrow> (string \<times> bool) operation" where
  "enable_list_op name s =
     (case enable_list name (so_domain_filter s) of
        (True, e) \<Rightarrow> (Inr (name, True), s\<lparr>so_domain_filter := e\<rparr>)
      | (False, e) \<Rightarrow> (Inl (list_not_found name), s\<lparr>so_domain_filter := e\<rparr>))"

definition disable_list_op :: "string \<Rightarrow> (string \<times> bool) operation" where
  "disable_list_op name s =
     (case disable_list name (so_domain_filter s) of
        (True, e) \<Rightarrow> (Inr (name, False), s\<lparr>so_domain_filter := e\<rparr>)
      | (False, e) \<Rightarrow> (Inl (list_not_found name), s\<lparr>so_domain_filter := e\<rparr>))"

record stats_result =
  st_uptime_seconds :: u64
  st_filtering_enabled :: bool
  st_counters :: metrics_snapshot
  st_lists :: "list_info list"

text \<open>The counters of the result are those of the snapshot, field by field.\<close>

definition get_stats :: "u64 \<Rightarrow> metrics_state option \<Rightarrow> server_ops \<Rightarrow> stats_result" where
  "get_stats now ms s =
     \<lparr>st_uptime_seconds = uptime_secs now s, st_filtering_enabled = so_filtering_enabled s, st_counters = take_snapshot ms,
      st_lists = list_names (so_domain_filter s)\<rparr>"

record health_result =
  hr_status :: string
  hr_version :: string
  hr_uptime_seconds :: u64
  hr_filtering_enabled :: bool

text \<open>The version is a constant of the build.\<close>

definition server_health :: "string \<Rightarrow> u64 \<Rightarrow> server_ops \<Rightarrow> health_result" where
  "server_health version now s =
     \<lparr>hr_status = ''healthy'', hr_version = version, hr_uptime_seconds = uptime_secs now s,
      hr_filtering_enabled = so_filtering_enabled s\<rparr>"

definition get_query_log :: "(nat \<times> nat \<times> query_log_entry list) operation" where
  "get_query_log s =
     (case so_query_log s of
        None \<Rightarrow> (Inl (Unavailable ''query logging is not enabled; set api.query_logging.enabled = true in config''), s)
      | Some log \<Rightarrow> (Inr (query_log_len log, ql_max_entries log, ql_entries log), s))"

definition trigger_reload :: "(string \<times> string) operation" where
  "trigger_reload s =
     (if so_reload_open s
      then (Inr (''triggered'', ''configuration reload initiated''), s\<lparr>so_reloads_sent := Suc (so_reloads_sent s)\<rparr>)
      else (Inl ChannelClosed, s))"

definition reload_after_mutation :: "unit operation" where
  "reload_after_mutation s = (case trigger_reload s of (_, s) \<Rightarrow> (Inr (), s))"

definition list_zones_op :: "(zone_info list \<times> nat) operation" where
  "list_zones_op s =
     (case so_zone_registry s of
        None \<Rightarrow> (Inl (Internal ''no zones configured''), s)
      | Some registry \<Rightarrow> (Inr (list_zones registry, zone_count registry), s))"

definition default_search_limit :: nat where "default_search_limit = 50"
definition max_search_limit :: nat where "max_search_limit = 500"

definition search_zone_records ::
  "(rdata \<Rightarrow> string) \<Rightarrow> (string \<Rightarrow> string \<Rightarrow> int option) \<Rightarrow> string \<Rightarrow> string option \<Rightarrow> string option \<Rightarrow> nat option
   \<Rightarrow> (string \<times> (zone_record \<times> int) list \<times> nat \<times> nat) operation" where
  "search_zone_records display fuzzy_match query zone record_type limit s =
     (case so_zone_registry s of
        None \<Rightarrow> (Inl (Internal ''no zones configured''), s)
      | Some registry \<Rightarrow>
          (let limit = min (case limit of None \<Rightarrow> default_search_limit | Some n \<Rightarrow> n) max_search_limit in
           case registry_search display fuzzy_match registry query zone record_type limit of
             (results, total_matches) \<Rightarrow> (Inr (query, results, total_matches, limit), s)))"

subsection \<open>Validation\<close>

definition check_input :: "bool \<Rightarrow> string \<Rightarrow> server_operation_error + unit" where
  "check_input ok message = (if ok then Inr () else Inl (InvalidInput message))"

definition validate_list_name :: "string \<Rightarrow> server_operation_error + unit" where
  "validate_list_name name =
     res_bind (check_input (name \<noteq> []) ''name must not be empty'') (\<lambda>_.
     check_input (list_all (\<lambda>c. is_ascii_alphanumeric c \<or> c = CHR ''-'' \<or> c = CHR ''_'') name)
       ''name must contain only ASCII alphanumeric characters, hyphens, and underscores'')"

definition validate_url :: "string \<Rightarrow> server_operation_error + unit" where
  "validate_url url =
     res_bind (check_input (url \<noteq> []) ''url must not be empty'') (\<lambda>_.
     check_input (starts_with url ''http://'' \<or> starts_with url ''https://'' \<or> starts_with url ''file://'')
       ''url must start with http://, https://, or file://'')"

definition validate_list_type :: "string \<Rightarrow> server_operation_error + unit" where
  "validate_list_type list_type =
     check_input (list_type \<in> set [''adguard'', ''hosts'', ''rpz'', ''domains'', ''wildcard''])
       (''invalid list_type '' @ quoted list_type @ ''; must be one of: adguard, hosts, rpz, domains, wildcard'')"

definition validate_zone_name :: "string \<Rightarrow> server_operation_error + unit" where
  "validate_zone_name zone =
     res_bind (check_input (zone \<noteq> []) ''zone name must not be empty'') (\<lambda>_.
     check_input (list_all (\<lambda>c. is_ascii_alphanumeric c \<or> c = CHR ''.'' \<or> c = CHR ''-'') zone)
       ''zone name must contain only ASCII alphanumeric characters, dots, and hyphens'')"

definition validate_protocol :: "string \<Rightarrow> server_operation_error + unit" where
  "validate_protocol protocol =
     check_input (protocol \<in> set [''dns'', ''dot'', ''doh'', ''doq'', ''recursive'', ''json''])
       (''invalid protocol '' @ quoted protocol @ ''; must be one of: dns, dot, doh, doq, recursive, json'')"

definition validate_upstream_protocol :: "string \<Rightarrow> server_operation_error + unit" where
  "validate_upstream_protocol protocol =
     check_input (protocol \<in> set [''dns'', ''dot'', ''doh'', ''doq'', ''recursive''])
       (''invalid upstream protocol '' @ quoted protocol @ ''; must be one of: dns, dot, doh, doq, recursive'')"

definition validate_upstream_strategy :: "string \<Rightarrow> server_operation_error + unit" where
  "validate_upstream_strategy strategy =
     check_input (strategy \<in> set [''round_robin'', ''random'', ''failover''])
       (''invalid strategy '' @ quoted strategy @ ''; must be one of: round_robin, random, failover'')"

definition validate_bootstrap_resolver_address :: "string \<Rightarrow> server_operation_error + unit" where
  "validate_bootstrap_resolver_address value =
     check_input (parse_socket_addr value \<noteq> None \<or> parse_ip_addr value \<noteq> None)
       (''invalid bootstrap resolver address '' @ quoted value @ ''; expected <ip> or <ip>:port'')"

definition validate_bootstrap_resolvers :: "string list \<Rightarrow> server_operation_error + unit" where
  "validate_bootstrap_resolvers values =
     res_bind (check_input (values \<noteq> []) ''bootstrap_resolvers must contain at least one entry'') (\<lambda>_.
     map_ok (\<lambda>_. ()) (res_map_list validate_bootstrap_resolver_address values))"

definition parse_cache_ttl_secs :: "string option \<Rightarrow> string \<Rightarrow> server_operation_error + int option" where
  "parse_cache_ttl_secs value field_name =
     (case value of
        None \<Rightarrow> Inr None
      | Some value \<Rightarrow>
          (let trimmed = trim value in
           if trimmed = [] then Inl (InvalidInput (field_name @ '' must not be empty''))
           else case parse_interval trimmed of
             Inl _ \<Rightarrow> Inl (InvalidInput (''invalid '' @ field_name @ '': '' @ trimmed))
           | Inr secs \<Rightarrow>
               if uint secs > 2 ^ 63 - 1
               then Inl (InvalidInput (field_name @ '' is too large; maximum supported value is 9223372036854775807 seconds''))
               else Inr (Some (uint secs))))"

definition validate_resolver_cache_bounds :: "int option \<Rightarrow> int option \<Rightarrow> server_operation_error + unit" where
  "validate_resolver_cache_bounds min_ttl_seconds max_ttl_seconds =
     (case (min_ttl_seconds, max_ttl_seconds) of
        (Some mn, Some mx) \<Rightarrow>
          check_input (mn \<le> mx) ''dns_cache_min_ttl must be less than or equal to dns_cache_max_ttl''
      | _ \<Rightarrow> Inr ())"

definition validate_upstream_address ::
  "(string \<Rightarrow> string + url_parts) \<Rightarrow> string \<Rightarrow> string \<Rightarrow> server_operation_error + unit" where
  "validate_upstream_address parse_url protocol address =
     (if trim address = [] then Inl (InvalidInput ''upstream address must not be empty'')
      else if protocol = ''doh'' then
        (case parse_url address of
           Inl e \<Rightarrow> Inl (InvalidInput (''invalid DoH upstream address '' @ quoted address @ '': '' @ e))
         | Inr url \<Rightarrow>
             res_bind (check_input (url_scheme url = ''https'')
               (''DoH upstream address must use https:// scheme, got '' @ quoted (url_scheme url) @ '': '' @ address)) (\<lambda>_.
             check_input (url_host url \<noteq> None) (''DoH upstream address must include a host: '' @ address)))
      else Inr ())"

definition validate_bind_address :: "string option \<Rightarrow> server_operation_error + unit" where
  "validate_bind_address bind_address =
     (case bind_address of
        None \<Rightarrow> Inr ()
      | Some a \<Rightarrow>
          check_input (parse_ip_addr a \<noteq> None)
            (''invalid bind_address '' @ quoted a @ ''; must be an IPv4 or IPv6 address''))"

definition validate_sort_order :: "int \<Rightarrow> server_operation_error + int" where
  "validate_sort_order sort_order =
     (if sort_order < 0 then Inl (InvalidInput ''sort_order must be zero or greater'') else Inr sort_order)"

definition parse_single_fwmark :: "u32 \<Rightarrow> server_operation_error + i32" where
  "parse_single_fwmark fwmark =
     (if uint fwmark > 2 ^ 31 - 1
      then Inl (InvalidInput (''invalid fwmark '' @ quoted (show_int (uint fwmark)) @ ''; must be <= 2147483647''))
      else Inr fwmark)"

definition parse_fwmark :: "u32 option \<Rightarrow> server_operation_error + i32 option" where
  "parse_fwmark fwmark = (case fwmark of None \<Rightarrow> Inr None | Some m \<Rightarrow> map_ok Some (parse_single_fwmark m))"

definition validate_allowed_type :: "string \<Rightarrow> server_operation_error + unit" where
  "validate_allowed_type allowed_type =
     check_input (allowed_type \<in> set [''forward'', ''reverse'', ''reverse-aggregate''])
       (''invalid allowed_type '' @ quoted allowed_type @ ''; must be one of: forward, reverse, reverse-aggregate'')"

subsection \<open>Inputs\<close>

record create_filter_list_input =
  cf_name :: string
  cf_url :: string
  cf_interval :: "string option"
  cf_enabled :: "bool option"
  cf_list_type :: "string option"

record update_filter_list_input =
  uf_url :: "string option"
  uf_interval :: "string option"
  uf_enabled :: "bool option"
  uf_list_type :: "string option"

record create_upstream_server_input =
  cu_enabled :: "bool option"
  cu_protocol :: string
  cu_address :: string
  cu_authentication :: "zone_server_authentication_config option"
  cu_max_hops :: "u8 option"
  cu_nameserver_ip_family :: "string option"
  cu_root_hints_path :: "string option"
  cu_root_key_path :: "string option"
  cu_dnssec :: "bool option"
  cu_bind_address :: "string option"
  cu_fwmark :: "u32 option"
  cu_sort_order :: "int option"

text \<open>A field of type \<open>Option<Option<T>>\<close>: absent, present and null, or a value.\<close>

record update_upstream_server_input =
  uu_enabled :: "bool option"
  uu_protocol :: "string option"
  uu_address :: "string option"
  uu_authentication :: "zone_server_authentication_config option"
  uu_max_hops :: "u8 option"
  uu_nameserver_ip_family :: "string option"
  uu_root_hints_path :: "string option"
  uu_root_key_path :: "string option"
  uu_dnssec :: "bool option"
  uu_bind_address :: "string option option"
  uu_fwmark :: "u32 option option"
  uu_sort_order :: "int option"

record update_resolver_config_input =
  uc_strategy :: "string option"
  uc_bootstrap_resolvers :: "string list option"
  uc_dns_cache_enabled :: "bool option"
  uc_dns_cache_min_ttl :: "string option option"
  uc_dns_cache_max_ttl :: "string option option"

record create_zone_server_input =
  cv_enabled :: "bool option"
  cv_protocol :: string
  cv_address :: string
  cv_authentication :: "zone_server_authentication_config option"
  cv_check_interval :: "string option"
  cv_max_hops :: "u8 option"
  cv_nameserver_ip_family :: "string option"
  cv_root_hints_path :: "string option"
  cv_root_key_path :: "string option"
  cv_dnssec :: "bool option"

record create_zone_input =
  cz_zone :: string
  cz_enabled :: "bool option"
  cz_bypass_filter :: "bool option"
  cz_fallback_to_default_resolvers :: "bool option"
  cz_strategy :: "string option"
  cz_servers :: "create_zone_server_input list option"

record update_zone_input =
  uz_enabled :: "bool option"
  uz_bypass_filter :: "bool option"
  uz_fallback_to_default_resolvers :: "bool option"
  uz_strategy :: "string option"
  uz_servers :: "create_zone_server_input list option"

record create_zone_discovery_input =
  cd_enabled :: "bool option"
  cd_address :: string
  cd_check_interval :: "string option"
  cd_allowed_types :: "string list option"
  cd_bypass_filter :: "bool option"
  cd_fallback_to_default_resolvers :: "bool option"
  cd_authentication :: "zone_server_authentication_config option"

record update_zone_discovery_input =
  ud_enabled :: "bool option"
  ud_address :: "string option"
  ud_check_interval :: "string option"
  ud_allowed_types :: "string list option"
  ud_bypass_filter :: "bool option"
  ud_fallback_to_default_resolvers :: "bool option"
  ud_authentication :: "zone_server_authentication_config option"

text \<open>\<open>unwrap_or\<close>, and the change of a field that is given.\<close>

definition unwrap_or :: "'a option \<Rightarrow> 'a \<Rightarrow> 'a" where
  "unwrap_or v d = (case v of None \<Rightarrow> d | Some x \<Rightarrow> x)"

definition given :: "'a option \<Rightarrow> ('a \<Rightarrow> 'r \<Rightarrow> server_operation_error + 'r) \<Rightarrow> 'r \<Rightarrow> server_operation_error + 'r" where
  "given v f r = (case v of None \<Rightarrow> Inr r | Some x \<Rightarrow> f x r)"

subsection \<open>Filter lists\<close>

definition list_filter_lists :: "string \<Rightarrow> filter_list_record list operation" where
  "list_filter_lists kind = op_bind repos (\<lambda>db. op_ok (filter (\<lambda>r. fl_kind r = kind) (filter_lists_get_all db)))"

definition add_filter_list :: "string \<Rightarrow> create_filter_list_input \<Rightarrow> filter_list_record operation" where
  "add_filter_list kind input =
     op_bind (op_check (validate_list_name (cf_name input))) (\<lambda>_.
     op_bind (op_check (validate_url (cf_url input))) (\<lambda>_.
     let list_type = unwrap_or (cf_list_type input) ''adguard'' in
     op_bind (op_check (validate_list_type list_type)) (\<lambda>_.
     let interval = parse_interval_secs (cf_interval input) in
     op_bind repos (\<lambda>db.
     op_bind (op_check (check_input (filter_lists_get_by_name db (cf_name input) = None)
       (''a filter list named '' @ quoted (cf_name input) @ '' already exists''))) (\<lambda>_.
     op_bind fresh_id (\<lambda>ident.
     let record = \<lparr>fl_id = ident, fl_name = cf_name input, fl_kind = kind, fl_url = cf_url input,
         fl_interval_seconds = interval, fl_enabled = unwrap_or (cf_enabled input) True, fl_list_type = list_type\<rparr> in
     op_bind (on_db (filter_lists_create record)) (\<lambda>_.
     op_bind reload_after_mutation (\<lambda>_. op_ok record))))))))"

definition changed_filter_list ::
  "update_filter_list_input \<Rightarrow> filter_list_record \<Rightarrow> server_operation_error + filter_list_record" where
  "changed_filter_list input record =
     res_bind (given (uf_url input) (\<lambda>url r. res_bind (validate_url url) (\<lambda>_. Inr (r\<lparr>fl_url := url\<rparr>))) record) (\<lambda>r.
     res_bind (given (uf_interval input) (\<lambda>i r. Inr (r\<lparr>fl_interval_seconds := parse_interval_secs (Some i)\<rparr>)) r) (\<lambda>r.
     res_bind (given (uf_enabled input) (\<lambda>b r. Inr (r\<lparr>fl_enabled := b\<rparr>)) r) (\<lambda>r.
     given (uf_list_type input) (\<lambda>t r. res_bind (validate_list_type t) (\<lambda>_. Inr (r\<lparr>fl_list_type := t\<rparr>))) r)))"

definition existing_filter_list :: "string \<Rightarrow> filter_list_record operation" where
  "existing_filter_list name =
     op_bind repos (\<lambda>db. op_check (ok_or (NotFound (''filter list '' @ quoted name @ '' not found''))
       (filter_lists_get_by_name db name)))"

definition update_filter_list :: "string \<Rightarrow> update_filter_list_input \<Rightarrow> filter_list_record operation" where
  "update_filter_list name input =
     op_bind (existing_filter_list name) (\<lambda>record.
     op_bind (op_check (changed_filter_list input record)) (\<lambda>record.
     op_bind (on_db (filter_lists_update record)) (\<lambda>_.
     op_bind reload_after_mutation (\<lambda>_. op_ok record))))"

definition delete_filter_list :: "string \<Rightarrow> string operation" where
  "delete_filter_list name =
     op_bind (existing_filter_list name) (\<lambda>record.
     op_bind (on_db (filter_lists_delete (fl_id record))) (\<lambda>_.
     op_bind reload_after_mutation (\<lambda>_. op_ok name)))"

subsection \<open>Upstream servers\<close>

definition list_upstream_servers :: "upstream_server_record list operation" where
  "list_upstream_servers = op_bind repos (\<lambda>db. op_ok (get_all_servers db))"

definition get_resolver_config_op :: "resolver_config_record operation" where
  "get_resolver_config_op = op_bind repos (\<lambda>db. op_ok (get_resolver_config db))"

definition changed_resolver_config ::
  "update_resolver_config_input \<Rightarrow> resolver_config_record \<Rightarrow> server_operation_error + resolver_config_record" where
  "changed_resolver_config input record =
     res_bind (given (uc_strategy input)
       (\<lambda>v r. res_bind (validate_upstream_strategy v) (\<lambda>_. Inr (r\<lparr>rr_strategy := v\<rparr>))) record) (\<lambda>r.
     res_bind (given (uc_bootstrap_resolvers input)
       (\<lambda>v r. res_bind (validate_bootstrap_resolvers v) (\<lambda>_. Inr (r\<lparr>rr_bootstrap_resolvers := v\<rparr>))) r) (\<lambda>r.
     res_bind (given (uc_dns_cache_enabled input) (\<lambda>v r. Inr (r\<lparr>rr_dns_cache_enabled := v\<rparr>)) r) (\<lambda>r.
     res_bind (given (uc_dns_cache_min_ttl input)
       (\<lambda>v r. map_ok (\<lambda>t. r\<lparr>rr_dns_cache_min_ttl_seconds := t\<rparr>) (parse_cache_ttl_secs v ''dns_cache_min_ttl'')) r) (\<lambda>r.
     res_bind (given (uc_dns_cache_max_ttl input)
       (\<lambda>v r. map_ok (\<lambda>t. r\<lparr>rr_dns_cache_max_ttl_seconds := t\<rparr>) (parse_cache_ttl_secs v ''dns_cache_max_ttl'')) r) (\<lambda>r.
     map_ok (\<lambda>_. r) (validate_resolver_cache_bounds (rr_dns_cache_min_ttl_seconds r) (rr_dns_cache_max_ttl_seconds r)))))))"

definition update_resolver_config_op :: "update_resolver_config_input \<Rightarrow> resolver_config_record operation" where
  "update_resolver_config_op input =
     op_bind get_resolver_config_op (\<lambda>record.
     op_bind (op_check (changed_resolver_config input record)) (\<lambda>record.
     op_bind (on_db (update_resolver_config record)) (\<lambda>_.
     op_bind reload_after_mutation (\<lambda>_. op_ok record))))"

definition add_upstream_server ::
  "(string \<Rightarrow> string + url_parts) \<Rightarrow> create_upstream_server_input \<Rightarrow> upstream_server_record operation" where
  "add_upstream_server parse_url input =
     op_bind (op_check (validate_upstream_protocol (cu_protocol input))) (\<lambda>_.
     op_bind (op_check (validate_upstream_address parse_url (cu_protocol input) (cu_address input))) (\<lambda>_.
     op_bind (op_check (validate_bind_address (cu_bind_address input))) (\<lambda>_.
     op_bind (op_check (parse_fwmark (cu_fwmark input))) (\<lambda>fwmark.
     op_bind repos (\<lambda>db.
     op_bind (op_check (case cu_sort_order input of
         Some v \<Rightarrow> validate_sort_order v | None \<Rightarrow> Inr (int (length (get_all_servers db))))) (\<lambda>sort_order.
     op_bind fresh_id (\<lambda>ident.
     let auth = cu_authentication input;
         record = \<lparr>ur_id = ident, ur_enabled = unwrap_or (cu_enabled input) True, ur_protocol = cu_protocol input,
           ur_address = cu_address input, ur_auth_token = auth_field za_token auth,
           ur_auth_username = auth_field za_username auth, ur_auth_password = auth_field za_password auth,
           ur_max_hops = map_option ucast (cu_max_hops input),
           ur_nameserver_ip_family = cu_nameserver_ip_family input, ur_root_hints_path = cu_root_hints_path input,
           ur_root_key_path = cu_root_key_path input, ur_dnssec = unwrap_or (cu_dnssec input) True,
           ur_sort_order = sort_order, ur_bind_address = cu_bind_address input, ur_fwmark = fwmark\<rparr> in
     op_bind (on_db (create_server record)) (\<lambda>_.
     op_bind reload_after_mutation (\<lambda>_. op_ok record)))))))))"

definition existing_server :: "string \<Rightarrow> upstream_server_record operation" where
  "existing_server ident =
     op_bind repos (\<lambda>db. op_check (ok_or (NotFound (''upstream server '' @ quoted ident @ '' not found''))
       (get_server_by_id db ident)))"

definition changed_server ::
  "(string \<Rightarrow> string + url_parts) \<Rightarrow> update_upstream_server_input \<Rightarrow> upstream_server_record
   \<Rightarrow> server_operation_error + upstream_server_record" where
  "changed_server parse_url input record =
     res_bind (given (uu_enabled input) (\<lambda>v r. Inr (r\<lparr>ur_enabled := v\<rparr>)) record) (\<lambda>r.
     res_bind (given (uu_protocol input)
       (\<lambda>v r. res_bind (validate_upstream_protocol v) (\<lambda>_. Inr (r\<lparr>ur_protocol := v\<rparr>))) r) (\<lambda>r.
     res_bind (given (uu_address input)
       (\<lambda>v r. res_bind (validate_upstream_address parse_url (ur_protocol r) v) (\<lambda>_. Inr (r\<lparr>ur_address := v\<rparr>))) r) (\<lambda>r.
     res_bind (validate_upstream_address parse_url (ur_protocol r) (ur_address r)) (\<lambda>_.
     res_bind (given (uu_authentication input)
       (\<lambda>a r. Inr (r\<lparr>ur_auth_token := za_token a, ur_auth_username := za_username a, ur_auth_password := za_password a\<rparr>)) r) (\<lambda>r.
     res_bind (given (uu_max_hops input) (\<lambda>v r. Inr (r\<lparr>ur_max_hops := Some (ucast v)\<rparr>)) r) (\<lambda>r.
     res_bind (given (uu_nameserver_ip_family input) (\<lambda>v r. Inr (r\<lparr>ur_nameserver_ip_family := Some v\<rparr>)) r) (\<lambda>r.
     res_bind (given (uu_root_hints_path input) (\<lambda>v r. Inr (r\<lparr>ur_root_hints_path := Some v\<rparr>)) r) (\<lambda>r.
     res_bind (given (uu_root_key_path input) (\<lambda>v r. Inr (r\<lparr>ur_root_key_path := Some v\<rparr>)) r) (\<lambda>r.
     res_bind (given (uu_dnssec input) (\<lambda>v r. Inr (r\<lparr>ur_dnssec := v\<rparr>)) r) (\<lambda>r.
     res_bind (given (uu_bind_address input)
       (\<lambda>v r. res_bind (validate_bind_address v) (\<lambda>_. Inr (r\<lparr>ur_bind_address := v\<rparr>))) r) (\<lambda>r.
     res_bind (given (uu_fwmark input) (\<lambda>v r. map_ok (\<lambda>m. r\<lparr>ur_fwmark := m\<rparr>) (parse_fwmark v)) r) (\<lambda>r.
     given (uu_sort_order input) (\<lambda>v r. map_ok (\<lambda>n. r\<lparr>ur_sort_order := n\<rparr>) (validate_sort_order v)) r))))))))))))"

definition update_upstream_server ::
  "(string \<Rightarrow> string + url_parts) \<Rightarrow> string \<Rightarrow> update_upstream_server_input \<Rightarrow> upstream_server_record operation" where
  "update_upstream_server parse_url ident input =
     op_bind (existing_server ident) (\<lambda>record.
     op_bind (op_check (changed_server parse_url input record)) (\<lambda>record.
     op_bind (on_db (update_server record)) (\<lambda>_.
     op_bind reload_after_mutation (\<lambda>_. op_ok record))))"

definition delete_upstream_server :: "string \<Rightarrow> string operation" where
  "delete_upstream_server ident =
     op_bind (existing_server ident) (\<lambda>_.
     op_bind (on_db (delete_server ident)) (\<lambda>_.
     op_bind reload_after_mutation (\<lambda>_. op_ok ident)))"

subsection \<open>Zones\<close>

definition list_zone_configs :: "zone_record_row list operation" where
  "list_zone_configs = op_bind repos (\<lambda>db. op_ok (get_all_with_servers db))"

text \<open>The servers of a zone are validated and created one after the other.\<close>

definition add_zone_server :: "string \<Rightarrow> nat \<times> create_zone_server_input \<Rightarrow> zone_server_record operation" where
  "add_zone_server zone_id = (\<lambda>(i, server).
     op_bind (op_check (validate_protocol (cv_protocol server))) (\<lambda>_.
     op_bind fresh_id (\<lambda>ident.
     let auth = cv_authentication server;
         rec = \<lparr>zv_id = ident, zv_zone_id = zone_id, zv_enabled = unwrap_or (cv_enabled server) True,
           zv_protocol = cv_protocol server, zv_address = cv_address server, zv_auth_token = auth_field za_token auth,
           zv_auth_username = auth_field za_username auth, zv_auth_password = auth_field za_password auth,
           zv_check_interval = cv_check_interval server, zv_max_hops = map_option ucast (cv_max_hops server),
           zv_nameserver_ip_family = cv_nameserver_ip_family server, zv_root_hints_path = cv_root_hints_path server,
           zv_root_key_path = cv_root_key_path server, zv_dnssec = unwrap_or (cv_dnssec server) True,
           zv_sort_order = int i\<rparr> in
     op_bind (on_db (create_zone_server rec)) (\<lambda>_. op_ok rec))))"

definition add_zone :: "create_zone_input \<Rightarrow> zone_record_row operation" where
  "add_zone input =
     op_bind (op_check (validate_zone_name (cz_zone input))) (\<lambda>_.
     op_bind repos (\<lambda>db.
     op_bind (op_check (check_input (get_by_zone db (cz_zone input) = None)
       (''zone '' @ quoted (cz_zone input) @ '' already exists''))) (\<lambda>_.
     op_bind fresh_id (\<lambda>zone_id.
     let zone_record = \<lparr>zo_id = zone_id, zo_zone = cz_zone input, zo_enabled = unwrap_or (cz_enabled input) True,
         zo_bypass_filter = unwrap_or (cz_bypass_filter input) False,
         zo_fallback_to_default_resolvers = unwrap_or (cz_fallback_to_default_resolvers input) False,
         zo_strategy = cz_strategy input, zo_servers = []\<rparr> in
     op_bind (on_db (create_zone zone_record)) (\<lambda>_.
     op_bind (op_each (add_zone_server zone_id) (enumerate 0 (unwrap_or (cz_servers input) []))) (\<lambda>server_records.
     op_bind reload_after_mutation (\<lambda>_. op_ok (zone_record\<lparr>zo_servers := server_records\<rparr>))))))))"

definition existing_zone :: "string \<Rightarrow> zone_record_row operation" where
  "existing_zone zone_name =
     op_bind repos (\<lambda>db. op_check (ok_or (NotFound (''zone '' @ quoted zone_name @ '' not found''))
       (get_by_zone db zone_name)))"

definition update_zone_op :: "string \<Rightarrow> update_zone_input \<Rightarrow> zone_record_row operation" where
  "update_zone_op zone_name input =
     op_bind (existing_zone zone_name) (\<lambda>record.
     let record = record
         \<lparr>zo_enabled := unwrap_or (uz_enabled input) (zo_enabled record),
          zo_bypass_filter := unwrap_or (uz_bypass_filter input) (zo_bypass_filter record),
          zo_fallback_to_default_resolvers :=
            unwrap_or (uz_fallback_to_default_resolvers input) (zo_fallback_to_default_resolvers record),
          zo_strategy := (case uz_strategy input of None \<Rightarrow> zo_strategy record | Some s \<Rightarrow> Some s)\<rparr> in
     op_bind (on_db (update_zone record)) (\<lambda>_.
     op_bind (case uz_servers input of
         None \<Rightarrow> op_ok record
       | Some servers \<Rightarrow>
           op_bind (on_db (delete_zone_servers (zo_id record))) (\<lambda>_.
           op_bind (op_each (add_zone_server (zo_id record)) (enumerate 0 servers)) (\<lambda>server_records.
           op_ok (record\<lparr>zo_servers := server_records\<rparr>)))) (\<lambda>record.
     op_bind reload_after_mutation (\<lambda>_. op_ok record))))"

definition delete_zone_op :: "string \<Rightarrow> string operation" where
  "delete_zone_op zone_name =
     op_bind (existing_zone zone_name) (\<lambda>record.
     op_bind (on_db (delete_zone (zo_id record))) (\<lambda>_.
     op_bind reload_after_mutation (\<lambda>_. op_ok zone_name)))"

subsection \<open>Zone discovery\<close>

definition list_zone_discovery :: "zone_discovery_record list operation" where
  "list_zone_discovery = op_bind repos (\<lambda>db. op_ok (discovery_get_all db))"

definition validate_allowed_types :: "string list option \<Rightarrow> server_operation_error + unit" where
  "validate_allowed_types types =
     (case types of None \<Rightarrow> Inr () | Some ts \<Rightarrow> map_ok (\<lambda>_. ()) (res_map_list validate_allowed_type ts))"

definition add_zone_discovery :: "create_zone_discovery_input \<Rightarrow> zone_discovery_record operation" where
  "add_zone_discovery input =
     op_bind (op_check (validate_url (cd_address input))) (\<lambda>_.
     op_bind (op_check (validate_allowed_types (cd_allowed_types input))) (\<lambda>_.
     let allowed_types = unwrap_or (cd_allowed_types input) [''forward'', ''reverse'']; auth = cd_authentication input in
     op_bind fresh_id (\<lambda>ident.
     let record = \<lparr>di_id = ident, di_enabled = unwrap_or (cd_enabled input) True, di_address = cd_address input,
         di_check_interval = cd_check_interval input, di_allowed_types = allowed_types,
         di_bypass_filter = unwrap_or (cd_bypass_filter input) False,
         di_fallback_to_default_resolvers = unwrap_or (cd_fallback_to_default_resolvers input) False,
         di_auth_token = auth_field za_token auth, di_auth_username = auth_field za_username auth,
         di_auth_password = auth_field za_password auth\<rparr> in
     op_bind (on_db (discovery_create record)) (\<lambda>_.
     op_bind reload_after_mutation (\<lambda>_. op_ok record)))))"

definition existing_discovery :: "string \<Rightarrow> zone_discovery_record operation" where
  "existing_discovery ident =
     op_bind repos (\<lambda>db. op_check (ok_or (NotFound (''zone discovery '' @ quoted ident @ '' not found''))
       (discovery_get_by_id db ident)))"

definition changed_discovery ::
  "update_zone_discovery_input \<Rightarrow> zone_discovery_record \<Rightarrow> server_operation_error + zone_discovery_record" where
  "changed_discovery input record =
     res_bind (given (ud_address input) (\<lambda>v r. res_bind (validate_url v) (\<lambda>_. Inr (r\<lparr>di_address := v\<rparr>))) record) (\<lambda>r.
     res_bind (given (ud_enabled input) (\<lambda>v r. Inr (r\<lparr>di_enabled := v\<rparr>)) r) (\<lambda>r.
     res_bind (given (ud_check_interval input) (\<lambda>v r. Inr (r\<lparr>di_check_interval := Some v\<rparr>)) r) (\<lambda>r.
     res_bind (given (ud_allowed_types input)
       (\<lambda>v r. res_bind (validate_allowed_types (Some v)) (\<lambda>_. Inr (r\<lparr>di_allowed_types := v\<rparr>))) r) (\<lambda>r.
     res_bind (given (ud_bypass_filter input) (\<lambda>v r. Inr (r\<lparr>di_bypass_filter := v\<rparr>)) r) (\<lambda>r.
     res_bind (given (ud_fallback_to_default_resolvers input)
       (\<lambda>v r. Inr (r\<lparr>di_fallback_to_default_resolvers := v\<rparr>)) r) (\<lambda>r.
     given (ud_authentication input)
       (\<lambda>a r. Inr (r\<lparr>di_auth_token := za_token a, di_auth_username := za_username a, di_auth_password := za_password a\<rparr>)) r))))))"

definition update_zone_discovery :: "string \<Rightarrow> update_zone_discovery_input \<Rightarrow> zone_discovery_record operation" where
  "update_zone_discovery ident input =
     op_bind (existing_discovery ident) (\<lambda>record.
     op_bind (op_check (changed_discovery input record)) (\<lambda>record.
     op_bind (on_db (discovery_update record)) (\<lambda>_.
     op_bind reload_after_mutation (\<lambda>_. op_ok record))))"

definition delete_zone_discovery :: "string \<Rightarrow> string operation" where
  "delete_zone_discovery ident =
     op_bind (existing_discovery ident) (\<lambda>_.
     op_bind (on_db (discovery_delete ident)) (\<lambda>_.
     op_bind reload_after_mutation (\<lambda>_. op_ok ident)))"

subsection \<open>Runs of operations\<close>

lemma op_bind_iff:
  "op_bind m f s = (r, s') \<longleftrightarrow>
     (\<exists>e. m s = (Inl e, s') \<and> r = Inl e) \<or> (\<exists>a t. m s = (Inr a, t) \<and> f a t = (r, s'))"
  by (auto simp: op_bind_def split: prod.splits sum.splits)

lemma on_db_iff:
  "on_db f s = (r, s') \<longleftrightarrow>
     so_db s = None \<and> r = Inl (Unavailable ''database not configured'') \<and> s' = s \<or>
     (\<exists>db res db'. so_db s = Some db \<and> f db = (res, db') \<and> r = map_err DatabaseFailed res \<and> s' = s\<lparr>so_db := Some db'\<rparr>)"
  by (cases "so_db s") (auto simp: on_db_def op_bind_def repos_def  split: prod.splits)

lemmas op_steps = op_bind_iff on_db_iff op_check_def op_ok_def fresh_id_def new_uuid_def repos_def 

text \<open>
  A relation between states that holds of every step holds of what is composed of steps: the contract by which
  the operations are shown to keep the tables consistent, and to leave the running server alone.
\<close>

locale op_relation =
  fixes R :: "server_ops \<Rightarrow> server_ops \<Rightarrow> bool"
  assumes stays: "R s s" and chain: "R s t \<Longrightarrow> R t u \<Longrightarrow> R s u"
begin

lemma ok: "R s (snd (op_ok a s))" and check: "R s (snd (op_check r s))" and repos_read: "R s (snd (repos s))"
  by (simp_all add: op_ok_def op_check_def repos_def stays)

lemma bind:
  assumes "\<And>s. R s (snd (m s))" and "\<And>a s. R s (snd (f a s))"
  shows "R s (snd (op_bind m f s))"
proof (cases "m s")
  case (Pair r t)
  then show ?thesis using assms(1) [of s] assms(2) [of t] chain by (cases r) (auto simp: op_bind_def)
qed

lemma each:
  assumes "\<And>x s. R s (snd (f x s))"
  shows "R s (snd (op_each f xs s))"
  by (induction xs arbitrary: s) (auto intro!: bind ok assms)

lemmas compose = ok check repos_read bind each

end

text \<open>A relation that, moreover, every call of a repository and the reload message keep.\<close>

locale admin_relation = op_relation +
  assumes call: "R s (snd (on_db (db_exec c) s))" and fresh: "R s (snd (fresh_id s))"
    and reload: "R s (snd (reload_after_mutation s))"
begin

lemma calls:
  "R s (snd (on_db (filter_lists_create lr) s))" "R s (snd (on_db (filter_lists_update lr) s))"
  "R s (snd (on_db (filter_lists_delete i) s))" "R s (snd (on_db (update_resolver_config rr) s))"
  "R s (snd (on_db (create_server ur) s))" "R s (snd (on_db (update_server ur) s))"
  "R s (snd (on_db (delete_server i) s))" "R s (snd (on_db (create_zone z) s))" "R s (snd (on_db (update_zone z) s))"
  "R s (snd (on_db (create_zone_server zs) s))" "R s (snd (on_db (delete_zone i) s))"
  "R s (snd (on_db (delete_zone_servers i) s))" "R s (snd (on_db (discovery_create d) s))"
  "R s (snd (on_db (discovery_update d) s))" "R s (snd (on_db (discovery_delete i) s))"
  using call [of s "CallListCreate lr"] call [of s "CallListUpdate lr"] call [of s "CallListDelete i"]
    call [of s "CallResolverUpdate rr"] call [of s "CallServerCreate ur"] call [of s "CallServerUpdate ur"]
    call [of s "CallServerDelete i"] call [of s "CallZoneCreate z"] call [of s "CallZoneUpdate z"]
    call [of s "CallZoneServerCreate zs"] call [of s "CallZoneDelete i"] call [of s "CallZoneServersDelete i"]
    call [of s "CallDiscoveryCreate d"] call [of s "CallDiscoveryUpdate d"] call [of s "CallDiscoveryDelete i"]
  by simp_all

lemmas steps = compose calls fresh reload

lemma list_operations:
  "R s (snd (add_filter_list kind cf s))" "R s (snd (update_filter_list n uf s))" "R s (snd (delete_filter_list n s))"
  unfolding add_filter_list_def update_filter_list_def delete_filter_list_def existing_filter_list_def Let_def
  by (intro steps)+

lemma server_operations:
  "R s (snd (update_resolver_config_op uc s))" "R s (snd (add_upstream_server parse_url cu s))"
  "R s (snd (update_upstream_server parse_url n uu s))" "R s (snd (delete_upstream_server n s))"
  unfolding update_resolver_config_op_def get_resolver_config_op_def add_upstream_server_def existing_server_def
    update_upstream_server_def delete_upstream_server_def Let_def
  by (intro steps)+

lemma zone_server: "R s (snd (add_zone_server z p s))"
  unfolding add_zone_server_def Let_def split_beta by (intro steps)

lemma zone_operations:
  "R s (snd (add_zone cz s))" "R s (snd (update_zone_op n uz s))" "R s (snd (delete_zone_op n s))"
proof -
  show "R s (snd (add_zone cz s))" "R s (snd (delete_zone_op n s))"
    unfolding add_zone_def delete_zone_op_def existing_zone_def Let_def by (intro steps zone_server)+
  show "R s (snd (update_zone_op n uz s))"
    unfolding update_zone_op_def existing_zone_def Let_def
    by (cases "uz_servers uz"; simp only: option.case; intro steps zone_server)
qed

lemma discovery_operations:
  "R s (snd (add_zone_discovery cd s))" "R s (snd (update_zone_discovery n ud s))" "R s (snd (delete_zone_discovery n s))"
  unfolding add_zone_discovery_def existing_discovery_def update_zone_discovery_def delete_zone_discovery_def Let_def
  by (intro steps)+

lemmas operations = list_operations server_operations zone_operations discovery_operations

end

definition ops_ok :: "server_ops \<Rightarrow> bool" where
  "ops_ok s \<longleftrightarrow> (case so_db s of None \<Rightarrow> True | Some db \<Rightarrow> db_ok db)"

text \<open>What only the reload handler may change.\<close>

definition running :: "server_ops \<Rightarrow> filter_engine \<times> bool \<times> query_log option \<times> bool \<times> u64 \<times> zone_registry option" where
  "running s = (so_domain_filter s, so_filtering_enabled s, so_query_log s, so_reload_open s, so_start_time s,
     so_zone_registry s)"

text \<open>What decides about reloads.\<close>

definition channel :: "server_ops \<Rightarrow> bool \<times> nat" where
  "channel s = (so_reload_open s, so_reloads_sent s)"

interpretation quiet: op_relation "\<lambda>s t. channel t = channel s"
  by unfold_locales auto

lemma on_db_integrity:
  assumes "\<And>db. db_ok db \<Longrightarrow> db_ok (snd (f db))"
  shows "ops_ok s \<longrightarrow> ops_ok (snd (on_db f s))"
proof (cases "so_db s")
  case (Some db)
  obtain r db' where "f db = (r, db')" by fastforce
  with Some assms [of db] show ?thesis by (simp add: on_db_def op_bind_def repos_def ops_ok_def)
qed (simp add: on_db_def op_bind_def repos_def)

lemma on_db_untouched: "running (snd (on_db f s)) = running s"
  and on_db_quiet: "channel (snd (on_db f s)) = channel s"
  by (cases "so_db s"; cases "f (the (so_db s))"; simp add: on_db_def op_bind_def repos_def running_def channel_def)+

lemma fresh_id_integrity: "ops_ok s \<longrightarrow> ops_ok (snd (fresh_id s))"
  unfolding fresh_id_def by (rule on_db_integrity) (simp add: new_uuid_def db_ok_def)

lemma reload_integrity: "ops_ok s \<longrightarrow> ops_ok (snd (reload_after_mutation s))"
  and reload_untouched: "running (snd (reload_after_mutation s)) = running s"
  by (simp_all add: reload_after_mutation_def trigger_reload_def ops_ok_def running_def)

datatype admin_call =
    AddList string create_filter_list_input
  | ChangeList string update_filter_list_input
  | DeleteList string
  | ChangeResolver update_resolver_config_input
  | AddServer create_upstream_server_input
  | ChangeServer string update_upstream_server_input
  | DeleteServer string
  | AddZone create_zone_input
  | ChangeZone string update_zone_input
  | DeleteZone string
  | AddDiscovery create_zone_discovery_input
  | ChangeDiscovery string update_zone_discovery_input
  | DeleteDiscovery string

definition done_op :: "'a operation \<Rightarrow> unit operation" where
  "done_op m = op_bind m (\<lambda>_. op_ok ())"

fun admin_exec :: "(string \<Rightarrow> string + url_parts) \<Rightarrow> admin_call \<Rightarrow> unit operation" where
  "admin_exec parse_url (AddList kind i) = done_op (add_filter_list kind i)"
| "admin_exec parse_url (ChangeList n i) = done_op (update_filter_list n i)"
| "admin_exec parse_url (DeleteList n) = done_op (delete_filter_list n)"
| "admin_exec parse_url (ChangeResolver i) = done_op (update_resolver_config_op i)"
| "admin_exec parse_url (AddServer i) = done_op (add_upstream_server parse_url i)"
| "admin_exec parse_url (ChangeServer n i) = done_op (update_upstream_server parse_url n i)"
| "admin_exec parse_url (DeleteServer n) = done_op (delete_upstream_server n)"
| "admin_exec parse_url (AddZone i) = done_op (add_zone i)"
| "admin_exec parse_url (ChangeZone n i) = done_op (update_zone_op n i)"
| "admin_exec parse_url (DeleteZone n) = done_op (delete_zone_op n)"
| "admin_exec parse_url (AddDiscovery i) = done_op (add_zone_discovery i)"
| "admin_exec parse_url (ChangeDiscovery n i) = done_op (update_zone_discovery n i)"
| "admin_exec parse_url (DeleteDiscovery n) = done_op (delete_zone_discovery n)"

lemma done_op_snd [simp]: "snd (done_op m s) = snd (m s)"
  by (cases "m s"; cases "fst (m s)") (auto simp: done_op_def op_bind_def op_ok_def)

interpretation integrity: admin_relation "\<lambda>s t. ops_ok s \<longrightarrow> ops_ok t"
  by unfold_locales (auto intro!: on_db_integrity db_exec_keeps fresh_id_integrity reload_integrity)

interpretation untouched: admin_relation "\<lambda>s t. running t = running s"
  by unfold_locales (simp_all add: on_db_untouched fresh_id_def reload_untouched)

lemma admin_exec_keeps:
  "ops_ok s \<longrightarrow> ops_ok (snd (admin_exec parse_url c s))" "running (snd (admin_exec parse_url c s)) = running s"
  by (cases c; simp only: admin_exec.simps done_op_snd; rule integrity.operations untouched.operations)+

text \<open>
  Whatever sequence of management calls on lists, servers, zones and settings is carried out, with any input and whether
  or not some of them fail half-way, the constraints of the schema hold, and the running server (its filter, its switch,
  its query log and its zones) stays as it was until the reload handler acts.
\<close>

theorem management_keeps_integrity:
  assumes "ops_ok s"
  shows "ops_ok (fold (\<lambda>c s. snd (admin_exec parse_url c s)) calls s) \<and>
    running (fold (\<lambda>c s. snd (admin_exec parse_url c s)) calls s) = running s"
  using assms
proof (induction calls arbitrary: s)
  case (Cons c calls)
  with admin_exec_keeps [where s = s and parse_url = parse_url and c = c] show ?case by simp
qed simp

subsection \<open>Rejected and accepted changes\<close>

text \<open>The tables, without the generator of identifiers.\<close>

definition tables :: "server_ops \<Rightarrow> database option" where
  "tables s = map_option (\<lambda>db. db\<lparr>db_uuids_used := 0\<rparr>) (so_db s)"

text \<open>The calls that write with a single statement.\<close>

fun one_statement :: "admin_call \<Rightarrow> bool" where
  "one_statement (ChangeResolver _) = False"
| "one_statement (AddZone _) = False"
| "one_statement (ChangeZone _ _) = False"
| "one_statement (AddDiscovery _) = False"
| "one_statement (ChangeDiscovery _ _) = False"
| "one_statement _ = True"

text \<open>A statement that fails leaves the tables as they were.\<close>

lemma failed_statement:
  "filter_lists_create lr db = (Inl e, db') \<Longrightarrow> db' = db" "filter_lists_update lr db = (Inl e, db') \<Longrightarrow> db' = db"
  "create_server ur db = (Inl e, db') \<Longrightarrow> db' = db"
  by (auto simp: filter_lists_create_def filter_lists_update_def create_server_def split: if_splits)

lemma never_fails [simp]:
  "filter_lists_delete i db \<noteq> (Inl e, db')" "update_server ur db \<noteq> (Inl e, db')" "delete_server i db \<noteq> (Inl e, db')"
  "delete_zone i db \<noteq> (Inl e, db')" "discovery_delete i db \<noteq> (Inl e, db')"
  by (simp_all add: filter_lists_delete_def update_server_def delete_server_def delete_zone_def discovery_delete_def)

lemma reload_step: "reload_after_mutation s = (r, s') \<longleftrightarrow>
    r = Inr () \<and> s' = s\<lparr>so_reloads_sent := so_reloads_sent s + (if so_reload_open s then 1 else 0)\<rparr>"
  by (auto simp: reload_after_mutation_def trigger_reload_def)

lemma map_err_eq [simp]:
  "map_err f r = Inl e \<longleftrightarrow> (\<exists>e'. r = Inl e' \<and> e = f e')" "Inl e = map_err f r \<longleftrightarrow> (\<exists>e'. r = Inl e' \<and> e = f e')"
  "Inr a = map_err f r \<longleftrightarrow> r = Inr a"
  by (cases r; auto)+

lemma rejected_list_call:
  "add_filter_list kind cf s = (Inl e, s') \<Longrightarrow> tables s' = tables s"
  "update_filter_list n uf s = (Inl e, s') \<Longrightarrow> tables s' = tables s"
  "delete_filter_list n s = (Inl e, s') \<Longrightarrow> tables s' = tables s"
  by (auto simp: add_filter_list_def update_filter_list_def delete_filter_list_def existing_filter_list_def Let_def
      op_steps reload_step tables_def dest!: failed_statement)

lemma rejected_server_call:
  "add_upstream_server parse_url cu s = (Inl e, s') \<Longrightarrow> tables s' = tables s"
  "update_upstream_server parse_url n uu s = (Inl e, s') \<Longrightarrow> tables s' = tables s"
  "delete_upstream_server n s = (Inl e, s') \<Longrightarrow> tables s' = tables s"
  by (auto simp: add_upstream_server_def update_upstream_server_def delete_upstream_server_def existing_server_def Let_def
      op_steps reload_step tables_def dest!: failed_statement)

lemma rejected_other_call:
  "delete_zone_op n s = (Inl e, s') \<Longrightarrow> tables s' = tables s"
  "delete_zone_discovery n s = (Inl e, s') \<Longrightarrow> tables s' = tables s"
  by (auto simp: delete_zone_op_def existing_zone_def delete_zone_discovery_def existing_discovery_def
      op_steps reload_step tables_def)

text \<open>An operation that announces its success, and only its success, on the reload channel.\<close>

definition announces :: "'a operation \<Rightarrow> bool" where
  "announces m \<longleftrightarrow> (\<forall>s. channel (snd (m s)) =
     (so_reload_open s, so_reloads_sent s + (if \<not> isl (fst (m s)) \<and> so_reload_open s then 1 else 0)))"

lemma announces_end: "announces (op_bind reload_after_mutation (\<lambda>_. op_ok a))"
  by (simp add: announces_def op_bind_def op_ok_def reload_after_mutation_def trigger_reload_def channel_def)

lemma announces_bind:
  assumes "\<And>s. channel (snd (m s)) = channel s" and "\<And>a. announces (f a)"
  shows "announces (op_bind m f)"
  unfolding announces_def
proof (intro allI)
  fix s
  obtain r t where m: "m s = (r, t)" by fastforce
  with assms(1) [of s] have t: "channel t = channel s" by simp
  show "channel (snd (op_bind m f s)) =
     (so_reload_open s, so_reloads_sent s + (if \<not> isl (fst (op_bind m f s)) \<and> so_reload_open s then 1 else 0))"
  proof (cases r)
    case (Inr a)
    with m t assms(2) [of a] show ?thesis by (simp add: op_bind_def announces_def channel_def)
  qed (use m t in \<open>simp add: op_bind_def channel_def\<close>)
qed

lemma fresh_id_quiet: "channel (snd (fresh_id s)) = channel s"
  unfolding fresh_id_def by (rule on_db_quiet)

lemma add_zone_server_quiet: "channel (snd (add_zone_server z p s)) = channel s"
  unfolding add_zone_server_def Let_def split_beta by (intro quiet.compose on_db_quiet fresh_id_quiet)

lemmas quiet_steps = quiet.compose on_db_quiet fresh_id_quiet add_zone_server_quiet

lemma operations_announce:
  "announces (add_filter_list kind cf)" "announces (update_filter_list n uf)" "announces (delete_filter_list n)"
  "announces (update_resolver_config_op uc)" "announces (add_upstream_server parse_url cu)"
  "announces (update_upstream_server parse_url n uu)" "announces (delete_upstream_server n)"
  "announces (add_zone cz)" "announces (delete_zone_op n)"
  "announces (add_zone_discovery cd)" "announces (update_zone_discovery n ud)" "announces (delete_zone_discovery n)"
  unfolding add_filter_list_def update_filter_list_def existing_filter_list_def delete_filter_list_def
    update_resolver_config_op_def get_resolver_config_op_def add_upstream_server_def existing_server_def
    update_upstream_server_def delete_upstream_server_def add_zone_def existing_zone_def delete_zone_op_def
    add_zone_discovery_def existing_discovery_def update_zone_discovery_def delete_zone_discovery_def Let_def
  by (intro announces_end announces_bind quiet_steps)+

lemma update_zone_announces: "announces (update_zone_op n uz)"
  unfolding update_zone_op_def existing_zone_def Let_def
  by (cases "uz_servers uz"; simp only: option.case; intro announces_end announces_bind quiet_steps)

lemma done_op_isl [simp]: "isl (fst (done_op m s)) = isl (fst (m s))"
  by (cases "m s"; cases "fst (m s)") (auto simp: done_op_def op_bind_def op_ok_def)

lemma admin_exec_announces: "announces (admin_exec parse_url c)"
  by (cases c) (simp_all add: announces_def operations_announce [unfolded announces_def]
        update_zone_announces [unfolded announces_def])

lemma done_op_Inl: "done_op m s = (Inl e, s') \<Longrightarrow> m s = (Inl e, s')"
  by (auto simp: done_op_def op_bind_iff op_ok_def)

text \<open>
  C26. A management call that returns an error has sent no reload, and if it writes with a single statement it has
  changed nothing; a call that succeeds sends exactly one reload while the reload handler is running.
\<close>

theorem management_outcome:
  assumes "admin_exec parse_url c s = (r, s')"
  shows "so_reloads_sent s' = so_reloads_sent s + (if \<not> isl r \<and> so_reload_open s then 1 else 0) \<and>
    (isl r \<and> one_statement c \<longrightarrow> tables s' = tables s)"
proof -
  have "channel s' = (so_reload_open s, so_reloads_sent s + (if \<not> isl r \<and> so_reload_open s then 1 else 0))"
    using admin_exec_announces [where parse_url = parse_url and c = c] assms unfolding announces_def by (metis fst_conv snd_conv)
  moreover have "tables s' = tables s" if "isl r" "one_statement c"
  proof -
    obtain e where r: "r = Inl e" using \<open>isl r\<close> by (cases r) auto
    show ?thesis using assms that(2) unfolding r
      by (cases c) (auto dest!: done_op_Inl intro: rejected_list_call rejected_server_call rejected_other_call)
  qed
  ultimately show ?thesis by (simp add: channel_def)
qed

subsection \<open>Filter lists as a map\<close>

text \<open>
  The abstract view of the filter lists: a partial map from names to records. The operations implement
  insertion, replacement and deletion in that map.
\<close>

definition lists_by_name :: "server_ops \<Rightarrow> string \<Rightarrow> filter_list_record option" where
  "lists_by_name s name = Option.bind (so_db s) (\<lambda>db. filter_lists_get_by_name db name)"

lemma changed_filter_list_key:
  "changed_filter_list uf old = Inr r \<Longrightarrow> fl_id r = fl_id old \<and> fl_name r = fl_name old \<and> fl_kind r = fl_kind old"
  by (auto simp: changed_filter_list_def given_def split: option.splits)

lemma add_filter_list_map:
  assumes "add_filter_list kind input s = (Inr r, s')"
  shows "lists_by_name s (cf_name input) = None \<and> lists_by_name s' = (lists_by_name s)(cf_name input \<mapsto> r)"
proof -
  obtain db where db: "so_db s = Some db" "filter_lists_get_by_name db (cf_name input) = None"
    and s': "db_filter_lists (the (so_db s')) = db_filter_lists db @ [r]" "so_db s' \<noteq> None" "fl_name r = cf_name input"
    using assms
    by (auto simp: add_filter_list_def Let_def op_steps reload_step check_input_def filter_lists_create_def
        filter_lists_get_by_name_def split: if_splits)
  obtain db' where db': "so_db s' = Some db'" using s'(2) by blast
  have "lists_by_name s' n = ((lists_by_name s)(cf_name input \<mapsto> r)) n" for n
    using db db' s'(1,3) by (auto simp: lists_by_name_def filter_lists_get_by_name_def find_append_new split: option.splits)
  then show ?thesis using db by (auto simp: lists_by_name_def)
qed

lemma update_filter_list_map:
  assumes "update_filter_list name input s = (Inr r, s')" "ops_ok s"
  shows "\<exists>old. lists_by_name s name = Some old \<and> changed_filter_list input old = Inr r \<and>
    lists_by_name s' = (lists_by_name s)(name \<mapsto> r)"
proof -
  obtain db old where db: "so_db s = Some db" "filter_lists_get_by_name db name = Some old"
    and r: "changed_filter_list input old = Inr r" and u: "filter_lists_update r db = (Inr (), the (so_db s'))" "so_db s' \<noteq> None"
    using assms(1)
    by (auto simp: update_filter_list_def existing_filter_list_def op_steps reload_step)
  have old: "old \<in> set (db_filter_lists db)" "fl_name old = name" using find_SomeD [OF db(2) [unfolded filter_lists_get_by_name_def]] by auto
  have ids: "distinct (map fl_id (db_filter_lists db))" "distinct (map fl_name (db_filter_lists db))"
    using assms(2) db(1) by (auto simp: ops_ok_def db_ok_def lists_ok_def)
  obtain db' where db': "so_db s' = Some db'" using u(2) by blast
  have "list_ex (\<lambda>r'. fl_id r' = fl_id r) (db_filter_lists db)"
    using old(1) changed_filter_list_key [OF r] by (auto simp: list_ex_iff)
  then have new: "db_filter_lists db' = map (\<lambda>r'. if fl_id r' = fl_id r then r else r') (db_filter_lists db)"
    using u(1) unfolding db' by (auto simp: filter_lists_update_def split: if_splits)
  have "lists_by_name s' n = ((lists_by_name s)(name \<mapsto> r)) n" for n
    using find_replaced [OF ids(1) old(1) _ _ ids(2), of r n] changed_filter_list_key [OF r] db db' new old(2)
    by (auto simp: lists_by_name_def filter_lists_get_by_name_def)
  then show ?thesis using db r by (auto simp: lists_by_name_def)
qed

lemma delete_filter_list_map:
  assumes "delete_filter_list name s = (Inr n, s')" "ops_ok s"
  shows "lists_by_name s name \<noteq> None \<and> lists_by_name s' = (lists_by_name s)(name := None)"
proof -
  obtain db old where db: "so_db s = Some db" "filter_lists_get_by_name db name = Some old"
    and s': "so_db s' = Some (db\<lparr>db_filter_lists := filter (\<lambda>r. fl_id r \<noteq> fl_id old) (db_filter_lists db)\<rparr>)"
    using assms(1)
    by (auto simp: delete_filter_list_def existing_filter_list_def op_steps reload_step filter_lists_delete_def)
  have old: "old \<in> set (db_filter_lists db)" "fl_name old = name" using find_SomeD [OF db(2) [unfolded filter_lists_get_by_name_def]] by auto
  have ids: "distinct (map fl_id (db_filter_lists db))" "distinct (map fl_name (db_filter_lists db))"
    using assms(2) db(1) by (auto simp: ops_ok_def db_ok_def lists_ok_def)
  have "lists_by_name s' n = ((lists_by_name s)(name := None)) n" for n
    using find_removed [OF ids(1) old(1) ids(2), of n] db s' old(2)
    by (auto simp: lists_by_name_def filter_lists_get_by_name_def)
  then show ?thesis using db by (auto simp: lists_by_name_def)
qed


subsection \<open>Zones as a map\<close>

definition zones_by_name :: "server_ops \<Rightarrow> string \<Rightarrow> zone_record_row option" where
  "zones_by_name s name = Option.bind (so_db s) (\<lambda>db. get_by_zone db name)"

text \<open>A server of a zone as it was given: switches that are not given are on.\<close>

definition server_as_given :: "create_zone_server_input \<Rightarrow> zone_server_record \<Rightarrow> bool" where
  "server_as_given c v \<longleftrightarrow>
     zv_protocol v = cv_protocol c \<and> zv_address v = cv_address c \<and> zv_enabled v = (cv_enabled c \<noteq> Some False) \<and>
     zv_auth_token v = Option.bind (cv_authentication c) za_token \<and>
     zv_auth_username v = Option.bind (cv_authentication c) za_username \<and>
     zv_auth_password v = Option.bind (cv_authentication c) za_password \<and>
     zv_check_interval v = cv_check_interval c \<and> zv_dnssec v = (cv_dnssec c \<noteq> Some False)"

lemma add_zone_server_row:
  assumes "add_zone_server zone_id (i, c) s = (Inr v, s')" and "so_db s = Some db"
  shows "\<exists>db'. so_db s' = Some db' \<and> db_zones db' = db_zones db \<and> db_zone_servers db' = db_zone_servers db @ [v] \<and>
    server_as_given c v \<and> zv_sort_order v = int i \<and> zv_zone_id v = zone_id"
  using assms
  by (cases "cv_enabled c"; cases "cv_dnssec c")
    (auto simp: add_zone_server_def op_steps Let_def create_zone_server_def server_as_given_def unwrap_or_def auth_field_def
      split: if_splits)

lemma add_zone_servers_rows:
  assumes "op_each (add_zone_server zone_id) (enumerate i cs) s = (Inr vs, s')" and "so_db s = Some db"
  shows "\<exists>db'. so_db s' = Some db' \<and> db_zones db' = db_zones db \<and> db_zone_servers db' = db_zone_servers db @ vs \<and>
    list_all2 server_as_given cs vs \<and> map zv_sort_order vs = map int [i..<i + length cs] \<and> (\<forall>v\<in>set vs. zv_zone_id v = zone_id)"
  using assms
proof (induction cs arbitrary: i s db vs)
  case (Cons c cs)
  obtain v t ws where one: "add_zone_server zone_id (i, c) s = (Inr v, t)"
    and more: "op_each (add_zone_server zone_id) (enumerate (Suc i) cs) t = (Inr ws, s')" and vs: "vs = v # ws"
    using Cons.prems(1) by (auto simp: op_bind_iff op_ok_def)
  from add_zone_server_row [OF one Cons.prems(2)] obtain db1 where db1: "so_db t = Some db1" "db_zones db1 = db_zones db"
    "db_zone_servers db1 = db_zone_servers db @ [v]" "server_as_given c v" "zv_sort_order v = int i" "zv_zone_id v = zone_id" by blast
  have "[i..<i + length (c # cs)] = i # [Suc i..<Suc i + length cs]" by (simp add: upt_conv_Cons del: upt_Suc)
  with Cons.IH [OF more db1(1)] show ?case using db1 vs by (auto simp del: upt_Suc)
qed (auto simp: op_ok_def)

text \<open>The new servers of a zone that had none are read back in the order given.\<close>

lemma servers_read_back:
  assumes "db_zone_servers db' = db_zone_servers db @ vs" and "servers_of zone_id db = []"
    and "map zv_sort_order vs = map int [i..<i + n]" and "\<forall>v\<in>set vs. zv_zone_id v = zone_id"
  shows "servers_of ident db' = (if ident = zone_id then vs else servers_of ident db)"
proof -
  let ?key = "\<lambda>v. (zv_sort_order v, zv_id v)"
  have none: "filter (\<lambda>v. zv_zone_id v = zone_id) (db_zone_servers db) = []"
    using assms(2) unfolding servers_of_def by (metis length_0_conv length_sort)
  have "sorted (map ?key vs)"
  proof -
    have "sorted_wrt (<) (map zv_sort_order vs)" unfolding assms(3) by (simp add: sorted_wrt_map)
    then have "sorted_wrt (\<lambda>v w. zv_sort_order v < zv_sort_order w) vs" by (simp add: sorted_wrt_map)
    then have "sorted_wrt (\<lambda>v w. ?key v \<le> ?key w) vs" by (rule sorted_wrt_mono_rel [rotated]) simp
    then show ?thesis by (simp add: sorted_map)
  qed
  then have sorted: "in_order vs = vs" by (rule sort_key_id_if_sorted)
  have "filter (\<lambda>v. zv_zone_id v = zone_id) vs = vs" "ident \<noteq> zone_id \<Longrightarrow> filter (\<lambda>v. zv_zone_id v = ident) vs = []"
    using assms(4) by (auto simp: filter_id_conv filter_empty_conv)
  then show ?thesis using none sorted by (auto simp: servers_of_def assms(1))
qed

lemma stored_with_servers:
  assumes "get_by_zone db name = Some row" and "zo_servers row = []" and "db_zones db' = db_zones db" and "db_ok db"
    and "db_zone_servers db' = db_zone_servers db @ vs" and "map zv_sort_order vs = map int [i..<i + n]"
    and "\<forall>v\<in>set vs. zv_zone_id v = zo_id row"
  shows "get_by_zone db' = (get_by_zone db)(name \<mapsto> row\<lparr>zo_servers := vs\<rparr>)"
proof -
  obtain z where z: "z \<in> set (db_zones db)" "zo_zone z = name" "zo_id z = zo_id row" "row = z\<lparr>zo_servers := servers_of (zo_id z) db\<rparr>"
    by (rule get_by_zone_row [OF assms(1)])
  have none: "servers_of (zo_id z) db = []" using z(4) assms(2) by (metis zone_record_row.select_convs(7) zone_record_row.surjective zone_record_row.update_convs(7))
  have ids: "distinct (map zo_id (db_zones db))" "distinct (map zo_zone (db_zones db))"
    using assms(4) by (auto simp: db_ok_def zones_ok_def)
  have servers: "servers_of ident db' = (if ident = zo_id z then vs else servers_of ident db)" for ident
    using servers_read_back [OF assms(5) none assms(6)] assms(7) z(3) by simp
  have found: "find (\<lambda>y. zo_zone y = name) (db_zones db) = Some z" using find_unique [OF ids(2) z(1)] z(2) by simp
  note other = other_zone [OF ids(1) z(1), unfolded z(2)]
  have "get_by_zone db' n = ((get_by_zone db)(name \<mapsto> row\<lparr>zo_servers := vs\<rparr>)) n" for n
    using other [of n] found z(4) unfolding get_by_zone_eq assms(3) servers
    by (cases "find (\<lambda>y. zo_zone y = n) (db_zones db)") auto
  then show ?thesis by blast
qed

lemma db_step_ok: "ops_ok s \<Longrightarrow> so_db s = Some db \<Longrightarrow> db_ok db"
  by (simp add: ops_ok_def)

lemma add_zone_map:
  assumes "add_zone input s = (Inr r, s')" and "ops_ok s"
  shows "zones_by_name s (cz_zone input) = None \<and> zones_by_name s' = (zones_by_name s)(cz_zone input \<mapsto> r) \<and>
    zo_zone r = cz_zone input \<and> zo_enabled r = (cz_enabled input \<noteq> Some False) \<and>
    zo_bypass_filter r = (cz_bypass_filter input = Some True) \<and>
    zo_fallback_to_default_resolvers r = (cz_fallback_to_default_resolvers input = Some True) \<and>
    zo_strategy r = cz_strategy input \<and> list_all2 server_as_given (unwrap_or (cz_servers input) []) (zo_servers r)"
proof -
  let ?cs = "unwrap_or (cz_servers input) []"
  obtain db where db: "so_db s = Some db" and free: "get_by_zone db (cz_zone input) = None"
    using assms(1) by (auto simp: add_zone_def op_steps check_input_def split: if_splits)
  define db1 where "db1 = db\<lparr>db_uuids_used := Suc (db_uuids_used db)\<rparr>"
  define z where "z = \<lparr>zo_id = db_uuid db (db_uuids_used db), zo_zone = cz_zone input, zo_enabled = unwrap_or (cz_enabled input) True,
      zo_bypass_filter = unwrap_or (cz_bypass_filter input) False,
      zo_fallback_to_default_resolvers = unwrap_or (cz_fallback_to_default_resolvers input) False,
      zo_strategy = cz_strategy input, zo_servers = []\<rparr>"
  obtain db2 vs u where create: "create_zone z db1 = (Inr (), db2)"
    and each: "op_each (add_zone_server (zo_id z)) (enumerate 0 ?cs) (s\<lparr>so_db := Some db2\<rparr>) = (Inr vs, u)"
    and u: "so_db s' = so_db u" and r: "r = z\<lparr>zo_servers := vs\<rparr>"
    using assms(1) db
    by (auto simp: add_zone_def op_steps check_input_def Let_def reload_step z_def db1_def split: if_splits)
  have t: "so_db (s\<lparr>so_db := Some db2\<rparr>) = Some db2" by simp
  have ok1: "db_ok db1" using db_step_ok [OF assms(2) db] by (simp add: db1_def db_ok_def)
  have same1: "get_by_zone db1 = get_by_zone db" by (simp add: db1_def get_by_zone_def fun_eq_iff split: option.split)
  have ok2: "db_ok db2" using zone_calls_keep(1) [OF ok1, of z] create by simp
  note made = create_zone_map [OF ok1 create]
  from add_zone_servers_rows [OF each t] obtain db3 where db3: "so_db u = Some db3" "db_zones db3 = db_zones db2"
    "db_zone_servers db3 = db_zone_servers db2 @ vs" "list_all2 server_as_given ?cs vs"
    "map zv_sort_order vs = map int [0..<0 + length ?cs]" "\<forall>v\<in>set vs. zv_zone_id v = zo_id z" by blast
  have row: "get_by_zone db2 (cz_zone input) = Some z" using made by (simp add: z_def)
  have "get_by_zone db3 = (get_by_zone db2)(cz_zone input \<mapsto> z\<lparr>zo_servers := vs\<rparr>)"
    by (rule stored_with_servers [OF row _ db3(2) ok2 db3(3,5,6)]) (simp add: z_def)
  then have "get_by_zone db3 = (get_by_zone db)(cz_zone input \<mapsto> r)" using made same1 r by (simp add: z_def)
  then have "zones_by_name s' = (zones_by_name s)(cz_zone input \<mapsto> r)"
    using db db3(1) u by (auto simp: zones_by_name_def fun_eq_iff)
  then show ?thesis using db free db3(4) r
    by (auto simp: zones_by_name_def z_def unwrap_or_def split: option.splits)
qed

text \<open>The row of a zone after a change: what is not given stays.\<close>

definition changed_zone :: "update_zone_input \<Rightarrow> zone_record_row \<Rightarrow> zone_record_row" where
  "changed_zone input old = old
     \<lparr>zo_enabled := unwrap_or (uz_enabled input) (zo_enabled old),
      zo_bypass_filter := unwrap_or (uz_bypass_filter input) (zo_bypass_filter old),
      zo_fallback_to_default_resolvers :=
        unwrap_or (uz_fallback_to_default_resolvers input) (zo_fallback_to_default_resolvers old),
      zo_strategy := (case uz_strategy input of None \<Rightarrow> zo_strategy old | Some s \<Rightarrow> Some s)\<rparr>"

lemma update_zone_op_map:
  assumes "update_zone_op name input s = (Inr r, s')" and "ops_ok s"
  shows "\<exists>old. zones_by_name s name = Some old \<and> zones_by_name s' = (zones_by_name s)(name \<mapsto> r) \<and>
    zo_servers r = (case uz_servers input of None \<Rightarrow> zo_servers old | Some _ \<Rightarrow> zo_servers r) \<and>
    (case uz_servers input of None \<Rightarrow> True | Some cs \<Rightarrow> list_all2 server_as_given cs (zo_servers r)) \<and>
    r\<lparr>zo_servers := []\<rparr> = (changed_zone input old)\<lparr>zo_servers := []\<rparr>"
proof -
  obtain db old where db: "so_db s = Some db" and old: "get_by_zone db name = Some old"
    using assms(1) by (auto simp: update_zone_op_def existing_zone_def op_steps)
  let ?z = "changed_zone input old"
  have z: "zo_id ?z = zo_id old" "zo_servers ?z = zo_servers old" "zo_zone ?z = zo_zone old" by (simp_all add: changed_zone_def)
  have name: "zo_zone old = name" using get_by_zone_row [OF old] by (metis zone_record_row.select_convs(2) zone_record_row.surjective zone_record_row.update_convs(7))
  let ?servers = "case uz_servers input of None \<Rightarrow> op_ok ?z | Some servers \<Rightarrow>
      op_bind (on_db (delete_zone_servers (zo_id ?z))) (\<lambda>_.
      op_bind (op_each (add_zone_server (zo_id ?z)) (enumerate 0 servers)) (\<lambda>vs. op_ok (?z\<lparr>zo_servers := vs\<rparr>)))"
  have "existing_zone name s = (Inr old, s)" using db old by (simp add: existing_zone_def op_bind_def repos_def op_check_def)
  then have "op_bind (on_db (update_zone ?z)) (\<lambda>_. op_bind ?servers (\<lambda>record. op_bind reload_after_mutation (\<lambda>_. op_ok record))) s = (Inr r, s')"
    using assms(1) unfolding update_zone_op_def changed_zone_def Let_def by (simp only: op_bind_def [of "existing_zone name"] prod.case sum.case)
  then obtain db1 where upd: "update_zone ?z db = (Inr (), db1)"
    and "op_bind ?servers (\<lambda>record. op_bind reload_after_mutation (\<lambda>_. op_ok record)) (s\<lparr>so_db := Some db1\<rparr>) = (Inr r, s')"
    by (auto simp: op_bind_iff [of "on_db _"] on_db_iff db)
  then obtain u where run: "?servers (s\<lparr>so_db := Some db1\<rparr>) = (Inr r, u)" and u: "so_db s' = so_db u"
    by (auto simp: op_bind_iff [of ?servers] op_bind_iff [of reload_after_mutation] op_ok_def reload_step)
  note ok = db_step_ok [OF assms(2) db]
  have ok1: "db_ok db1" using zone_calls_keep(2) [OF ok, of ?z] upd by simp
  have map1: "get_by_zone db1 = (get_by_zone db)(name \<mapsto> ?z)"
    using update_zone_map [OF ok upd old] z name by (simp add: fun_upd_idem_iff changed_zone_def)
  show ?thesis
  proof (cases "uz_servers input")
    case None
    then have "r = ?z" "so_db s' = Some db1" using run u by (auto simp: op_ok_def)
    then have "zones_by_name s' = (zones_by_name s)(name \<mapsto> r)" using db map1 by (auto simp: zones_by_name_def fun_eq_iff)
    then show ?thesis using db old None \<open>r = ?z\<close> z(2) by (auto simp: zones_by_name_def)
  next
    case (Some cs)
    obtain db2 vs where del: "delete_zone_servers (zo_id ?z) db1 = (Inr (), db2)"
      and each: "op_each (add_zone_server (zo_id ?z)) (enumerate 0 cs) (s\<lparr>so_db := Some db2\<rparr>) = (Inr vs, u)"
      and r: "r = ?z\<lparr>zo_servers := vs\<rparr>"
      using run Some by (auto simp: op_bind_iff on_db_iff op_ok_def)
    have v: "so_db (s\<lparr>so_db := Some db2\<rparr>) = Some db2" by simp
    have row1: "get_by_zone db1 name = Some ?z" using map1 by simp
    have map2: "get_by_zone db2 = (get_by_zone db1)(name \<mapsto> ?z\<lparr>zo_servers := []\<rparr>)"
      by (rule delete_zone_servers_map [OF ok1 row1 del])
    have ok2: "db_ok db2" using zone_calls_keep(5) [OF ok1, of "zo_id ?z"] del by simp
    from add_zone_servers_rows [OF each v] obtain db3 where db3: "so_db u = Some db3" "db_zones db3 = db_zones db2"
      "db_zone_servers db3 = db_zone_servers db2 @ vs" "list_all2 server_as_given cs vs"
      "map zv_sort_order vs = map int [0..<0 + length cs]" "\<forall>v\<in>set vs. zv_zone_id v = zo_id ?z" by blast
    have row2: "get_by_zone db2 name = Some (?z\<lparr>zo_servers := []\<rparr>)" using map2 by simp
    have "get_by_zone db3 = (get_by_zone db2)(name \<mapsto> (?z\<lparr>zo_servers := []\<rparr>)\<lparr>zo_servers := vs\<rparr>)"
      by (rule stored_with_servers [OF row2 _ db3(2) ok2 db3(3,5)]) (use db3(6) in simp_all)
    then have "zones_by_name s' = (zones_by_name s)(name \<mapsto> r)"
      using db db3(1) u map1 map2 r by (auto simp: zones_by_name_def fun_eq_iff)
    then show ?thesis using db old Some db3(4) r by (auto simp: zones_by_name_def)
  qed
qed

lemma delete_zone_op_map:
  assumes "delete_zone_op name s = (Inr n, s')" and "ops_ok s"
  shows "zones_by_name s name \<noteq> None \<and> zones_by_name s' = (zones_by_name s)(name := None)"
proof -
  obtain db old db' where db: "so_db s = Some db" and old: "get_by_zone db name = Some old"
    and del: "delete_zone (zo_id old) db = (Inr (), db')" and s': "so_db s' = Some db'"
    using assms(1) by (auto simp: delete_zone_op_def existing_zone_def op_steps reload_step)
  have "get_by_zone db' = (get_by_zone db)(name := None)" by (rule delete_zone_map [OF db_step_ok [OF assms(2) db] old del])
  then show ?thesis using db old s' by (auto simp: zones_by_name_def fun_eq_iff)
qed


subsection \<open>Instances and consequences\<close>

text \<open>A server that was just installed: no lists, the database as the migrations leave it.\<close>

definition new_server :: server_ops where
  "new_server =
     \<lparr>so_domain_filter = engine_new 0 0 [], so_filtering_enabled = True, so_query_log = None, so_reload_open = True,
      so_reloads_sent = 0, so_start_time = 0, so_zone_registry = None,
      so_db = Some (initial_database example_uuid)\<rparr>"

lemma new_server_ok: "ops_ok new_server"
  by (simp add: ops_ok_def new_server_def initial_database_ok)

definition ads_input :: create_filter_list_input where
  "ads_input = \<lparr>cf_name = ''ads'', cf_url = ''https://lists.example/ads'', cf_interval = None, cf_enabled = None,
     cf_list_type = None\<rparr>"

definition no_url :: "string \<Rightarrow> string + url_parts" where
  "no_url s = Inl ''relative URL without a base''"

theorem management_keeps_integrity_witness:
  "ops_ok (fold (\<lambda>c s. snd (admin_exec no_url c s)) [AddList ''block'' ads_input, AddList ''allow'' ads_input, DeleteList ''x'']
     new_server) \<and>
   fst (admin_exec no_url (AddList ''block'' ads_input) new_server) = Inr ()"
proof -
  have "fst (admin_exec no_url (AddList ''block'' ads_input) new_server) = Inr ()" unfolding admin_exec.simps by code_simp
  with management_keeps_integrity [OF new_server_ok] show ?thesis by blast
qed

definition lan_server :: create_zone_server_input where
  "lan_server = \<lparr>cv_enabled = None, cv_protocol = ''dns'', cv_address = ''192.0.2.1'', cv_authentication = None,
     cv_check_interval = None, cv_max_hops = None, cv_nameserver_ip_family = None, cv_root_hints_path = None,
     cv_root_key_path = None, cv_dnssec = None\<rparr>"

definition lan_input :: create_zone_input where
  "lan_input = \<lparr>cz_zone = ''lan'', cz_enabled = None, cz_bypass_filter = Some True, cz_fallback_to_default_resolvers = None,
     cz_strategy = None, cz_servers = Some [lan_server, lan_server\<lparr>cv_address := ''192.0.2.2''\<rparr>]\<rparr>"


theorem management_outcome_witness:
  "fst (admin_exec no_url (DeleteList ''x'') new_server) = Inl (NotFound (''filter list '' @ quoted ''x'' @ '' not found'')) \<and>
   so_reloads_sent (snd (admin_exec no_url (DeleteList ''x'') new_server)) = 0 \<and>
   tables (snd (admin_exec no_url (DeleteList ''x'') new_server)) = tables new_server"
proof -
  let ?r = "admin_exec no_url (DeleteList ''x'') new_server"
  have r: "fst ?r = Inl (NotFound (''filter list '' @ quoted ''x'' @ '' not found''))" unfolding admin_exec.simps by code_simp
  have "?r = (fst ?r, snd ?r)" by (rule prod.collapse [symmetric])
  from management_outcome [OF this] r have "so_reloads_sent (snd ?r) = so_reloads_sent new_server"
    "tables (snd ?r) = tables new_server" by (simp_all del: admin_exec.simps add: admin_exec.simps(3) [symmetric])
  moreover have "so_reloads_sent new_server = 0" by (simp add: new_server_def)
  ultimately show ?thesis using r by (simp del: admin_exec.simps)
qed


text \<open>
  Input that the operations accept although the server cannot be built from it any more: a name as the address of a
  plain server, and a negative interval.
\<close>

definition named_server_input :: create_upstream_server_input where
  "named_server_input = \<lparr>cu_enabled = None, cu_protocol = ''dns'', cu_address = ''resolver'', cu_authentication = None,
     cu_max_hops = None, cu_nameserver_ip_family = None, cu_root_hints_path = None, cu_root_key_path = None,
     cu_dnssec = None, cu_bind_address = None, cu_fwmark = None, cu_sort_order = None\<rparr>"

text \<open>The configuration that is loaded when nothing but the defaults is in the database.\<close>

lemma default_cache_settings_loaded:
  assumes "get_resolver_config db = \<lparr>rr_strategy = ''round_robin'', rr_bootstrap_resolvers = [''1.1.1.1''],
       rr_dns_cache_enabled = True, rr_dns_cache_min_ttl_seconds = None, rr_dns_cache_max_ttl_seconds = None\<rparr>"
  shows "build_resolver_cache_settings (loaded_config config db) =
      Inr \<lparr>cs_enabled = True, cs_min_ttl = None, cs_max_ttl = None, cs_max_entries = cs_max_entries default_cache_settings\<rparr>"
  using assms
  by (simp add: build_resolver_cache_settings_def loaded_config_def Let_def parse_ttl_def cache_settings_validate_def)

theorem accepted_server_breaks_reload:
  assumes "cfg_outbound config = None"
  shows "\<exists>r s' db. add_upstream_server no_url named_server_input new_server = (Inr r, s') \<and> so_db s' = Some db \<and>
     build_upstream_resolver E (loaded_config config db) = Inl (InvalidDnsAddress ''resolver'')"
proof -
  let ?r = "add_upstream_server no_url named_server_input new_server"
  define db where "db = the (so_db (snd ?r))"
  have ok: "\<not> isl (fst ?r)" "so_db (snd ?r) \<noteq> None" by code_simp+
  have resolver: "get_resolver_config db =
      \<lparr>rr_strategy = ''round_robin'', rr_bootstrap_resolvers = [''1.1.1.1''], rr_dns_cache_enabled = True,
       rr_dns_cache_min_ttl_seconds = None, rr_dns_cache_max_ttl_seconds = None\<rparr>"
    unfolding db_def by code_simp
  have servers: "map upstream_server_of_record (get_all_servers db) =
      [\<lparr>us_enabled = True, us_protocol = ''dns'', us_address = ''resolver'', us_authentication = None, us_max_hops = None,
        us_nameserver_ip_family = None, us_root_hints_path = None, us_root_key_path = None, us_dnssec = Some True,
        us_bind_address = None, us_fwmark = None\<rparr>]"
    unfolding db_def by code_simp
  have addr: "parse_dns_address ''resolver'' = Inl (InvalidDnsAddress ''resolver'')" by code_simp
  have "build_upstream_resolver E (loaded_config config db) = Inl (InvalidDnsAddress ''resolver'')"
    unfolding build_upstream_resolver_def default_cache_settings_loaded [OF resolver] res_bind.simps
    using addr assms
    by (simp add: loaded_config_def Let_def resolver servers build_upstream_resolver_group_def strategy_from_str_def
        needs_bootstrap_def build_single_upstream_resolver_def server_routing_def build_plain_upstream_resolver_def)
  moreover obtain r where "?r = (Inr r, snd ?r)" using ok(1) by (cases ?r; cases "fst ?r") auto
  ultimately show ?thesis using ok(2) unfolding db_def by (metis option.exhaust_sel)
qed

theorem negative_interval_breaks_reload:
  "\<exists>r s' db. add_filter_list ''block'' (ads_input\<lparr>cf_interval := Some ''-5m''\<rparr>) new_server = (Inr r, s') \<and>
     so_db s' = Some db \<and>
     build_domain_filter_with_cache J (loaded_config config db) repo c ms = Inl (ListInterval ''ads'' ''-300s'')"
proof -
  let ?r = "add_filter_list ''block'' (ads_input\<lparr>cf_interval := Some ''-5m''\<rparr>) new_server"
  define db where "db = the (so_db (snd ?r))"
  have ok: "\<not> isl (fst ?r)" "so_db (snd ?r) \<noteq> None" by code_simp+
  have lists: "map named_list_of_record (filter (\<lambda>r. fl_kind r = ''block'') (filter_lists_get_all db)) =
      [\<lparr>nl_name = ''ads'', nl_url = ''https://lists.example/ads'', nl_interval = Some ''-300s'', nl_enabled = Some True,
        nl_list_type = Some ''adguard''\<rparr>]"
    unfolding db_def by code_simp
  have "isl (parse_interval ''-300s'')" by code_simp
  then have "build_domain_filter_with_cache J (loaded_config config db) repo c ms = Inl (ListInterval ''ads'' ''-300s'')"
    by (cases "parse_interval ''-300s''")
      (auto simp: build_domain_filter_with_cache_def loaded_config_def Let_def lists check_list_interval_def)
  moreover obtain r where "?r = (Inr r, snd ?r)" using ok(1) by (cases ?r; cases "fst ?r") auto
  ultimately show ?thesis using ok(2) unfolding db_def by (metis option.exhaust_sel)
qed

text \<open>
  A zone whose server has an unknown protocol is refused, but the zone itself stays behind without a server, and
  the zones cannot be built any more. A change of the bootstrap resolvers with a repeated address is refused with
  half of it done.
\<close>

definition bad_zone_input :: create_zone_input where
  "bad_zone_input = \<lparr>cz_zone = ''lan'', cz_enabled = None, cz_bypass_filter = None, cz_fallback_to_default_resolvers = None,
     cz_strategy = None, cz_servers = Some [\<lparr>cv_enabled = None, cv_protocol = ''udp'', cv_address = ''10.0.0.1:53'',
       cv_authentication = None, cv_check_interval = None, cv_max_hops = None, cv_nameserver_ip_family = None,
       cv_root_hints_path = None, cv_root_key_path = None, cv_dnssec = None\<rparr>]\<rparr>"

theorem rejected_zone_breaks_reload:
  "\<exists>e s' db. add_zone bad_zone_input new_server = (Inl (InvalidInput e), s') \<and> so_db s' = Some db \<and>
     build_zone_entries E (loaded_config config db) = Inl (ZoneNoServers ''lan'')"
proof -
  let ?r = "add_zone bad_zone_input new_server"
  define db where "db = the (so_db (snd ?r))"
  have ok: "(case fst ?r of Inl (InvalidInput e) \<Rightarrow> True | _ \<Rightarrow> False)" "so_db (snd ?r) \<noteq> None" by code_simp+
  have resolver: "get_resolver_config db =
      \<lparr>rr_strategy = ''round_robin'', rr_bootstrap_resolvers = [''1.1.1.1''], rr_dns_cache_enabled = True,
       rr_dns_cache_min_ttl_seconds = None, rr_dns_cache_max_ttl_seconds = None\<rparr>"
    unfolding db_def by code_simp
  have zones: "map zone_of_record (get_all_with_servers db) =
      [\<lparr>rz_zone = ''lan'', rz_enabled = True, rz_bypass_filter = False, rz_fallback_to_default_resolvers = False,
        rz_strategy = None, rz_servers = []\<rparr>]"
    unfolding db_def by code_simp
  have "build_zone_entries E (loaded_config config db) = Inl (ZoneNoServers ''lan'')"
    unfolding build_zone_entries_def default_cache_settings_loaded [OF resolver] res_bind.simps
    by (simp add: loaded_config_def Let_def zones build_zone_entry_def)
  moreover obtain e where "?r = (Inl (InvalidInput e), snd ?r)"
    using ok(1) by (cases ?r) (auto split: sum.splits server_operation_error.splits)
  ultimately show ?thesis using ok(2) unfolding db_def by (metis option.exhaust_sel)
qed

theorem repeated_bootstrap_half_applied:
  "case update_resolver_config_op \<lparr>uc_strategy = Some ''failover'', uc_bootstrap_resolvers = Some [''9.9.9.9'', ''9.9.9.9''],
       uc_dns_cache_enabled = None, uc_dns_cache_min_ttl = None, uc_dns_cache_max_ttl = None\<rparr> new_server of
     (r, s') \<Rightarrow> r = Inl (DatabaseFailed (UniqueViolation ''bootstrap_resolvers.address'')) \<and>
       map_option db_strategy (so_db s') = Some ''failover'' \<and>
       map_option (\<lambda>db. rr_bootstrap_resolvers (get_resolver_config db)) (so_db s') = Some [''9.9.9.9'']"
  by code_simp

end
