(* ===== verification/HttpApi.thy ===== *)
theory HttpApi
  imports ServerOperations
begin

unbundle bit_operations_syntax

text \<open>
  The HTTP management interface: the bearer-token check of
  \<open>src/interface_adapters/listeners/auth.rs\<close>, the routes and handlers of \<open>listeners/http.rs\<close>, and the
  administration pages and the redirection to HTTPS of \<open>listeners/admin.rs\<close>.

  A handler is a step on \<open>api_state\<close>: the management operations, the shutdown token and the refresh tasks that
  have been started. The web framework is the parameter \<open>http_lib\<close>: the matching of a route pattern (with at
  most one parameter, whose decoded value it returns), its own responses, the extraction of JSON inputs and the
  JSON text of results. The effect of every request is described by \<open>has_effect\<close>, the contract of a management
  interface (locale \<open>management_interface\<close>), which the MCP server implements too.
\<close>

subsection \<open>Authentication\<close>

definition as_bytes :: "string \<Rightarrow> bytes" where
  "as_bytes = map (\<lambda>c. of_nat (of_char c))"

definition constant_time_eq :: "bytes \<Rightarrow> bytes \<Rightarrow> bool" where
  "constant_time_eq a b =
     (if length a \<noteq> length b then False
      else fold (\<lambda>(x, y) acc. acc OR (x XOR y)) (zip a b) 0 = 0)"

lemma fold_or_zero:
  "fold (\<lambda>(x, y) acc. acc OR (x XOR y)) ps (acc :: u8) = 0 \<longleftrightarrow> acc = 0 \<and> (\<forall>(x, y)\<in>set ps. x = y)"
proof (induction ps arbitrary: acc)
  case (Cons p ps)
  obtain x y where p: "p = (x, y)" by fastforce
  have "acc OR (x XOR y) = 0 \<longleftrightarrow> acc = 0 \<and> x = y"
    by (auto simp: bit_eq_iff bit_simps)
  with Cons.IH [of "acc OR (x XOR y)"] p show ?case by auto
qed simp

lemma constant_time_eq_iff: "constant_time_eq a b \<longleftrightarrow> a = b"
  by (auto simp: constant_time_eq_def fold_or_zero list_eq_iff_nth_eq set_zip)

lemma as_bytes_inj: "as_bytes a = as_bytes b \<longleftrightarrow> a = b"
proof -
  have "unat (of_nat (of_char c :: nat) :: u8) = of_char c" for c
    by (simp add: unat_of_nat)
  then have "inj (\<lambda>c. of_nat (of_char c) :: u8)" by (metis (mono_tags, lifting) injI of_char_eq_iff)
  then show ?thesis unfolding as_bytes_def by (simp add: inj_eq)
qed

subsection \<open>Requests, responses, the web framework\<close>

datatype http_method = MGet | MPost | MPut | MDelete | MHead | MOptions | MOther string

record http_request =
  hq_method :: http_method
  hq_path :: string
  hq_authorization :: "string option"
  hq_host :: "string option"
  hq_body :: string

datatype api_data =
    DHealth health_result
  | DReload string string
  | DStop string string
  | DToggle bool string
  | DStatus bool
  | DLists "list_info list"
  | DRefresh string string
  | DRefreshAll "string list"
  | DListAction string bool
  | DStats stats_result
  | DQueryLog nat nat "query_log_entry list"
  | DFilterLists "filter_list_record list"
  | DFilterList filter_list_record
  | DDelete string
  | DResolver resolver_config_record
  | DServers "upstream_server_record list"
  | DServer upstream_server_record
  | DZones "zone_record_row list"
  | DZone zone_record_row
  | DDiscoveries "zone_discovery_record list"
  | DDiscovery zone_discovery_record

datatype http_body = ApiBody bool "api_data option" "string option" u64 | AuthBody bool string | TextBody string

record http_response =
  hs_status :: nat
  hs_location :: "string option"
  hs_body :: http_body

datatype cors_origins = AnyOrigin | Origins "string list"

record cors_layer =
  co_origins :: cors_origins
  co_methods :: "http_method list"
  co_headers :: "string list"

text \<open>
  The web framework and the serializers: the value of the parameter of a route pattern that a path matches (the empty
  string for a pattern without one), the text of a header value, the answers the framework gives itself, which origins
  are valid header values, the answer to a cross-origin preflight request, and the JSON inputs or the framework's
  rejection of a body.
\<close>

record http_lib =
  hl_match :: "string \<Rightarrow> string \<Rightarrow> string option"
  hl_to_str :: "string \<Rightarrow> string option"
  hl_unmatched :: "http_request \<Rightarrow> http_response"
  hl_method_not_allowed :: "http_request \<Rightarrow> http_response"
  hl_origin_ok :: "string \<Rightarrow> bool"
  hl_preflight :: "cors_layer \<Rightarrow> http_request \<Rightarrow> http_response option"
  hl_openapi :: string
  hl_health_json :: "health_result \<Rightarrow> string"
  hl_show_db :: "db_error \<Rightarrow> string"
  hl_create_list :: "string \<Rightarrow> http_response + create_filter_list_input"
  hl_update_list :: "string \<Rightarrow> http_response + update_filter_list_input"
  hl_update_resolver :: "string \<Rightarrow> http_response + update_resolver_config_input"
  hl_create_server :: "string \<Rightarrow> http_response + create_upstream_server_input"
  hl_update_server :: "string \<Rightarrow> http_response + update_upstream_server_input"
  hl_create_zone :: "string \<Rightarrow> http_response + create_zone_input"
  hl_update_zone :: "string \<Rightarrow> http_response + update_zone_input"
  hl_create_discovery :: "string \<Rightarrow> http_response + create_zone_discovery_input"
  hl_update_discovery :: "string \<Rightarrow> http_response + update_zone_discovery_input"

text \<open>What does not change while the server runs, and what a request sees of the clock and the counters.\<close>

record http_env =
  he_lib :: http_lib
  he_parse_url :: "string \<Rightarrow> string + url_parts"
  he_version :: string

record moment =
  mo_now :: u64
  mo_metrics :: "metrics_state option"

record api_state =
  as_ops :: server_ops
  as_shutdown :: bool
  as_tasks :: "list_runtime list"

subsection \<open>Responses\<close>

definition json_with :: "nat \<Rightarrow> moment \<Rightarrow> api_data \<Rightarrow> http_response" where
  "json_with status mo data =
     \<lparr>hs_status = status, hs_location = None, hs_body = ApiBody True (Some data) None (mo_now mo)\<rparr>"

definition json_ok :: "moment \<Rightarrow> api_data \<Rightarrow> http_response" where
  "json_ok = json_with 200"

definition json_created :: "moment \<Rightarrow> api_data \<Rightarrow> http_response" where
  "json_created = json_with 201"

definition json_error :: "moment \<Rightarrow> nat \<Rightarrow> string \<Rightarrow> http_response" where
  "json_error mo status message =
     \<lparr>hs_status = status, hs_location = None, hs_body = ApiBody False None (Some message) (mo_now mo)\<rparr>"

definition auth_error :: "nat \<Rightarrow> string \<Rightarrow> http_response" where
  "auth_error status message = \<lparr>hs_status = status, hs_location = None, hs_body = AuthBody False message\<rparr>"

text \<open>The display text of an error of an operation, and its status code. A failure of the database is internal.\<close>

definition show_operation_error :: "(db_error \<Rightarrow> string) \<Rightarrow> server_operation_error \<Rightarrow> string" where
  "show_operation_error show_db e =
     (case e of
        NotFound m \<Rightarrow> ''not found: '' @ m
      | Unavailable m \<Rightarrow> ''unavailable: '' @ m
      | InvalidInput m \<Rightarrow> ''invalid input: '' @ m
      | Internal m \<Rightarrow> ''internal error: '' @ m
      | DatabaseFailed d \<Rightarrow> ''internal error: '' @ show_db d
      | ChannelClosed \<Rightarrow> ''reload channel closed; reload handler not running'')"

definition error_status :: "server_operation_error \<Rightarrow> nat" where
  "error_status e =
     (case e of
        NotFound _ \<Rightarrow> 404
      | Unavailable _ \<Rightarrow> 404
      | InvalidInput _ \<Rightarrow> 400
      | Internal _ \<Rightarrow> 500
      | DatabaseFailed _ \<Rightarrow> 500
      | ChannelClosed \<Rightarrow> 500)"

definition op_error_to_response :: "http_env \<Rightarrow> moment \<Rightarrow> server_operation_error \<Rightarrow> http_response" where
  "op_error_to_response E mo e = json_error mo (error_status e) (show_operation_error (hl_show_db (he_lib E)) e)"

subsection \<open>Handlers\<close>

type_synonym api_handler =
  "http_env \<Rightarrow> moment \<Rightarrow> string \<Rightarrow> string \<Rightarrow> api_state \<Rightarrow> http_response \<times> api_state"

text \<open>Carrying out an operation on the shared state and answering with its result or its error.\<close>

definition respond ::
  "(moment \<Rightarrow> api_data \<Rightarrow> http_response) \<Rightarrow> ('a \<Rightarrow> api_data) \<Rightarrow> 'a operation \<Rightarrow> http_env \<Rightarrow> moment \<Rightarrow> api_state
   \<Rightarrow> http_response \<times> api_state" where
  "respond reply data m E mo st =
     (case m (as_ops st) of
        (Inl e, s) \<Rightarrow> (op_error_to_response E mo e, st\<lparr>as_ops := s\<rparr>)
      | (Inr a, s) \<Rightarrow> (reply mo (data a), st\<lparr>as_ops := s\<rparr>))"

text \<open>The \<open>Json\<close> extractor: the framework answers a body that is not of the expected type.\<close>

definition with_json ::
  "(http_lib \<Rightarrow> string \<Rightarrow> http_response + 'i) \<Rightarrow> ('i \<Rightarrow> http_env \<Rightarrow> moment \<Rightarrow> api_state \<Rightarrow> http_response \<times> api_state)
   \<Rightarrow> http_env \<Rightarrow> moment \<Rightarrow> string \<Rightarrow> api_state \<Rightarrow> http_response \<times> api_state" where
  "with_json extract f E mo body st =
     (case extract (he_lib E) body of Inl r \<Rightarrow> (r, st) | Inr input \<Rightarrow> f input E mo st)"

definition handle_health :: api_handler where
  "handle_health E mo _ _ st = (json_ok mo (DHealth (server_health (he_version E) (mo_now mo) (as_ops st))), st)"

definition handle_reload_request :: api_handler where
  "handle_reload_request E mo _ _ st =
     (case trigger_reload (as_ops st) of
        (Inr (status, message), s) \<Rightarrow> (json_ok mo (DReload status message), st\<lparr>as_ops := s\<rparr>)
      | (Inl e, s) \<Rightarrow> (json_error mo 500 (show_operation_error (hl_show_db (he_lib E)) e), st\<lparr>as_ops := s\<rparr>))"

definition handle_stop :: api_handler where
  "handle_stop E mo _ _ st = (json_ok mo (DStop ''ok'' ''shutdown initiated''), st\<lparr>as_shutdown := True\<rparr>)"

definition handle_filtering_disable :: api_handler where
  "handle_filtering_disable E mo _ _ st =
     (case set_filtering False (as_ops st) of
        ((enabled, message), s) \<Rightarrow> (json_ok mo (DToggle enabled message), st\<lparr>as_ops := s\<rparr>))"

definition handle_filtering_enable :: api_handler where
  "handle_filtering_enable E mo _ _ st =
     (case set_filtering True (as_ops st) of
        ((enabled, message), s) \<Rightarrow> (json_ok mo (DToggle enabled message), st\<lparr>as_ops := s\<rparr>))"

definition handle_filtering_status :: api_handler where
  "handle_filtering_status E mo _ _ st = (json_ok mo (DStatus (filter_status (as_ops st))), st)"

definition handle_list_all :: api_handler where
  "handle_list_all E mo _ _ st = (json_ok mo (DLists (list_filters (as_ops st))), st)"

definition handle_refresh_all :: api_handler where
  "handle_refresh_all E mo _ _ st =
     (case refresh_all_lists_op (as_ops st) of
        (names, tasks) \<Rightarrow> (json_ok mo (DRefreshAll names), st\<lparr>as_tasks := as_tasks st @ tasks\<rparr>))"

definition handle_refresh_single :: api_handler where
  "handle_refresh_single E mo name _ st =
     (case refresh_list_op name (as_ops st) of
        (Inr (list, tasks), s) \<Rightarrow>
          (json_ok mo (DRefresh list ''refreshing''), st\<lparr>as_ops := s, as_tasks := as_tasks st @ tasks\<rparr>)
      | (Inl e, s) \<Rightarrow> (op_error_to_response E mo e, st\<lparr>as_ops := s\<rparr>))"

definition handle_disable_list :: api_handler where
  "handle_disable_list E mo name _ = respond json_ok (\<lambda>(list, enabled). DListAction list enabled) (disable_list_op name) E mo"

definition handle_enable_list :: api_handler where
  "handle_enable_list E mo name _ = respond json_ok (\<lambda>(list, enabled). DListAction list enabled) (enable_list_op name) E mo"

definition handle_stats :: api_handler where
  "handle_stats E mo _ _ st = (json_ok mo (DStats (get_stats (mo_now mo) (mo_metrics mo) (as_ops st))), st)"

definition handle_query_log :: api_handler where
  "handle_query_log E mo _ _ = respond json_ok (\<lambda>(total, limit, entries). DQueryLog total limit entries) get_query_log E mo"

definition handle_list_blocklists :: api_handler where
  "handle_list_blocklists E mo _ _ = respond json_ok DFilterLists (list_filter_lists ''block'') E mo"

definition handle_add_blocklist :: api_handler where
  "handle_add_blocklist E mo _ = with_json hl_create_list
     (\<lambda>input. respond json_created DFilterList (add_filter_list ''block'' input)) E mo"

definition handle_update_blocklist :: api_handler where
  "handle_update_blocklist E mo name = with_json hl_update_list
     (\<lambda>input. respond json_ok DFilterList (update_filter_list name input)) E mo"

definition handle_delete_blocklist :: api_handler where
  "handle_delete_blocklist E mo name _ = respond json_ok DDelete (delete_filter_list name) E mo"

definition handle_list_allowlists :: api_handler where
  "handle_list_allowlists E mo _ _ = respond json_ok DFilterLists (list_filter_lists ''allow'') E mo"

definition handle_add_allowlist :: api_handler where
  "handle_add_allowlist E mo _ = with_json hl_create_list
     (\<lambda>input. respond json_created DFilterList (add_filter_list ''allow'' input)) E mo"

definition handle_update_allowlist :: api_handler where
  "handle_update_allowlist E mo name = with_json hl_update_list
     (\<lambda>input. respond json_ok DFilterList (update_filter_list name input)) E mo"

definition handle_delete_allowlist :: api_handler where
  "handle_delete_allowlist E mo name _ = respond json_ok DDelete (delete_filter_list name) E mo"

definition handle_get_resolver_config :: api_handler where
  "handle_get_resolver_config E mo _ _ = respond json_ok DResolver get_resolver_config_op E mo"

definition handle_update_resolver_config :: api_handler where
  "handle_update_resolver_config E mo _ = with_json hl_update_resolver
     (\<lambda>input. respond json_ok DResolver (update_resolver_config_op input)) E mo"

definition handle_list_upstreams :: api_handler where
  "handle_list_upstreams E mo _ _ = respond json_ok DServers list_upstream_servers E mo"

definition handle_add_upstream :: api_handler where
  "handle_add_upstream E mo _ = with_json hl_create_server
     (\<lambda>input. respond json_created DServer (add_upstream_server (he_parse_url E) input)) E mo"

definition handle_update_upstream :: api_handler where
  "handle_update_upstream E mo ident = with_json hl_update_server
     (\<lambda>input. respond json_ok DServer (update_upstream_server (he_parse_url E) ident input)) E mo"

definition handle_delete_upstream :: api_handler where
  "handle_delete_upstream E mo ident _ = respond json_ok DDelete (delete_upstream_server ident) E mo"

definition handle_list_zone_configs :: api_handler where
  "handle_list_zone_configs E mo _ _ = respond json_ok DZones list_zone_configs E mo"

definition handle_add_zone :: api_handler where
  "handle_add_zone E mo _ = with_json hl_create_zone
     (\<lambda>input. respond json_created DZone (add_zone input)) E mo"

definition handle_update_zone :: api_handler where
  "handle_update_zone E mo zone = with_json hl_update_zone
     (\<lambda>input. respond json_ok DZone (update_zone_op zone input)) E mo"

definition handle_delete_zone :: api_handler where
  "handle_delete_zone E mo zone _ = respond json_ok DDelete (delete_zone_op zone) E mo"

definition handle_list_zone_discovery :: api_handler where
  "handle_list_zone_discovery E mo _ _ = respond json_ok DDiscoveries list_zone_discovery E mo"

definition handle_add_zone_discovery :: api_handler where
  "handle_add_zone_discovery E mo _ = with_json hl_create_discovery
     (\<lambda>input. respond json_created DDiscovery (add_zone_discovery input)) E mo"

definition handle_update_zone_discovery :: api_handler where
  "handle_update_zone_discovery E mo ident = with_json hl_update_discovery
     (\<lambda>input. respond json_ok DDiscovery (update_zone_discovery ident input)) E mo"

definition handle_delete_zone_discovery :: api_handler where
  "handle_delete_zone_discovery E mo ident _ = respond json_ok DDelete (delete_zone_discovery ident) E mo"

definition handle_openapi :: api_handler where
  "handle_openapi E mo _ _ st =
     (\<lparr>hs_status = 200, hs_location = None, hs_body = TextBody (hl_openapi (he_lib E))\<rparr>, st)"

subsection \<open>Routes\<close>

definition api_routes :: "(http_method \<times> string \<times> api_handler) list" where
  "api_routes =
     [(MPost, ''/api/v1/reload'', handle_reload_request),
      (MPost, ''/api/v1/stop'', handle_stop),
      (MPost, ''/api/v1/filtering/disable'', handle_filtering_disable),
      (MPost, ''/api/v1/filtering/enable'', handle_filtering_enable),
      (MGet, ''/api/v1/filtering/status'', handle_filtering_status),
      (MGet, ''/api/v1/lists'', handle_list_all),
      (MPost, ''/api/v1/lists/refresh'', handle_refresh_all),
      (MPost, ''/api/v1/lists/{name}/refresh'', handle_refresh_single),
      (MPost, ''/api/v1/lists/{name}/disable'', handle_disable_list),
      (MPost, ''/api/v1/lists/{name}/enable'', handle_enable_list),
      (MGet, ''/api/v1/stats'', handle_stats),
      (MGet, ''/api/v1/query-log'', handle_query_log),
      (MGet, ''/api/v1/blocklists'', handle_list_blocklists),
      (MPost, ''/api/v1/blocklists'', handle_add_blocklist),
      (MPut, ''/api/v1/blocklists/{name}'', handle_update_blocklist),
      (MDelete, ''/api/v1/blocklists/{name}'', handle_delete_blocklist),
      (MGet, ''/api/v1/allowlists'', handle_list_allowlists),
      (MPost, ''/api/v1/allowlists'', handle_add_allowlist),
      (MPut, ''/api/v1/allowlists/{name}'', handle_update_allowlist),
      (MDelete, ''/api/v1/allowlists/{name}'', handle_delete_allowlist),
      (MGet, ''/api/v1/resolver-config'', handle_get_resolver_config),
      (MPut, ''/api/v1/resolver-config'', handle_update_resolver_config),
      (MGet, ''/api/v1/upstreams'', handle_list_upstreams),
      (MPost, ''/api/v1/upstreams'', handle_add_upstream),
      (MPut, ''/api/v1/upstreams/{id}'', handle_update_upstream),
      (MDelete, ''/api/v1/upstreams/{id}'', handle_delete_upstream),
      (MGet, ''/api/v1/zones'', handle_list_zone_configs),
      (MPost, ''/api/v1/zones'', handle_add_zone),
      (MPut, ''/api/v1/zones/{zone}'', handle_update_zone),
      (MDelete, ''/api/v1/zones/{zone}'', handle_delete_zone),
      (MGet, ''/api/v1/zone-discovery'', handle_list_zone_discovery),
      (MPost, ''/api/v1/zone-discovery'', handle_add_zone_discovery),
      (MPut, ''/api/v1/zone-discovery/{id}'', handle_update_zone_discovery),
      (MDelete, ''/api/v1/zone-discovery/{id}'', handle_delete_zone_discovery),
      (MGet, ''/api/v1/openapi.json'', handle_openapi)]"

text \<open>A route for \<open>GET\<close> also serves \<open>HEAD\<close>.\<close>

fun method_matches :: "http_method \<Rightarrow> http_method \<Rightarrow> bool" where
  "method_matches MGet MHead = True"
| "method_matches route m = (route = m)"

definition bearer_auth_middleware ::
  "http_lib \<Rightarrow> string option \<Rightarrow> http_request \<Rightarrow> ('s \<Rightarrow> http_response \<times> 's) \<Rightarrow> 's \<Rightarrow> http_response \<times> 's" where
  "bearer_auth_middleware L token req run st =
     (case token of
        Some expected \<Rightarrow>
          (case hq_authorization req of
             Some value \<Rightarrow>
               if \<not> constant_time_eq (as_bytes (case hl_to_str L value of None \<Rightarrow> [] | Some v \<Rightarrow> v))
                   (as_bytes (''Bearer '' @ expected))
               then (auth_error 401 ''invalid authorization token'', st)
               else run st
           | None \<Rightarrow> (auth_error 401 ''authorization header required'', st))
      | None \<Rightarrow> run st)"

text \<open>The routes whose pattern the path matches, and the handler for the method among them.\<close>

definition matching_routes ::
  "http_lib \<Rightarrow> (http_method \<times> string \<times> api_handler) list \<Rightarrow> http_request \<Rightarrow> (http_method \<times> string \<times> api_handler) list" where
  "matching_routes L routes req = filter (\<lambda>(_, pattern, _). hl_match L pattern (hq_path req) \<noteq> None) routes"

definition run_route ::
  "http_env \<Rightarrow> moment \<Rightarrow> http_request \<Rightarrow> (http_method \<times> string \<times> api_handler) list \<Rightarrow> api_state
   \<Rightarrow> http_response \<times> api_state" where
  "run_route E mo req routes st =
     (case find (\<lambda>(m, _, _). method_matches m (hq_method req)) routes of
        None \<Rightarrow> (hl_method_not_allowed (he_lib E) req, st)
      | Some (_, pattern, handler) \<Rightarrow>
          handler E mo (the (hl_match (he_lib E) pattern (hq_path req))) (hq_body req) st)"

definition api_router ::
  "http_env \<Rightarrow> string option \<Rightarrow> moment \<Rightarrow> http_request \<Rightarrow> api_state \<Rightarrow> http_response \<times> api_state" where
  "api_router E token mo req st =
     (case matching_routes (he_lib E) api_routes req of
        [] \<Rightarrow> (hl_unmatched (he_lib E) req, st)
      | routes \<Rightarrow> bearer_auth_middleware (he_lib E) token req (run_route E mo req routes) st)"

definition build_cors_layer :: "http_lib \<Rightarrow> string list \<Rightarrow> cors_layer" where
  "build_cors_layer L allowed_origins =
     \<lparr>co_origins = (if allowed_origins = [] then AnyOrigin else Origins (filter (hl_origin_ok L) allowed_origins)),
      co_methods = [MGet, MPost, MPut, MDelete, MOptions], co_headers = [''authorization'', ''content-type'']\<rparr>"

text \<open>The server of \<open>start_api_server\<close>: the cross-origin layer, then the health page, then the routes.\<close>

definition api_server ::
  "http_env \<Rightarrow> string option \<Rightarrow> string list \<Rightarrow> moment \<Rightarrow> http_request \<Rightarrow> api_state \<Rightarrow> http_response \<times> api_state" where
  "api_server E token allowed_origins mo req st =
     (case hl_preflight (he_lib E) (build_cors_layer (he_lib E) allowed_origins) req of
        Some r \<Rightarrow> (r, st)
      | None \<Rightarrow>
          (case matching_routes (he_lib E) [(MGet, ''/health'', handle_health)] req of
             [] \<Rightarrow> api_router E token mo req st
           | routes \<Rightarrow> run_route E mo req routes st))"

subsection \<open>The administration pages\<close>

definition handle_admin_page :: "string \<Rightarrow> api_handler" where
  "handle_admin_page admin_html E mo _ _ st =
     (\<lparr>hs_status = 200, hs_location = None, hs_body = TextBody admin_html\<rparr>, st)"

definition handle_admin_health :: api_handler where
  "handle_admin_health E mo _ _ st =
     (\<lparr>hs_status = 200, hs_location = None,
       hs_body = TextBody (hl_health_json (he_lib E) (server_health (he_version E) (mo_now mo) (as_ops st)))\<rparr>, st)"

definition admin_router ::
  "string \<Rightarrow> http_env \<Rightarrow> string option \<Rightarrow> moment \<Rightarrow> http_request \<Rightarrow> api_state \<Rightarrow> http_response \<times> api_state" where
  "admin_router admin_html E token mo req st =
     (case matching_routes (he_lib E)
        [(MGet, ''/'', handle_admin_page admin_html), (MGet, ''/admin'', handle_admin_page admin_html),
         (MGet, ''/health'', handle_admin_health)] req of
        [] \<Rightarrow> api_router E token mo req st
      | routes \<Rightarrow> run_route E mo req routes st)"

text \<open>The redirection to HTTPS.\<close>

definition handle_redirect :: "http_lib \<Rightarrow> u16 \<Rightarrow> http_request \<Rightarrow> http_response" where
  "handle_redirect L tls_port req =
     (let host = (case Option.bind (hq_host req) (hl_to_str L) of None \<Rightarrow> ''localhost'' | Some h \<Rightarrow> h);
          hostname = hd (split_char (CHR '':'') host);
          location = (if tls_port = 443 then ''https://'' @ hostname @ hq_path req
                      else ''https://'' @ hostname @ '':'' @ show_port tls_port @ hq_path req)
      in \<lparr>hs_status = 301, hs_location = Some location, hs_body = TextBody []\<rparr>)"

subsection \<open>The contract of a management interface\<close>

text \<open>
  What a management request may do: nothing, stop the server, switch the filter or a list, start refreshes, ask for a
  reload, or carry out one of the changes of the tables; and it reports a failure exactly when the operation failed.
\<close>

datatype management_effect =
    NoEffect
  | StopServer
  | SwitchFilter bool
  | SwitchList bool string
  | StartRefresh "list_runtime list"
  | AskReload
  | Change admin_call

definition operates ::
  "'a operation \<Rightarrow> bool \<Rightarrow> api_state \<Rightarrow> api_state \<Rightarrow> bool" where
  "operates m failed st st' \<longleftrightarrow>
     failed = isl (fst (m (as_ops st))) \<and> st' = st\<lparr>as_ops := snd (m (as_ops st))\<rparr>"

fun has_effect ::
  "(string \<Rightarrow> string + url_parts) \<Rightarrow> management_effect \<Rightarrow> bool \<Rightarrow> api_state \<Rightarrow> api_state \<Rightarrow> bool" where
  "has_effect parse_url NoEffect failed st st' \<longleftrightarrow> st' = st"
| "has_effect parse_url StopServer failed st st' \<longleftrightarrow> \<not> failed \<and> st' = st\<lparr>as_shutdown := True\<rparr>"
| "has_effect parse_url (SwitchFilter b) failed st st' \<longleftrightarrow>
     \<not> failed \<and> st' = st\<lparr>as_ops := snd (set_filtering b (as_ops st))\<rparr>"
| "has_effect parse_url (SwitchList b name) failed st st' \<longleftrightarrow>
     operates (if b then enable_list_op name else disable_list_op name) failed st st'"
| "has_effect parse_url (StartRefresh tasks) failed st st' \<longleftrightarrow>
     \<not> failed \<and> set tasks \<subseteq> set (eng_runtimes (so_domain_filter (as_ops st))) \<and>
     st' = st\<lparr>as_tasks := as_tasks st @ tasks\<rparr>"
| "has_effect parse_url AskReload failed st st' \<longleftrightarrow> operates trigger_reload failed st st'"
| "has_effect parse_url (Change c) failed st st' \<longleftrightarrow> operates (admin_exec parse_url c) failed st st'"

definition api_ok :: "api_state \<Rightarrow> bool" where
  "api_ok st \<longleftrightarrow> ops_ok (as_ops st) \<and> engine_inv (so_domain_filter (as_ops st))"

lemma list_op_keeps:
  "engine_inv (so_domain_filter s) \<Longrightarrow> engine_inv (so_domain_filter (snd (enable_list_op n s)))"
  "engine_inv (so_domain_filter s) \<Longrightarrow> engine_inv (so_domain_filter (snd (disable_list_op n s)))"
  "so_db (snd (enable_list_op n s)) = so_db s" "so_db (snd (disable_list_op n s)) = so_db s"
  "channel (snd (enable_list_op n s)) = channel s" "channel (snd (disable_list_op n s)) = channel s"
  using set_list_disabled_inv [of "so_domain_filter s" False n] set_list_disabled_inv [of "so_domain_filter s" True n]
  by (auto simp: enable_list_op_def disable_list_op_def enable_list_def disable_list_def channel_def
      split: prod.splits bool.splits)

lemma effect_keeps_ok:
  assumes "has_effect parse_url e failed st st'" and "api_ok st"
  shows "api_ok st'"
proof (cases e)
  case (Change c)
  have "running (snd (admin_exec parse_url c (as_ops st))) = running (as_ops st)" by (rule admin_exec_keeps)
  then show ?thesis using assms admin_exec_keeps(1) [of "as_ops st" parse_url c] Change
    by (auto simp: api_ok_def operates_def running_def)
qed (use assms in \<open>auto simp: api_ok_def operates_def ops_ok_def set_filtering_def list_op_keeps trigger_reload_def
      split: if_splits\<close>)

text \<open>A request that reports a failure asks for no reload, and one that reports success at most for one.\<close>

lemma effect_reloads:
  assumes "has_effect parse_url e failed st st'"
  shows "so_reloads_sent (as_ops st') \<le> Suc (so_reloads_sent (as_ops st)) \<and>
    (failed \<longrightarrow> so_reloads_sent (as_ops st') = so_reloads_sent (as_ops st))"
proof (cases e)
  case (SwitchList b name)
  then show ?thesis using assms list_op_keeps(5,6) [of name "as_ops st"]
    by (auto simp: operates_def channel_def)
next
  case (Change c)
  then show ?thesis using assms admin_exec_announces [of parse_url c]
    by (auto simp: operates_def announces_def channel_def)
qed (use assms in \<open>auto simp: operates_def set_filtering_def trigger_reload_def split: if_splits\<close>)

locale management_interface =
  fixes parse_url :: "string \<Rightarrow> string + url_parts"
    and call :: "'q \<Rightarrow> api_state \<Rightarrow> 'r \<times> api_state"
    and failed :: "'r \<Rightarrow> bool"
  assumes effect: "call q st = (r, st') \<Longrightarrow> \<exists>e. has_effect parse_url e (failed r) st st'"
begin

lemma call_keeps_ok: "api_ok st \<Longrightarrow> api_ok (snd (call q st))"
  using effect effect_keeps_ok by (metis surjective_pairing)

lemma calls_keep_ok: "api_ok st \<Longrightarrow> api_ok (fold (\<lambda>q st. snd (call q st)) qs st)"
  by (induction qs arbitrary: st) (simp_all add: call_keeps_ok)

lemma failure_sends_no_reload:
  "failed (fst (call q st)) \<Longrightarrow> so_reloads_sent (as_ops (snd (call q st))) = so_reloads_sent (as_ops st)"
  using effect effect_reloads by (metis surjective_pairing)

lemma reloads_bounded:
  "so_reloads_sent (as_ops (fold (\<lambda>q st. snd (call q st)) qs st)) \<le> so_reloads_sent (as_ops st) + length qs"
proof (induction qs arbitrary: st)
  case (Cons q qs)
  have "so_reloads_sent (as_ops (snd (call q st))) \<le> Suc (so_reloads_sent (as_ops st))"
    using effect effect_reloads by (metis surjective_pairing)
  with Cons.IH [of "snd (call q st)"] show ?case by simp
qed simp

end

subsection \<open>Every request has one of these effects\<close>

definition http_failed :: "http_response \<Rightarrow> bool" where
  "http_failed r \<longleftrightarrow> 400 \<le> hs_status r"

definition effective :: "api_handler \<Rightarrow> bool" where
  "effective h \<longleftrightarrow> (\<forall>E mo cap body st. case h E mo cap body st of
     (r, st') \<Rightarrow> \<exists>e. has_effect (he_parse_url E) e (http_failed r) st st')"

lemma reply_status [simp]:
  "hs_status (json_ok mo d) = 200" "hs_status (json_created mo d) = 201" "hs_status (json_error mo n m) = n"
  by (simp_all add: json_ok_def json_created_def json_with_def json_error_def)

lemma error_failed [simp]: "http_failed (op_error_to_response E mo e)"
  by (cases e) (simp_all add: http_failed_def op_error_to_response_def error_status_def)

lemma reply_fine [simp]: "\<not> http_failed (json_ok mo d)" "\<not> http_failed (json_created mo d)"
  by (simp_all add: http_failed_def)

lemma respond_operates:
  assumes "\<And>d. \<not> http_failed (reply mo d)"
  shows "case respond reply data m E mo st of (r, st') \<Rightarrow> operates m (http_failed r) st st'"
  using assms by (cases "m (as_ops st)"; cases "fst (m (as_ops st))") (auto simp: respond_def operates_def)

lemma operates_done: "operates (done_op m) failed st st' = operates m failed st st'"
  by (simp add: operates_def)

lemma effectI:
  "case p of (r, st') \<Rightarrow> has_effect P e (http_failed r) st st' \<Longrightarrow>
   case p of (r, st') \<Rightarrow> \<exists>e. has_effect P e (http_failed r) st st'"
  by (cases p) blast

lemma respond_changes:
  assumes "admin_exec (he_parse_url E) c = done_op m" and "reply = json_ok \<or> reply = json_created"
  shows "case respond reply data m E mo st of (r, st') \<Rightarrow> \<exists>e. has_effect (he_parse_url E) e (http_failed r) st st'"
  using respond_operates [where reply = reply and mo = mo and data = data and m = m and E = E and st = st] assms
  by (intro effectI [where e = "Change c"]) (auto simp: operates_done)

lemma respond_reads:
  assumes "\<And>s. snd (m s) = s"
  shows "case respond json_ok data m E mo st of (r, st') \<Rightarrow> \<exists>e. has_effect P e (http_failed r) st st'"
  using respond_operates [where reply = json_ok and mo = mo and data = data and m = m and E = E and st = st] assms
  by (intro effectI [where e = NoEffect]) (auto simp: operates_def)

lemma respond_switches:
  "case respond json_ok data (enable_list_op name) E mo st of (r, st') \<Rightarrow> \<exists>e. has_effect P e (http_failed r) st st'"
  "case respond json_ok data (disable_list_op name) E mo st of (r, st') \<Rightarrow> \<exists>e. has_effect P e (http_failed r) st st'"
  by (rule effectI [where e = "SwitchList True name"] effectI [where e = "SwitchList False name"],
      simp add: respond_operates)+

lemma no_effect: "\<exists>e. has_effect P e failed st st"
  by (rule exI [of _ NoEffect]) simp

lemma with_json_effect:
  assumes "\<And>input. case f input E mo st of (r, st') \<Rightarrow> \<exists>e. has_effect P e (http_failed r) st st'"
  shows "case with_json extract f E mo body st of (r, st') \<Rightarrow> \<exists>e. has_effect P e (http_failed r) st st'"
proof (cases "extract (he_lib E) body")
  case (Inl r)
  then show ?thesis using no_effect by (simp add: with_json_def)
qed (use assms in \<open>simp add: with_json_def\<close>)

lemma reads_only [simp]:
  "snd (get_query_log s) = s" "snd (list_filter_lists kind s) = s" "snd (get_resolver_config_op s) = s"
  "snd (list_upstream_servers s) = s" "snd (list_zone_configs s) = s" "snd (list_zone_discovery s) = s"
  by (auto simp: get_query_log_def list_filter_lists_def get_resolver_config_op_def list_upstream_servers_def
      list_zone_configs_def list_zone_discovery_def op_bind_def repos_def op_ok_def split: option.splits sum.splits)

lemma no_effectI: "snd p = st \<Longrightarrow> case p of (r, st') \<Rightarrow> \<exists>e. has_effect P e (http_failed r) st st'"
  using no_effect by (auto split: prod.split)

lemma effective_reads:
  "effective handle_health" "effective handle_filtering_status" "effective handle_list_all" "effective handle_stats"
  "effective handle_openapi" "effective (handle_admin_page html)" "effective handle_admin_health"
  unfolding effective_def
  by (intro allI no_effectI; simp add: handle_health_def handle_filtering_status_def handle_list_all_def handle_stats_def
      handle_openapi_def handle_admin_page_def handle_admin_health_def)+

lemma effective_lookups:
  "effective handle_query_log" "effective handle_list_blocklists" "effective handle_list_allowlists"
  "effective handle_get_resolver_config" "effective handle_list_upstreams" "effective handle_list_zone_configs"
  "effective handle_list_zone_discovery" "effective handle_enable_list" "effective handle_disable_list"
  unfolding effective_def handle_query_log_def handle_list_blocklists_def handle_list_allowlists_def
    handle_get_resolver_config_def handle_list_upstreams_def handle_list_zone_configs_def
    handle_list_zone_discovery_def handle_enable_list_def handle_disable_list_def
  by (intro allI respond_reads respond_switches; simp)+

lemma effective_changes:
  "effective handle_add_blocklist" "effective handle_update_blocklist" "effective handle_delete_blocklist"
  "effective handle_add_allowlist" "effective handle_update_allowlist" "effective handle_delete_allowlist"
  "effective handle_update_resolver_config" "effective handle_add_upstream" "effective handle_update_upstream"
  "effective handle_delete_upstream" "effective handle_add_zone" "effective handle_update_zone"
  "effective handle_delete_zone" "effective handle_add_zone_discovery" "effective handle_update_zone_discovery"
  "effective handle_delete_zone_discovery"
  unfolding effective_def handle_add_blocklist_def handle_update_blocklist_def handle_delete_blocklist_def
    handle_add_allowlist_def handle_update_allowlist_def handle_delete_allowlist_def
    handle_update_resolver_config_def handle_add_upstream_def handle_update_upstream_def handle_delete_upstream_def
    handle_add_zone_def handle_update_zone_def handle_delete_zone_def handle_add_zone_discovery_def
    handle_update_zone_discovery_def handle_delete_zone_discovery_def
  by (intro allI with_json_effect, (rule respond_changes, rule admin_exec.simps, simp)+)+

lemma effective_switch: "effective handle_filtering_disable" "effective handle_filtering_enable" "effective handle_stop"
proof -
  show "effective handle_filtering_disable" "effective handle_filtering_enable"
    unfolding effective_def
    by (intro allI, rule effectI [where e = "SwitchFilter False"] effectI [where e = "SwitchFilter True"],
        simp add: handle_filtering_disable_def handle_filtering_enable_def split: prod.split)+
  show "effective handle_stop"
    unfolding effective_def by (intro allI, rule effectI [where e = StopServer]) (simp add: handle_stop_def)
qed

lemma effective_reload: "effective handle_reload_request"
  unfolding effective_def
  by (intro allI, rule effectI [where e = AskReload])
    (auto simp: handle_reload_request_def operates_def trigger_reload_def http_failed_def)

lemma effective_refresh: "effective handle_refresh_all" "effective handle_refresh_single"
proof -
  show "effective handle_refresh_all"
    unfolding effective_def
  proof (intro allI)
    fix E mo cap body st
    show "case handle_refresh_all E mo cap body st of (r, st') \<Rightarrow> \<exists>e. has_effect (he_parse_url E) e (http_failed r) st st'"
      by (rule effectI [where e = "StartRefresh (eng_runtimes (so_domain_filter (as_ops st)))"])
        (simp add: handle_refresh_all_def refresh_all_lists_op_def refresh_all_lists_def)
  qed
  have "case handle_refresh_single E mo name body st of (r, st') \<Rightarrow> \<exists>e. has_effect P e (http_failed r) st st'"
    for P E mo name body st
  proof (cases "find (\<lambda>rt. rt_name rt = name) (eng_runtimes (so_domain_filter (as_ops st)))")
    case None
    then show ?thesis using no_effect by (simp add: handle_refresh_single_def refresh_list_op_def refresh_list_def)
  next
    case (Some rt)
    then show ?thesis using find_SomeD [OF Some]
      by (intro effectI [where e = "StartRefresh [rt]"])
        (simp add: handle_refresh_single_def refresh_list_op_def refresh_list_def)
  qed
  then show "effective handle_refresh_single" unfolding effective_def by (intro allI)
qed

lemma api_routes_effective: "list_all (\<lambda>(_, _, h). effective h) api_routes"
  by (simp add: api_routes_def effective_reads effective_lookups effective_changes effective_switch effective_reload
      effective_refresh)

lemma run_route_effect:
  assumes "list_all (\<lambda>(_, _, h). effective h) routes"
  shows "case run_route E mo req routes st of (r, st') \<Rightarrow> \<exists>e. has_effect (he_parse_url E) e (http_failed r) st st'"
proof (cases "find (\<lambda>(m, _, _). method_matches m (hq_method req)) routes")
  case None
  then show ?thesis using no_effect by (simp add: run_route_def)
next
  case (Some route)
  obtain m pattern h where route: "route = (m, pattern, h)" by (cases route)
  then have "effective h" using find_SomeD [OF Some] assms by (auto simp: list_all_iff)
  then show ?thesis using Some route by (simp add: run_route_def effective_def)
qed

lemma matching_routes_effective:
  "list_all (\<lambda>(_, _, h). effective h) routes \<Longrightarrow> list_all (\<lambda>(_, _, h). effective h) (matching_routes L routes req)"
  by (auto simp: matching_routes_def list_all_iff)

lemma bearer_auth_cases:
  "bearer_auth_middleware L token req run st = run st \<or>
   (\<exists>m. bearer_auth_middleware L token req run st = (auth_error 401 m, st))"
  by (auto simp: bearer_auth_middleware_def split: option.split)

lemma api_router_effect:
  "case api_router E token mo req st of (r, st') \<Rightarrow> \<exists>e. has_effect (he_parse_url E) e (http_failed r) st st'"
proof (cases "matching_routes (he_lib E) api_routes req")
  case Nil
  then show ?thesis using no_effect by (simp add: api_router_def)
next
  case (Cons route routes)
  have "list_all (\<lambda>(_, _, h). effective h) (route # routes)"
    using matching_routes_effective [OF api_routes_effective] Cons by metis
  from run_route_effect [OF this, where E = E and mo = mo and req = req and st = st]
    bearer_auth_cases [of "he_lib E" token req "run_route E mo req (route # routes)" st]
  show ?thesis using Cons no_effect by (auto simp: api_router_def)
qed

lemma outer_routes_effect:
  assumes "list_all (\<lambda>(_, _, h). effective h) outer"
  shows "case (case matching_routes (he_lib E) outer req of
        [] \<Rightarrow> api_router E token mo req st
      | routes \<Rightarrow> run_route E mo req routes st) of
     (r, st') \<Rightarrow> \<exists>e. has_effect (he_parse_url E) e (http_failed r) st st'"
proof (cases "matching_routes (he_lib E) outer req")
  case (Cons route routes)
  have "list_all (\<lambda>(_, _, h). effective h) (route # routes)" using matching_routes_effective [OF assms] Cons by metis
  from run_route_effect [OF this] Cons show ?thesis by simp
qed (simp add: api_router_effect)

lemma api_server_effect:
  "case api_server E token origins mo req st of (r, st') \<Rightarrow> \<exists>e. has_effect (he_parse_url E) e (http_failed r) st st'"
proof (cases "hl_preflight (he_lib E) (build_cors_layer (he_lib E) origins) req")
  case None
  have "list_all (\<lambda>(_, _, h). effective h) [(MGet, ''/health'', handle_health)]" by (simp add: effective_reads)
  from outer_routes_effect [OF this] None show ?thesis by (simp add: api_server_def)
qed (use no_effect in \<open>simp add: api_server_def\<close>)

lemma admin_router_effect:
  "case admin_router html E token mo req st of (r, st') \<Rightarrow> \<exists>e. has_effect (he_parse_url E) e (http_failed r) st st'"
  unfolding admin_router_def by (rule outer_routes_effect) (simp add: effective_reads)

interpretation api_http: management_interface "he_parse_url E" "\<lambda>(mo, req). api_server E token origins mo req" http_failed
  for E token origins
proof unfold_locales
  fix q st r st'
  assume "(case q of (mo, req) \<Rightarrow> api_server E token origins mo req) st = (r, st')"
  then show "\<exists>e. has_effect (he_parse_url E) e (http_failed r) st st'"
    using api_server_effect [where E = E and token = token and origins = origins and mo = "fst q" and req = "snd q" and st = st] by (auto split: prod.splits)
qed

interpretation admin_http: management_interface "he_parse_url E" "\<lambda>(mo, req). admin_router html E token mo req" http_failed
  for html E token
proof unfold_locales
  fix q st r st'
  assume "(case q of (mo, req) \<Rightarrow> admin_router html E token mo req) st = (r, st')"
  then show "\<exists>e. has_effect (he_parse_url E) e (http_failed r) st st'"
    using admin_router_effect [where html = html and E = E and token = token and mo = "fst q" and req = "snd q" and st = st] by (auto split: prod.splits)
qed

subsection \<open>Properties\<close>

text \<open>What the framework documents of header values: their text, when they have one, is the value itself.\<close>

definition header_text_ok :: "http_lib \<Rightarrow> bool" where
  "header_text_ok L \<longleftrightarrow> (\<forall>v s. hl_to_str L v = Some s \<longrightarrow> s = v)"

lemma bearer_auth_rejects:
  assumes "header_text_ok L" and "hq_authorization req \<noteq> Some (''Bearer '' @ token)"
  shows "\<exists>m. bearer_auth_middleware L (Some token) req run st = (auth_error 401 m, st)"
proof (cases "hq_authorization req")
  case (Some v)
  have "hl_to_str L v = Some s \<Longrightarrow> s \<noteq> ''Bearer '' @ token" for s
    using assms Some by (auto simp: header_text_ok_def)
  then show ?thesis using Some
    by (auto simp: bearer_auth_middleware_def constant_time_eq_iff as_bytes_inj split: option.split)
qed (auto simp: bearer_auth_middleware_def)

text \<open>Without the token, nothing changes.\<close>

lemma unauthorized_http:
  assumes "header_text_ok (he_lib E)" and "hq_authorization req \<noteq> Some (''Bearer '' @ token)"
  shows "snd (api_server E (Some token) origins mo req st) = st \<and>
    snd (admin_router html E (Some token) mo req st) = st \<and>
    (matching_routes (he_lib E) api_routes req \<noteq> [] \<longrightarrow>
      hs_status (fst (api_router E (Some token) mo req st)) = 401)"
proof -
  have router: "snd (api_router E (Some token) mo req st) = st \<and>
    (matching_routes (he_lib E) api_routes req \<noteq> [] \<longrightarrow> hs_status (fst (api_router E (Some token) mo req st)) = 401)"
  proof (cases "matching_routes (he_lib E) api_routes req")
    case (Cons route routes)
    then show ?thesis
      using bearer_auth_rejects [OF assms, where run = "run_route E mo req (route # routes)" and st = st]
      by (auto simp: api_router_def auth_error_def)
  qed (simp add: api_router_def)
  have quiet: "snd (run_route E mo req (matching_routes (he_lib E) routes req) st) = st"
    if "list_all (\<lambda>(_, _, h). \<forall>E mo cap body st. snd (h E mo cap body st) = st) routes" for routes
    using that
    by (fastforce simp: run_route_def matching_routes_def list_all_iff split: option.split dest!: find_SomeD)
  have "snd (api_server E (Some token) origins mo req st) = st"
    using quiet [of "[(MGet, ''/health'', handle_health)]"] router
    by (auto simp: api_server_def handle_health_def split: option.split list.split)
  moreover have "snd (admin_router html E (Some token) mo req st) = st"
    using quiet [of "[(MGet, ''/'', handle_admin_page html), (MGet, ''/admin'', handle_admin_page html),
         (MGet, ''/health'', handle_admin_health)]"] router
    by (auto simp: admin_router_def handle_admin_page_def handle_admin_health_def split: list.split)
  ultimately show ?thesis using router by blast
qed

text \<open>
  A route for blocklists acts on any list of that name: the update and the deletion do not look at the kind, so that a
  request for a blocklist changes or deletes an allowlist.
\<close>

theorem blocklist_route_takes_allowlist:
  "handle_delete_blocklist = handle_delete_allowlist" "handle_update_blocklist = handle_update_allowlist"
  by (simp_all add: handle_delete_blocklist_def handle_delete_allowlist_def handle_update_blocklist_def
      handle_update_allowlist_def fun_eq_iff)

text \<open>The redirection cuts the host at its first colon, which lies inside an IPv6 address.\<close>

theorem ipv6_host_redirected_wrongly:
  assumes "hl_to_str L = Some"
  shows "hs_location (handle_redirect L 8443 \<lparr>hq_method = MGet, hq_path = ''/admin'', hq_authorization = None,
      hq_host = Some ''[2001:db8::1]:8080'', hq_body = []\<rparr>) = Some ''https://[2001:8443/admin''"
proof -
  have "show_port 8443 = ''8443''" by code_simp
  then show ?thesis by (simp add: handle_redirect_def assms)
qed

subsection \<open>Instances\<close>

text \<open>A framework that matches patterns without parameters, and rejects every body.\<close>

definition library_response :: "nat \<Rightarrow> http_response" where
  "library_response status = \<lparr>hs_status = status, hs_location = None, hs_body = TextBody []\<rparr>"

definition example_http_lib :: http_lib where
  "example_http_lib =
     \<lparr>hl_match = (\<lambda>pattern path. if pattern = path then Some [] else None), hl_to_str = Some,
      hl_unmatched = (\<lambda>_. library_response 404), hl_method_not_allowed = (\<lambda>_. library_response 405),
      hl_origin_ok = (\<lambda>_. True), hl_preflight = (\<lambda>_ _. None), hl_openapi = [], hl_health_json = (\<lambda>_. []),
      hl_show_db = (\<lambda>_. []), hl_create_list = (\<lambda>_. Inr ads_input), hl_update_list = (\<lambda>_. Inl (library_response 422)),
      hl_update_resolver = (\<lambda>_. Inl (library_response 422)), hl_create_server = (\<lambda>_. Inl (library_response 422)),
      hl_update_server = (\<lambda>_. Inl (library_response 422)), hl_create_zone = (\<lambda>_. Inl (library_response 422)),
      hl_update_zone = (\<lambda>_. Inl (library_response 422)), hl_create_discovery = (\<lambda>_. Inl (library_response 422)),
      hl_update_discovery = (\<lambda>_. Inl (library_response 422))\<rparr>"

definition example_http_env :: http_env where
  "example_http_env = \<lparr>he_lib = example_http_lib, he_parse_url = no_url, he_version = ''1''\<rparr>"

definition example_moment :: moment where
  "example_moment = \<lparr>mo_now = 7, mo_metrics = None\<rparr>"

definition stop_request :: "string option \<Rightarrow> http_request" where
  "stop_request auth = \<lparr>hq_method = MPost, hq_path = ''/api/v1/stop'', hq_authorization = auth, hq_host = None, hq_body = []\<rparr>"

definition example_api :: api_state where
  "example_api = \<lparr>as_ops = new_server, as_shutdown = False, as_tasks = []\<rparr>"

lemma example_api_ok: "api_ok example_api"
proof -
  have "engine_inv (so_domain_filter new_server)"
    by (simp add: new_server_def engine_new_def engine_inv_def lists_inv_def runtimes_inv_def compute_snapshot_def)
  then show ?thesis using new_server_ok by (simp add: api_ok_def example_api_def)
qed

end
