(* ===== verification/McpServer.thy ===== *)
theory McpServer
  imports HttpApi
begin

text \<open>
  The management interface for language models (\<open>src/interface_adapters/listeners/mcp.rs\<close>): the tools with their
  parameters, the translation of these into the inputs of the shared operations, the markdown presentations, and the
  service behind the bearer-token check.

  The tool protocol (the \<open>rmcp\<close> crate) and the JSON text of a result are parameters: the service decodes a request
  into a tool call or answers it itself. The display of record data, of record types and of floating-point numbers is
  a parameter too.
\<close>

subsection \<open>Parameters of the tools\<close>

record zone_search_params =
  zp_query :: string
  zp_zone :: "string option"
  zp_record_type :: "string option"
  zp_limit :: "nat option"
  zp_include_presentation :: "bool option"

record add_filter_list_params =
  ap_name :: string
  ap_url :: string
  ap_interval :: "string option"
  ap_enabled :: "bool option"
  ap_list_type :: "string option"

record update_filter_list_params =
  up_name :: string
  up_url :: "string option"
  up_interval :: "string option"
  up_enabled :: "bool option"
  up_list_type :: "string option"

record add_upstream_server_params =
  as_enabled :: "bool option"
  as_protocol :: string
  as_address :: string
  as_auth_token :: "string option"
  as_auth_username :: "string option"
  as_auth_password :: "string option"
  as_max_hops :: "u8 option"
  as_nameserver_ip_family :: "string option"
  as_root_hints_path :: "string option"
  as_root_key_path :: "string option"
  as_dnssec :: "bool option"
  as_bind_address :: "string option"
  as_fwmark :: "u32 option"
  as_sort_order :: "int option"

record update_upstream_server_params =
  xs_id :: string
  xs_enabled :: "bool option"
  xs_protocol :: "string option"
  xs_address :: "string option"
  xs_auth_token :: "string option"
  xs_auth_username :: "string option"
  xs_auth_password :: "string option"
  xs_max_hops :: "u8 option"
  xs_nameserver_ip_family :: "string option"
  xs_root_hints_path :: "string option"
  xs_root_key_path :: "string option"
  xs_dnssec :: "bool option"
  xs_bind_address :: "string option option"
  xs_fwmark :: "u32 option option"
  xs_sort_order :: "int option"

record mcp_zone_server_input =
  mz_enabled :: "bool option"
  mz_protocol :: string
  mz_address :: string
  mz_auth_token :: "string option"
  mz_auth_username :: "string option"
  mz_auth_password :: "string option"
  mz_check_interval :: "string option"
  mz_max_hops :: "u8 option"
  mz_nameserver_ip_family :: "string option"
  mz_root_hints_path :: "string option"
  mz_root_key_path :: "string option"
  mz_dnssec :: "bool option"

record add_zone_params =
  az_zone :: string
  az_enabled :: "bool option"
  az_bypass_filter :: "bool option"
  az_fallback_to_default_resolvers :: "bool option"
  az_strategy :: "string option"
  az_servers :: "mcp_zone_server_input list option"

record update_zone_params =
  xz_zone :: string
  xz_enabled :: "bool option"
  xz_bypass_filter :: "bool option"
  xz_fallback_to_default_resolvers :: "bool option"
  xz_strategy :: "string option"
  xz_servers :: "mcp_zone_server_input list option"

record add_zone_discovery_params =
  ad_address :: string
  ad_enabled :: "bool option"
  ad_check_interval :: "string option"
  ad_allowed_types :: "string list option"
  ad_bypass_filter :: "bool option"
  ad_fallback_to_default_resolvers :: "bool option"
  ad_auth_token :: "string option"
  ad_auth_username :: "string option"
  ad_auth_password :: "string option"

record update_zone_discovery_params =
  xd_id :: string
  xd_address :: "string option"
  xd_enabled :: "bool option"
  xd_check_interval :: "string option"
  xd_allowed_types :: "string list option"
  xd_bypass_filter :: "bool option"
  xd_fallback_to_default_resolvers :: "bool option"
  xd_auth_token :: "string option"
  xd_auth_username :: "string option"
  xd_auth_password :: "string option"

text \<open>
  The mark of an outbound socket in an update: the JSON value is absent (which leaves the field as it is), null, a
  number or a text, of which only \<open>none\<close> and \<open>null\<close> are accepted.
\<close>

datatype fwmark_field_input = FwmarkNumber u32 | FwmarkText string

definition deserialize_optional_fwmark_field :: "fwmark_field_input option \<Rightarrow> string + u32 option option" where
  "deserialize_optional_fwmark_field value =
     (case value of
        None \<Rightarrow> Inr (Some None)
      | Some (FwmarkNumber v) \<Rightarrow> Inr (Some (Some v))
      | Some (FwmarkText s) \<Rightarrow>
          (let trimmed = to_ascii_lowercase (trim s) in
           if trimmed = ''none'' \<or> trimmed = ''null'' then Inr (Some None)
           else Inl (''fwmark must be an integer, null, or the string '' @ quoted ''None'')))"

definition build_mcp_auth ::
  "string option \<Rightarrow> string option \<Rightarrow> string option \<Rightarrow> zone_server_authentication_config option" where
  "build_mcp_auth token username password =
     (if token \<noteq> None \<or> username \<noteq> None \<or> password \<noteq> None
      then Some \<lparr>za_token = token, za_username = username, za_password = password\<rparr> else None)"

definition mcp_server_to_input :: "mcp_zone_server_input \<Rightarrow> create_zone_server_input" where
  "mcp_server_to_input s =
     \<lparr>cv_enabled = mz_enabled s, cv_protocol = mz_protocol s, cv_address = mz_address s,
      cv_authentication = build_mcp_auth (mz_auth_token s) (mz_auth_username s) (mz_auth_password s),
      cv_check_interval = mz_check_interval s, cv_max_hops = mz_max_hops s,
      cv_nameserver_ip_family = mz_nameserver_ip_family s, cv_root_hints_path = mz_root_hints_path s,
      cv_root_key_path = mz_root_key_path s, cv_dnssec = mz_dnssec s\<rparr>"

subsection \<open>Results and presentations\<close>

datatype mcp_data =
    MData api_data
  | MLookup dns_lookup_result
  | MZoneList "zone_info list" nat
  | MZoneSearch string "(zone_record \<times> int) list" nat nat

record mcp_presentation =
  pr_layout :: string
  pr_title :: string
  pr_markdown :: string

text \<open>A result: the JSON text of a value, of a value with its presentation (in layout version one), or of an error.\<close>

datatype mcp_result =
    McpJson mcp_data
  | McpPresented mcp_data mcp_presentation string
  | McpError string

definition mcp_with_presentation :: "mcp_data \<Rightarrow> mcp_presentation \<Rightarrow> mcp_result" where
  "mcp_with_presentation data display = McpPresented data display ''v1''"

abbreviation backslash :: char where "backslash \<equiv> CHR 0x5C"
abbreviation newline :: char where "newline \<equiv> CHR 0x0A"

definition replace_char :: "char \<Rightarrow> string \<Rightarrow> string \<Rightarrow> string" where
  "replace_char c r s = concat (map (\<lambda>d. if d = c then r else [d]) s)"

definition markdown_cell :: "string \<Rightarrow> string" where
  "markdown_cell value = replace_char newline '' '' (replace_char (CHR ''|'') [backslash, CHR ''|''] value)"

definition optional_cell :: "string option \<Rightarrow> string" where
  "optional_cell value = (case value of None \<Rightarrow> ''-'' | Some v \<Rightarrow> markdown_cell v)"

definition bool_cell :: "bool \<Rightarrow> string" where
  "bool_cell value = (if value then ''yes'' else ''no'')"

definition upstream_auth_mode :: "string option \<Rightarrow> string option \<Rightarrow> string option \<Rightarrow> string" where
  "upstream_auth_mode auth_token auth_username auth_password =
     (if auth_token \<noteq> None then ''bearer''
      else if auth_username \<noteq> None \<or> auth_password \<noteq> None then ''basic''
      else ''none'')"

definition optional_number :: "i32 option \<Rightarrow> string" where
  "optional_number value = (case value of None \<Rightarrow> ''-'' | Some v \<Rightarrow> show_int (sint v))"

text \<open>A row of a table: the cells between bars, and the end of the line.\<close>

definition table_row :: "string list \<Rightarrow> string" where
  "table_row cells = ''| '' @ concat (map (\<lambda>c. c @ '' | '') (butlast cells)) @ last cells @ '' |'' @ [newline]"

definition upstream_row :: "upstream_server_record \<Rightarrow> string" where
  "upstream_row server = table_row
     [markdown_cell (ur_id server), bool_cell (ur_enabled server), markdown_cell (ur_protocol server),
      markdown_cell (ur_address server), show_int (ur_sort_order server), optional_cell (ur_bind_address server),
      optional_number (ur_fwmark server), bool_cell (ur_dnssec server),
      upstream_auth_mode (ur_auth_token server) (ur_auth_username server) (ur_auth_password server),
      optional_number (ur_max_hops server), optional_cell (ur_nameserver_ip_family server),
      optional_cell (ur_root_hints_path server), optional_cell (ur_root_key_path server)]"

definition render_upstreams_markdown :: "upstream_server_record list \<Rightarrow> string" where
  "render_upstreams_markdown servers =
     (if servers = [] then ''No upstream servers configured.''
      else table_row [''id'', ''enabled'', ''protocol'', ''address'', ''sort_order'', ''bind_address'', ''fwmark'',
             ''dnssec'', ''auth'', ''max_hops'', ''nameserver_ip_family'', ''root_hints_path'', ''root_key_path'']
        @ table_row (replicate 13 ''---'') @ concat (map upstream_row servers))"

definition stat_line :: "string \<Rightarrow> string \<Rightarrow> string" where
  "stat_line name value = ''- '' @ name @ '': '' @ value @ [newline]"

definition render_stats_markdown :: "(int \<Rightarrow> string) \<Rightarrow> stats_result \<Rightarrow> string" where
  "render_stats_markdown show_latency stats =
     (let c = st_counters stats; n = (\<lambda>k. show_nat (int k)) in
      ''## Summary'' @ [newline, newline]
      @ stat_line ''filtering_enabled'' (bool_cell (st_filtering_enabled stats))
      @ stat_line ''uptime_seconds'' (show_nat (uint (st_uptime_seconds stats)))
      @ stat_line ''queries_total'' (n (sn_queries_total c))
      @ stat_line ''queries_blocked'' (n (sn_queries_blocked c))
      @ stat_line ''queries_allowed'' (n (sn_queries_allowed c))
      @ stat_line ''queries_passthrough'' (n (sn_queries_passthrough c))
      @ stat_line ''blocklist_hits_total'' (n (sn_blocklist_hits_total c))
      @ stat_line ''cache_hits_total'' (n (sn_cache_hits_total c))
      @ stat_line ''cache_misses_total'' (n (sn_cache_misses_total c))
      @ [newline] @ ''## Upstreams'' @ [newline, newline]
      @ (if sn_upstreams c = [] then ''No upstream metrics available.'' @ [newline]
         else table_row [''upstream'', ''requests_total'', ''errors_total'', ''latency_count'', ''latency_sum_seconds'']
           @ table_row (replicate 5 ''---'')
           @ concat (map (\<lambda>u. table_row [markdown_cell (un_upstream u), n (un_requests_total u), n (un_errors_total u),
               n (un_latency_count u), show_latency (un_latency_sum u)]) (sn_upstreams c)))
      @ [newline] @ ''## Filter Lists'' @ [newline, newline]
      @ ''Configured lists: '' @ n (length (st_lists stats)) @ [newline])"

text \<open>
  The heading of the search results is written with a backslash and the letter n between its parts, where the format
  string escapes the backslash.
\<close>

definition search_row :: "(record_type \<Rightarrow> string) \<Rightarrow> zone_record \<times> int \<Rightarrow> string" where
  "search_row show_type item = table_row
     [markdown_cell (zr_zone (fst item)), markdown_cell (zr_name (fst item)),
      markdown_cell (show_type (zr_record_type (fst item))), show_nat (uint (zr_ttl (fst item))),
      markdown_cell (zr_data (fst item)), show_int (snd item)]"

definition render_zone_search_markdown ::
  "(record_type \<Rightarrow> string) \<Rightarrow> string \<Rightarrow> (zone_record \<times> int) list \<Rightarrow> nat \<Rightarrow> string" where
  "render_zone_search_markdown show_type query results total_matches =
     ''Query: '' @ markdown_cell query @ [backslash, CHR ''n''] @ ''Total matches: '' @ show_nat (int total_matches)
     @ [backslash, CHR ''n''] @ ''Returned: '' @ show_nat (int (length results))
     @ [backslash, CHR ''n'', backslash, CHR ''n'']
     @ (if results = [] then ''No zone records matched.'' @ [newline]
        else table_row [''zone'', ''name'', ''type'', ''ttl'', ''data'', ''score''] @ table_row (replicate 6 ''---'')
          @ concat (map (search_row show_type) results))"

subsection \<open>Tools\<close>

datatype mcp_tool =
    DnsLookupTool string
  | FilterStatusTool
  | FilterToggleTool bool
  | ListFiltersTool
  | RefreshListsTool "string option"
  | GetStatsTool
  | GetStatsPresentedTool "bool option"
  | GetQueryLogTool
  | ReloadConfigTool
  | ServerHealthTool
  | EnableListTool string
  | DisableListTool string
  | ListZonesTool
  | SearchZoneRecordsTool zone_search_params
  | ListBlocklistsTool
  | AddBlocklistTool add_filter_list_params
  | UpdateBlocklistTool update_filter_list_params
  | DeleteBlocklistTool string
  | ListAllowlistsTool
  | AddAllowlistTool add_filter_list_params
  | UpdateAllowlistTool update_filter_list_params
  | DeleteAllowlistTool string
  | GetResolverConfigTool
  | UpdateResolverConfigTool update_resolver_config_input
  | ListUpstreamsTool
  | ListUpstreamsPresentedTool "bool option"
  | AddUpstreamTool add_upstream_server_params
  | UpdateUpstreamTool update_upstream_server_params
  | DeleteUpstreamTool string
  | ListZoneConfigsTool
  | AddZoneTool add_zone_params
  | UpdateZoneTool update_zone_params
  | DeleteZoneTool string
  | ListZoneDiscoveryTool
  | AddZoneDiscoveryTool add_zone_discovery_params
  | UpdateZoneDiscoveryTool update_zone_discovery_params
  | DeleteZoneDiscoveryTool string

record mcp_env =
  me_http :: http_env
  me_rdata_display :: "rdata \<Rightarrow> string"
  me_fuzzy_match :: "string \<Rightarrow> string \<Rightarrow> int option"
  me_show_type :: "record_type \<Rightarrow> string"
  me_show_latency :: "int \<Rightarrow> string"

text \<open>Carrying out an operation: the JSON text of its result, or of an object with the error.\<close>

definition tool_result ::
  "mcp_env \<Rightarrow> ('a \<Rightarrow> mcp_result) \<Rightarrow> 'a operation \<Rightarrow> api_state \<Rightarrow> mcp_result \<times> api_state" where
  "tool_result M reply m st =
     (case m (as_ops st) of
        (Inl e, s) \<Rightarrow> (McpError (show_operation_error (hl_show_db (he_lib (me_http M))) e), st\<lparr>as_ops := s\<rparr>)
      | (Inr a, s) \<Rightarrow> (reply a, st\<lparr>as_ops := s\<rparr>))"

abbreviation json_data :: "('a \<Rightarrow> api_data) \<Rightarrow> 'a \<Rightarrow> mcp_result" where
  "json_data f \<equiv> (\<lambda>a. McpJson (MData (f a)))"

definition add_list_input :: "add_filter_list_params \<Rightarrow> create_filter_list_input" where
  "add_list_input p =
     \<lparr>cf_name = ap_name p, cf_url = ap_url p, cf_interval = ap_interval p, cf_enabled = ap_enabled p,
      cf_list_type = ap_list_type p\<rparr>"

definition update_list_input :: "update_filter_list_params \<Rightarrow> update_filter_list_input" where
  "update_list_input p =
     \<lparr>uf_url = up_url p, uf_interval = up_interval p, uf_enabled = up_enabled p, uf_list_type = up_list_type p\<rparr>"

definition add_upstream_input :: "add_upstream_server_params \<Rightarrow> create_upstream_server_input" where
  "add_upstream_input p =
     \<lparr>cu_enabled = as_enabled p, cu_protocol = as_protocol p, cu_address = as_address p,
      cu_authentication = build_mcp_auth (as_auth_token p) (as_auth_username p) (as_auth_password p),
      cu_max_hops = as_max_hops p, cu_nameserver_ip_family = as_nameserver_ip_family p,
      cu_root_hints_path = as_root_hints_path p, cu_root_key_path = as_root_key_path p, cu_dnssec = as_dnssec p,
      cu_bind_address = as_bind_address p, cu_fwmark = as_fwmark p, cu_sort_order = as_sort_order p\<rparr>"

definition update_upstream_input :: "update_upstream_server_params \<Rightarrow> update_upstream_server_input" where
  "update_upstream_input p =
     \<lparr>uu_enabled = xs_enabled p, uu_protocol = xs_protocol p, uu_address = xs_address p,
      uu_authentication = build_mcp_auth (xs_auth_token p) (xs_auth_username p) (xs_auth_password p),
      uu_max_hops = xs_max_hops p, uu_nameserver_ip_family = xs_nameserver_ip_family p,
      uu_root_hints_path = xs_root_hints_path p, uu_root_key_path = xs_root_key_path p, uu_dnssec = xs_dnssec p,
      uu_bind_address = xs_bind_address p, uu_fwmark = xs_fwmark p, uu_sort_order = xs_sort_order p\<rparr>"

definition add_zone_tool_input :: "add_zone_params \<Rightarrow> create_zone_input" where
  "add_zone_tool_input p =
     \<lparr>cz_zone = az_zone p, cz_enabled = az_enabled p, cz_bypass_filter = az_bypass_filter p,
      cz_fallback_to_default_resolvers = az_fallback_to_default_resolvers p, cz_strategy = az_strategy p,
      cz_servers = map_option (map mcp_server_to_input) (az_servers p)\<rparr>"

definition update_zone_tool_input :: "update_zone_params \<Rightarrow> update_zone_input" where
  "update_zone_tool_input p =
     \<lparr>uz_enabled = xz_enabled p, uz_bypass_filter = xz_bypass_filter p,
      uz_fallback_to_default_resolvers = xz_fallback_to_default_resolvers p, uz_strategy = xz_strategy p,
      uz_servers = map_option (map mcp_server_to_input) (xz_servers p)\<rparr>"

definition add_discovery_input :: "add_zone_discovery_params \<Rightarrow> create_zone_discovery_input" where
  "add_discovery_input p =
     \<lparr>cd_enabled = ad_enabled p, cd_address = ad_address p, cd_check_interval = ad_check_interval p,
      cd_allowed_types = ad_allowed_types p, cd_bypass_filter = ad_bypass_filter p,
      cd_fallback_to_default_resolvers = ad_fallback_to_default_resolvers p,
      cd_authentication = build_mcp_auth (ad_auth_token p) (ad_auth_username p) (ad_auth_password p)\<rparr>"

definition update_discovery_input :: "update_zone_discovery_params \<Rightarrow> update_zone_discovery_input" where
  "update_discovery_input p =
     \<lparr>ud_enabled = xd_enabled p, ud_address = xd_address p, ud_check_interval = xd_check_interval p,
      ud_allowed_types = xd_allowed_types p, ud_bypass_filter = xd_bypass_filter p,
      ud_fallback_to_default_resolvers = xd_fallback_to_default_resolvers p,
      ud_authentication = build_mcp_auth (xd_auth_token p) (xd_auth_username p) (xd_auth_password p)\<rparr>"

definition refresh_lists_tool :: "mcp_env \<Rightarrow> string option \<Rightarrow> api_state \<Rightarrow> mcp_result \<times> api_state" where
  "refresh_lists_tool M name st =
     (case name of
        Some name \<Rightarrow>
          (case refresh_list_op name (as_ops st) of
             (Inr (list, tasks), s) \<Rightarrow>
               (McpJson (MData (DRefresh list ''refreshing'')), st\<lparr>as_ops := s, as_tasks := as_tasks st @ tasks\<rparr>)
           | (Inl e, s) \<Rightarrow> (McpError (show_operation_error (hl_show_db (he_lib (me_http M))) e), st\<lparr>as_ops := s\<rparr>))
      | None \<Rightarrow>
          (case refresh_all_lists_op (as_ops st) of
             (names, tasks) \<Rightarrow> (McpJson (MData (DRefreshAll names)), st\<lparr>as_tasks := as_tasks st @ tasks\<rparr>)))"

definition get_stats_presented_tool :: "mcp_env \<Rightarrow> moment \<Rightarrow> bool option \<Rightarrow> api_state \<Rightarrow> mcp_result \<times> api_state" where
  "get_stats_presented_tool M mo include st =
     (let result = get_stats (mo_now mo) (mo_metrics mo) (as_ops st) in
      (if \<not> unwrap_or include True then McpJson (MData (DStats result))
       else mcp_with_presentation (MData (DStats result))
         \<lparr>pr_layout = ''stats-summary-v1'', pr_title = ''DNS Filter Statistics'',
          pr_markdown = render_stats_markdown (me_show_latency M) result\<rparr>, st))"

definition search_zone_records_tool :: "mcp_env \<Rightarrow> zone_search_params \<Rightarrow> api_state \<Rightarrow> mcp_result \<times> api_state" where
  "search_zone_records_tool M p = tool_result M
     (\<lambda>(query, results, total_matches, limit).
        if unwrap_or (zp_include_presentation p) False
        then mcp_with_presentation (MZoneSearch query results total_matches limit)
          \<lparr>pr_layout = ''zone-search-table-v1'', pr_title = ''Zone Search Results'',
           pr_markdown = render_zone_search_markdown (me_show_type M) query results total_matches\<rparr>
        else McpJson (MZoneSearch query results total_matches limit))
     (search_zone_records (me_rdata_display M) (me_fuzzy_match M) (zp_query p) (zp_zone p) (zp_record_type p) (zp_limit p))"

definition list_upstreams_presented_tool :: "mcp_env \<Rightarrow> bool option \<Rightarrow> api_state \<Rightarrow> mcp_result \<times> api_state" where
  "list_upstreams_presented_tool M include = tool_result M
     (\<lambda>servers.
        if \<not> unwrap_or include True then McpJson (MData (DServers servers))
        else mcp_with_presentation (MData (DServers servers))
          \<lparr>pr_layout = ''upstreams-table-v1'', pr_title = ''Configured Upstreams'',
           pr_markdown = render_upstreams_markdown servers\<rparr>)
     list_upstream_servers"

fun mcp_call :: "mcp_env \<Rightarrow> moment \<Rightarrow> mcp_tool \<Rightarrow> api_state \<Rightarrow> mcp_result \<times> api_state" where
  "mcp_call M mo (DnsLookupTool domain) st = (McpJson (MLookup (dns_lookup domain (as_ops st))), st)"
| "mcp_call M mo FilterStatusTool st = (McpJson (MData (DStatus (filter_status (as_ops st)))), st)"
| "mcp_call M mo (FilterToggleTool enabled) st =
     (case set_filtering enabled (as_ops st) of
        ((enabled, message), s) \<Rightarrow> (McpJson (MData (DToggle enabled message)), st\<lparr>as_ops := s\<rparr>))"
| "mcp_call M mo ListFiltersTool st = (McpJson (MData (DLists (list_filters (as_ops st)))), st)"
| "mcp_call M mo (RefreshListsTool name) st = refresh_lists_tool M name st"
| "mcp_call M mo GetStatsTool st = (McpJson (MData (DStats (get_stats (mo_now mo) (mo_metrics mo) (as_ops st)))), st)"
| "mcp_call M mo (GetStatsPresentedTool include) st = get_stats_presented_tool M mo include st"
| "mcp_call M mo GetQueryLogTool st =
     tool_result M (json_data (\<lambda>(total, limit, entries). DQueryLog total limit entries)) get_query_log st"
| "mcp_call M mo ReloadConfigTool st =
     tool_result M (json_data (\<lambda>(status, message). DReload status message)) trigger_reload st"
| "mcp_call M mo ServerHealthTool st =
     (McpJson (MData (DHealth (server_health (he_version (me_http M)) (mo_now mo) (as_ops st)))), st)"
| "mcp_call M mo (EnableListTool name) st =
     tool_result M (json_data (\<lambda>(list, enabled). DListAction list enabled)) (enable_list_op name) st"
| "mcp_call M mo (DisableListTool name) st =
     tool_result M (json_data (\<lambda>(list, enabled). DListAction list enabled)) (disable_list_op name) st"
| "mcp_call M mo ListZonesTool st = tool_result M (\<lambda>(zones, total). McpJson (MZoneList zones total)) list_zones_op st"
| "mcp_call M mo (SearchZoneRecordsTool p) st = search_zone_records_tool M p st"
| "mcp_call M mo ListBlocklistsTool st = tool_result M (json_data DFilterLists) (list_filter_lists ''block'') st"
| "mcp_call M mo (AddBlocklistTool p) st = tool_result M (json_data DFilterList) (add_filter_list ''block'' (add_list_input p)) st"
| "mcp_call M mo (UpdateBlocklistTool p) st =
     tool_result M (json_data DFilterList) (update_filter_list (up_name p) (update_list_input p)) st"
| "mcp_call M mo (DeleteBlocklistTool name) st = tool_result M (json_data DDelete) (delete_filter_list name) st"
| "mcp_call M mo ListAllowlistsTool st = tool_result M (json_data DFilterLists) (list_filter_lists ''allow'') st"
| "mcp_call M mo (AddAllowlistTool p) st = tool_result M (json_data DFilterList) (add_filter_list ''allow'' (add_list_input p)) st"
| "mcp_call M mo (UpdateAllowlistTool p) st =
     tool_result M (json_data DFilterList) (update_filter_list (up_name p) (update_list_input p)) st"
| "mcp_call M mo (DeleteAllowlistTool name) st = tool_result M (json_data DDelete) (delete_filter_list name) st"
| "mcp_call M mo GetResolverConfigTool st = tool_result M (json_data DResolver) get_resolver_config_op st"
| "mcp_call M mo (UpdateResolverConfigTool i) st = tool_result M (json_data DResolver) (update_resolver_config_op i) st"
| "mcp_call M mo ListUpstreamsTool st = tool_result M (json_data DServers) list_upstream_servers st"
| "mcp_call M mo (ListUpstreamsPresentedTool include) st = list_upstreams_presented_tool M include st"
| "mcp_call M mo (AddUpstreamTool p) st =
     tool_result M (json_data DServer) (add_upstream_server (he_parse_url (me_http M)) (add_upstream_input p)) st"
| "mcp_call M mo (UpdateUpstreamTool p) st =
     tool_result M (json_data DServer) (update_upstream_server (he_parse_url (me_http M)) (xs_id p) (update_upstream_input p)) st"
| "mcp_call M mo (DeleteUpstreamTool ident) st = tool_result M (json_data DDelete) (delete_upstream_server ident) st"
| "mcp_call M mo ListZoneConfigsTool st = tool_result M (json_data DZones) list_zone_configs st"
| "mcp_call M mo (AddZoneTool p) st = tool_result M (json_data DZone) (add_zone (add_zone_tool_input p)) st"
| "mcp_call M mo (UpdateZoneTool p) st =
     tool_result M (json_data DZone) (update_zone_op (xz_zone p) (update_zone_tool_input p)) st"
| "mcp_call M mo (DeleteZoneTool zone) st = tool_result M (json_data DDelete) (delete_zone_op zone) st"
| "mcp_call M mo ListZoneDiscoveryTool st = tool_result M (json_data DDiscoveries) list_zone_discovery st"
| "mcp_call M mo (AddZoneDiscoveryTool p) st =
     tool_result M (json_data DDiscovery) (add_zone_discovery (add_discovery_input p)) st"
| "mcp_call M mo (UpdateZoneDiscoveryTool p) st =
     tool_result M (json_data DDiscovery) (update_zone_discovery (xd_id p) (update_discovery_input p)) st"
| "mcp_call M mo (DeleteZoneDiscoveryTool ident) st = tool_result M (json_data DDelete) (delete_zone_discovery ident) st"

subsection \<open>The service\<close>

record mcp_config =
  mc_addresses :: "string list"
  mc_port :: u16
  mc_api_token :: "string option"
  mc_allowed_origins :: "string list"
  mc_allowed_hosts :: "string list option"

text \<open>The host names that requests may carry: those configured, or those of the bind addresses and of this machine.\<close>

definition mcp_allowed_hosts :: "mcp_config \<Rightarrow> string list" where
  "mcp_allowed_hosts config =
     (let at_port = (\<lambda>a. a @ '':'' @ show_port (mc_port config)) in
      case mc_allowed_hosts config of
        Some hosts \<Rightarrow> hosts
      | None \<Rightarrow> map at_port (filter (\<lambda>a. a \<noteq> ''0.0.0.0'' \<and> a \<noteq> ''::'') (mc_addresses config)) @
          [at_port ''localhost'', at_port ''127.0.0.1'', at_port ''[::1]''])"

text \<open>
  The tool protocol: it reads a request (under the allowed hosts and origins) as a tool call or answers it itself, and
  it writes results.
\<close>

record mcp_lib =
  ml_decode :: "string list \<Rightarrow> string list \<Rightarrow> http_request \<Rightarrow> http_response + mcp_tool"
  ml_encode :: "mcp_result \<Rightarrow> http_response"

definition mcp_server ::
  "mcp_lib \<Rightarrow> mcp_env \<Rightarrow> mcp_config \<Rightarrow> moment \<Rightarrow> http_request \<Rightarrow> api_state \<Rightarrow> http_response \<times> api_state" where
  "mcp_server T M config mo req =
     bearer_auth_middleware (he_lib (me_http M)) (mc_api_token config) req
       (\<lambda>st. case ml_decode T (mcp_allowed_hosts config) (mc_allowed_origins config) req of
          Inl r \<Rightarrow> (r, st)
        | Inr tool \<Rightarrow> (case mcp_call M mo tool st of (result, st) \<Rightarrow> (ml_encode T result, st)))"

subsection \<open>The tools implement the contract of a management interface\<close>

fun mcp_failed :: "mcp_result \<Rightarrow> bool" where
  "mcp_failed (McpError _) = True"
| "mcp_failed _ = False"

lemma tool_operates:
  assumes "\<And>a. \<not> mcp_failed (reply a)"
  shows "case tool_result M reply m st of (r, st') \<Rightarrow> operates m (mcp_failed r) st st'"
  using assms by (cases "m (as_ops st)"; cases "fst (m (as_ops st))") (auto simp: tool_result_def operates_def)

lemma tool_effectI:
  "case p of (r, st') \<Rightarrow> has_effect P e (mcp_failed r) st st' \<Longrightarrow>
   case p of (r, st') \<Rightarrow> \<exists>e. has_effect P e (mcp_failed r) st st'"
  by (cases p) blast

lemma tool_reads:
  assumes "\<And>s. snd (m s) = s" and "\<And>a. \<not> mcp_failed (reply a)"
  shows "case tool_result M reply m st of (r, st') \<Rightarrow> \<exists>e. has_effect P e (mcp_failed r) st st'"
  using tool_operates [where reply = reply and M = M and m = m and st = st] assms
  by (intro tool_effectI [where e = NoEffect]) (auto simp: operates_def)

lemma tool_changes:
  assumes "admin_exec P c = done_op m" and "\<And>a. \<not> mcp_failed (reply a)"
  shows "case tool_result M reply m st of (r, st') \<Rightarrow> \<exists>e. has_effect P e (mcp_failed r) st st'"
  using tool_operates [where reply = reply and M = M and m = m and st = st] assms
  by (intro tool_effectI [where e = "Change c"]) (auto simp: operates_done)

lemma search_reads [simp]:
  "snd (list_zones_op s) = s" "snd (search_zone_records display fuzzy query zone ty limit s) = s"
  by (auto simp: list_zones_op_def search_zone_records_def Let_def split: option.splits prod.splits)

lemma tool_refreshes:
  "case refresh_lists_tool M name st of (r, st') \<Rightarrow> \<exists>e. has_effect P e (mcp_failed r) st st'"
proof (cases name)
  case None
  then show ?thesis
    by (intro tool_effectI [where e = "StartRefresh (eng_runtimes (so_domain_filter (as_ops st)))"])
      (simp add: refresh_lists_tool_def refresh_all_lists_op_def refresh_all_lists_def)
next
  case (Some n)
  show ?thesis
  proof (cases "find (\<lambda>rt. rt_name rt = n) (eng_runtimes (so_domain_filter (as_ops st)))")
    case None
    then show ?thesis using Some no_effect by (simp add: refresh_lists_tool_def refresh_list_op_def refresh_list_def)
  next
    case (Some rt)
    then show ?thesis using \<open>name = Some n\<close> find_SomeD [OF Some]
      by (intro tool_effectI [where e = "StartRefresh [rt]"])
        (simp add: refresh_lists_tool_def refresh_list_op_def refresh_list_def)
  qed
qed

definition tool_effective :: "mcp_tool \<Rightarrow> bool" where
  "tool_effective tool \<longleftrightarrow> (\<forall>M mo st. case mcp_call M mo tool st of
     (r, st') \<Rightarrow> \<exists>e. has_effect (he_parse_url (me_http M)) e (mcp_failed r) st st')"

lemma tools_look:
  "tool_effective (DnsLookupTool d)" "tool_effective FilterStatusTool" "tool_effective ListFiltersTool"
  "tool_effective GetStatsTool" "tool_effective (GetStatsPresentedTool b)" "tool_effective ServerHealthTool"
  "tool_effective (RefreshListsTool name)"
  by (simp_all add: tool_effective_def get_stats_presented_tool_def Let_def tool_refreshes no_effect
      del: has_effect.simps)

lemma tools_read:
  "tool_effective GetQueryLogTool" "tool_effective ListZonesTool" "tool_effective (SearchZoneRecordsTool p)"
  "tool_effective ListBlocklistsTool" "tool_effective ListAllowlistsTool" "tool_effective GetResolverConfigTool"
  "tool_effective ListUpstreamsTool" "tool_effective (ListUpstreamsPresentedTool b)"
  "tool_effective ListZoneConfigsTool" "tool_effective ListZoneDiscoveryTool"
  unfolding tool_effective_def mcp_call.simps search_zone_records_tool_def list_upstreams_presented_tool_def
  by (intro allI tool_reads; simp add: mcp_with_presentation_def split: prod.split)+

lemma tools_change:
  "tool_effective (AddBlocklistTool al)" "tool_effective (UpdateBlocklistTool ul)" "tool_effective (DeleteBlocklistTool n)"
  "tool_effective (AddAllowlistTool al)" "tool_effective (UpdateAllowlistTool ul)" "tool_effective (DeleteAllowlistTool n)"
  "tool_effective (UpdateResolverConfigTool r)" "tool_effective (AddUpstreamTool au)"
  "tool_effective (UpdateUpstreamTool uu)" "tool_effective (DeleteUpstreamTool n)" "tool_effective (AddZoneTool az)"
  "tool_effective (UpdateZoneTool uz)" "tool_effective (DeleteZoneTool n)" "tool_effective (AddZoneDiscoveryTool ad)"
  "tool_effective (UpdateZoneDiscoveryTool ud)" "tool_effective (DeleteZoneDiscoveryTool n)"
  unfolding tool_effective_def mcp_call.simps
  by (intro allI, rule tool_changes, rule admin_exec.simps, simp)+

lemma tools_switch:
  "tool_effective (EnableListTool n)" "tool_effective (DisableListTool n)" "tool_effective ReloadConfigTool"
  "tool_effective (FilterToggleTool b)"
proof -
  show "tool_effective (EnableListTool n)" "tool_effective (DisableListTool n)"
    unfolding tool_effective_def mcp_call.simps
    by (intro allI, rule tool_effectI [where e = "SwitchList True n"] tool_effectI [where e = "SwitchList False n"],
        simp add: tool_operates)+
  show "tool_effective ReloadConfigTool"
    unfolding tool_effective_def mcp_call.simps
    by (intro allI, rule tool_effectI [where e = AskReload]) (simp add: tool_operates)
  show "tool_effective (FilterToggleTool b)"
    unfolding tool_effective_def
    by (intro allI, rule tool_effectI [where e = "SwitchFilter b"]) (simp add: set_filtering_def)
qed

lemma mcp_call_effect: "tool_effective tool"
  by (cases tool) (simp_all add: tools_look tools_read tools_change tools_switch)

interpretation mcp_tools: management_interface "he_parse_url (me_http M)" "\<lambda>(mo, tool). mcp_call M mo tool" mcp_failed
  for M
proof unfold_locales
  fix q st r st'
  assume "(case q of (mo, tool) \<Rightarrow> mcp_call M mo tool) st = (r, st')"
  then show "\<exists>e. has_effect (he_parse_url (me_http M)) e (mcp_failed r) st st'"
    using mcp_call_effect [of "snd q", unfolded tool_effective_def, rule_format, where M = M and mo = "fst q" and st = st]
    by (cases q) simp
qed

text \<open>Two interfaces to the same state, used in any order, are together one interface.\<close>

locale joined_interfaces =
  one: management_interface parse_url call1 failed1 + two: management_interface parse_url call2 failed2
  for parse_url and call1 :: "'q1 \<Rightarrow> api_state \<Rightarrow> 'r1 \<times> api_state" and failed1
    and call2 :: "'q2 \<Rightarrow> api_state \<Rightarrow> 'r2 \<times> api_state" and failed2

sublocale joined_interfaces \<subseteq> joined: management_interface parse_url
  "\<lambda>q st. case q of Inl a \<Rightarrow> map_prod Inl id (call1 a st) | Inr b \<Rightarrow> map_prod Inr id (call2 b st)"
  "case_sum failed1 failed2"
proof unfold_locales
  fix q st r st'
  assume "(case q of Inl a \<Rightarrow> map_prod Inl id (call1 a st) | Inr b \<Rightarrow> map_prod Inr id (call2 b st)) = (r, st')"
  then show "\<exists>e. has_effect parse_url e (case_sum failed1 failed2 r) st st'"
    using one.effect two.effect by (cases q) (auto simp: map_prod_def split: prod.splits)
qed

interpretation management: joined_interfaces "he_parse_url (me_http M)"
  "\<lambda>(mo, req). api_server (me_http M) token origins mo req" http_failed
  "\<lambda>(mo, tool). mcp_call M mo tool" mcp_failed
  for M token origins
  by unfold_locales

subsection \<open>Properties\<close>

text \<open>A request to either interface, and what it leaves.\<close>

type_synonym management_request = "moment \<times> http_request + moment \<times> mcp_tool"

definition manage :: "mcp_env \<Rightarrow> string option \<Rightarrow> string list \<Rightarrow> management_request \<Rightarrow> api_state \<Rightarrow> bool \<times> api_state" where
  "manage M token origins q st =
     (case q of
        Inl (mo, req) \<Rightarrow> map_prod http_failed id (api_server (me_http M) token origins mo req st)
      | Inr (mo, tool) \<Rightarrow> map_prod mcp_failed id (mcp_call M mo tool st))"

lemma manage_joined:
  "manage M token origins q st =
     map_prod (case_sum http_failed mcp_failed) id
       (case q of
          Inl a \<Rightarrow> map_prod Inl id ((case a of (mo, req) \<Rightarrow> api_server (me_http M) token origins mo req) st)
        | Inr b \<Rightarrow> map_prod Inr id ((case b of (mo, tool) \<Rightarrow> mcp_call M mo tool) st))"
  by (auto simp: manage_def prod.map_comp comp_def id_def split: sum.splits prod.splits)

text \<open>
  C7. Whatever arrives at the management interfaces, HTTP requests (authorized or not, with any path and body) and tool
  calls in any order, the tables stay consistent and the filter keeps its invariant; a request that reports a failure
  has asked for no reload; and no more reloads are asked for than requests arrive.
\<close>

theorem management_requests_safe:
  assumes "api_ok st"
  shows "api_ok (fold (\<lambda>q st. snd (manage M token origins q st)) qs st) \<and>
    so_reloads_sent (as_ops (fold (\<lambda>q st. snd (manage M token origins q st)) qs st))
      \<le> so_reloads_sent (as_ops st) + length qs \<and>
    (fst (manage M token origins q st) \<longrightarrow>
      so_reloads_sent (as_ops (snd (manage M token origins q st))) = so_reloads_sent (as_ops st))"
  using management.joined.calls_keep_ok [OF assms, where M = M and token = token and origins = origins and qs = qs]
    management.joined.reloads_bounded [where M = M and token = token and origins = origins and qs = qs and st = st]
    management.joined.failure_sends_no_reload [where M = M and token = token and origins = origins and q = q and st = st]
  unfolding manage_joined by simp

text \<open>
  C6. With a token configured, a request without exactly the header \<open>Bearer\<close> and that token changes nothing: the
  tables, the filter, the shutdown token and the refresh tasks stay as they are, whatever the method, the path and the
  body. This holds for the API server, for the API embedded in the administration server and for the tool server.
  A request for a path of the API, and every request to the tool server, is refused with status 401. Other requests
  without the token (for the health report, the pages of the administration, a preflight, an unknown path) are answered as
  usual, and change nothing either.
\<close>

theorem unauthorized_changes_nothing:
  assumes "header_text_ok (he_lib E)" and "hq_authorization req \<noteq> Some (''Bearer '' @ token)"
    and "me_http M = E" and "mc_api_token config = Some token"
  shows "snd (api_server E (Some token) origins mo req st) = st \<and>
    snd (admin_router html E (Some token) mo req st) = st \<and>
    snd (mcp_server T M config mo req st) = st \<and>
    (matching_routes (he_lib E) api_routes req \<noteq> [] \<longrightarrow>
      hs_status (fst (api_router E (Some token) mo req st)) = 401) \<and>
    hs_status (fst (mcp_server T M config mo req st)) = 401"
proof -
  obtain m where "mcp_server T M config mo req st = (auth_error 401 m, st)"
    using bearer_auth_rejects [OF assms(1,2), of "\<lambda>st. case ml_decode T (mcp_allowed_hosts config) (mc_allowed_origins config) req of
          Inl r \<Rightarrow> (r, st)
        | Inr tool \<Rightarrow> (case mcp_call M mo tool st of (result, st) \<Rightarrow> (ml_encode T result, st))" st] assms(3,4)
    by (auto simp: mcp_server_def)
  then show ?thesis using unauthorized_http [OF assms(1,2)] by (auto simp: auth_error_def)
qed

text \<open>The table of servers has one line for each server, whatever the texts in the database are.\<close>

lemma markdown_cell_lines [simp]: "newline \<notin> set (markdown_cell v)"
  by (auto simp: markdown_cell_def replace_char_def split: if_splits)

lemma show_lines [simp]: "newline \<notin> set (show_nat (int n))" "newline \<notin> set (show_int i)"
proof -
  have digits: "newline \<notin> set (show_nat k)" if "0 \<le> k" for k
    using show_nat_digits [OF that] by (auto simp: list_all_iff is_ascii_digit_def)
  then show "newline \<notin> set (show_nat (int n))" "newline \<notin> set (show_int i)" by (auto simp: show_int_def)
qed

lemma cell_lines [simp]:
  "newline \<notin> set (optional_cell v)" "newline \<notin> set (bool_cell b)" "newline \<notin> set (upstream_auth_mode t u p)"
  "newline \<notin> set (optional_number n)"
  by (auto simp: optional_cell_def bool_cell_def upstream_auth_mode_def optional_number_def split: option.splits)

lemma count_none: "c \<notin> set s \<Longrightarrow> count_list s c = 0"
  by (simp add: count_list_0_iff)

lemma table_row_lines:
  assumes "\<forall>c\<in>set cells. newline \<notin> set c" and "cells \<noteq> []"
  shows "count_list (table_row cells) newline = 1"
proof -
  have "newline \<notin> set (concat (map (\<lambda>c. c @ '' | '') (butlast cells)))" "newline \<notin> set (last cells)"
    using assms by (auto dest: in_set_butlastD)
  then show ?thesis by (simp add: table_row_def count_none)
qed

text \<open>
  The table of upstream servers has one line for each server besides its two heading lines, whatever texts the database
  holds: no value can add a row.
\<close>

theorem upstream_table_rows:
  "count_list (render_upstreams_markdown servers) newline = (if servers = [] then 0 else length servers + 2)"
proof -
  have "count_list (upstream_row server) newline = 1" for server
    unfolding upstream_row_def by (rule table_row_lines) simp_all
  then have "count_list (concat (map upstream_row servers)) newline = length servers"
    by (induction servers) simp_all
  then show ?thesis by (simp add: render_upstreams_markdown_def table_row_lines)
qed

text \<open>The heading of the search results stays on the line of the table: there is no line break before the first bar.\<close>

theorem search_heading_not_separated:
  assumes "results \<noteq> []"
  shows "\<exists>heading rest. render_zone_search_markdown show_type query results n = heading @ ''| zone | name |'' @ rest \<and>
    newline \<notin> set heading"
proof -
  let ?h = "''Query: '' @ markdown_cell query @ [backslash, CHR ''n''] @ ''Total matches: '' @ show_nat (int n)
     @ [backslash, CHR ''n''] @ ''Returned: '' @ show_nat (int (length results))
     @ [backslash, CHR ''n'', backslash, CHR ''n'']"
  have "newline \<notin> set ?h" by simp
  moreover have "\<exists>rest. render_zone_search_markdown show_type query results n = ?h @ ''| zone | name |'' @ rest"
    using assms by (simp add: render_zone_search_markdown_def table_row_def)
  ultimately show ?thesis by blast
qed

text \<open>The derived host name of an IPv6 bind address lacks the brackets that a \<open>Host\<close> header has.\<close>

theorem ipv6_bind_host_unbracketed:
  "mcp_allowed_hosts \<lparr>mc_addresses = [''2001:db8::1''], mc_port = 3000, mc_api_token = None, mc_allowed_origins = [],
       mc_allowed_hosts = None\<rparr> = [''2001:db8::1:3000'', ''localhost:3000'', ''127.0.0.1:3000'', ''[::1]:3000'']"
  by code_simp

subsection \<open>Instances\<close>

definition example_mcp_env :: mcp_env where
  "example_mcp_env =
     \<lparr>me_http = example_http_env, me_rdata_display = (\<lambda>_. []), me_fuzzy_match = (\<lambda>_ _. None), me_show_type = (\<lambda>_. []),
      me_show_latency = (\<lambda>_. [])\<rparr>"

definition example_mcp_config :: mcp_config where
  "example_mcp_config = \<lparr>mc_addresses = [''::''], mc_port = 3000, mc_api_token = Some ''key'', mc_allowed_origins = [],
     mc_allowed_hosts = None\<rparr>"

definition toggle_lib :: mcp_lib where
  "toggle_lib = \<lparr>ml_decode = (\<lambda>_ _ _. Inr (FilterToggleTool False)), ml_encode = (\<lambda>_. library_response 200)\<rparr>"

theorem management_requests_safe_witness:
  "api_ok (fold (\<lambda>q st. snd (manage example_mcp_env None [] q st))
     [Inl (example_moment, stop_request None), Inr (example_moment, FilterToggleTool False),
      Inr (example_moment, DeleteZoneTool ''x'')] example_api) \<and>
   so_reloads_sent (as_ops (snd (manage example_mcp_env None [] (Inr (example_moment, DisableListTool ''x'')) example_api))) = 0"
proof -
  have "fst (manage example_mcp_env None [] (Inr (example_moment, DisableListTool ''x'')) example_api)"
    by (simp add: manage_def tool_result_def disable_list_op_def disable_list_def set_list_disabled_def example_api_def
        new_server_def engine_new_def)
  moreover have "so_reloads_sent (as_ops example_api) = 0" by (simp add: example_api_def new_server_def)
  ultimately show ?thesis
    using management_requests_safe [OF example_api_ok, where M = example_mcp_env and token = None and origins = "[]" and
        q = "Inr (example_moment, DisableListTool ''x'')"] by (simp only: add_0)
qed

theorem unauthorized_changes_nothing_witness:
  "snd (mcp_server toggle_lib example_mcp_env example_mcp_config example_moment (stop_request (Some ''Bearer guess''))
     example_api) = example_api \<and>
   hs_status (fst (api_router example_http_env (Some ''key'') example_moment (stop_request (Some ''Bearer guess''))
     example_api)) = 401"
proof -
  have "header_text_ok (he_lib example_http_env)"
    by (simp add: header_text_ok_def example_http_env_def example_http_lib_def)
  moreover have "hq_authorization (stop_request (Some ''Bearer guess'')) \<noteq> Some (''Bearer '' @ ''key'')"
    by (simp add: stop_request_def)
  moreover have "matching_routes (he_lib example_http_env) api_routes (stop_request (Some ''Bearer guess'')) \<noteq> []"
    by (simp add: matching_routes_def api_routes_def example_http_env_def example_http_lib_def stop_request_def)
  moreover have "me_http example_mcp_env = example_http_env" "mc_api_token example_mcp_config = Some ''key''"
    by (simp_all add: example_mcp_env_def example_mcp_config_def)
  ultimately show ?thesis
    using unauthorized_changes_nothing [of example_http_env "stop_request (Some ''Bearer guess'')" "''key''" example_mcp_env
        example_mcp_config "[]" example_moment example_api "[]" toggle_lib] by blast
qed

end
