(* ===== verification/FilterConcurrency.thy ===== *)
theory FilterConcurrency
  imports FilterEngine
begin

text \<open>
  The filter engine under concurrency. Refresh tasks and administrative calls share one engine: the
  list map and the snapshot sit behind two \<open>RwLock\<close>s, the flags are atomics read without a lock
  (\<open>src/use_cases/filtering/mod.rs\<close>, \<open>refresh_single_list\<close>, \<open>rebuild_snapshot\<close>, \<open>disable_list\<close>).

  A state holds the engine, the number of threads that have changed it and have not yet entered
  \<open>rebuild_snapshot\<close>, and the rebuilds in progress. A rebuild holds the read guard of the list map
  from its first line to its last, so no list is inserted meanwhile; it reads the flags one at a
  time, and any number of rebuilds may overlap.
\<close>

record rebuild_task =
  rb_next :: nat
  rb_disabled :: "string set"

record shared_engine =
  sh_engine :: filter_engine
  sh_pending :: nat
  sh_tasks :: "rebuild_task list"

datatype engine_label = InsertList string list_domains | StoreFlag string bool | RebuildStep

definition read_flag :: "list_runtime list \<Rightarrow> rebuild_task \<Rightarrow> rebuild_task" where
  "read_flag rts t =
     (let rt = rts ! rb_next t in
      \<lparr>rb_next = Suc (rb_next t),
       rb_disabled = (if rt_disabled rt then insert (rt_key rt) (rb_disabled t) else rb_disabled t)\<rparr>)"

inductive engine_step :: "engine_label \<Rightarrow> shared_engine \<Rightarrow> shared_engine \<Rightarrow> bool" where
  insert_list: "sh_tasks s = [] \<Longrightarrow> e = sh_engine s \<Longrightarrow> rt \<in> set (eng_runtimes e) \<Longrightarrow>
    ld_kind l = rt_kind rt \<Longrightarrow>
    engine_step (InsertList (rt_key rt) l) s
      (s\<lparr>sh_engine := e\<lparr>eng_lists := hm_insert (rt_key rt) l (eng_lists e)\<rparr>,
         sh_pending := Suc (sh_pending s)\<rparr>)"
| store_flag: "e = sh_engine s \<Longrightarrow> set_first_disabled name b (eng_runtimes e) = Some rts \<Longrightarrow>
    engine_step (StoreFlag name b) s
      (s\<lparr>sh_engine := e\<lparr>eng_runtimes := rts\<rparr>, sh_pending := Suc (sh_pending s)\<rparr>)"
| begin_rebuild: "sh_pending s = Suc n \<Longrightarrow>
    engine_step RebuildStep s
      (s\<lparr>sh_pending := n, sh_tasks := \<lparr>rb_next = 0, rb_disabled = {}\<rparr> # sh_tasks s\<rparr>)"
| read_flag: "i < length (sh_tasks s) \<Longrightarrow>
    rb_next (sh_tasks s ! i) < length (eng_runtimes (sh_engine s)) \<Longrightarrow>
    engine_step RebuildStep s
      (s\<lparr>sh_tasks := (sh_tasks s)[i := read_flag (eng_runtimes (sh_engine s)) (sh_tasks s ! i)]\<rparr>)"
| write_snapshot: "i < length (sh_tasks s) \<Longrightarrow> e = sh_engine s \<Longrightarrow>
    rb_next (sh_tasks s ! i) = length (eng_runtimes e) \<Longrightarrow>
    engine_step RebuildStep s
      (s\<lparr>sh_engine := e\<lparr>eng_snapshot := compute_snapshot (rb_disabled (sh_tasks s ! i)) (eng_lists e)\<rparr>,
         sh_tasks := take i (sh_tasks s) @ drop (Suc i) (sh_tasks s)\<rparr>)"

inductive engine_steps :: "engine_label list \<Rightarrow> shared_engine \<Rightarrow> shared_engine \<Rightarrow> bool" where
  none: "engine_steps [] s s"
| more: "engine_steps ls s s' \<Longrightarrow> engine_step l s' s'' \<Longrightarrow> engine_steps (ls @ [l]) s s''"

inductive_cases engine_stepE: "engine_step l s s'"

definition quiescent :: "shared_engine \<Rightarrow> bool" where
  "quiescent s \<longleftrightarrow> sh_pending s = 0 \<and> sh_tasks s = []"

definition idle :: "filter_engine \<Rightarrow> shared_engine" where
  "idle e = \<lparr>sh_engine = e, sh_pending = 0, sh_tasks = []\<rparr>"

subsection \<open>What a run has done\<close>

text \<open>The lists and the flags that follow from the labels of a run, whatever the rebuilds do.\<close>

fun list_after :: "engine_label \<Rightarrow> (string \<rightharpoonup> list_domains) \<Rightarrow> (string \<rightharpoonup> list_domains)" where
  "list_after (InsertList k l) m = m(k \<mapsto> l)"
| "list_after _ m = m"

fun flag_after :: "engine_label \<Rightarrow> list_runtime list \<Rightarrow> list_runtime list" where
  "flag_after (StoreFlag name b) rts = (case set_first_disabled name b rts of Some rts' \<Rightarrow> rts' | None \<Rightarrow> rts)"
| "flag_after _ rts = rts"

definition lists_after :: "engine_label list \<Rightarrow> (string \<rightharpoonup> list_domains) \<Rightarrow> (string \<rightharpoonup> list_domains)" where
  "lists_after ls m = fold list_after ls m"

definition runtimes_after :: "engine_label list \<Rightarrow> list_runtime list \<Rightarrow> list_runtime list" where
  "runtimes_after ls rts = fold flag_after ls rts"

text \<open>A key was flagged as disabled, and a configured list as enabled, at some moment of the run.\<close>

definition was_disabled :: "engine_label list \<Rightarrow> list_runtime list \<Rightarrow> string \<Rightarrow> bool" where
  "was_disabled ls rts k \<longleftrightarrow> (\<exists>n\<le>length ls. k \<in> disabled_keys (runtimes_after (take n ls) rts))"

definition was_enabled :: "engine_label list \<Rightarrow> list_runtime list \<Rightarrow> nat \<Rightarrow> bool" where
  "was_enabled ls rts i \<longleftrightarrow> (\<exists>n\<le>length ls. \<not> rt_disabled (runtimes_after (take n ls) rts ! i))"

lemma after_snoc [simp]:
  "lists_after (ls @ [l]) m = list_after l (lists_after ls m)"
  "runtimes_after (ls @ [l]) rts = flag_after l (runtimes_after ls rts)"
  by (simp_all add: lists_after_def runtimes_after_def)

lemma after_Nil [simp]: "lists_after [] m = m" "runtimes_after [] rts = rts"
  by (simp_all add: lists_after_def runtimes_after_def)

lemma set_first_disabled_keys: "set_first_disabled name b rts = Some rts' \<Longrightarrow> map rt_key rts' = map rt_key rts"
  by (induction rts arbitrary: rts') (auto split: if_splits)

lemma flag_after_keys [simp]: "map rt_key (flag_after l rts) = map rt_key rts"
  by (cases l) (auto simp: set_first_disabled_keys split: option.split)

lemma runtimes_after_keys: "map rt_key (runtimes_after ls rts) = map rt_key rts"
  by (induction ls rule: rev_induct) simp_all

lemma was_snoc:
  "was_disabled ls rts k \<Longrightarrow> was_disabled (ls @ [l]) rts k"
  "was_enabled ls rts i \<Longrightarrow> was_enabled (ls @ [l]) rts i"
  unfolding was_disabled_def was_enabled_def by (auto intro: exI [where x = n for n] le_SucI)

lemma was_now:
  "k \<in> disabled_keys (runtimes_after ls rts) \<Longrightarrow> was_disabled ls rts k"
  "\<not> rt_disabled (runtimes_after ls rts ! i) \<Longrightarrow> was_enabled ls rts i"
  unfolding was_disabled_def was_enabled_def by auto

subsection \<open>No list is lost\<close>

text \<open>
  What the first \<open>m\<close> flags of a rebuild may have been: every key that was found disabled was so at some
  moment, and every list whose key was not found disabled was enabled at some moment.
\<close>

definition flags_read :: "engine_label list \<Rightarrow> list_runtime list \<Rightarrow> nat \<Rightarrow> string set \<Rightarrow> bool" where
  "flags_read ls rts m D \<longleftrightarrow>
     (\<forall>k\<in>D. was_disabled ls rts k) \<and> (\<forall>i<m. rt_key (rts ! i) \<in> D \<or> was_enabled ls rts i)"

definition run_inv :: "filter_engine \<Rightarrow> engine_label list \<Rightarrow> shared_engine \<Rightarrow> bool" where
  "run_inv e ls s \<longleftrightarrow>
     (let rts = eng_runtimes e; e' = sh_engine s in
      eng_runtimes e' = runtimes_after ls rts \<and> map_of (eng_lists e') = lists_after ls (map_of (eng_lists e))
      \<and> runtimes_inv (eng_runtimes e') \<and> lists_inv (eng_runtimes e') (eng_lists e')
      \<and> (\<forall>t\<in>set (sh_tasks s). flags_read ls rts (rb_next t) (rb_disabled t))
      \<and> (quiescent s \<longrightarrow>
           (\<exists>D. flags_read ls rts (length rts) D \<and> eng_snapshot e' = compute_snapshot D (eng_lists e'))))"

lemma flags_read_snoc: "flags_read ls rts m D \<Longrightarrow> flags_read (ls @ [l]) rts m D"
  unfolding flags_read_def using was_snoc by blast

lemma flags_read_next:
  assumes "flags_read ls rts (rb_next t) (rb_disabled t)" and "rb_next t < length rts"
  shows "flags_read ls rts (rb_next (read_flag (runtimes_after ls rts) t)) (rb_disabled (read_flag (runtimes_after ls rts) t))"
proof -
  let ?now = "runtimes_after ls rts" and ?n = "rb_next t"
  have len: "length ?now = length rts" using arg_cong [OF runtimes_after_keys [of ls rts], of length] by simp
  then have key: "rt_key (?now ! ?n) = rt_key (rts ! ?n)"
    using arg_cong [OF runtimes_after_keys [of ls rts], of "\<lambda>xs. xs ! ?n"] assms(2) by simp
  have "was_disabled ls rts (rt_key (?now ! ?n))" if "rt_disabled (?now ! ?n)"
    using that assms(2) len by (intro was_now) (auto simp: disabled_keys_def)
  moreover have "was_enabled ls rts ?n" if "\<not> rt_disabled (?now ! ?n)" using that by (rule was_now)
  ultimately show ?thesis using assms(1) key
    by (auto simp: flags_read_def read_flag_def Let_def less_Suc_eq)
qed

lemma run_inv_step:
  assumes "run_inv e ls s" and "engine_step l s s'"
  shows "run_inv e (ls @ [l]) s'"
  using assms(2,1)
proof cases
  case (insert_list e' rt l')
  then show ?thesis using assms(1) flags_read_snoc
    by (auto simp: run_inv_def quiescent_def Let_def lists_inv_insert)
next
  case (store_flag e' name b rts)
  then show ?thesis using assms(1) flags_read_snoc set_first_disabled_inv [OF store_flag(4)]
    by (auto simp: run_inv_def quiescent_def Let_def)
next
  case (begin_rebuild n)
  then show ?thesis using assms(1) flags_read_snoc
    by (auto simp: run_inv_def quiescent_def Let_def) (auto simp: flags_read_def)
next
  case (read_flag i)
  let ?rts = "eng_runtimes e"
  have now: "eng_runtimes (sh_engine s) = runtimes_after ls ?rts" using assms(1) by (simp add: run_inv_def Let_def)
  have len: "length (runtimes_after ls ?rts) = length ?rts"
    using arg_cong [OF runtimes_after_keys [of ls ?rts], of length] by simp
  have old: "\<forall>t\<in>set (sh_tasks s). flags_read ls ?rts (rb_next t) (rb_disabled t)"
    using assms(1) by (simp add: run_inv_def Let_def)
  define t' where "t' = FilterConcurrency.read_flag (runtimes_after ls ?rts) (sh_tasks s ! i)"
  have "flags_read ls ?rts (rb_next t') (rb_disabled t')"
    unfolding t'_def using flags_read_next old read_flag(3,4) now len by simp
  with old have "\<forall>t\<in>set ((sh_tasks s)[i := t']). flags_read (ls @ [l]) ?rts (rb_next t) (rb_disabled t)"
    using set_update_subset_insert [of "sh_tasks s" i t'] flags_read_snoc by blast
  moreover have "sh_tasks s' \<noteq> []" using read_flag by auto
  ultimately show ?thesis using assms(1) read_flag(1,2) now
    by (simp add: run_inv_def quiescent_def Let_def t'_def)
next
  case (write_snapshot i e')
  have "flags_read ls (eng_runtimes e) (rb_next (sh_tasks s ! i)) (rb_disabled (sh_tasks s ! i))"
    using assms(1) write_snapshot(3) by (simp add: run_inv_def Let_def)
  moreover have "rb_next (sh_tasks s ! i) = length (eng_runtimes e)"
    using assms(1) write_snapshot(4,5) arg_cong [OF runtimes_after_keys [of ls "eng_runtimes e"], of length]
    by (simp add: run_inv_def Let_def)
  ultimately have "flags_read (ls @ [l]) (eng_runtimes e) (length (eng_runtimes e)) (rb_disabled (sh_tasks s ! i))"
    using flags_read_snoc by simp
  moreover have "\<forall>t\<in>set (sh_tasks s'). flags_read (ls @ [l]) (eng_runtimes e) (rb_next t) (rb_disabled t)"
    using assms(1) flags_read_snoc unfolding write_snapshot(2) run_inv_def Let_def
    by (auto dest: in_set_takeD in_set_dropD)
  ultimately show ?thesis using assms(1) write_snapshot(1,2,4)
    by (auto simp: run_inv_def Let_def)
qed

lemma run_inv_idle:
  assumes "engine_inv e"
  shows "run_inv e [] (idle e)"
proof -
  let ?rts = "eng_runtimes e"
  have "flags_read [] ?rts (length ?rts) (disabled_keys ?rts)"
    unfolding flags_read_def by (auto simp: was_disabled_def was_enabled_def disabled_keys_def)
  then show ?thesis using assms by (auto simp: run_inv_def idle_def engine_inv_def Let_def)
qed

lemma run_inv_steps:
  assumes "engine_steps ls (idle e) s" and "engine_inv e"
  shows "run_inv e ls s"
proof -
  have "engine_steps ls s0 s \<Longrightarrow> s0 = idle e \<Longrightarrow> run_inv e ls s" for s0
    by (induction rule: engine_steps.induct) (auto intro: run_inv_step run_inv_idle [OF assms(2)])
  then show ?thesis using assms(1) by blast
qed

subsection \<open>Properties\<close>

text \<open>The steps of one rebuild that runs alone, from entering it to writing the snapshot.\<close>

lemma engine_steps_append:
  "engine_steps ls' s' s'' \<Longrightarrow> engine_steps ls s s' \<Longrightarrow> engine_steps (ls @ ls') s s''"
proof (induction arbitrary: ls rule: engine_steps.induct)
  case (more ls' s' s'' l s''')
  then have "engine_steps ((ls @ ls') @ [l]) s s'''" by (metis engine_steps.more)
  then show ?case by simp
qed simp

lemma engine_steps_one: "engine_step l s s' \<Longrightarrow> engine_steps [l] s s'"
  using engine_steps.more [OF engine_steps.none] by simp

lemma engine_steps_cons: "engine_step l s s' \<Longrightarrow> engine_steps ls s' s'' \<Longrightarrow> engine_steps (l # ls) s s''"
  using engine_steps_append [OF _ engine_steps_one] by simp

text \<open>
  C38. However refreshes and administrative calls interleave, no list that was loaded is lost: once
  every started rebuild has finished, the engine holds under each key the list loaded last, and
  queries are decided from those lists, except some that were flagged as disabled at some moment of
  the run. In particular a list that is enabled all the time takes part, and one that is disabled all
  the time does not.
\<close>

theorem concurrent_refresh_keeps_lists:
  assumes "engine_inv e" and "engine_steps ls (idle e) s" and "quiescent s"
  shows "map_of (eng_lists (sh_engine s)) = lists_after ls (map_of (eng_lists e)) \<and>
    (\<exists>D. (\<forall>domain. decide (sh_engine s) domain = verdict (active_lists D (eng_lists (sh_engine s))) domain) \<and>
      (\<forall>k\<in>D. was_disabled ls (eng_runtimes e) k) \<and>
      (\<forall>i<length (eng_runtimes e). rt_key (eng_runtimes e ! i) \<notin> D \<longrightarrow> was_enabled ls (eng_runtimes e) i))"
proof -
  have inv: "run_inv e ls s" using assms(1,2) by (rule run_inv_steps [rotated])
  with assms(3) obtain D where D: "flags_read ls (eng_runtimes e) (length (eng_runtimes e)) D"
    and "eng_snapshot (sh_engine s) = compute_snapshot D (eng_lists (sh_engine s))"
    by (auto simp: run_inv_def Let_def)
  then have "\<forall>domain. decide (sh_engine s) domain = verdict (active_lists D (eng_lists (sh_engine s))) domain"
    using decide_verdict by blast
  then show ?thesis using inv D unfolding run_inv_def Let_def flags_read_def by blast
qed

text \<open>
  While no list is enabled or disabled, concurrent refreshes are harmless: once they have
  finished, the engine satisfies the invariant of the sequential engine, its snapshot included.
\<close>

lemma runtimes_unchanged: "\<forall>name b. StoreFlag name b \<notin> set ls \<Longrightarrow> runtimes_after ls rts = rts"
proof (induction ls rule: rev_induct)
  case (snoc l ls)
  then show ?case by (cases l) auto
qed simp

theorem concurrent_refresh_only:
  assumes "engine_inv e" and "engine_steps ls (idle e) s" and "quiescent s"
    and "\<forall>name b. StoreFlag name b \<notin> set ls"
  shows "engine_inv (sh_engine s)"
proof -
  let ?rts = "eng_runtimes e"
  have same: "runtimes_after (take n ls) ?rts = ?rts" for n
    using assms(4) by (intro runtimes_unchanged) (meson in_set_takeD)
  have inv: "run_inv e ls s" using assms(1,2) by (rule run_inv_steps [rotated])
  with assms(3) obtain D where D: "flags_read ls ?rts (length ?rts) D"
    and snap: "eng_snapshot (sh_engine s) = compute_snapshot D (eng_lists (sh_engine s))"
    by (auto simp: run_inv_def Let_def)
  have "D = disabled_keys ?rts"
    using D unfolding flags_read_def was_disabled_def was_enabled_def same
    by (auto simp: disabled_keys_def in_set_conv_nth)
  then show ?thesis using inv snap same [of "length ls"] by (auto simp: run_inv_def engine_inv_def Let_def)
qed

text \<open>The steps as an executable scheduler, for concrete runs.\<close>

datatype sched_op =
    OpInsert list_runtime list_domains
  | OpFlag string bool
  | OpBegin
  | OpRead nat
  | OpWrite nat

fun exec_op :: "sched_op \<Rightarrow> shared_engine \<Rightarrow> (engine_label \<times> shared_engine) option" where
  "exec_op (OpInsert rt l) s =
     (let e = sh_engine s in
      if sh_tasks s = [] \<and> rt \<in> set (eng_runtimes e) \<and> ld_kind l = rt_kind rt
      then Some (InsertList (rt_key rt) l, s\<lparr>sh_engine := e\<lparr>eng_lists := hm_insert (rt_key rt) l (eng_lists e)\<rparr>,
                   sh_pending := Suc (sh_pending s)\<rparr>)
      else None)"
| "exec_op (OpFlag name b) s =
     (let e = sh_engine s in
      case set_first_disabled name b (eng_runtimes e) of
        None \<Rightarrow> None
      | Some rts \<Rightarrow> Some (StoreFlag name b, s\<lparr>sh_engine := e\<lparr>eng_runtimes := rts\<rparr>,
                      sh_pending := Suc (sh_pending s)\<rparr>))"
| "exec_op OpBegin s =
     (case sh_pending s of
        0 \<Rightarrow> None
      | Suc n \<Rightarrow> Some (RebuildStep, s\<lparr>sh_pending := n,
                   sh_tasks := \<lparr>rb_next = 0, rb_disabled = {}\<rparr> # sh_tasks s\<rparr>))"
| "exec_op (OpRead i) s =
     (if i < length (sh_tasks s) \<and> rb_next (sh_tasks s ! i) < length (eng_runtimes (sh_engine s))
      then Some (RebuildStep, s\<lparr>sh_tasks :=
             (sh_tasks s)[i := read_flag (eng_runtimes (sh_engine s)) (sh_tasks s ! i)]\<rparr>)
      else None)"
| "exec_op (OpWrite i) s =
     (let e = sh_engine s in
      if i < length (sh_tasks s) \<and> rb_next (sh_tasks s ! i) = length (eng_runtimes e)
      then Some (RebuildStep,
             s\<lparr>sh_engine := e\<lparr>eng_snapshot := compute_snapshot (rb_disabled (sh_tasks s ! i)) (eng_lists e)\<rparr>,
               sh_tasks := take i (sh_tasks s) @ drop (Suc i) (sh_tasks s)\<rparr>)
      else None)"

fun exec_ops :: "sched_op list \<Rightarrow> shared_engine \<Rightarrow> (engine_label list \<times> shared_engine) option" where
  "exec_ops [] s = Some ([], s)"
| "exec_ops (op # ops) s =
     (case exec_op op s of
        None \<Rightarrow> None
      | Some (l, s') \<Rightarrow> map_option (\<lambda>(ls, s''). (l # ls, s'')) (exec_ops ops s'))"

lemma exec_op_step: "exec_op op s = Some (l, s') \<Longrightarrow> engine_step l s s'"
  by (cases op) (auto simp: Let_def split: if_splits option.splits nat.splits intro!: engine_step.intros)

lemma exec_ops_steps: "exec_ops ops s = Some (ls, s') \<Longrightarrow> engine_steps ls s s'"
  by (induction ops arbitrary: s ls)
    (auto split: option.splits intro: engine_steps.none engine_steps_cons exec_op_step)

definition refresh_ops :: "sched_op list" where
  "refresh_ops = [OpInsert (example_runtimes ! 0) (snd example_ads_list), OpBegin, OpRead 0, OpRead 0]"

definition run_of :: "sched_op list \<Rightarrow> engine_label list \<times> shared_engine" where
  "run_of ops = the (exec_ops ops (idle (fst example_loaded)))"

lemma run_of_steps:
  "exec_ops ops (idle (fst example_loaded)) \<noteq> None \<Longrightarrow>
   engine_steps (fst (run_of ops)) (idle (fst example_loaded)) (snd (run_of ops))"
  by (auto simp: run_of_def intro: exec_ops_steps)

lemma example_engine_inv: "engine_inv (fst example_loaded)"
  using sequential_engine_inv [OF example_reachable] .

lemma refresh_run: "engine_steps (fst (run_of (refresh_ops @ [OpWrite 0])))
    (idle (fst example_loaded)) (snd (run_of (refresh_ops @ [OpWrite 0])))"
  by (rule run_of_steps) code_simp

theorem concurrent_refresh_keeps_lists_witness:
  "\<exists>D. decide (sh_engine (snd (run_of (refresh_ops @ [OpWrite 0])))) ''ads.example'' =
        verdict (active_lists D (eng_lists (sh_engine (snd (run_of (refresh_ops @ [OpWrite 0])))))) ''ads.example'' \<and>
     (\<forall>k\<in>D. was_disabled (fst (run_of (refresh_ops @ [OpWrite 0]))) (eng_runtimes (fst example_loaded)) k)"
proof -
  have q: "quiescent (snd (run_of (refresh_ops @ [OpWrite 0])))" by code_simp
  show ?thesis using concurrent_refresh_keeps_lists [OF example_engine_inv refresh_run q] by blast
qed

theorem concurrent_refresh_only_witness:
  "engine_inv (sh_engine (snd (run_of (refresh_ops @ [OpWrite 0]))))"
proof (rule concurrent_refresh_only [OF example_engine_inv refresh_run])
  show "quiescent (snd (run_of (refresh_ops @ [OpWrite 0])))" by code_simp
  have "list_all (\<lambda>l. case l of StoreFlag _ _ \<Rightarrow> False | _ \<Rightarrow> True) (fst (run_of (refresh_ops @ [OpWrite 0])))" by code_simp
  then show "\<forall>name b. StoreFlag name b \<notin> set (fst (run_of (refresh_ops @ [OpWrite 0])))"
    by (force simp: list_all_iff)
qed

text \<open>
  A disable can be lost: when it falls between the flag reads and the snapshot write of a
  concurrent rebuild, that rebuild may write last. Afterwards nothing is running, the list is flagged
  as disabled, and a query it covers is still blocked (while \<open>blocked_by\<close> names no list).
\<close>

theorem disable_can_be_lost:
  "\<exists>e ls s. engine_inv e \<and> engine_steps ls (idle e) s \<and> quiescent s \<and>
     (\<exists>rt\<in>set (eng_runtimes (sh_engine s)). rt_name rt = ''ads'' \<and> rt_disabled rt) \<and>
     decide (sh_engine s) ''ads.example'' = DecBlock \<and> blocked_by (sh_engine s) ''ads.example'' = []"
proof -
  let ?ops = "refresh_ops @ [OpFlag ''ads'' True, OpBegin, OpRead 0, OpRead 0, OpWrite 0, OpWrite 0]"
  let ?s = "snd (run_of ?ops)"
  have "engine_steps (fst (run_of ?ops)) (idle (fst example_loaded)) ?s"
    by (rule run_of_steps) code_simp
  moreover have "quiescent ?s" by code_simp
  moreover have "\<exists>rt\<in>set (eng_runtimes (sh_engine ?s)). rt_name rt = ''ads'' \<and> rt_disabled rt"
    by code_simp
  moreover have "decide (sh_engine ?s) ''ads.example'' = DecBlock" by code_simp
  moreover have "blocked_by (sh_engine ?s) ''ads.example'' = []" by code_simp
  ultimately show ?thesis using example_engine_inv by blast
qed

end
