(* ===== verification/Daemon.thy ===== *)
theory Daemon
  imports ServerOperations FilterConcurrency
begin

text \<open>
  The running server: the handler of the DNS listeners (\<open>src/interface_adapters/listeners/handler.rs\<close>), loading and
  reloading (\<open>src/frameworks/config/loader.rs\<close>, \<open>src/use_cases/reload.rs\<close>) and the parts of \<open>run_daemon\<close> in
  \<open>src/main.rs\<close> that start the server and replace the pipeline at a reload.

  The state is \<open>daemon\<close>. The filters that were built since the start are kept in a list, because the management
  operations and the pipeline refer to them: the operations to the first one for ever, the pipeline to the one that
  was installed last. Objects with state of their own (response caches, counters, connections) are new after a
  reload. Reading YAML is an argument, and so is which reads of the database fail (\<open>de_db_fails\<close>).
\<close>

subsection \<open>The request handler\<close>

text \<open>
  The raw query goes through the pipeline that is installed at that moment; whatever it returns is turned into the
  message that is sent. The header of the request (identifier, operation, flags) is kept by the library.
\<close>

record sent_response =
  sr_id :: u16
  sr_response_code :: response_code
  sr_authoritative :: bool
  sr_recursion_available :: bool
  sr_authentic_data :: bool
  sr_checking_disabled :: bool
  sr_answers :: "dns_record list"
  sr_authorities :: "dns_record list"
  sr_additionals :: "dns_record list"

definition servfail_message :: "u16 \<Rightarrow> sent_response" where
  "servfail_message ident =
     \<lparr>sr_id = ident, sr_response_code = ServFail, sr_authoritative = False, sr_recursion_available = False,
      sr_authentic_data = False, sr_checking_disabled = False, sr_answers = [], sr_authorities = [],
      sr_additionals = []\<rparr>"

definition build_response :: "dns_lib \<Rightarrow> u16 \<Rightarrow> bytes \<Rightarrow> sent_response" where
  "build_response L ident response_bytes =
     (case lib_from_vec L response_bytes of
        Inl _ \<Rightarrow> servfail_message ident
      | Inr response_msg \<Rightarrow>
          \<lparr>sr_id = ident, sr_response_code = m_response_code response_msg,
           sr_authoritative = m_authoritative response_msg,
           sr_recursion_available = m_recursion_available response_msg,
           sr_authentic_data = m_authentic_data response_msg,
           sr_checking_disabled = m_checking_disabled response_msg,
           sr_answers = m_answers response_msg, sr_authorities = m_authorities response_msg,
           sr_additionals = m_additionals response_msg\<rparr>)"

definition handle_listener_request ::
  "dns_lib \<Rightarrow> 'n stage list \<Rightarrow> u16 \<Rightarrow> bytes \<Rightarrow> 'n world \<Rightarrow> sent_response \<times> 'n world" where
  "handle_listener_request L pipeline ident query_bytes w =
     (case handle_request pipeline (dns_request_new query_bytes) w of
        (Inr (Some response), w) \<Rightarrow> (build_response L ident response, w)
      | (_, w) \<Rightarrow> (servfail_message ident, w))"

subsection \<open>Loading and reloading\<close>

record ('c, 'x, 'k, 'r) daemon_env =
  de_boot :: "('c, 'x, 'k) boot_env"
  de_codec :: doc_codec
  de_cache_repo :: "'r cache_repo"
  de_parse_yaml :: "string \<Rightarrow> string + dns_filter_config"
  de_db_fails :: "'r \<Rightarrow> db_read \<Rightarrow> string option"

datatype reload_error =
    ReadFailed string
  | ParseFailed string
  | ConfigInvalid path_error
  | SeedFailed db_error
  | LoadFailed string
  | BootFailed boot_error
  | DnsListenerDisabled

definition load_config_from_str :: "('c, 'x, 'k, 'r) daemon_env \<Rightarrow> string \<Rightarrow> reload_error + dns_filter_config" where
  "load_config_from_str D content = map_err ParseFailed (de_parse_yaml D content)"

definition load_config :: "('c, 'x, 'k, 'r) daemon_env \<Rightarrow> string \<Rightarrow> reload_error + dns_filter_config" where
  "load_config D path =
     res_bind (map_err ReadFailed (be_read_file (de_boot D) path)) (load_config_from_str D)"

text \<open>
  A built configuration. The counters are global: what building the filter counted stays when a later step fails.
\<close>

record ('c, 'x) built =
  bt_resolver :: "('c, 'x) transport upstream"
  bt_filter :: filter_engine
  bt_any_query_policy :: any_query_policy
  bt_zone_entries :: "('c, 'x) transport zone_entry list"

definition build_parts ::
  "('c, 'x, 'k, 'r) daemon_env \<Rightarrow> dns_filter_config \<Rightarrow> 'r cache_repo option \<Rightarrow> 'r \<Rightarrow> metrics_state option
   \<Rightarrow> (reload_error + ('c, 'x) built) \<times> metrics_state option" where
  "build_parts D config cache_repo r ms =
     (case build_upstream_resolver (de_boot D) config of
        Inl e \<Rightarrow> (Inl (BootFailed e), ms)
      | Inr resolver \<Rightarrow>
          (case build_domain_filter_with_cache (de_codec D) config cache_repo r ms of
             Inl e \<Rightarrow> (Inl (BootFailed e), ms)
           | Inr (domain_filter, ms) \<Rightarrow>
               (res_bind (map_err BootFailed (build_any_query_policy config)) (\<lambda>any_query_policy.
                res_bind (map_err BootFailed (build_zone_entries (de_boot D) config)) (\<lambda>zone_entries.
                Inr \<lparr>bt_resolver = resolver, bt_filter = domain_filter, bt_any_query_policy = any_query_policy,
                     bt_zone_entries = zone_entries\<rparr>)), ms)))"

text \<open>What both ways of loading from the database do with the configuration of the file.\<close>

definition build_from_db ::
  "('c, 'x, 'k, 'r) daemon_env \<Rightarrow> dns_filter_config \<Rightarrow> database \<Rightarrow> 'r \<Rightarrow> metrics_state option
   \<Rightarrow> (reload_error + ('c, 'x) built) \<times> metrics_state option" where
  "build_from_db D config db r ms =
     (case apply_db_config (de_db_fails D r) config db of
        Inl e \<Rightarrow> (Inl (LoadFailed e), ms)
      | Inr config \<Rightarrow> build_parts D config (Some (de_cache_repo D)) r ms)"

definition reload_config ::
  "('c, 'x, 'k, 'r) daemon_env \<Rightarrow> string \<Rightarrow> 'r \<Rightarrow> metrics_state option
   \<Rightarrow> (reload_error + ('c, 'x) built) \<times> metrics_state option" where
  "reload_config D config_path r ms =
     (case res_bind (load_config D config_path) (\<lambda>config. map_err ConfigInvalid (validate_config config)) of
        Inl e \<Rightarrow> (Inl e, ms)
      | Inr config \<Rightarrow> build_parts D config None r ms)"

definition reload_config_from_db ::
  "('c, 'x, 'k, 'r) daemon_env \<Rightarrow> string \<Rightarrow> database \<Rightarrow> 'r \<Rightarrow> metrics_state option
   \<Rightarrow> (reload_error + ('c, 'x) built) \<times> metrics_state option" where
  "reload_config_from_db D config_path db r ms =
     (case res_bind (load_config D config_path) (\<lambda>config. map_err ConfigInvalid (validate_config config)) of
        Inl e \<Rightarrow> (Inl e, ms)
      | Inr config \<Rightarrow> build_from_db D config db r ms)"

definition reload_config_from_db_cached ::
  "('c, 'x, 'k, 'r) daemon_env \<Rightarrow> string \<Rightarrow> database \<Rightarrow> 'r \<Rightarrow> metrics_state option
   \<Rightarrow> (reload_error + ('c, 'x) built) \<times> metrics_state option" where
  "reload_config_from_db_cached D cached_yaml db r ms =
     (case res_bind (load_config_from_str D cached_yaml) (\<lambda>config. map_err ConfigInvalid (validate_config config)) of
        Inl e \<Rightarrow> (Inl e, ms)
      | Inr config \<Rightarrow> build_from_db D config db r ms)"

subsection \<open>The state of the server\<close>

record ('c, 'x, 'r) daemon =
  dm_cached_yaml :: string
  dm_ops :: server_ops
  dm_engines :: "filter_engine list"
  dm_installed :: nat
  dm_resolver :: "('c, 'x) transport upstream"
  dm_any_query_policy :: any_query_policy
  dm_zone_entries :: "('c, 'x) transport zone_entry list"
  dm_reloads_done :: nat
  dm_repo :: 'r
  dm_world :: "('c, 'x) transport world"

text \<open>The pipeline that is installed; its filter is the object itself, with the changes made to it since.\<close>

definition daemon_pipeline ::
  "('c, 'x, 'k, 'r) daemon_env \<Rightarrow> ('c, 'x, 'r) daemon \<Rightarrow> ('c, 'x) transport stage list" where
  "daemon_pipeline D d =
     build_dns_request_pipeline_full (be_lib (de_boot D)) (dm_resolver d)
       (engine_filter (dm_engines d ! dm_installed d)) (dm_any_query_policy d) (dm_zone_entries d)
       (Some (so_filtering_enabled (dm_ops d)))"

text \<open>New caches, counters and connections.\<close>

definition fresh_objects :: "('c, 'x) transport world \<Rightarrow> ('c, 'x) transport world" where
  "fresh_objects w = w\<lparr>w_caches := (\<lambda>_. []), w_counters := (\<lambda>_. 0), w_net := (w_net w)\<lparr>tr_conns := (\<lambda>_. None)\<rparr>\<rparr>"

text \<open>
  The start: import into an empty database, load from it, build everything, and share the filter with the management
  operations. Any error ends the process.
\<close>

definition zone_registry_of :: "('c, 'x) transport zone_entry list \<Rightarrow> zone_registry" where
  "zone_registry_of entries =
     List.map_filter (\<lambda>e. map_option
       (\<lambda>s. (s, \<lparr>zm_bypass_filter = ze_bypass_filter e, zm_fallback_to_default_resolvers = ze_fallback_to_default_resolvers e\<rparr>))
       (ze_searchable e)) entries"

definition dns_listener_enabled :: "dns_filter_config \<Rightarrow> bool" where
  "dns_listener_enabled config = (case ln_dns (cfg_listen config) of None \<Rightarrow> False | Some l \<Rightarrow> so_enabled l)"

definition start_daemon ::
  "('c, 'x, 'k, 'r) daemon_env \<Rightarrow> string \<Rightarrow> database \<Rightarrow> 'r \<Rightarrow> u64 \<Rightarrow> ('c, 'x) transport world
   \<Rightarrow> reload_error + ('c, 'x, 'r) daemon" where
  "start_daemon D cached_yaml db r start_time w =
     res_bind (load_config_from_str D cached_yaml) (\<lambda>config.
     res_bind (map_err ConfigInvalid (validate_config config)) (\<lambda>config.
     case seed_if_empty config db of
       (Inl e, _) \<Rightarrow> Inl (SeedFailed e)
     | (Inr _, db) \<Rightarrow>
         res_bind (map_err LoadFailed (apply_db_config (de_db_fails D r) config db)) (\<lambda>config.
          case build_parts D config (Some (de_cache_repo D)) r (w_metrics w) of
            (Inl e, _) \<Rightarrow> Inl e
          | (Inr parts, ms) \<Rightarrow>
              if \<not> dns_listener_enabled config then Inl DnsListenerDisabled
              else Inr
                \<lparr>dm_cached_yaml = cached_yaml,
                 dm_ops = \<lparr>so_domain_filter = bt_filter parts, so_filtering_enabled = True, so_query_log = None,
                   so_reload_open = True, so_reloads_sent = 0, so_start_time = start_time,
                   so_zone_registry = Some (zone_registry_of (bt_zone_entries parts)), so_db = Some db\<rparr>,
                 dm_engines = [bt_filter parts], dm_installed = 0, dm_resolver = bt_resolver parts,
                 dm_any_query_policy = bt_any_query_policy parts, dm_zone_entries = bt_zone_entries parts,
                 dm_reloads_done = 0, dm_repo = r, dm_world = fresh_objects (w\<lparr>w_metrics := ms\<rparr>)\<rparr>)))"

subsection \<open>What happens to it\<close>

definition daemon_query ::
  "('c, 'x, 'k, 'r) daemon_env \<Rightarrow> u16 \<Rightarrow> bytes \<Rightarrow> ('c, 'x, 'r) daemon \<Rightarrow> sent_response \<times> ('c, 'x, 'r) daemon" where
  "daemon_query D ident query d =
     (case handle_listener_request (be_lib (de_boot D)) (daemon_pipeline D d) ident query (dm_world d) of
        (a, w) \<Rightarrow> (a, d\<lparr>dm_world := w\<rparr>))"

text \<open>A management operation works on the filter that the server started with.\<close>

definition daemon_operation ::
  "'a operation \<Rightarrow> ('c, 'x, 'r) daemon \<Rightarrow> (server_operation_error + 'a) \<times> ('c, 'x, 'r) daemon" where
  "daemon_operation m d =
     (case m ((dm_ops d)\<lparr>so_domain_filter := dm_engines d ! 0\<rparr>) of
        (r, s) \<Rightarrow> (r, d\<lparr>dm_ops := s, dm_engines := (dm_engines d)[0 := so_domain_filter s]\<rparr>))"

text \<open>One message of the reload channel: the new pipeline is installed, or the old one stays.\<close>

definition handle_reload ::
  "('c, 'x, 'k, 'r) daemon_env \<Rightarrow> ('c, 'x, 'r) daemon \<Rightarrow> ('c, 'x, 'r) daemon" where
  "handle_reload D d =
     (case so_db (dm_ops d) of
        None \<Rightarrow> d
      | Some db \<Rightarrow>
          (case reload_config_from_db_cached D (dm_cached_yaml d) db (dm_repo d) (w_metrics (dm_world d)) of
             (Inl _, ms) \<Rightarrow> d\<lparr>dm_world := (dm_world d)\<lparr>w_metrics := ms\<rparr>, dm_reloads_done := Suc (dm_reloads_done d)\<rparr>
           | (Inr parts, ms) \<Rightarrow>
               d\<lparr>dm_engines := dm_engines d @ [bt_filter parts], dm_installed := length (dm_engines d),
                 dm_resolver := bt_resolver parts, dm_any_query_policy := bt_any_query_policy parts,
                 dm_zone_entries := bt_zone_entries parts, dm_reloads_done := Suc (dm_reloads_done d),
                 dm_world := fresh_objects ((dm_world d)\<lparr>w_metrics := ms\<rparr>)\<rparr>))"

text \<open>The end of a refresh of a list of one of the filters.\<close>

definition daemon_refresh ::
  "('c, 'x, 'k, 'r) daemon_env \<Rightarrow> nat \<Rightarrow> list_io \<Rightarrow> list_runtime \<Rightarrow> ('c, 'x, 'r) daemon \<Rightarrow> ('c, 'x, 'r) daemon" where
  "daemon_refresh D i io rt d =
     (if i < length (dm_engines d) \<and> rt \<in> set (eng_runtimes (dm_engines d ! i)) then
        (case refresh_single_list (be_lib (de_boot D)) (de_codec D) (Some (de_cache_repo D)) io rt (dm_engines d ! i, dm_repo d) of
           (e, r) \<Rightarrow> d\<lparr>dm_engines := (dm_engines d)[i := e], dm_repo := r\<rparr>)
      else d)"

datatype daemon_event =
    Query u16 bytes
  | Manage admin_call
  | SwitchFiltering bool
  | EnableList string
  | DisableList string
  | Refresh nat list_io list_runtime
  | Reload

fun daemon_step ::
  "('c, 'x, 'k, 'r) daemon_env \<Rightarrow> daemon_event \<Rightarrow> ('c, 'x, 'r) daemon \<Rightarrow> sent_response list \<times> ('c, 'x, 'r) daemon" where
  "daemon_step D (Query ident query) d = (case daemon_query D ident query d of (a, d) \<Rightarrow> ([a], d))"
| "daemon_step D (Manage c) d = ([], snd (daemon_operation (admin_exec (nt_parse_url (be_net (de_boot D))) c) d))"
| "daemon_step D (SwitchFiltering b) d = ([], snd (daemon_operation (\<lambda>s. case set_filtering b s of (r, s) \<Rightarrow> (Inr r, s)) d))"
| "daemon_step D (EnableList name) d = ([], snd (daemon_operation (enable_list_op name) d))"
| "daemon_step D (DisableList name) d = ([], snd (daemon_operation (disable_list_op name) d))"
| "daemon_step D (Refresh i io rt) d = ([], daemon_refresh D i io rt d)"
| "daemon_step D Reload d = ([], handle_reload D d)"

fun daemon_run ::
  "('c, 'x, 'k, 'r) daemon_env \<Rightarrow> daemon_event list \<Rightarrow> ('c, 'x, 'r) daemon \<Rightarrow> sent_response list \<times> ('c, 'x, 'r) daemon" where
  "daemon_run D [] d = ([], d)"
| "daemon_run D (ev # evs) d =
     (case daemon_step D ev d of (as, d) \<Rightarrow> (case daemon_run D evs d of (bs, d) \<Rightarrow> (as @ bs, d)))"

subsection \<open>What is built keeps the invariant\<close>

text \<open>The limit that every cache gets: the database does not keep another one.\<close>

abbreviation cache_cap :: nat where "cache_cap \<equiv> unat (cs_max_entries default_cache_settings)"

lemma db_cache_settings:
  "build_resolver_cache_settings (loaded_config config db) = Inr s \<Longrightarrow> cs_max_entries s = cs_max_entries default_cache_settings"
  by (auto simp: build_resolver_cache_settings_def loaded_config_def Let_def)

lemma restore_one_balanced:
  assumes "restore_one J R r rt (lsts, n, ms) = (lsts', n', ms')" and "opt_balanced ms"
  shows "opt_balanced ms'"
  using assms
  by (auto simp: restore_one_def Let_def intro!: record_cache_operation_balanced
      split: sum.splits option.splits if_splits)

lemma fold_restore_balanced:
  "fold (restore_one J R r) rts (lsts, n, ms) = (lsts', n', ms') \<Longrightarrow> opt_balanced ms \<Longrightarrow> opt_balanced ms'"
proof (induction rts arbitrary: lsts n ms)
  case (Cons rt rts)
  obtain l1 n1 ms1 where one: "restore_one J R r rt (lsts, n, ms) = (l1, n1, ms1)" by (metis prod_cases3)
  with Cons restore_one_balanced [OF one] show ?case by simp
qed simp

lemma try_restore_balanced:
  assumes "try_restore_document_cache J repo r (e, ms) = (e', ms')" and "opt_balanced ms"
  shows "opt_balanced ms'"
  using assms fold_restore_balanced
  by (fastforce simp: try_restore_document_cache_def split: option.splits prod.splits if_splits)

definition built_ok :: "('c, 'x) built \<Rightarrow> bool" where
  "built_ok parts \<longleftrightarrow> engine_inv (bt_filter parts) \<and> keeps (world_ok cache_cap) (bt_resolver parts) \<and>
     (\<forall>e\<in>set (bt_zone_entries parts). keeps (world_ok cache_cap) (ze_resolver e))"

lemma build_parts_ok:
  assumes "build_parts D (loaded_config config db) repo r ms = (res, ms')" and "opt_balanced ms"
  shows "opt_balanced ms' \<and> (\<forall>parts. res = Inr parts \<longrightarrow> built_ok parts)"
proof (cases "build_upstream_resolver (de_boot D) (loaded_config config db)")
  case (Inr resolver)
  let ?c = "loaded_config config db"
  show ?thesis
  proof (cases "build_domain_filter_with_cache (de_codec D) ?c repo r ms")
    case (Inr p)
    obtain e ms1 where p: "p = (e, ms1)" by (cases p)
    from Inr p have e: "from_config_with_cache (de_codec D) ?c repo r ms = Inr (e, ms1)"
      by (auto simp: build_domain_filter_with_cache_def)
    have "opt_balanced ms1"
      using e assms(2) try_restore_balanced by (fastforce simp: from_config_with_cache_def Let_def)
    moreover obtain s where s: "build_resolver_cache_settings ?c = Inr s"
        "build_upstream_resolver_group (de_boot D) (rs_strategy (cfg_resolvers ?c)) (rs_bootstrap_resolvers (cfg_resolvers ?c))
           (rs_servers (cfg_resolvers ?c)) (cfg_outbound ?c) s = Inr resolver"
      using \<open>build_upstream_resolver (de_boot D) ?c = Inr resolver\<close> by (auto simp: build_upstream_resolver_def)
    have cap: "unat (cs_max_entries s) \<le> cache_cap" using db_cache_settings [OF s(1)] by simp
    have "keeps (world_ok cache_cap) resolver" by (rule upstream_group_keeps [OF s(2) cap])
    moreover have "\<forall>e\<in>set entries. keeps (world_ok cache_cap) (ze_resolver e)"
      if "build_zone_entries (de_boot D) ?c = Inr entries" for entries
      by (rule zone_entries_keep [OF that s(1) cap])
    ultimately show ?thesis using assms(1) \<open>build_upstream_resolver (de_boot D) ?c = Inr resolver\<close> Inr p from_config_inv [OF e]
      by (auto simp: build_parts_def built_ok_def)
  qed (use assms Inr in \<open>auto simp: build_parts_def\<close>)
qed (use assms in \<open>auto simp: build_parts_def\<close>)

text \<open>The pipeline always answers, and keeps the invariant of the world.\<close>

lemmas stage_answers =
  zone_st.before_answering [where c = "(L, es)" for L es, unfolded prod.case]
  filter_st.before_answering [where c = "(L, F, b)" for L F b, unfolded prod.case]
  any_st.before_answering [where c = "(L, p)" for L p, unfolded prod.case]
  upstream_st.before_answering [where c = "(L, r)" for L r, unfolded prod.case]

lemmas stage_keeps =
  zone_st.handle_keeps [where c = "(L, es)" for L es, unfolded prod.case]
  filter_st.handle_keeps [where c = "(L, F, b)" for L F b, unfolded prod.case]
  any_st.handle_keeps [where c = "(L, p)" for L p, unfolded prod.case]
  upstream_st.handle_keeps [where c = "(L, r)" for L r, unfolded prod.case]
  servfail_st.handle_keeps

lemma full_pipeline_answers:
  "\<exists>b. fst (handle_request (build_dns_request_pipeline_full L resolver F policy entries flag) req w) = Inr (Some b)"
  unfolding build_dns_request_pipeline_full_def
  by (intro stage_answers) (simp add: servfail_fallback_stage_def)

lemma full_pipeline_keeps:
  assumes "keeps (world_ok cap) resolver" and "\<forall>e\<in>set entries. keeps (world_ok cap) (ze_resolver e)"
    and "world_ok cap w"
  shows "world_ok cap (snd (handle_request (build_dns_request_pipeline_full L resolver F policy entries flag) req w))"
  unfolding build_dns_request_pipeline_full_def
  using assms by (intro stage_keeps) (auto simp: bypass_only_def non_bypass_def sort_entries_props)

subsection \<open>The invariant of the server\<close>

definition daemon_ok :: "('c, 'x, 'r) daemon \<Rightarrow> bool" where
  "daemon_ok d \<longleftrightarrow> ops_ok (dm_ops d) \<and> list_all engine_inv (dm_engines d) \<and> dm_installed d < length (dm_engines d) \<and>
     keeps (world_ok cache_cap) (dm_resolver d) \<and>
     (\<forall>e\<in>set (dm_zone_entries d). keeps (world_ok cache_cap) (ze_resolver e)) \<and> world_ok cache_cap (dm_world d)"

lemma fresh_objects_ok: "opt_balanced (w_metrics w) \<Longrightarrow> world_ok cap (fresh_objects w)"
  by (simp add: world_ok_def fresh_objects_def)

lemma reload_ok:
  assumes "reload_config_from_db_cached D yaml db r ms = (res, ms')" and "opt_balanced ms"
  shows "opt_balanced ms' \<and> (\<forall>parts. res = Inr parts \<longrightarrow> built_ok parts)"
  using assms build_parts_ok apply_db_config_Inr
  by (fastforce simp: reload_config_from_db_cached_def build_from_db_def split: sum.splits)

lemma operation_ok:
  assumes "daemon_ok d" and "\<And>s. ops_ok s \<longrightarrow> ops_ok (snd (m s))"
    and "\<And>s. engine_inv (so_domain_filter s) \<longrightarrow> engine_inv (so_domain_filter (snd (m s)))"
  shows "daemon_ok (snd (daemon_operation m d))"
proof -
  let ?s = "(dm_ops d)\<lparr>so_domain_filter := dm_engines d ! 0\<rparr>"
  obtain r s' where m: "m ?s = (r, s')" by fastforce
  have "engine_inv (dm_engines d ! 0)" using assms(1) by (cases "dm_engines d") (auto simp: daemon_ok_def)
  then have "engine_inv (so_domain_filter s')" using assms(3) [of ?s] m by simp
  moreover have "ops_ok s'" using assms(1) assms(2) [of ?s] m by (simp add: daemon_ok_def ops_ok_def)
  ultimately show ?thesis using assms(1) m
    by (auto simp: daemon_operation_def daemon_ok_def list_all_iff dest: set_update_subset_insert [THEN subsetD])
qed

lemma query_ok:
  assumes "daemon_ok d"
  shows "\<exists>b d'. daemon_query D ident q d = (build_response (be_lib (de_boot D)) ident b, d') \<and> daemon_ok d'"
proof -
  let ?p = "daemon_pipeline D d" and ?req = "dns_request_new q"
  obtain b where "fst (handle_request ?p ?req (dm_world d)) = Inr (Some b)"
    using full_pipeline_answers unfolding daemon_pipeline_def by metis
  then obtain w where h: "handle_request ?p ?req (dm_world d) = (Inr (Some b), w)"
    by (cases "handle_request ?p ?req (dm_world d)") auto
  have "world_ok cache_cap w"
    using full_pipeline_keeps [where resolver = "dm_resolver d" and entries = "dm_zone_entries d" and w = "dm_world d"
        and cap = cache_cap] assms h
    unfolding daemon_pipeline_def daemon_ok_def by (metis snd_conv)
  then show ?thesis using assms h by (auto simp: daemon_query_def handle_listener_request_def daemon_ok_def)
qed

lemma reload_keeps_ok:
  assumes "daemon_ok d"
  shows "daemon_ok (handle_reload D d)"
proof (cases "so_db (dm_ops d)")
  case (Some db)
  obtain res ms where r: "reload_config_from_db_cached D (dm_cached_yaml d) db (dm_repo d) (w_metrics (dm_world d)) = (res, ms)"
    by fastforce
  have "opt_balanced (w_metrics (dm_world d))" using assms by (simp add: daemon_ok_def world_ok_def)
  from reload_ok [OF r this] have ms: "opt_balanced ms" and parts: "\<And>parts. res = Inr parts \<Longrightarrow> built_ok parts" by auto
  show ?thesis
  proof (cases res)
    case (Inl e)
    then show ?thesis using assms Some r ms by (auto simp: handle_reload_def daemon_ok_def world_ok_def)
  next
    case (Inr p)
    then show ?thesis using assms Some r fresh_objects_ok [of "(dm_world d)\<lparr>w_metrics := ms\<rparr>"] ms parts [OF Inr]
      by (auto simp: handle_reload_def daemon_ok_def built_ok_def)
  qed
qed (simp add: assms handle_reload_def)

lemma refresh_keeps_ok:
  assumes "daemon_ok d"
  shows "daemon_ok (daemon_refresh D i io rt d)"
proof (cases "i < length (dm_engines d) \<and> rt \<in> set (eng_runtimes (dm_engines d ! i))")
  case True
  obtain e r where e: "refresh_single_list (be_lib (de_boot D)) (de_codec D) (Some (de_cache_repo D)) io rt
      (dm_engines d ! i, dm_repo d) = (e, r)" by fastforce
  have "engine_inv (dm_engines d ! i)" using assms True by (simp add: daemon_ok_def list_all_length)
  then have "engine_inv e" using refresh_single_list_inv True e by (metis fst_conv)
  then show ?thesis using assms True e
    by (auto simp: daemon_refresh_def daemon_ok_def list_all_iff dest: set_update_subset_insert [THEN subsetD])
qed (use assms in \<open>auto simp: daemon_refresh_def\<close>)

lemma list_switch_keeps:
  "engine_inv (so_domain_filter s) \<longrightarrow> engine_inv (so_domain_filter (snd (enable_list_op n s)))"
  "engine_inv (so_domain_filter s) \<longrightarrow> engine_inv (so_domain_filter (snd (disable_list_op n s)))"
  "ops_ok (snd (enable_list_op n s)) = ops_ok s" "ops_ok (snd (disable_list_op n s)) = ops_ok s"
  using set_list_disabled_inv [of "so_domain_filter s" False n] set_list_disabled_inv [of "so_domain_filter s" True n]
  by (auto simp: enable_list_op_def disable_list_op_def enable_list_def disable_list_def ops_ok_def
      split: prod.splits bool.splits)

text \<open>Every event keeps the invariant, and every query is answered under its own identifier.\<close>

lemma daemon_step_ok:
  assumes "daemon_ok d" and "daemon_step D ev d = (as, d')"
  shows "daemon_ok d' \<and> map sr_id as = (case ev of Query ident _ \<Rightarrow> [ident] | _ \<Rightarrow> [])"
proof (cases ev)
  case (Query ident q)
  obtain b d1 where q: "daemon_query D ident q d = (build_response (be_lib (de_boot D)) ident b, d1)" "daemon_ok d1"
    using query_ok [OF assms(1)] by blast
  moreover have "sr_id (build_response (be_lib (de_boot D)) ident b) = ident"
    by (simp add: build_response_def servfail_message_def split: sum.split)
  ultimately show ?thesis using assms(2) Query by auto
next
  case (Manage c)
  have "daemon_ok (snd (daemon_operation (admin_exec (nt_parse_url (be_net (de_boot D))) c) d))"
    by (rule operation_ok [OF assms(1) admin_exec_keeps(1)])
      (use admin_exec_keeps(2) in \<open>simp add: running_def\<close>)
  then show ?thesis using assms(2) Manage by auto
next
  case (SwitchFiltering b)
  have "daemon_ok (snd (daemon_operation (\<lambda>s. case set_filtering b s of (r, s) \<Rightarrow> (Inr r, s)) d))"
    by (rule operation_ok [OF assms(1)]) (simp_all add: set_filtering_def ops_ok_def)
  then show ?thesis using assms(2) SwitchFiltering by auto
next
  case (EnableList n)
  then show ?thesis using assms(2) operation_ok [OF assms(1), of "enable_list_op n"] list_switch_keeps by auto
next
  case (DisableList n)
  then show ?thesis using assms(2) operation_ok [OF assms(1), of "disable_list_op n"] list_switch_keeps by auto
next
  case (Refresh i io rt)
  then show ?thesis using assms(2) refresh_keeps_ok [OF assms(1)] by auto
next
  case Reload
  then show ?thesis using assms(2) reload_keeps_ok [OF assms(1)] by auto
qed

lemma start_daemon_ok:
  assumes "start_daemon D yaml db r t w = Inr d" and "db_ok db" and "opt_balanced (w_metrics w)"
  shows "daemon_ok d"
proof -
  obtain c0 config where c: "load_config_from_str D yaml = Inr c0" "validate_config c0 = Inr config"
    using assms(1) by (auto simp: start_daemon_def)
  obtain res db' where s: "seed_if_empty config db = (res, db')" by fastforce
  obtain built ms where p: "build_parts D (loaded_config config db') (Some (de_cache_repo D)) r (w_metrics w) = (built, ms)"
    by fastforce
  obtain parts where parts: "built = Inr parts"
    using assms(1) c s p apply_db_config_Inr by (cases res; cases built) (fastforce simp: start_daemon_def)+
  have d: "dm_ops d = \<lparr>so_domain_filter = bt_filter parts, so_filtering_enabled = True, so_query_log = None,
        so_reload_open = True, so_reloads_sent = 0, so_start_time = t,
        so_zone_registry = Some (zone_registry_of (bt_zone_entries parts)), so_db = Some db'\<rparr>"
      "dm_engines d = [bt_filter parts]" "dm_installed d = 0" "dm_resolver d = bt_resolver parts"
      "dm_zone_entries d = bt_zone_entries parts" "dm_world d = fresh_objects (w\<lparr>w_metrics := ms\<rparr>)"
    using assms(1) c s p parts apply_db_config_Inr by (cases res; fastforce simp: start_daemon_def split: if_splits)+
  have "db_ok db'" using seed_if_empty_keeps [OF assms(2), of config] s by simp
  moreover have "opt_balanced ms" "built_ok parts" using build_parts_ok [OF p assms(3)] parts by auto
  ultimately show ?thesis
    using fresh_objects_ok [of "w\<lparr>w_metrics := ms\<rparr>"] by (simp add: daemon_ok_def d ops_ok_def built_ok_def)
qed

subsection \<open>What a reload installs\<close>

text \<open>The lists of the installed filter are those that are enabled in the database, blocklists first, in order of name.\<close>

definition enabled_lists :: "string \<Rightarrow> list_kind \<Rightarrow> database \<Rightarrow> (string \<times> string \<times> list_kind) list" where
  "enabled_lists kind k db =
     map (\<lambda>r. (fl_name r, fl_url r, k)) (filter (\<lambda>r. fl_enabled r \<and> fl_kind r = kind) (filter_lists_get_all db))"

definition runtime_id :: "list_runtime \<Rightarrow> string \<times> string \<times> list_kind" where
  "runtime_id rt = (rt_name rt, rt_url rt, rt_kind rt)"

lemma build_runtimes_ids:
  assumes "build_runtimes ls k = Inr rts"
  shows "map runtime_id rts = map (\<lambda>l. (nl_name l, nl_url l, k)) (filter (\<lambda>l. case nl_enabled l of None \<Rightarrow> True | Some b \<Rightarrow> b) ls)"
proof -
  have "list_all2 (\<lambda>l rt. build_runtime k l = Inr rt) (filter (\<lambda>l. case nl_enabled l of None \<Rightarrow> True | Some b \<Rightarrow> b) ls) rts"
    using assms by (simp add: build_runtimes_def res_map_list_Inr)
  then have "list_all2 (\<lambda>l rt. runtime_id rt = (nl_name l, nl_url l, k))
      (filter (\<lambda>l. case nl_enabled l of None \<Rightarrow> True | Some b \<Rightarrow> b) ls) rts"
    by (rule list_all2_mono) (auto simp: build_runtime_def runtime_id_def)
  then show ?thesis by (auto simp: list_all2_conv_all_nth intro!: nth_equalityI)
qed

lemma restored_runtimes: "try_restore_document_cache J repo r (e, ms) = (e', ms') \<Longrightarrow> eng_runtimes e' = eng_runtimes e"
  by (auto simp: try_restore_document_cache_def rebuild_snapshot_def split: option.splits prod.splits if_splits)

lemma built_runtimes:
  assumes "build_parts D (loaded_config config db) repo r ms = (Inr parts, ms')"
  shows "map runtime_id (eng_runtimes (bt_filter parts)) = enabled_lists ''block'' KindBlock db @ enabled_lists ''allow'' KindAllow db"
proof -
  let ?c = "loaded_config config db"
  obtain e ms1 where f: "build_domain_filter_with_cache (de_codec D) ?c repo r ms = Inr (e, ms1)" and e: "bt_filter parts = e"
    using assms by (auto simp: build_parts_def split: sum.splits prod.splits)
  then obtain v4 v6 bs as where b: "build_runtimes (cfg_blocklists ?c) KindBlock = Inr bs"
    and a: "build_runtimes (cfg_allowlists ?c) KindAllow = Inr as"
    and t: "try_restore_document_cache (de_codec D) repo r (engine_new v4 v6 (bs @ as), ms) = (e, ms1)"
    by (auto simp: build_domain_filter_with_cache_def from_config_with_cache_def Let_def)
  have "filter (\<lambda>l. case nl_enabled l of None \<Rightarrow> True | Some b \<Rightarrow> b) (map named_list_of_record rs) =
      map named_list_of_record (filter fl_enabled rs)" for rs
    by (induction rs) (auto simp: named_list_of_record_def)
  then have "map runtime_id bs = enabled_lists ''block'' KindBlock db" "map runtime_id as = enabled_lists ''allow'' KindAllow db"
    using build_runtimes_ids [OF b] build_runtimes_ids [OF a]
    by (simp_all add: loaded_config_def Let_def enabled_lists_def named_list_of_record_def filter_filter comp_def conj_commute)
  then show ?thesis using restored_runtimes [OF t] e by (simp add: engine_new_def)
qed

text \<open>
  C4. A reload follows the database, or changes nothing that queries see: when anything of the new configuration cannot
  be built, the pipeline stays exactly as it is; otherwise it is replaced by the one built, whose filter has exactly
  the lists that are enabled in the database. The switch of the filter survives.
\<close>

theorem reload_follows_database:
  assumes "so_db (dm_ops d) = Some db"
    and "reload_config_from_db_cached D (dm_cached_yaml d) db (dm_repo d) (w_metrics (dm_world d)) = (res, ms)"
  shows "case res of
      Inl _ \<Rightarrow> daemon_pipeline D (handle_reload D d) = daemon_pipeline D d
    | Inr parts \<Rightarrow>
        daemon_pipeline D (handle_reload D d) =
          build_dns_request_pipeline_full (be_lib (de_boot D)) (bt_resolver parts) (engine_filter (bt_filter parts))
            (bt_any_query_policy parts) (bt_zone_entries parts) (Some (so_filtering_enabled (dm_ops d))) \<and>
        map runtime_id (eng_runtimes (bt_filter parts)) =
          enabled_lists ''block'' KindBlock db @ enabled_lists ''allow'' KindAllow db"
proof (cases res)
  case (Inr parts)
  with assms(2) have "map runtime_id (eng_runtimes (bt_filter parts)) =
      enabled_lists ''block'' KindBlock db @ enabled_lists ''allow'' KindAllow db"
    by (auto simp: reload_config_from_db_cached_def build_from_db_def split: sum.splits dest!: apply_db_config_Inr intro: built_runtimes)
  with Inr assms show ?thesis by (simp add: handle_reload_def daemon_pipeline_def)
qed (use assms in \<open>simp add: handle_reload_def daemon_pipeline_def\<close>)

text \<open>
  After a reload the management operations no longer reach the filter that answers queries: disabling a list
  reports exactly what it reported before the reload (success, for a list the server started with) and leaves the
  installed pipeline as it is, because the operations keep the filter that the server started with.
\<close>

theorem disable_ignored_after_reload:
  assumes "daemon_ok d" and "so_db (dm_ops d) = Some db"
    and "reload_config_from_db_cached D (dm_cached_yaml d) db (dm_repo d) (w_metrics (dm_world d)) = (Inr parts, ms)"
  shows "daemon_pipeline D (snd (daemon_operation (disable_list_op name) (handle_reload D d))) =
      daemon_pipeline D (handle_reload D d) \<and>
    fst (daemon_operation (disable_list_op name) (handle_reload D d)) = fst (daemon_operation (disable_list_op name) d)"
proof -
  have "dm_engines d \<noteq> []" using assms(1) by (auto simp: daemon_ok_def)
  then show ?thesis
    using assms(2,3)
    by (cases "disable_list name ((dm_engines d @ [bt_filter parts]) ! 0)"; cases "dm_engines d")
      (auto simp: daemon_operation_def handle_reload_def daemon_pipeline_def disable_list_op_def nth_append
        split: prod.splits bool.splits)
qed

subsection \<open>Instances\<close>

text \<open>A server with one plain upstream, on the network on which every operation works.\<close>

definition example_env :: "(connect_target, nat, nat) boot_env" where
  "example_env =
     \<lparr>be_lib = transport_lib, be_net = example_net_lib, be_discovery = index_io ''x'',
      be_read_file = (\<lambda>_. Inr []), be_read_anchors = (\<lambda>_. Inl ''no such file''),
      be_recursor = (\<lambda>_. nx_recursor)\<rparr>"

definition example_server :: upstream_server where
  "example_server =
     \<lparr>us_enabled = True, us_protocol = ''dns'', us_address = ''9.9.9.9:53'', us_authentication = None,
      us_max_hops = None, us_nameserver_ip_family = None, us_root_hints_path = None, us_root_key_path = None,
      us_dnssec = None, us_bind_address = None, us_fwmark = None\<rparr>"

definition example_config :: dns_filter_config where
  "example_config = empty_config\<lparr>cfg_listen := (cfg_listen empty_config)\<lparr>
       ln_dns := Some \<lparr>so_enabled = True, so_addresses = [''127.0.0.1''], so_port = 53\<rparr>,
       ln_dot := Some \<lparr>ts_enabled = True, ts_addresses = [''::''], ts_port = 853,
         ts_tls = \<lparr>tls_cert_path = ''tls/cert.pem'', tls_key_path = ''tls/key.pem'', tls_autogenerate = None\<rparr>\<rparr>\<rparr>,
     cfg_blocklists := [example_list ''ads''],
     cfg_resolvers := (cfg_resolvers empty_config)\<lparr>rs_servers := [example_server]\<rparr>\<rparr>"

definition transport_world :: "(connect_target, nat) transport world" where
  "transport_world = \<lparr>w_metrics = None, w_clock = (\<lambda>n. int n * 1000000000), w_reads = 0,
     w_random = (\<lambda>n. n), w_draws = 0, w_counters = (\<lambda>_. 0), w_caches = (\<lambda>_. []),
     w_net = \<lparr>tr_conns = (\<lambda>_. None), tr_ext = 0\<rparr>\<rparr>"

definition example_daemon_env :: "(connect_target, nat, nat, nat) daemon_env" where
  "example_daemon_env =
     \<lparr>de_boot = example_env, de_codec = \<lparr>doc_to_json = (\<lambda>_. Inl []), doc_from_json = (\<lambda>_. Inl [])\<rparr>,
      de_cache_repo = \<lparr>repo_load = (\<lambda>_ _. Inr None), repo_store = (\<lambda>_ r. (Inr (), r))\<rparr>,
      de_parse_yaml = (\<lambda>_. Inr example_config), de_db_fails = (\<lambda>_ _. None)\<rparr>"

definition example_daemon :: "reload_error + (connect_target, nat, nat) daemon" where
  "example_daemon = start_daemon example_daemon_env [] (initial_database example_uuid) 0 0 transport_world"

lemma example_daemon_facts:
  "case example_daemon of
     Inl _ \<Rightarrow> False
   | Inr d \<Rightarrow> so_db (dm_ops d) \<noteq> None \<and>
       \<not> isl (fst (reload_config_from_db_cached example_daemon_env (dm_cached_yaml d) (the (so_db (dm_ops d))) (dm_repo d)
           (w_metrics (dm_world d)))) \<and>
       enabled_lists ''block'' KindBlock (the (so_db (dm_ops d))) = [(''ads'', ''u'', KindBlock)] \<and>
       enabled_lists ''allow'' KindAllow (the (so_db (dm_ops d))) = []"
  by code_simp

lemma example_running:
  obtains d db parts ms where "example_daemon = Inr d" "daemon_ok d" "so_db (dm_ops d) = Some db"
    "reload_config_from_db_cached example_daemon_env (dm_cached_yaml d) db (dm_repo d) (w_metrics (dm_world d)) = (Inr parts, ms)"
    "enabled_lists ''block'' KindBlock db = [(''ads'', ''u'', KindBlock)]" "enabled_lists ''allow'' KindAllow db = []"
proof -
  obtain d where d: "example_daemon = Inr d" using example_daemon_facts by (auto split: sum.splits)
  note facts = example_daemon_facts [unfolded d sum.case]
  obtain db where db: "so_db (dm_ops d) = Some db" using facts by auto
  obtain res ms where r: "reload_config_from_db_cached example_daemon_env (dm_cached_yaml d) db (dm_repo d)
      (w_metrics (dm_world d)) = (res, ms)" by fastforce
  then obtain parts where "res = Inr parts" using facts db by (cases res) auto
  moreover have "daemon_ok d"
    by (rule start_daemon_ok [OF d [unfolded example_daemon_def] initial_database_ok])
      (simp add: transport_world_def opt_balanced_def)
  ultimately show ?thesis using that [OF d _ db] r facts db by simp
qed

theorem reload_follows_database_witness:
  "\<exists>d parts ms. example_daemon = Inr d \<and>
     reload_config_from_db_cached example_daemon_env (dm_cached_yaml d) (the (so_db (dm_ops d))) (dm_repo d)
       (w_metrics (dm_world d)) = (Inr parts, ms) \<and>
     map runtime_id (eng_runtimes (bt_filter parts)) = [(''ads'', ''u'', KindBlock)]"
proof -
  obtain d db parts ms where d: "example_daemon = Inr d" "so_db (dm_ops d) = Some db"
      "reload_config_from_db_cached example_daemon_env (dm_cached_yaml d) db (dm_repo d) (w_metrics (dm_world d)) = (Inr parts, ms)"
      "enabled_lists ''block'' KindBlock db = [(''ads'', ''u'', KindBlock)]" "enabled_lists ''allow'' KindAllow db = []"
    by (rule example_running)
  from reload_follows_database [OF d(2,3)] d show ?thesis by auto
qed

theorem disable_ignored_after_reload_witness:
  "\<exists>d. example_daemon = Inr d \<and>
     daemon_pipeline example_daemon_env (snd (daemon_operation (disable_list_op ''ads'') (handle_reload example_daemon_env d))) =
       daemon_pipeline example_daemon_env (handle_reload example_daemon_env d)"
proof -
  obtain d db parts ms where d: "example_daemon = Inr d" "daemon_ok d" "so_db (dm_ops d) = Some db"
      "reload_config_from_db_cached example_daemon_env (dm_cached_yaml d) db (dm_repo d) (w_metrics (dm_world d)) = (Inr parts, ms)"
    by (rule example_running)
  from disable_ignored_after_reload [OF d(2-4)] d(1) show ?thesis by blast
qed

end
