(* ===== verification/Startup.thy ===== *)
theory Startup
  imports Acme Listeners Logging Privileges ControlSocket McpServer Daemon
begin

text \<open>
  The start of the process: \<open>run_daemon\<close> of \<open>src/main.rs\<close> from the reading of the configuration to the moment when
  every listener and every management server is up, with the set-up of ACME, the servers for metrics, API and
  administration, and the connection to the database (\<open>src/frameworks/database/pool.rs\<close>).

  What is outside is the parameter \<open>startup_env\<close>, which collects the environments of the components, all over the same
  state \<open>'o\<close> of the system. Every \<open>exit(1)\<close> of the source is an error here. The settings that only this theory reads
  are in \<open>extra_config\<close>; the deserializer gives both parts of a configuration from the same text. The file is read twice
  in the source; here both readings give the same text.
\<close>

section \<open>Settings and environment\<close>

record query_logging_config =
  qc_enabled :: bool
  qc_max_entries :: nat

record api_config =
  api_enabled :: bool
  api_address :: string
  api_port :: u16
  api_token :: "string option"
  api_query_logging :: "query_logging_config option"
  api_tls :: "tls_config option"

text \<open>The settings of the MCP server come with the flag that enables it.\<close>

record extra_config =
  xc_logging :: logging_config
  xc_api :: "api_config option"
  xc_mcp :: "(bool \<times> mcp_config) option"
  xc_acme :: "acme_config option"

record ('c, 'x, 'k, 'r, 'o) startup_env =
  se_daemon :: "('c, 'x, 'k, 'r) daemon_env"
  se_world :: "('c, 'x) transport world"
  se_extra :: "string \<Rightarrow> extra_config"
  se_open_log :: "string \<Rightarrow> 'o \<Rightarrow> (string + unit) \<times> 'o"
  se_priv :: "'o priv_os"
  se_connect :: "string \<Rightarrow> 'o \<Rightarrow> (string + nat) \<times> 'o"
  se_migrate :: "nat \<Rightarrow> 'o \<Rightarrow> (string + database \<times> 'r) \<times> 'o"
  se_listen :: "'o listen_env"
  se_acme :: "'o acme_env"
  se_temp_key :: "'o \<Rightarrow> (string + string) \<times> 'o"
  se_temp_cert :: "string \<Rightarrow> string + bytes"
  se_control :: "'o control_os"
  se_shutdown_signals :: "'o \<Rightarrow> (string + unit) \<times> 'o"
  se_sighup :: "'o \<Rightarrow> (string + unit) \<times> 'o"
  se_prometheus :: "'o \<Rightarrow> (string + unit) \<times> 'o"
  se_now :: "'o \<Rightarrow> u64"

datatype exit_error =
    ConfigUnreadable string
  | ConfigRejected reload_error
  | LoggingFailed logging_error
  | PrivilegesFailed privilege_error
  | DatabasePath path_error
  | DatabaseFailed string
  | StartFailed reload_error
  | ListenerFailed start_error
  | AcmePath string path_error
  | TempCertFailed string
  | AcmeManagerFailed acme_error
  | ControlPath path_error
  | ControlFailed bind_error
  | SignalsFailed string
  | ServerAddress string string
  | ServerAddresses string listener_setup_error
  | ServerTls string listener_setup_error
  | NoServerAddress string
  | PrometheusFailed string

section \<open>The database\<close>

text \<open>SQLite creates the file if the mode says so.\<close>

definition connect_url :: "string \<Rightarrow> string" where
  "connect_url url =
     (if str_contains url ''mode='' then url
      else if CHR ''?'' \<in> set url then url @ ''&mode=rwc''
      else url @ ''?mode=rwc'')"

definition init_pool ::
  "('c, 'x, 'k, 'r, 'o) startup_env \<Rightarrow> string \<Rightarrow> 'o \<Rightarrow> (string + database \<times> 'r) \<times> 'o" where
  "init_pool S url os =
     then_do (case strip_prefix url ''sqlite://'' of
         Some path \<Rightarrow>
           (case le_parent (se_listen S) path of
              Some parent \<Rightarrow> if parent \<noteq> [] then le_create_dir_all (se_listen S) parent os else (Inr (), os)
            | None \<Rightarrow> (Inr (), os))
       | None \<Rightarrow> (Inr (), os)) id (\<lambda>_ os.
     then_do (se_connect S (connect_url url) os) id (\<lambda>pool os.
     se_migrate S pool os))"

section \<open>ACME\<close>

definition acme_path :: "bool \<Rightarrow> string \<Rightarrow> string \<Rightarrow> string \<Rightarrow> exit_error + string" where
  "acme_path will_chroot chroot_dir name path = map_err (AcmePath name) (runtime_path will_chroot path chroot_dir)"

definition runtime_acme_config :: "bool \<Rightarrow> string \<Rightarrow> acme_config \<Rightarrow> exit_error + acme_config" where
  "runtime_acme_config will_chroot chroot_dir c =
     res_bind (acme_path will_chroot chroot_dir ''acme.cert_path'' (acm_cert_path c)) (\<lambda>cert_path.
     res_bind (acme_path will_chroot chroot_dir ''acme.key_path'' (acm_key_path c)) (\<lambda>key_path.
     res_bind (acme_path will_chroot chroot_dir ''acme.account_credentials_path'' (acm_account_credentials_path c)) (\<lambda>account_path.
     Inr (c\<lparr>acm_enabled := True, acm_cert_path := cert_path, acm_key_path := key_path,
            acm_account_credentials_path := account_path\<rparr>))))"

definition generate_temp_certified_key ::
  "('c, 'x, 'k, 'r, 'o) startup_env \<Rightarrow> 'o \<Rightarrow> (string + certified_key) \<times> 'o" where
  "generate_temp_certified_key S os =
     then_do (se_temp_key S os) (\<lambda>e. ''key generation failed: '' @ e) (\<lambda>key_pair os.
     then_do (se_temp_cert S key_pair, os) (\<lambda>e. ''self-signed cert generation failed: '' @ e) (\<lambda>cert_der os.
     then_do (ae_signing_key (se_acme S) key_pair, os) (\<lambda>e. ''key type error: '' @ e) (\<lambda>signing_key os.
     (Inr \<lparr>ck_chain = [cert_der], ck_signing_key = signing_key\<rparr>, os))))"

definition initial_key ::
  "('c, 'x, 'k, 'r, 'o) startup_env \<Rightarrow> acme_config \<Rightarrow> 'o \<Rightarrow> (string + certified_key) \<times> 'o" where
  "initial_key S c os =
     (let E = se_acme S in
      if ae_exists E (acm_cert_path c) os \<and> ae_exists E (acm_key_path c) os then
        (case res_bind (map_err AeIo (ae_read E (acm_cert_path c) os)) (\<lambda>cert.
              res_bind (map_err AeIo (ae_read E (acm_key_path c) os)) (\<lambda>key.
              load_certified_key_from_pem E cert key)) of
           Inr ck \<Rightarrow> (Inr ck, os)
         | Inl e \<Rightarrow> generate_temp_certified_key S os)
      else generate_temp_certified_key S os)"

text \<open>
  The manager with the state of the certificates after the first attempt to obtain one; that it failed is only logged.
\<close>

definition setup_acme ::
  "('c, 'x, 'k, 'r, 'o) startup_env \<Rightarrow> bool \<Rightarrow> string \<Rightarrow> acme_config option \<Rightarrow> 'o \<Rightarrow>
   (exit_error + (manager \<times> 'o acme_state) option) \<times> 'o" where
  "setup_acme S will_chroot chroot_dir acme os =
     (case acme of
        None \<Rightarrow> (Inr None, os)
      | Some c \<Rightarrow>
          if \<not> acm_enabled c then (Inr None, os)
          else then_do (runtime_acme_config will_chroot chroot_dir c, os) id (\<lambda>c os.
            then_do (initial_key S c os) TempCertFailed (\<lambda>key os.
            then_do (manager_new (se_acme S) c, os) AcmeManagerFailed (\<lambda>m os.
            case obtain_or_load_certificate (se_acme S) m
                \<lparr>am_world = os, am_calls = [], am_resolver = key, am_clock = uint (se_now S os)\<rparr> of
              (_, st) \<Rightarrow> (Inr (Some (m, st)), am_world st)))))"

section \<open>Management servers\<close>

definition optional_tls ::
  "('o \<Rightarrow> (listener_setup_error + server_config) \<times> 'o) option \<Rightarrow> string \<Rightarrow> 'o \<Rightarrow> (exit_error + server_config option) \<times> 'o" where
  "optional_tls build name os =
     (case build of
        None \<Rightarrow> (Inr None, os)
      | Some b \<Rightarrow> then_do (b os) (ServerTls name) (\<lambda>c os. (Inr (Some c), os)))"

definition spawn_metrics_servers ::
  "'o listen_env \<Rightarrow> metrics_config option \<Rightarrow> 'o \<Rightarrow> (exit_error + (socket_addr \<times> server_config option) list) \<times> 'o" where
  "spawn_metrics_servers E metrics os =
     (case metrics of
        None \<Rightarrow> (Inr [], os)
      | Some c \<Rightarrow>
          if \<not> mc_enabled c then (Inr [], os)
          else then_do (parse_bind_addrs (metrics_config.mc_addresses c) (metrics_config.mc_port c), os) (ServerAddresses ''metrics'') (\<lambda>addrs os.
            then_do (optional_tls (map_option (\<lambda>tls. build_tls_config_plain E tls (metrics_config.mc_addresses c)) (mc_tls c))
              ''metrics'' os) id (\<lambda>tls os.
            (Inr (map (\<lambda>addr. (addr, tls)) addrs), os))))"

record api_task =
  at_addr :: socket_addr
  at_tls :: "server_config option"
  at_token :: "string option"

definition spawn_api_server ::
  "'o listen_env \<Rightarrow> api_config option \<Rightarrow> 'o \<Rightarrow> (exit_error + api_task option) \<times> 'o" where
  "spawn_api_server E api os =
     (case api of
        None \<Rightarrow> (Inr None, os)
      | Some c \<Rightarrow>
          if \<not> api_enabled c then (Inr None, os)
          else
            (let text = api_address c @ '':'' @ show_port (api_port c) in
             then_do (ok_or (ServerAddress ''API'' text) (parse_socket_addr text), os) id (\<lambda>addr os.
             then_do (optional_tls (map_option (\<lambda>tls. build_tls_config_for_https E tls [api_address c]) (api_tls c)) ''API'' os) id (\<lambda>tls os.
             (Inr (Some \<lparr>at_addr = addr, at_tls = tls, at_token = api_token c\<rparr>), os)))))"

record admin_task =
  dt_http_addr :: socket_addr
  dt_tls :: "(server_config \<times> socket_addr) option"
  dt_tls_port :: u16
  dt_token :: "string option"

text \<open>The first address, or the panic of \<open>expect\<close>.\<close>

fun first_addr :: "string \<Rightarrow> socket_addr list \<Rightarrow> exit_error + socket_addr" where
  "first_addr name [] = Inl (NoServerAddress name)"
| "first_addr name (a # _) = Inr a"

definition admin_tls ::
  "'o listen_env \<Rightarrow> admin_config \<Rightarrow> 'o \<Rightarrow> (exit_error + (server_config \<times> socket_addr) option) \<times> 'o" where
  "admin_tls E c os =
     (case ac_tls c of
        None \<Rightarrow> (Inr None, os)
      | Some tls \<Rightarrow>
          then_do (build_tls_config_for_https E tls (ac_addresses c) os) (ServerTls ''admin'') (\<lambda>cfg os.
          then_do (parse_bind_addrs (ac_addresses c) (ac_tls_port c), os) (ServerAddresses ''admin HTTPS'') (\<lambda>tls_addrs os.
          then_do (first_addr ''admin TLS'' tls_addrs, os) id (\<lambda>tls_addr os.
          (Inr (Some (cfg, tls_addr)), os)))))"

definition spawn_admin_server ::
  "'o listen_env \<Rightarrow> admin_config option \<Rightarrow> api_config option \<Rightarrow> 'o \<Rightarrow> (exit_error + admin_task option) \<times> 'o" where
  "spawn_admin_server E admin api os =
     (case admin of
        None \<Rightarrow> (Inr None, os)
      | Some c \<Rightarrow>
          if \<not> ac_enabled c then (Inr None, os)
          else then_do (parse_bind_addrs (ac_addresses c) (ac_port c), os) (ServerAddresses ''admin HTTP'') (\<lambda>http_addrs os.
            then_do (first_addr ''admin'' http_addrs, os) id (\<lambda>http_addr os.
            then_do (admin_tls E c os) id (\<lambda>tls os.
            (Inr (Some \<lparr>dt_http_addr = http_addr, dt_tls = tls, dt_tls_port = ac_tls_port c,
                dt_token = Option.bind api api_token\<rparr>), os)))))"

text \<open>
  What the task of the administration runs (\<open>listeners/admin.rs\<close>): with TLS, a server that redirects and one that serves
  the pages and the API under the token; without, only the latter, in the clear. Each binds a socket of its own.
\<close>

datatype admin_server =
    HttpAdmin socket_addr "string option"
  | HttpsAdmin socket_addr server_config "string option"
  | RedirectServer socket_addr u16

definition start_admin_servers :: "admin_task \<Rightarrow> admin_server list" where
  "start_admin_servers t =
     (case dt_tls t of
        Some (tls_cfg, tls_addr) \<Rightarrow> [RedirectServer (dt_http_addr t) (dt_tls_port t), HttpsAdmin tls_addr tls_cfg (dt_token t)]
      | None \<Rightarrow> [HttpAdmin (dt_http_addr t) (dt_token t)])"

fun admin_server_addr :: "admin_server \<Rightarrow> socket_addr" where
  "admin_server_addr (HttpAdmin addr _) = addr"
| "admin_server_addr (HttpsAdmin addr _ _) = addr"
| "admin_server_addr (RedirectServer addr _) = addr"

definition bind_admin_server :: "'o listen_env \<Rightarrow> admin_server \<Rightarrow> 'o \<Rightarrow> (string + unit) \<times> 'o" where
  "bind_admin_server E server os = run_socket E (bind_tcp_tokio (admin_server_addr server)) os"

definition spawn_mcp_server :: "(bool \<times> mcp_config) option \<Rightarrow> mcp_config option" where
  "spawn_mcp_server mcp = (case mcp of Some (True, c) \<Rightarrow> Some c | _ \<Rightarrow> None)"

section \<open>The whole start\<close>

record ('c, 'x, 'r, 'o) running_process =
  rp_sinks :: "log_sink list"
  rp_daemon :: "('c, 'x, 'r) daemon"
  rp_listeners :: "registered list"
  rp_acme :: "(manager \<times> 'o acme_state) option"
  rp_control_path :: string
  rp_api :: "api_task option"
  rp_admin :: "admin_task option"
  rp_metrics :: "(socket_addr \<times> server_config option) list"
  rp_mcp :: "mcp_config option"

definition query_log_of :: "api_config option \<Rightarrow> query_log option" where
  "query_log_of api =
     (case Option.bind api api_query_logging of
        Some q \<Rightarrow> if qc_enabled q then Some (query_log_new (qc_max_entries q)) else None
      | None \<Rightarrow> None)"

definition config_chroot_dir :: "dns_filter_config \<Rightarrow> string" where
  "config_chroot_dir config = (case Option.bind (cfg_security config) sc_chroot_dir of None \<Rightarrow> default_chroot_dir | Some d \<Rightarrow> d)"

definition drop_config :: "dns_filter_config \<Rightarrow> privilege_drop_config" where
  "drop_config config =
     \<lparr>pd_user = (case Option.bind (cfg_security config) sc_user of None \<Rightarrow> default_user | Some u \<Rightarrow> u),
      pd_group = (case Option.bind (cfg_security config) sc_group of None \<Rightarrow> default_group | Some g \<Rightarrow> g),
      pd_chroot_dir = Some (config_chroot_dir config)\<rparr>"

text \<open>The servers for management, in the order in which they are started.\<close>

definition start_management ::
  "('c, 'x, 'k, 'r, 'o) startup_env \<Rightarrow> dns_filter_config \<Rightarrow> extra_config \<Rightarrow> ('c, 'x, 'r, 'o) running_process \<Rightarrow> 'o \<Rightarrow>
   (exit_error + ('c, 'x, 'r, 'o) running_process) \<times> 'o" where
  "start_management S config extra p os =
     then_do (spawn_api_server (se_listen S) (xc_api extra) os) id (\<lambda>api os.
     then_do (spawn_admin_server (se_listen S) (ln_admin (cfg_listen config)) (xc_api extra) os) id (\<lambda>admin os.
     then_do (se_prometheus S os) PrometheusFailed (\<lambda>_ os.
     then_do (spawn_metrics_servers (se_listen S) (ln_metrics (cfg_listen config)) os) id (\<lambda>metrics os.
     (Inr (p\<lparr>rp_api := api, rp_admin := admin, rp_metrics := metrics, rp_mcp := spawn_mcp_server (xc_mcp extra)\<rparr>), os)))))"

definition start_servers ::
  "('c, 'x, 'k, 'r, 'o) startup_env \<Rightarrow> dns_filter_config \<Rightarrow> extra_config \<Rightarrow> bool \<Rightarrow> string \<Rightarrow> log_sink list \<Rightarrow>
   ('c, 'x, 'r) daemon \<Rightarrow> 'o \<Rightarrow> (exit_error + ('c, 'x, 'r, 'o) running_process) \<times> 'o" where
  "start_servers S config extra will_chroot chroot_dir sinks d os =
     then_do (start_dns (se_listen S) (ln_dns (cfg_listen config)) os) ListenerFailed (\<lambda>server os.
     then_do (setup_acme S will_chroot chroot_dir (xc_acme extra) os) id (\<lambda>acme os.
     then_do (start_encrypted_listeners (se_listen S) (acme \<noteq> None) will_chroot chroot_dir (cfg_listen config) server os) ListenerFailed (\<lambda>server os.
     then_do (runtime_path will_chroot (socket_path config) chroot_dir, os) ControlPath (\<lambda>control_path os.
     then_do (bind_socket (se_control S) control_path os) ControlFailed (\<lambda>_ os.
     then_do (se_shutdown_signals S os) SignalsFailed (\<lambda>_ os.
     then_do (se_sighup S os) SignalsFailed (\<lambda>_ os.
     start_management S config extra
       \<lparr>rp_sinks = sinks, rp_daemon = d\<lparr>dm_ops := (dm_ops d)\<lparr>so_query_log := query_log_of (xc_api extra)\<rparr>\<rparr>,
        rp_listeners = server, rp_acme = acme, rp_control_path = control_path, rp_api = None, rp_admin = None,
        rp_metrics = [], rp_mcp = None\<rparr> os)))))))"

text \<open>What happens after the privileges are dropped.\<close>

definition run_confined ::
  "('c, 'x, 'k, 'r, 'o) startup_env \<Rightarrow> dns_filter_config \<Rightarrow> string \<Rightarrow> bool \<Rightarrow> log_sink list \<Rightarrow> 'o \<Rightarrow>
   (exit_error + ('c, 'x, 'r, 'o) running_process) \<times> 'o" where
  "run_confined S config cached_yaml will_chroot sinks os =
     (let chroot_dir = config_chroot_dir config; db_url = config_database_url config in
      then_do (if will_chroot then sqlite_url_for_chroot_runtime db_url chroot_dir
               else sqlite_url_for_chroot_host db_url chroot_dir, os) DatabasePath (\<lambda>runtime_db_url os.
      then_do (init_pool S runtime_db_url os) DatabaseFailed (\<lambda>(db, r) os.
      then_do (start_daemon (se_daemon S) cached_yaml db r (se_now S os) (se_world S), os) StartFailed (\<lambda>d os.
      start_servers S config (se_extra S cached_yaml) will_chroot chroot_dir sinks d os))))"

definition run_daemon ::
  "('c, 'x, 'k, 'r, 'o) startup_env \<Rightarrow> string \<Rightarrow> bool \<Rightarrow> 'o \<Rightarrow> (exit_error + ('c, 'x, 'r, 'o) running_process) \<times> 'o" where
  "run_daemon S config_path debug os =
     then_do (be_read_file (de_boot (se_daemon S)) config_path, os) ConfigUnreadable (\<lambda>cached_yaml os.
     then_do (res_bind (load_config (se_daemon S) config_path) (\<lambda>c. map_err ConfigInvalid (validate_config c)), os) ConfigRejected (\<lambda>config os.
     then_do (init_logging (se_open_log S) (xc_logging (se_extra S cached_yaml)) debug os) LoggingFailed (\<lambda>sinks os.
     let will_chroot = (po_uid (se_priv S) os = 0) in
     then_do (drop_privileges (se_priv S) (drop_config config) os) PrivilegesFailed (\<lambda>_ os.
     run_confined S config cached_yaml will_chroot sinks os))))"

section \<open>Properties\<close>

lemma init_logging_view:
  assumes "\<And>path os. view (snd (open_append path os)) = view os"
  shows "view (snd (init_logging open_append cfg debug os)) = view os"
proof -
  have opened: "view (snd (file_layer open_append c debug os)) = view os" for c
    using assms [of "ff_location c" os] by (auto simp: file_layer_def split: prod.splits sum.splits)
  show ?thesis
  proof (cases "lg_file cfg")
    case (Some c)
    then show ?thesis using opened [of c] by (auto simp: init_logging_def Let_def split: prod.splits sum.splits)
  qed (auto simp: init_logging_def Let_def split: sum.splits)
qed

text \<open>The errors that can end the process before it has dropped its privileges.\<close>

fun early_error :: "exit_error \<Rightarrow> bool" where
  "early_error (ConfigUnreadable e) = True"
| "early_error (ConfigRejected e) = True"
| "early_error (LoggingFailed e) = True"
| "early_error (PrivilegesFailed e) = True"
| "early_error e = False"

lemma run_daemon_steps:
  assumes "run_daemon S config_path debug os = (r, os')" and "\<not> (\<exists>e. r = Inl e \<and> early_error e)"
  obtains config yaml sinks os1 v os2 where "load_config (se_daemon S) config_path = Inr config" "validate_config config = Inr config"
    "init_logging (se_open_log S) (xc_logging (se_extra S yaml)) debug os = (Inr sinks, os1)"
    "drop_privileges (se_priv S) (drop_config config) os1 = (Inr v, os2)"
    "run_confined S config yaml (po_uid (se_priv S) os1 = 0) sinks os2 = (r, os')"
proof -
  let ?c = "res_bind (load_config (se_daemon S) config_path) (\<lambda>c. map_err ConfigInvalid (validate_config c))"
  obtain yaml where yaml: "be_read_file (de_boot (se_daemon S)) config_path = Inr yaml"
    using assms by (cases "be_read_file (de_boot (se_daemon S)) config_path") (auto simp: run_daemon_def then_do_def)
  obtain config where config: "?c = Inr config"
    using assms yaml by (cases ?c) (auto simp: run_daemon_def then_do_def simp del: res_bind_Inr res_bind_Inl)
  obtain l os1 where log: "init_logging (se_open_log S) (xc_logging (se_extra S yaml)) debug os = (l, os1)" by fastforce
  obtain u os2 where drop: "drop_privileges (se_priv S) (drop_config config) os1 = (u, os2)" by fastforce
  obtain sinks where sinks: "l = Inr sinks"
    using assms yaml log unfolding run_daemon_def config by (cases l) (auto simp: then_do_def)
  obtain v where v: "u = Inr v"
    using assms yaml log sinks drop unfolding run_daemon_def config by (cases u) (auto simp: then_do_def Let_def)
  have run: "run_confined S config yaml (po_uid (se_priv S) os1 = 0) sinks os2 = (r, os')"
    using assms(1) yaml log sinks drop v unfolding run_daemon_def config by (simp add: then_do_def Let_def)
  obtain c where c: "load_config (se_daemon S) config_path = Inr c" "validate_config c = Inr config" using config by auto
  then have "config = c" by (auto simp: validate_config_def)
  with c log sinks drop v run that show ?thesis by blast
qed

text \<open>A process that has given up everything but a user, a group and the configured directory, and at most two capabilities.\<close>

definition confined_process :: "dns_filter_config \<Rightarrow> nat \<Rightarrow> nat \<Rightarrow> process \<Rightarrow> bool" where
  "confined_process config uid gid p \<longleftrightarrow>
     ps_uid p = uid \<and> ps_gid p = gid \<and> ps_groups p = [gid] \<and> ps_root p = config_chroot_dir config \<and> ps_cwd p = ''/'' \<and>
     CapNetBindService \<in> ps_effective p \<and> ps_effective p \<subseteq> ps_permitted p \<and>
     ps_permitted p \<subseteq> {CapNetBindService, CapNetAdmin}"


text \<open>The server that the process runs is one that \<open>start_daemon\<close> has started, with a query log at most.\<close>

lemma run_confined_Inr:
  assumes "run_confined S config yaml will_chroot sinks os = (Inr p, os')"
  obtains url os0 db r os1 t d where "init_pool S url os0 = (Inr (db, r), os1)"
    "start_daemon (se_daemon S) yaml db r t (se_world S) = Inr d"
    "start_servers S config (se_extra S yaml) will_chroot (config_chroot_dir config) sinks d os1 = (Inr p, os')"
  using assms unfolding run_confined_def Let_def then_do_Inr by (auto split: prod.splits)

lemma start_management_Inr:
  assumes "start_management S config extra p os = (Inr p', os')"
  shows "rp_daemon p' = rp_daemon p \<and> rp_listeners p' = rp_listeners p \<and> rp_acme p' = rp_acme p \<and> rp_control_path p' = rp_control_path p"
  using assms unfolding start_management_def then_do_Inr by auto

lemma start_servers_Inr:
  assumes "start_servers S config extra will_chroot chroot_dir sinks d os = (Inr p, os')"
  obtains server o1 o2 o3 o4 where "start_dns (se_listen S) (ln_dns (cfg_listen config)) os = (Inr server, o1)"
    "setup_acme S will_chroot chroot_dir (xc_acme extra) o1 = (Inr (rp_acme p), o2)"
    "start_encrypted_listeners (se_listen S) (rp_acme p \<noteq> None) will_chroot chroot_dir (cfg_listen config) server o2 =
       (Inr (rp_listeners p), o3)"
    "runtime_path will_chroot (socket_path config) chroot_dir = Inr (rp_control_path p)"
    "bind_socket (se_control S) (rp_control_path p) o3 = (Inr (rp_control_path p), o4)"
    "rp_daemon p = d\<lparr>dm_ops := (dm_ops d)\<lparr>so_query_log := query_log_of (xc_api extra)\<rparr>\<rparr>"
proof -
  from assms obtain server o1 acme o2 server' o3 path u o4 o5 o6 q where
    steps: "start_dns (se_listen S) (ln_dns (cfg_listen config)) os = (Inr server, o1)"
      "setup_acme S will_chroot chroot_dir (xc_acme extra) o1 = (Inr acme, o2)"
      "start_encrypted_listeners (se_listen S) (acme \<noteq> None) will_chroot chroot_dir (cfg_listen config) server o2 = (Inr server', o3)"
      "runtime_path will_chroot (socket_path config) chroot_dir = Inr path" "bind_socket (se_control S) path o3 = (Inr u, o4)"
    and last: "start_management S config extra q o6 = (Inr p, os')"
    and q: "q = \<lparr>rp_sinks = sinks, rp_daemon = d\<lparr>dm_ops := (dm_ops d)\<lparr>so_query_log := query_log_of (xc_api extra)\<rparr>\<rparr>,
        rp_listeners = server', rp_acme = acme, rp_control_path = path, rp_api = None, rp_admin = None,
        rp_metrics = [], rp_mcp = None\<rparr>"
    unfolding start_servers_def then_do_Inr by auto
  have "u = path" using steps(5) by (auto simp: bind_socket_def bind_and_restrict_def os_step_def split: prod.splits sum.splits option.splits if_splits)
  then show ?thesis using that steps start_management_Inr [OF last] q by auto
qed

text \<open>
  C23. What serves queries once the process is up: the plain listener is configured and enabled, with one UDP and one TCP
  socket for each of its addresses, and each enabled encrypted listener has one socket for each of its addresses, offers
  its protocol in the handshake, and serves either the certificate of ACME or a non-empty chain that was read from a file
  inside the chroot directory; a listener that is disabled has none.
\<close>

theorem listeners_registered:
  assumes "run_daemon S config_path debug os = (Inr p, os')"
  shows "\<exists>config will_chroot cfg addrs dot doh doq. load_config (se_daemon S) config_path = Inr config \<and>
    validate_config config = Inr config \<and>
    ln_dns (cfg_listen config) = Some cfg \<and> so_enabled cfg \<and> parse_bind_addrs (so_addresses cfg) (so_port cfg) = Inr addrs \<and>
    rp_listeners p = concat (map (\<lambda>a. [UdpListener a, TcpListener a]) addrs) @ dot @ doh @ doq \<and>
    (\<forall>proto part listener. (proto, part, listener) \<in> {(Dot, dot, ln_dot), (Doh, doh, ln_doh), (Doq, doq, ln_doq)} \<longrightarrow>
       encrypted_part (se_listen S) (rp_acme p \<noteq> None) will_chroot (config_chroot_dir config) proto (listener (cfg_listen config)) part)"
proof -
  obtain config yaml wc sinks mid where c: "load_config (se_daemon S) config_path = Inr config" "validate_config config = Inr config"
    and run: "run_confined S config yaml wc sinks mid = (Inr p, os')"
    using run_daemon_steps [OF assms] by (metis sum.distinct(1))
  from run obtain d os1 where "start_servers S config (se_extra S yaml) wc (config_chroot_dir config) sinks d os1 = (Inr p, os')"
    by (rule run_confined_Inr)
  then obtain server o1 o2 o3 where
    s: "start_dns (se_listen S) (ln_dns (cfg_listen config)) os1 = (Inr server, o1)"
      "start_encrypted_listeners (se_listen S) (rp_acme p \<noteq> None) wc (config_chroot_dir config) (cfg_listen config) server o2 =
         (Inr (rp_listeners p), o3)"
    by (rule start_servers_Inr)
  from s(1) obtain cfg addrs where "ln_dns (cfg_listen config) = Some cfg" "so_enabled cfg"
    "parse_bind_addrs (so_addresses cfg) (so_port cfg) = Inr addrs" "server = concat (map (\<lambda>a. [UdpListener a, TcpListener a]) addrs)"
    by (rule start_dns_registered)
  moreover from s(2) obtain dot doh doq where "rp_listeners p = server @ dot @ doh @ doq"
    "encrypted_part (se_listen S) (rp_acme p \<noteq> None) wc (config_chroot_dir config) Dot (ln_dot (cfg_listen config)) dot"
    "encrypted_part (se_listen S) (rp_acme p \<noteq> None) wc (config_chroot_dir config) Doh (ln_doh (cfg_listen config)) doh"
    "encrypted_part (se_listen S) (rp_acme p \<noteq> None) wc (config_chroot_dir config) Doq (ln_doq (cfg_listen config)) doq"
    by (rule start_encrypted_registered)
  ultimately show ?thesis using c
    by (intro exI [of _ config] exI [of _ wc] exI [of _ cfg] exI [of _ addrs] exI [of _ dot] exI [of _ doh] exI [of _ doq])
      (simp; blast)
qed

lemma obtain_or_load_resolver:
  assumes "obtain_or_load_certificate E m st = (r, st')"
  shows "(\<exists>new. am_calls st' = am_calls st @ new \<and> (am_resolver st' = am_resolver st \<or> installed E (mg_config m) new (am_resolver st'))) \<or>
    (ae_exists E (acm_cert_path (mg_config m)) (am_world st) \<and> ae_exists E (acm_key_path (mg_config m)) (am_world st) \<and>
     fst (load_cert_from_disk E (mg_config m) st) = Inr (am_resolver st'))"
proof -
  have flow: "\<exists>new. am_calls st' = am_calls st @ new \<and> (am_resolver st' = am_resolver st \<or> installed E (mg_config m) new (am_resolver st'))"
    if run: "run_acme_flow E m st = (r, st')"
  proof -
    from run_acme_flow_effect [OF run] obtain a b c where calls: "am_calls st' = am_calls st @ a @ b @ c"
      and res: "case r of Inl _ \<Rightarrow> am_resolver st' = am_resolver st | Inr _ \<Rightarrow> installed E (mg_config m) c (am_resolver st')"
      by blast
    have "installed E (mg_config m) c k \<Longrightarrow> installed E (mg_config m) (a @ b @ c) k" for k
      using installed_append [of E "mg_config m" c k "a @ b" "[]"] by simp
    then show ?thesis using calls res by (intro exI [of _ "a @ b @ c"]) (auto split: sum.splits)
  qed
  show ?thesis using assms flow
    by (auto simp: obtain_or_load_certificate_def Let_def resolver_update_def split: if_splits sum.splits option.splits)
qed

text \<open>
  C30. A failure of the certificate authority does not keep the server from starting: once the paths are valid, some key
  could be loaded or generated and the DNS provider is configured, the set-up of ACME succeeds whatever the authority,
  the provider and the network do; and the listeners then serve the key that was loaded or generated, the
  certificate on disk, or one that was issued and written to disk.
\<close>

theorem acme_failure_survived:
  assumes "acm_enabled c" and "runtime_acme_config will_chroot chroot_dir c = Inr rc"
    and "initial_key S rc os = (Inr key, os1)" and "manager_new (se_acme S) rc = Inr m"
  shows "\<exists>st. setup_acme S will_chroot chroot_dir (Some c) os = (Inr (Some (m, st)), am_world st) \<and>
    (am_resolver st = key \<or> installed (se_acme S) rc (am_calls st) (am_resolver st) \<or>
     (\<exists>cert key_pem. ae_read (se_acme S) (acm_cert_path rc) os1 = Inr cert \<and> ae_read (se_acme S) (acm_key_path rc) os1 = Inr key_pem \<and>
        load_certified_key_from_pem (se_acme S) cert key_pem = Inr (am_resolver st)))"
proof -
  let ?st0 = "\<lparr>am_world = os1, am_calls = [], am_resolver = key, am_clock = uint (se_now S os1)\<rparr>"
  obtain r st where run: "obtain_or_load_certificate (se_acme S) m ?st0 = (r, st)" by fastforce
  have m: "mg_config m = rc" using assms(4) by (auto simp: manager_new_def Let_def split: if_splits)
  have "am_resolver st = key \<or> installed (se_acme S) rc (am_calls st) (am_resolver st) \<or>
      fst (load_cert_from_disk (se_acme S) rc ?st0) = Inr (am_resolver st)"
    using obtain_or_load_resolver [OF run] m by auto
  moreover have "setup_acme S will_chroot chroot_dir (Some c) os = (Inr (Some (m, st)), am_world st)"
    using assms run by (simp add: setup_acme_def then_do_def)
  ultimately show ?thesis by (auto simp: load_cert_from_disk_def)
qed
text \<open>
  Administration that is configured with TLS is never served in the clear: the plain port only redirects, and the pages
  and the API, under the token of the API, are served with the certificate that was configured.
\<close>

theorem admin_not_in_clear:
  assumes "spawn_admin_server E (Some c) api os = (Inr (Some t), os')" and "ac_tls c = Some tls"
  shows "\<exists>addr cfg chain key. start_admin_servers t = [RedirectServer (dt_http_addr t) (ac_tls_port c), HttpsAdmin addr cfg (Option.bind api api_token)] \<and>
    sv_certificates cfg = Some (chain, key) \<and> chain \<noteq> []"
proof -
  from assms obtain o1 o2 cfg addr where
    cfg: "build_tls_config_for_https E tls (ac_addresses c) o1 = (Inr cfg, o2)"
    and t: "dt_tls t = Some (cfg, addr)" "dt_tls_port t = ac_tls_port c" "dt_token t = Option.bind api api_token"
    by (auto simp: spawn_admin_server_def admin_tls_def split: if_splits)
  from cfg obtain c0 o3 where "build_tls_server_config E (tls_cert_path tls) (tls_key_path tls) o3 = Inr c0"
    "sv_certificates cfg = sv_certificates c0"
    by (cases "build_tls_config_plain E tls (ac_addresses c) o1")
      (auto simp: build_tls_config_for_https_def build_tls_config_plain_def)
  from build_tls_loaded [OF this(1)] this(2) t show ?thesis by (auto simp: start_admin_servers_def)
qed

section \<open>Instances\<close>

text \<open>A system on which every call succeeds, except those to the certificate authority, which cannot be reached.\<close>

definition willing_listen :: "process listen_env" where
  "willing_listen =
     \<lparr>le_socket = (\<lambda>c p. (Inr (), p)), le_exists = (\<lambda>path p. True), le_parent = (\<lambda>path. None),
      le_create_dir_all = (\<lambda>path p. (Inr (), p)), le_write = (\<lambda>path content p. (Inr (), p)), le_read = (\<lambda>path p. Inr path),
      le_generate_key = (\<lambda>p. (Inr ''key'', p)), le_self_signed = (\<lambda>sans key. Inr ''cert''), le_certs = (\<lambda>text. Inr [text]),
      le_private_key = (\<lambda>text. Inr (Some text)), le_protocol_versions = Inr (), le_single_cert = (\<lambda>chain key. Inr ()),
      le_hostname = None, le_ifaddrs = None, le_lowercase = to_ascii_lowercase, le_is_ia5 = (\<lambda>name. True),
      le_register = (\<lambda>proto addr p. (Inr (), p))\<rparr>"

definition unreachable_acme :: "process acme_env" where
  "unreachable_acme =
     \<lparr>ae_send = (\<lambda>req p. (Inl ''unreachable'', p)), ae_list_response = (\<lambda>body. Inl []), ae_record_response = (\<lambda>body. Inl []),
      ae_base_errors = (\<lambda>body. Inl []), ae_var = (\<lambda>v. None), ae_build_client = None, ae_exists = (\<lambda>path p. False),
      ae_read = (\<lambda>path p. Inl ''missing''), ae_parent = (\<lambda>path. None), ae_create_dir_all = (\<lambda>path p. (Inr (), p)),
      ae_write = (\<lambda>path content p. (Inr (), p)), ae_parse_credentials = Inr, ae_show_credentials = Inr,
      ae_from_credentials = (\<lambda>c p. (Inl ''unreachable'', p)), ae_create_account = (\<lambda>contact url p. (Inl ''unreachable'', p)),
      ae_new_order = (\<lambda>account domains p. (Inl ''unreachable'', p)), ae_authorization = (\<lambda>url p. (Inl ''unreachable'', p)),
      ae_set_ready = (\<lambda>url p. (Inl ''unreachable'', p)), ae_poll_ready = (\<lambda>order p. (Inl ''unreachable'', p)),
      ae_finalize = (\<lambda>order p. (Inl ''unreachable'', p)), ae_poll_certificate = (\<lambda>order p. (Inl ''unreachable'', p)),
      ae_certs = (\<lambda>text. Inl ''no PEM''), ae_private_key = (\<lambda>text. Inl ''no PEM''), ae_signing_key = Inr\<rparr>"

definition served_acme :: acme_config where
  "served_acme =
     \<lparr>acm_enabled = True, acm_directory_url = ''https://ca.example'', acm_domains = [''example.org''], acm_email = ''a@example.org'',
      acm_cert_path = ''acme/cert.pem'', acm_key_path = ''acme/key.pem'', acm_account_credentials_path = ''acme/account.json'',
      acm_renew_before_expiry = ''30d'', acm_dns_provider = \<lparr>dp_provider_type = ''cloudflare'', dp_api_token = ''t'', dp_zone_id = None\<rparr>\<rparr>"

definition willing_control :: "process control_os" where
  "willing_control =
     \<lparr>ko_parent = (\<lambda>path. None), ko_create_dir_all = (\<lambda>path p. (Inr (), p)), ko_exists = (\<lambda>path p. False),
      ko_connect = (\<lambda>path p. (Inl ''refused'', p)), ko_remove_file = (\<lambda>path p. (Inr (), p)), ko_bind = (\<lambda>path p. (Inr (), p)),
      ko_set_permissions = (\<lambda>path mode p. (Inr (), p))\<rparr>"

definition example_startup :: "(connect_target, nat, nat, nat, process) startup_env" where
  "example_startup =
     \<lparr>se_daemon = example_daemon_env,
      se_world = transport_world,
      se_extra = (\<lambda>_. \<lparr>xc_logging = \<lparr>lg_syslog = None, lg_file = None, lg_stdout = None\<rparr>, xc_api = None, xc_mcp = None,
        xc_acme = Some served_acme\<rparr>),
      se_open_log = (\<lambda>path p. (Inr (), p)), se_priv = obedient_os, se_connect = (\<lambda>url p. (Inr 0, p)),
      se_migrate = (\<lambda>pool p. (Inr (initial_database example_uuid, 0), p)), se_listen = willing_listen, se_acme = unreachable_acme,
      se_temp_key = (\<lambda>p. (Inr ''key'', p)), se_temp_cert = (\<lambda>key. Inr [1]), se_control = willing_control,
      se_shutdown_signals = (\<lambda>p. (Inr (), p)), se_sighup = (\<lambda>p. (Inr (), p)), se_prometheus = (\<lambda>p. (Inr (), p)), se_now = (\<lambda>p. 0)\<rparr>"

definition first_process :: process where
  "first_process = root_process\<lparr>ps_permitted := {OtherCap 0}, ps_effective := {OtherCap 0}\<rparr>"

lemma example_config_loaded:
  "load_config example_daemon_env path = Inr example_config"
  by (simp add: load_config_def load_config_from_str_def example_daemon_env_def example_env_def)

lemma example_config_listen:
  "ln_dns (cfg_listen example_config) = Some \<lparr>so_enabled = True, so_addresses = [''127.0.0.1''], so_port = 53\<rparr>"
  "ln_dot (cfg_listen example_config) = Some \<lparr>ts_enabled = True, ts_addresses = [''::''], ts_port = 853,
     ts_tls = \<lparr>tls_cert_path = ''tls/cert.pem'', tls_key_path = ''tls/key.pem'', tls_autogenerate = None\<rparr>\<rparr>"
  "ln_doh (cfg_listen example_config) = None" "ln_doq (cfg_listen example_config) = None"
  "cfg_security example_config = None" "cfg_control example_config = None" "cfg_database example_config = None"
  by (simp_all add: example_config_def empty_config_def)

lemma example_config_valid: "validate_config example_config = Inr example_config"
proof -
  have same: "cfg_security empty_config = None" "cfg_control empty_config = None" "cfg_database empty_config = None"
    by (simp_all add: empty_config_def)
  have "effective_chroot_dir example_config = effective_chroot_dir empty_config"
    by (simp add: effective_chroot_dir_def example_config_listen same)
  moreover have "validate_sqlite_path example_config default_chroot_dir = validate_sqlite_path empty_config default_chroot_dir"
    by (simp add: validate_sqlite_path_def example_config_listen same)
  moreover have "validate_control_socket_path example_config default_chroot_dir = validate_control_socket_path empty_config default_chroot_dir"
    by (simp add: validate_control_socket_path_def socket_path_def example_config_listen same)
  moreover have "validate_listener_tls_paths example_config default_chroot_dir = Inr ()"
    by (simp add: validate_listener_tls_paths_iff example_config_listen listener_tls_paths_def default_dir_paths)
  ultimately show ?thesis by (simp add: validate_config_def empty_config_paths)
qed

lemma obedient_os_user:
  "po_user obedient_os ''nobody'' p = Inr (Some 65534)" "po_group obedient_os ''nogroup'' p = Inr (Some 65534)"
  by (simp_all add: obedient_os_def)

lemma example_drop:
  "drop_privileges obedient_os (drop_config example_config) first_process =
     (Inr (), first_process\<lparr>ps_uid := 65534, ps_gid := 65534, ps_groups := [65534], ps_root := default_chroot_dir, ps_cwd := ''/'',
        ps_keepcaps := False, ps_permitted := retained_caps, ps_effective := retained_caps\<rparr>)"
proof -
  have "cfg_security example_config = None" by (simp add: example_config_def empty_config_def)
  then have c: "drop_config example_config = \<lparr>pd_user = ''nobody'', pd_group = ''nogroup'', pd_chroot_dir = Some default_chroot_dir\<rparr>"
    by (simp add: drop_config_def config_chroot_dir_def default_user_def default_group_def)
  have "po_uid obedient_os first_process = 0" by (simp add: obedient_os_def first_process_def root_process_def)
  then show ?thesis unfolding drop_privileges_def c
    by (simp add: obedient_os_user look_up_def obedient_calls drop_calls_effect verify_privilege_drop_def)
      (simp add: obedient_os_def)
qed

declare parse_bind_addrs.simps [simp del]

lemma willing_socket:
  "run_socket willing_listen cs p = (Inr (), p)" "le_protocol_versions willing_listen = Inr ()"
  "le_register willing_listen proto addr p = (Inr (), p)"
  by (induction cs) (simp_all add: willing_listen_def)

lemma example_encrypted:
  "start_encrypted_listeners willing_listen True True default_chroot_dir (cfg_listen example_config) server p =
     (Inr (server @ [TlsListener (SocketV6 0 853 0) \<lparr>sv_certificates = None, sv_alpn = [''dot'']\<rparr>]), p)"
  by (simp add: start_encrypted_listeners_def start_encrypted_def example_config_listen example_addrs then_do_def listener_tls_def
      build_tls_config_with_resolver_alpn_def build_tls_server_config_with_resolver_def willing_socket)

lemma example_dns:
  "start_dns willing_listen (ln_dns (cfg_listen example_config)) p =
     (Inr [UdpListener (SocketV4 0x7F000001 53), TcpListener (SocketV4 0x7F000001 53)], p)"
  by (simp add: start_dns_def example_config_listen example_addrs then_do_def willing_socket)

lemma example_startup_parts:
  "se_daemon example_startup = example_daemon_env" "se_world example_startup = transport_world" "se_priv example_startup = obedient_os"
  "se_listen example_startup = willing_listen" "se_acme example_startup = unreachable_acme" "se_control example_startup = willing_control"
  "se_extra example_startup yaml = \<lparr>xc_logging = \<lparr>lg_syslog = None, lg_file = None, lg_stdout = None\<rparr>, xc_api = None, xc_mcp = None,
     xc_acme = Some served_acme\<rparr>"
  "se_now example_startup p = 0" "se_open_log example_startup path p = (Inr (), p)"
  by (simp_all add: example_startup_def)

definition served_acme_inside :: acme_config where
  "served_acme_inside = served_acme\<lparr>acm_cert_path := ''/acme/cert.pem'', acm_key_path := ''/acme/key.pem'',
     acm_account_credentials_path := ''/acme/account.json''\<rparr>"

lemma example_acme_config: "runtime_acme_config True default_chroot_dir served_acme = Inr served_acme_inside"
  by (simp add: runtime_acme_config_def acme_path_def runtime_path_def served_acme_def served_acme_inside_def default_dir_paths)

lemma example_acme_key: "initial_key example_startup c p = (Inr \<lparr>ck_chain = [[1]], ck_signing_key = ''key''\<rparr>, p)"
  by (simp add: initial_key_def generate_temp_certified_key_def then_do_def example_startup_def unreachable_acme_def)

lemma example_acme_manager:
  "manager_new unreachable_acme served_acme_inside =
     Inr \<lparr>mg_config = served_acme_inside, mg_provider = \<lparr>cp_api_token = ''t'', cp_zone_id = None\<rparr>\<rparr>"
  by (simp add: manager_new_def cloudflare_new_def served_acme_inside_def served_acme_def unreachable_acme_def Let_def expand_plain)

lemma example_acme_fails:
  "am_world (snd (obtain_or_load_certificate unreachable_acme m st)) = am_world st"
  by (simp add: obtain_or_load_certificate_def run_acme_flow_def open_order_def get_or_create_account_def am_bind_def
      external_def unreachable_acme_def Let_def)

lemma example_setup_acme:
  "\<exists>m st. setup_acme example_startup True default_chroot_dir (Some served_acme) p = (Inr (Some (m, st)), p)"
proof -
  have "acm_enabled served_acme" by (simp add: served_acme_def)
  then show ?thesis
    using example_acme_fails
    by (simp add: setup_acme_def then_do_def example_acme_config example_acme_key example_acme_manager example_startup_parts
        split: prod.split) (metis snd_conv acme_state.select_convs(1))
qed

lemma example_servers:
  "\<exists>q. start_servers example_startup example_config (se_extra example_startup yaml) True default_chroot_dir sinks d p = (Inr q, p)"
proof -
  obtain m st where acme: "setup_acme example_startup True default_chroot_dir (Some served_acme) p = (Inr (Some (m, st)), p)"
    using example_setup_acme by blast
  have path: "runtime_path True (socket_path example_config) default_chroot_dir = Inr ''/run/dns-filter.sock''"
    by (simp add: runtime_path_def socket_path_def example_config_listen default_dir_paths)
  have "bind_socket willing_control path p = (Inr path, p)" for path
    by (simp add: bind_socket_def bind_and_restrict_def os_step_def willing_control_def)
  moreover have "ln_admin (cfg_listen example_config) = None" "ln_metrics (cfg_listen example_config) = None"
    by (simp_all add: example_config_def empty_config_def)
  ultimately show ?thesis
    by (simp add: start_servers_def start_management_def then_do_def example_startup_parts example_dns example_encrypted acme path
        spawn_api_server_def spawn_admin_server_def spawn_metrics_servers_def) (simp add: example_startup_def)
qed

lemma example_starts:
  obtains p os' where "run_daemon example_startup [] False first_process = (Inr p, os')"
proof -
  obtain d where "example_daemon = Inr d" by (rule example_running)
  then have d: "start_daemon example_daemon_env [] (initial_database example_uuid) 0 0 transport_world = Inr d"
    by (simp add: example_daemon_def)
  have url: "sqlite_url_for_chroot_runtime (config_database_url example_config) default_chroot_dir = Inr ''sqlite:///db/dns-filter.db''"
    by (simp add: config_database_url_def example_config_listen default_dir_paths)
  have pool: "init_pool example_startup u p = (Inr (initial_database example_uuid, 0), p)" for u p
    by (simp add: init_pool_def then_do_def example_startup_def willing_listen_def split: option.split)
  have dir: "config_chroot_dir example_config = default_chroot_dir"
    by (simp add: config_chroot_dir_def example_config_def empty_config_def)
  have "\<exists>q. run_confined example_startup example_config [] True sinks p = (Inr q, p)" for sinks p
    using example_servers d
    by (simp add: run_confined_def Let_def then_do_def url pool dir example_startup_parts)
  moreover have "po_uid obedient_os first_process = 0" by (simp add: obedient_os_def first_process_def root_process_def)
  moreover have "be_read_file (de_boot example_daemon_env) [] = Inr []" by (simp add: example_daemon_env_def example_env_def)
  ultimately have "\<exists>p os'. run_daemon example_startup [] False first_process = (Inr p, os')"
    by (simp add: run_daemon_def then_do_def example_startup_parts example_config_loaded example_config_valid init_logging_def
        enabled_opt_def example_drop Let_def) metis
  then show ?thesis using that by blast
qed


theorem listeners_registered_witness:
  "\<exists>p os' c. run_daemon example_startup [] False first_process = (Inr p, os') \<and>
     {UdpListener (SocketV4 0x7F000001 53), TlsListener (SocketV6 0 853 0) c} \<subseteq> set (rp_listeners p)"
proof -
  obtain p os' where run: "run_daemon example_startup [] False first_process = (Inr p, os')" by (rule example_starts)
  from listeners_registered [OF run] obtain config wc cfg addrs part doh doq where
    c: "load_config (se_daemon example_startup) [] = Inr config" "ln_dns (cfg_listen config) = Some cfg"
      "parse_bind_addrs (so_addresses cfg) (so_port cfg) = Inr addrs"
    and l: "rp_listeners p = concat (map (\<lambda>a. [UdpListener a, TcpListener a]) addrs) @ part @ doh @ doq"
    and parts: "\<forall>proto q listener. (proto, q, listener) \<in> {(Dot, part, ln_dot), (Doh, doh, ln_doh), (Doq, doq, ln_doq)} \<longrightarrow>
       encrypted_part (se_listen example_startup) (rp_acme p \<noteq> None) wc (config_chroot_dir config) proto (listener (cfg_listen config)) q"
    by (elim exE conjE)
  have part: "encrypted_part (se_listen example_startup) (rp_acme p \<noteq> None) wc (config_chroot_dir config) Dot
      (ln_dot (cfg_listen config)) part"
    by (rule parts [rule_format]) simp
  have config: "config = example_config" using c(1) by (simp add: example_startup_parts example_config_loaded)
  have addrs: "addrs = [SocketV4 0x7F000001 53]" using c(2,3) unfolding config by (auto simp: example_config_listen example_addrs)
  obtain c where "TlsListener (SocketV6 0 853 0) c \<in> set part"
    using part unfolding config by (auto simp: encrypted_part_def example_config_listen example_addrs)
  then show ?thesis using run l addrs by auto
qed

theorem acme_failure_survived_witness:
  "\<exists>m st. setup_acme example_startup True default_chroot_dir (Some served_acme) first_process = (Inr (Some (m, st)), am_world st) \<and>
     am_resolver st = \<lparr>ck_chain = [[1]], ck_signing_key = ''key''\<rparr>"
proof -
  have e: "acm_enabled served_acme" by (simp add: served_acme_def)
  have no_read: "ae_read unreachable_acme path p = Inl ''missing''" for path p by (simp add: unreachable_acme_def)
  note m = example_acme_manager [folded example_startup_parts(5)]
  from acme_failure_survived [OF e example_acme_config example_acme_key m, of first_process] obtain m st where
    s: "setup_acme example_startup True default_chroot_dir (Some served_acme) first_process = (Inr (Some (m, st)), am_world st)"
    and k: "am_resolver st = \<lparr>ck_chain = [[1]], ck_signing_key = ''key''\<rparr> \<or> installed unreachable_acme served_acme_inside (am_calls st) (am_resolver st)"
    using no_read by (auto simp: example_startup_parts)
  moreover have "\<not> installed unreachable_acme c calls key" for c calls key
    by (simp add: installed_def load_certified_key_from_pem_def unreachable_acme_def)
  ultimately show ?thesis by blast
qed

section \<open>Where the start goes wrong\<close>

text \<open>
  An IPv6 address of the API is refused, because it is joined to the port without brackets; the process then ends after
  the DNS listeners were bound. The same address is accepted for every other listener.
\<close>

theorem api_ipv6_rejected:
  "spawn_api_server E (Some \<lparr>api_enabled = True, api_address = ''::1'', api_port = 8080, api_token = None,
      api_query_logging = None, api_tls = None\<rparr>) os = (Inl (ServerAddress ''API'' ''::1:8080''), os) \<and>
   parse_bind_addrs [''::1''] 8080 = Inr [SocketV6 1 8080 0]"
  by (simp add: spawn_api_server_def then_do_def Let_def example_addrs(4,6) example_addrs(5) [simplified])

text \<open>
  The certificate of a management server is looked up at the path of the configuration, which in the chroot directory
  names another file than before: an encrypted DNS listener with the same setting resolves it first.
\<close>

theorem metrics_tls_unresolved:
  assumes "le_read E ''/var/lib/dns-filter/tls/cert.pem'' os = Inl e"
  shows "runtime_path True ''/var/lib/dns-filter/tls/cert.pem'' default_chroot_dir = Inr ''/tls/cert.pem'' \<and>
    spawn_metrics_servers E (Some \<lparr>mc_enabled = True, mc_addresses = [''127.0.0.1''], mc_port = 9100,
      mc_tls = Some \<lparr>tls_cert_path = ''/var/lib/dns-filter/tls/cert.pem'', tls_key_path = ''/var/lib/dns-filter/tls/key.pem'',
        tls_autogenerate = None\<rparr>\<rparr>) os = (Inl (ServerTls ''metrics'' (TlsCertLoad e)), os)"
  using assms
  by (simp add: spawn_metrics_servers_def optional_tls_def build_tls_config_plain_def build_tls_server_config_def then_do_def
      runtime_path_def default_dir_paths example_addrs)

end
