(* ===== verification/ConfigMerger.thy ===== *)
theory ConfigMerger
  imports RustStd
begin

text \<open>
  The merge of a configuration file with the shipped example (\<open>src/frameworks/config/merger.rs\<close>): the deep merge of
  two YAML documents, in which the user's document wins, and the normalisation of the legacy key \<open>address\<close>.

  A mapping is an association list; its order, which the code does not rely on, is that of the library. Reading and
  writing YAML text are arguments.
\<close>

subsection \<open>Documents\<close>

datatype yaml =
    YNull
  | YBool bool
  | YNumber string
  | YString string
  | YSeq "yaml list"
  | YMap "(yaml \<times> yaml) list"
  | YTagged string yaml

function (sequential) deep_merge :: "yaml \<Rightarrow> yaml \<Rightarrow> yaml"
  and merge_entries :: "(yaml \<times> yaml) list \<Rightarrow> (yaml \<times> yaml) list \<Rightarrow> (yaml \<times> yaml) list" where
  "deep_merge (YMap base_map) (YMap overlay_map) = YMap (merge_entries base_map overlay_map)"
| "deep_merge base overlay = overlay"
| "merge_entries base_map [] = base_map"
| "merge_entries base_map ((key, overlay_val) # rest) =
     (let merged = (case map_of base_map key of
          Some base_val \<Rightarrow> deep_merge base_val overlay_val
        | None \<Rightarrow> overlay_val)
      in merge_entries (hm_insert key merged (hm_remove key base_map)) rest)"
  by pat_completeness auto
termination
  by (relation "measure (\<lambda>x. case x of Inl (b, ov) \<Rightarrow> size ov | Inr (b, es) \<Rightarrow> size_list (size_prod size size) es)") auto

text \<open>A change of the mapping that a value holds, \<open>Value::as_mapping_mut\<close>, which looks through tags.\<close>

fun with_mapping :: "((yaml \<times> yaml) list \<Rightarrow> (yaml \<times> yaml) list) \<Rightarrow> yaml \<Rightarrow> yaml" where
  "with_mapping f (YMap m) = YMap (f m)"
| "with_mapping f (YTagged t v) = YTagged t (with_mapping f v)"
| "with_mapping f v = v"

definition address_key :: yaml where "address_key = YString ''address''"
definition addresses_key :: yaml where "addresses_key = YString ''addresses''"
definition listen_key :: yaml where "listen_key = YString ''listen''"

fun address_list :: "yaml \<Rightarrow> yaml" where
  "address_list (YSeq vs) = YSeq vs"
| "address_list other = YSeq [other]"

definition normalize_section :: "(yaml \<times> yaml) list \<Rightarrow> (yaml \<times> yaml) list" where
  "normalize_section section =
     (case (map_of section address_key, map_of section addresses_key) of
        (Some _, Some _) \<Rightarrow> hm_remove address_key section
      | (Some addr_val, None) \<Rightarrow> hm_insert addresses_key (address_list addr_val) (hm_remove address_key section)
      | _ \<Rightarrow> section)"

text \<open>Every section under \<open>listen\<close> is normalised in place.\<close>

definition normalize_listen_addresses :: "yaml \<Rightarrow> yaml" where
  "normalize_listen_addresses =
     with_mapping (map (\<lambda>(k, v).
       if k = listen_key then (k, with_mapping (map (apsnd (with_mapping normalize_section))) v) else (k, v)))"

datatype merge_error = ExampleInvalid string | UserInvalid string | WriteFailed string

definition merge_with_example ::
  "(string \<Rightarrow> string + yaml) \<Rightarrow> (yaml \<Rightarrow> string + string) \<Rightarrow> string \<Rightarrow> string \<Rightarrow> merge_error + string" where
  "merge_with_example from_str to_string example user_config =
     res_bind (map_err ExampleInvalid (from_str example)) (\<lambda>base.
     res_bind (map_err UserInvalid (from_str user_config)) (\<lambda>overlay.
     map_err WriteFailed (to_string (deep_merge (normalize_listen_addresses base) (normalize_listen_addresses overlay)))))"

subsection \<open>What a merge contains\<close>

text \<open>The value at a path of keys, and the documents that say nothing about a path.\<close>

fun ylookup :: "yaml \<Rightarrow> yaml list \<Rightarrow> yaml option" where
  "ylookup v [] = Some v"
| "ylookup (YMap m) (k # ks) = Option.bind (map_of m k) (\<lambda>v. ylookup v ks)"
| "ylookup _ (k # ks) = None"

fun silent :: "yaml \<Rightarrow> yaml list \<Rightarrow> bool" where
  "silent (YMap m) (k # ks) = (case map_of m k of None \<Rightarrow> True | Some v \<Rightarrow> silent v ks)"
| "silent _ _ = False"

fun is_mapping :: "yaml \<Rightarrow> bool" where
  "is_mapping (YMap _) = True"
| "is_mapping _ = False"

text \<open>Every mapping of a document has each key once.\<close>

fun yaml_ok :: "yaml \<Rightarrow> bool" where
  "yaml_ok (YMap m) \<longleftrightarrow> distinct (map fst m) \<and> (\<forall>p\<in>set m. yaml_ok (snd p))"
| "yaml_ok (YTagged _ v) \<longleftrightarrow> yaml_ok v"
| "yaml_ok _ \<longleftrightarrow> True"

lemma merge_entries_lookup:
  "distinct (map fst os) \<Longrightarrow> map_of (merge_entries b os) k =
     (case map_of os k of
        None \<Rightarrow> map_of b k
      | Some v \<Rightarrow> Some (case map_of b k of None \<Rightarrow> v | Some bv \<Rightarrow> deep_merge bv v))"
proof (induction os arbitrary: b)
  case (Cons p os)
  obtain k' v where p: "p = (k', v)" by fastforce
  then have "map_of os k' = None" using Cons.prems by (auto simp: map_of_eq_None_iff)
  then show ?case using Cons p
    by (auto simp: Let_def map_of_hm_remove split: option.splits)
qed simp

lemma deep_merge_over_leaf: "\<not> is_mapping b \<or> \<not> is_mapping v \<Longrightarrow> deep_merge b v = v"
  by (cases b; cases v) auto

lemma yaml_ok_entry: "yaml_ok (YMap m) \<Longrightarrow> map_of m k = Some v \<Longrightarrow> yaml_ok v"
  by (auto dest!: map_of_SomeD)

lemma ylookup_Cons_Some:
  "ylookup v (k # ks) = Some w \<longleftrightarrow> (\<exists>m u. v = YMap m \<and> map_of m k = Some u \<and> ylookup u ks = Some w)"
  by (cases v) (auto simp: bind_eq_Some_conv)

text \<open>A merged document holds a plain value at a path exactly if the user's does, or is silent and the base does.\<close>

lemma deep_merge_lookup:
  assumes "yaml_ok ov" and "\<not> is_mapping v"
  shows "ylookup (deep_merge b ov) p = Some v \<longleftrightarrow>
    ylookup ov p = Some v \<or> silent ov p \<and> ylookup b p = Some v"
  using assms(1)
proof (induction p arbitrary: b ov)
  case Nil
  then show ?case using assms(2) by (cases b; cases ov) auto
next
  case (Cons k ks)
  show ?case
  proof (cases "is_mapping b \<and> is_mapping ov")
    case True
    then obtain bm om where m: "b = YMap bm" "ov = YMap om" by (cases b; cases ov) auto
    then have d: "distinct (map fst om)" using Cons.prems by simp
    show ?thesis
    proof (cases "map_of om k")
      case (Some v')
      then show ?thesis using m Cons.IH [OF yaml_ok_entry [OF Cons.prems [unfolded m] Some]]
        by (cases "map_of bm k") (auto simp: merge_entries_lookup [OF d])
    qed (simp add: m merge_entries_lookup [OF d])
  next
    case False
    then show ?thesis by (cases ov; cases b) (auto split: option.splits)
  qed
qed

lemma deep_merge_present:
  "yaml_ok ov \<Longrightarrow> ylookup (deep_merge b ov) p = Some v \<Longrightarrow> ylookup ov p \<noteq> None \<or> ylookup b p \<noteq> None"
proof (induction p arbitrary: b ov)
  case (Cons k ks)
  show ?case
  proof (cases "is_mapping b \<and> is_mapping ov")
    case True
    then obtain bm om where m: "b = YMap bm" "ov = YMap om" by (cases b; cases ov) auto
    then have d: "distinct (map fst om)" using Cons.prems by simp
    show ?thesis
    proof (cases "map_of om k")
      case None
      then show ?thesis using m Cons.prems(2) by (simp add: merge_entries_lookup [OF d])
    next
      case (Some v')
      then show ?thesis using m Cons.prems(2) Cons.IH [OF yaml_ok_entry [OF Cons.prems(1) [unfolded m] Some]]
        by (cases "map_of bm k") (auto simp: merge_entries_lookup [OF d])
    qed
  qed (use Cons.prems in \<open>auto simp: deep_merge_over_leaf\<close>)
qed simp

subsection \<open>Normalised listeners\<close>

lemma map_of_at_key:
  "map_of (map (\<lambda>(k, v). if k = x then (k, g v) else (k, v)) m) k = (if k = x then map_option g else id) (map_of m k)"
  by (induction m) auto

lemma map_of_apsnd: "map_of (map (apsnd f) m) k = map_option f (map_of m k)"
  by (induction m) auto

lemma section_lookup:
  "map_of (normalize_section section) address_key = None"
  "map_of (normalize_section section) addresses_key =
     (case map_of section addresses_key of
        Some v \<Rightarrow> Some v
      | None \<Rightarrow> map_option address_list (map_of section address_key))"
  "k \<noteq> address_key \<Longrightarrow> k \<noteq> addresses_key \<Longrightarrow> map_of (normalize_section section) k = map_of section k"
proof -
  have "address_key \<noteq> addresses_key" by (simp add: address_key_def addresses_key_def)
  then show "map_of (normalize_section section) address_key = None"
    "map_of (normalize_section section) addresses_key =
       (case map_of section addresses_key of
          Some v \<Rightarrow> Some v
        | None \<Rightarrow> map_option address_list (map_of section address_key))"
    "k \<noteq> address_key \<Longrightarrow> k \<noteq> addresses_key \<Longrightarrow> map_of (normalize_section section) k = map_of section k"
    by (auto simp: normalize_section_def map_of_hm_remove split: option.splits)
qed

lemma normalize_lookup_section:
  "ylookup (normalize_listen_addresses d) (listen_key # k # ks) =
     (case ylookup d [listen_key, k] of None \<Rightarrow> None | Some sec \<Rightarrow> ylookup (with_mapping normalize_section sec) ks)"
proof (cases d)
  case (YMap root)
  show ?thesis
  proof (cases "map_of root listen_key")
    case (Some v)
    then show ?thesis using YMap
      by (cases v) (auto simp: normalize_listen_addresses_def map_of_at_key map_of_apsnd split: option.splits)
  qed (simp add: YMap normalize_listen_addresses_def map_of_at_key)
qed (simp_all add: normalize_listen_addresses_def)

lemma normalize_lookup_outside:
  assumes "k \<noteq> listen_key"
  shows "ylookup (normalize_listen_addresses d) (k # ks) = ylookup d (k # ks)"
    and "silent (normalize_listen_addresses d) (k # ks) = silent d (k # ks)"
  using assms by (cases d; simp add: normalize_listen_addresses_def map_of_at_key)+

lemma with_mapping_ok:
  assumes "\<And>m. yaml_ok (YMap m) \<Longrightarrow> yaml_ok (YMap (f m))" and "yaml_ok v"
  shows "yaml_ok (with_mapping f v)"
  using assms(2) by (induction v) (use assms(1) in auto)

lemma map_values_ok:
  assumes "\<And>v. yaml_ok v \<Longrightarrow> yaml_ok (g v)" and "yaml_ok (YMap m)"
  shows "yaml_ok (YMap (map (\<lambda>(k, v). (k, if P k then g v else v)) m))"
  using assms by (auto simp: comp_def split_beta)

lemma normalize_section_ok: "yaml_ok (YMap m) \<Longrightarrow> yaml_ok (YMap (normalize_section m))"
proof -
  assume ok: "yaml_ok (YMap m)"
  have list: "yaml_ok v \<Longrightarrow> yaml_ok (address_list v)" for v by (cases v) auto
  have "yaml_ok (YMap (hm_remove address_key m))" using ok by (auto simp: hm_remove_def distinct_map_filter)
  moreover have "yaml_ok (YMap (hm_insert addresses_key (address_list v) (hm_remove address_key m)))"
    if "map_of m address_key = Some v" for v
    using ok list yaml_ok_entry [OF ok that]
    by (auto simp: hm_remove_def distinct_map_filter set_hm_insert)
  ultimately show ?thesis using ok unfolding normalize_section_def by (auto split: option.splits)
qed

lemma normalize_ok: "yaml_ok d \<Longrightarrow> yaml_ok (normalize_listen_addresses d)"
proof -
  assume "yaml_ok d"
  have sections: "yaml_ok (YMap (map (apsnd (with_mapping normalize_section)) m))" if "yaml_ok (YMap m)" for m
    using map_values_ok [of "with_mapping normalize_section" m "\<lambda>_. True"] that with_mapping_ok normalize_section_ok
    by (simp add: apsnd_def map_prod_def)
  have "yaml_ok (YMap (map (\<lambda>(k, v).
      if k = listen_key then (k, with_mapping (map (apsnd (with_mapping normalize_section))) v) else (k, v)) m))"
    if "yaml_ok (YMap m)" for m
    using map_values_ok [of "with_mapping (map (apsnd (with_mapping normalize_section)))" m "\<lambda>k. k = listen_key"] that
      with_mapping_ok sections by (simp add: if_distrib cong: if_cong)
  then show ?thesis unfolding normalize_listen_addresses_def using \<open>yaml_ok d\<close> by (rule with_mapping_ok)
qed

subsection \<open>Properties\<close>

text \<open>
  C21. What the merge of a configuration with the example contains: at every path it holds a plain value exactly if the
  user's document does, or says nothing about the path and the example does; the legacy key \<open>address\<close> is gone from
  every listener; and a listener for which the user gives only the legacy key listens on that address alone, whatever
  addresses the example has. (Documents are compared after the normalisation, which changes nothing outside
  \<open>listen\<close>.)
\<close>

theorem user_config_wins:
  assumes "from_str example = Inr base" and "from_str user = Inr ov" and "yaml_ok ov"
    and "merge_with_example from_str to_str example user = Inr text"
  shows "\<exists>m. to_str m = Inr text \<and>
    (\<forall>p v. \<not> is_mapping v \<longrightarrow>
      (ylookup m p = Some v \<longleftrightarrow> ylookup (normalize_listen_addresses ov) p = Some v \<or>
         silent (normalize_listen_addresses ov) p \<and> ylookup (normalize_listen_addresses base) p = Some v)) \<and>
    (\<forall>k ks. k \<noteq> listen_key \<longrightarrow> ylookup (normalize_listen_addresses ov) (k # ks) = ylookup ov (k # ks)) \<and>
    (\<forall>k. ylookup m [listen_key, k, address_key] = None) \<and>
    (\<forall>k a. ylookup ov [listen_key, k, address_key] = Some (YString a) \<and>
        ylookup ov [listen_key, k, addresses_key] = None \<longrightarrow>
      ylookup m [listen_key, k, addresses_key] = Some (YSeq [YString a]))"
proof -
  let ?b = "normalize_listen_addresses base" and ?o = "normalize_listen_addresses ov"
  let ?m = "deep_merge ?b ?o"
  have written: "to_str ?m = Inr text" using assms by (cases "to_str ?m") (simp_all add: merge_with_example_def)
  have ok: "yaml_ok ?o" using assms(3) by (rule normalize_ok)
  note plain = deep_merge_lookup [OF ok]
  have gone: "ylookup (normalize_listen_addresses d) [listen_key, k, address_key] = None" for d k
  proof (cases "ylookup d [listen_key, k]")
    case (Some sec)
    then show ?thesis by (cases sec) (simp_all add: normalize_lookup_section section_lookup)
  qed (simp add: normalize_lookup_section)
  have "ylookup ?m [listen_key, k, address_key] = None" for k
    using deep_merge_present [OF ok, of ?b "[listen_key, k, address_key]"] gone by (meson not_None_eq)
  moreover have "ylookup ?m [listen_key, k, addresses_key] = Some (YSeq [YString a])"
    if user: "ylookup ov [listen_key, k, address_key] = Some (YString a)" "ylookup ov [listen_key, k, addresses_key] = None"
    for k a
  proof -
    obtain sec where sec: "ylookup ov [listen_key, k] = Some (YMap sec)" "map_of sec address_key = Some (YString a)"
      "map_of sec addresses_key = None"
      using user by (auto simp: ylookup_Cons_Some)
    then have "ylookup ?o [listen_key, k, addresses_key] = Some (YSeq [YString a])"
      by (simp add: normalize_lookup_section section_lookup)
    then show ?thesis by (simp add: plain)
  qed
  ultimately show ?thesis using written plain normalize_lookup_outside(1) by (intro exI [of _ ?m]) simp
qed

text \<open>A listener for which the user gives the legacy key, and an example that has another address and a port.\<close>

definition user_document :: yaml where
  "user_document = YMap [(listen_key, YMap [(YString ''dns'', YMap [(address_key, YString ''10.0.0.1'')])])]"

definition example_document :: yaml where
  "example_document = YMap [(listen_key, YMap [(YString ''dns'',
     YMap [(addresses_key, YSeq [YString ''::'']), (YString ''port'', YNumber ''53'')])])]"

definition two_documents :: "string \<Rightarrow> string + yaml" where
  "two_documents s = Inr (if s = ''user'' then user_document else example_document)"

theorem user_config_wins_witness:
  "\<exists>m. ylookup m [listen_key, YString ''dns'', addresses_key] = Some (YSeq [YString ''10.0.0.1'']) \<and>
     ylookup m [listen_key, YString ''dns'', YString ''port''] = Some (YNumber ''53'')"
proof -
  let ?p = "[listen_key, YString ''dns'', YString ''port'']"
  have docs: "two_documents ''example'' = Inr example_document" "two_documents ''user'' = Inr user_document" "yaml_ok user_document"
    by (simp_all add: two_documents_def user_document_def)
  have "merge_with_example two_documents (\<lambda>_. Inr ''merged'') ''example'' ''user'' = Inr ''merged''"
    by (simp add: merge_with_example_def docs)
  from user_config_wins [OF docs this] obtain m where m:
    "\<And>p v. \<not> is_mapping v \<Longrightarrow> ylookup m p = Some v \<longleftrightarrow> ylookup (normalize_listen_addresses user_document) p = Some v \<or>
       silent (normalize_listen_addresses user_document) p \<and> ylookup (normalize_listen_addresses example_document) p = Some v"
    "\<And>k a. ylookup user_document [listen_key, k, address_key] = Some (YString a) \<Longrightarrow>
       ylookup user_document [listen_key, k, addresses_key] = None \<Longrightarrow>
       ylookup m [listen_key, k, addresses_key] = Some (YSeq [YString a])"
    by blast
  have "ylookup m [listen_key, YString ''dns'', addresses_key] = Some (YSeq [YString ''10.0.0.1''])"
    by (rule m(2)) (simp_all add: user_document_def address_key_def addresses_key_def)
  moreover have "silent (normalize_listen_addresses user_document) ?p"
    "ylookup (normalize_listen_addresses example_document) ?p = Some (YNumber ''53'')"
    by code_simp+
  ultimately show ?thesis using m(1) [of "YNumber ''53''" ?p] by auto
qed

end
