(* ===== verification/CommandLine.thy ===== *)
theory CommandLine
  imports Startup ConfigMerger
begin

text \<open>
  The command line (\<open>src/main.rs\<close>): the choice of the action, the commands that are sent to the running server over the
  control socket, the merge of a configuration file, and what the server reports of its status.

  The parser of arguments, the connection to a socket, the file system and the readers of JSON and YAML are the parameter
  \<open>cli_env\<close>; the data of a response is the text of its JSON value. An error ends the process with a non-zero status; \<open>exit_code\<close> says which.
\<close>

section \<open>Arguments\<close>

datatype cli_action =
    CliStart string bool bool
  | CliStop string "string option" bool
  | CliReload string "string option"
  | CliStatus string "string option"
  | CliMergeConfig string bool
  | CliVersion

datatype commands =
    StartCommand string bool bool
  | StopCommand string "string option" bool
  | ReloadCommand string "string option"
  | StatusCommand string "string option"
  | MergeConfigCommand string bool

record cli_args =
  ca_version :: bool
  ca_command :: "commands option"

definition parse_cli_args :: "(string list \<Rightarrow> string + cli_args) \<Rightarrow> string list \<Rightarrow> string + cli_action" where
  "parse_cli_args try_parse args =
     res_bind (try_parse args) (\<lambda>parsed.
     if ca_version parsed then Inr CliVersion
     else case ca_command parsed of
       Some (StartCommand config_path debug direct) \<Rightarrow> Inr (CliStart config_path debug direct)
     | Some (StopCommand config_path socket direct) \<Rightarrow> Inr (CliStop config_path socket direct)
     | Some (ReloadCommand config_path socket) \<Rightarrow> Inr (CliReload config_path socket)
     | Some (StatusCommand config_path socket) \<Rightarrow> Inr (CliStatus config_path socket)
     | Some (MergeConfigCommand config_path overwrite) \<Rightarrow> Inr (CliMergeConfig config_path overwrite)
     | None \<Rightarrow> Inl (''no subcommand provided. Usage: dns-filter <start|stop|reload|status|merge-config> [OPTIONS]''))"

section \<open>The status report\<close>

text \<open>JSON values, as \<open>serde_json\<close> has them; the sums of latencies are kept as text.\<close>

datatype json =
    JNull
  | JBool bool
  | JNumber nat
  | JFloat string
  | JString string
  | JArray "json list"
  | JObject "(string \<times> json) list"

definition list_info_json :: "list_info \<Rightarrow> json" where
  "list_info_json l =
     JObject
       [(''name'', JString (li_name l)), (''url'', JString (li_url l)), (''kind'', JString (li_kind l)),
        (''list_type'', JString (li_list_type l)), (''enabled'', JBool (li_enabled l)),
        (''interval_secs'', JNumber (unat (li_interval_secs l))), (''domain_count'', JNumber (li_domain_count l)),
        (''exception_count'', JNumber (li_exception_count l))]"

text \<open>The report of the server; how an upstream is printed is an argument. The lists are those of the first filter.\<close>

definition status_provider :: "(upstream_snapshot \<Rightarrow> json) \<Rightarrow> u64 \<Rightarrow> ('c, 'x, 'r) daemon \<Rightarrow> json" where
  "status_provider upstream_json now d =
     (let snapshot = take_snapshot (w_metrics (dm_world d)); start_time = so_start_time (dm_ops d) in
      JObject
        [(''uptime_seconds'', JNumber (unat now - unat start_time)),
         (''filtering_enabled'', JBool (so_filtering_enabled (dm_ops d))),
         (''queries_total'', JNumber (sn_queries_total snapshot)),
         (''queries_blocked'', JNumber (sn_queries_blocked snapshot)),
         (''queries_allowed'', JNumber (sn_queries_allowed snapshot)),
         (''queries_passthrough'', JNumber (sn_queries_passthrough snapshot)),
         (''blocklist_hits_total'', JNumber (sn_blocklist_hits_total snapshot)),
         (''cache_hits_total'', JNumber (sn_cache_hits_total snapshot)),
         (''cache_misses_total'', JNumber (sn_cache_misses_total snapshot)),
         (''upstreams'', JArray (map upstream_json (sn_upstreams snapshot))),
         (''lists'', JArray (map list_info_json (list_names (so_domain_filter (dm_ops d)))))])"

text \<open>What the client reads of it. Fields that are not named are ignored, as derived deserializers do.\<close>

record status_payload =
  sp_uptime_seconds :: nat
  sp_filtering_enabled :: bool
  sp_queries_total :: nat
  sp_queries_blocked :: nat
  sp_queries_allowed :: nat
  sp_queries_passthrough :: nat
  sp_lists :: "string list"

definition json_field :: "string \<Rightarrow> json \<Rightarrow> string + json" where
  "json_field key v =
     (case v of
        JObject fs \<Rightarrow> ok_or (''missing field '' @ key) (map_of fs key)
      | _ \<Rightarrow> Inl ''invalid type'')"

definition json_u64 :: "json \<Rightarrow> string + nat" where
  "json_u64 v = (case v of JNumber n \<Rightarrow> if n < 2 ^ 64 then Inr n else Inl ''invalid value'' | _ \<Rightarrow> Inl ''invalid type'')"

definition json_bool :: "json \<Rightarrow> string + bool" where
  "json_bool v = (case v of JBool b \<Rightarrow> Inr b | _ \<Rightarrow> Inl ''invalid type'')"

definition json_string :: "json \<Rightarrow> string + string" where
  "json_string v = (case v of JString s \<Rightarrow> Inr s | _ \<Rightarrow> Inl ''invalid type'')"

definition status_list_info :: "json \<Rightarrow> string + string" where
  "status_list_info v = res_bind (json_field ''name'' v) json_string"

definition status_payload_of :: "json \<Rightarrow> string + status_payload" where
  "status_payload_of v =
     res_bind (res_bind (json_field ''uptime_seconds'' v) json_u64) (\<lambda>uptime.
     res_bind (res_bind (json_field ''filtering_enabled'' v) json_bool) (\<lambda>enabled.
     res_bind (res_bind (json_field ''queries_total'' v) json_u64) (\<lambda>total.
     res_bind (res_bind (json_field ''queries_blocked'' v) json_u64) (\<lambda>blocked.
     res_bind (res_bind (json_field ''queries_allowed'' v) json_u64) (\<lambda>allowed.
     res_bind (res_bind (json_field ''queries_passthrough'' v) json_u64) (\<lambda>passthrough.
     res_bind (json_field ''lists'' v) (\<lambda>lists.
     case lists of
       JArray vs \<Rightarrow>
         res_bind (res_map_list status_list_info vs) (\<lambda>names.
         Inr \<lparr>sp_uptime_seconds = uptime, sp_filtering_enabled = enabled, sp_queries_total = total, sp_queries_blocked = blocked,
              sp_queries_allowed = allowed, sp_queries_passthrough = passthrough, sp_lists = names\<rparr>)
     | _ \<Rightarrow> Inl ''invalid type'')))))))"

section \<open>The commands\<close>

record ('c, 'x, 'k, 'r, 'o) cli_env =
  ce_daemon :: "('c, 'x, 'k, 'r) daemon_env"
  ce_try_parse :: "string list \<Rightarrow> string + cli_args"
  ce_exchange :: "string \<Rightarrow> string \<Rightarrow> 'o \<Rightarrow> (client_error + string) \<times> 'o"
  ce_parse_response :: "string \<Rightarrow> control_response option"
  ce_parse_value :: "string \<Rightarrow> json option"
  ce_read :: "string \<Rightarrow> 'o \<Rightarrow> string + string"
  ce_write :: "string \<Rightarrow> string \<Rightarrow> 'o \<Rightarrow> (string + unit) \<times> 'o"
  ce_yaml_from_str :: "string \<Rightarrow> string + yaml"
  ce_yaml_to_string :: "yaml \<Rightarrow> string + string"
  ce_example :: string
  ce_version :: string

datatype cli_error =
    UsageError string
  | BadSocketPath path_error
  | DaemonError string
  | ClientFailed client_error
  | NoStatusData
  | BadStatusPayload string
  | ConfigReadFailed string string
  | MergeFailed merge_error
  | MergeWriteFailed string string
  | DaemonExit exit_error

fun exit_code :: "cli_error + 'a \<Rightarrow> nat" where
  "exit_code (Inl (UsageError e)) = 2"
| "exit_code (Inl e) = 1"
| "exit_code (Inr a) = 0"

definition resolve_control_socket_path ::
  "('c, 'x, 'k, 'r, 'o) cli_env \<Rightarrow> string \<Rightarrow> string option \<Rightarrow> path_error + string" where
  "resolve_control_socket_path C config_path socket_override =
     (case socket_override of
        Some path \<Rightarrow> Inr path
      | None \<Rightarrow>
          (case load_config (ce_daemon C) config_path of
             Inr cfg \<Rightarrow> resolve_path_for_chroot_host (socket_path cfg) (config_chroot_dir cfg)
           | Inl e \<Rightarrow>
               (case resolve_path_for_chroot_host default_control_socket_path default_chroot_dir of
                  Inr path \<Rightarrow> Inr path
                | Inl _ \<Rightarrow> Inr default_control_socket_path)))"

text \<open>The exchange at a path, threaded through the state of the system.\<close>

definition client_command ::
  "('c, 'x, 'k, 'r, 'o) cli_env \<Rightarrow> string \<Rightarrow> string \<Rightarrow> 'o \<Rightarrow> (client_error + control_response) \<times> 'o" where
  "client_command C path command os =
     (case ce_exchange C path (control_request command) os of
        (r, os) \<Rightarrow> (send_command (\<lambda>_. r) (ce_parse_response C) command, os))"

definition run_control_command ::
  "('c, 'x, 'k, 'r, 'o) cli_env \<Rightarrow> string \<Rightarrow> string option \<Rightarrow> string \<Rightarrow> 'o \<Rightarrow> (cli_error + string list) \<times> 'o" where
  "run_control_command C config_path socket_override command os =
     then_do (resolve_control_socket_path C config_path socket_override, os) BadSocketPath (\<lambda>socket_path os.
     then_do (client_command C socket_path command os) ClientFailed (\<lambda>resp os.
     (case cr_status resp of
        StatusOk \<Rightarrow> Inr [case cr_message resp of Some msg \<Rightarrow> msg | None \<Rightarrow> command @ '' command sent successfully'']
      | StatusError \<Rightarrow> Inl (DaemonError (case cr_message resp of Some msg \<Rightarrow> msg | None \<Rightarrow> [])), os)))"

definition run_start_command ::
  "('c, 'x, 'k, 'r, 'o) startup_env \<Rightarrow> string \<Rightarrow> bool \<Rightarrow> bool \<Rightarrow> 'o \<Rightarrow> (exit_error + ('c, 'x, 'r, 'o) running_process) \<times> 'o" where
  "run_start_command S config_path debug direct os = run_daemon S config_path debug os"

definition run_stop_command ::
  "('c, 'x, 'k, 'r, 'o) cli_env \<Rightarrow> string \<Rightarrow> string option \<Rightarrow> bool \<Rightarrow> 'o \<Rightarrow> (cli_error + string list) \<times> 'o" where
  "run_stop_command C config_path socket_override direct os = run_control_command C config_path socket_override ''stop'' os"

fun join_names :: "string list \<Rightarrow> string" where
  "join_names [] = []"
| "join_names [n] = n"
| "join_names (n # m # ns) = n @ '', '' @ join_names (m # ns)"

definition status_lines :: "status_payload \<Rightarrow> string list" where
  "status_lines p =
     [''Daemon status: healthy'', ''Uptime (s): '' @ show_nat (int (sp_uptime_seconds p)),
      ''Filtering enabled: '' @ (if sp_filtering_enabled p then ''true'' else ''false''),
      ''Queries total: '' @ show_nat (int (sp_queries_total p)), ''Queries blocked: '' @ show_nat (int (sp_queries_blocked p)),
      ''Queries allowed: '' @ show_nat (int (sp_queries_allowed p)), ''Queries passthrough: '' @ show_nat (int (sp_queries_passthrough p)),
      ''Filter lists: '' @ show_nat (int (length (sp_lists p))),
      ''List names: '' @ (if sp_lists p = [] then ''(none)'' else join_names (sp_lists p))]"

definition run_status_command ::
  "('c, 'x, 'k, 'r, 'o) cli_env \<Rightarrow> string \<Rightarrow> string option \<Rightarrow> 'o \<Rightarrow> (cli_error + string list) \<times> 'o" where
  "run_status_command C config_path socket_override os =
     then_do (resolve_control_socket_path C config_path socket_override, os) BadSocketPath (\<lambda>socket_path os.
     then_do (client_command C socket_path ''status'' os) ClientFailed (\<lambda>resp os.
     (if cr_status resp \<noteq> StatusOk then Inl (DaemonError (case cr_message resp of Some msg \<Rightarrow> msg | None \<Rightarrow> []))
      else res_bind (ok_or NoStatusData (Option.bind (cr_data resp) (ce_parse_value C))) (\<lambda>data.
        res_bind (map_err BadStatusPayload (status_payload_of data)) (\<lambda>payload.
        Inr (status_lines payload))), os)))"

definition run_merge_config ::
  "('c, 'x, 'k, 'r, 'o) cli_env \<Rightarrow> string \<Rightarrow> bool \<Rightarrow> 'o \<Rightarrow> (cli_error + string list) \<times> 'o" where
  "run_merge_config C config_path overwrite os =
     then_do (ce_read C config_path os, os) (ConfigReadFailed config_path) (\<lambda>user_config os.
     then_do (merge_with_example (ce_yaml_from_str C) (ce_yaml_to_string C) (ce_example C) user_config, os) MergeFailed (\<lambda>merged os.
     if overwrite then then_do (ce_write C config_path merged os) (MergeWriteFailed config_path) (\<lambda>_ os. (Inr [], os))
     else (Inr [merged], os)))"

text \<open>The process: what it prints, or the server it has become.\<close>

definition cli_main ::
  "('c, 'x, 'k, 'r, 'o) cli_env \<Rightarrow> ('c, 'x, 'k, 'r, 'o) startup_env \<Rightarrow> string list \<Rightarrow> 'o \<Rightarrow> (cli_error + string list + ('c, 'x, 'r, 'o) running_process) \<times> 'o" where
  "cli_main C S args os =
     then_do (parse_cli_args (ce_try_parse C) args, os) UsageError (\<lambda>action os.
     case action of
       CliVersion \<Rightarrow> (Inr (Inl [''dns-filter '' @ ce_version C]), os)
     | CliStart config_path debug direct \<Rightarrow>
         then_do (run_start_command S config_path debug direct os) DaemonExit (\<lambda>p os. (Inr (Inr p), os))
     | CliStop config_path socket direct \<Rightarrow>
         then_do (run_stop_command C config_path socket direct os) id (\<lambda>out os. (Inr (Inl out), os))
     | CliReload config_path socket \<Rightarrow>
         then_do (run_control_command C config_path socket ''reload'' os) id (\<lambda>out os. (Inr (Inl out), os))
     | CliStatus config_path socket \<Rightarrow>
         then_do (run_status_command C config_path socket os) id (\<lambda>out os. (Inr (Inl out), os))
     | CliMergeConfig config_path overwrite \<Rightarrow>
         then_do (run_merge_config C config_path overwrite os) id (\<lambda>out os. (Inr (Inl out), os)))"

section \<open>Properties\<close>

text \<open>
  C24. The client finds the server: whatever configuration the server was started with, the path at which the command line
  looks for the control socket, given the same file, names the socket that the server has bound, inside the chroot
  directory. A server that changed its root has bound it at the path that is left when that directory is taken away, any
  other server at the very same path.
\<close>

theorem client_finds_socket:
  assumes "run_daemon S config_path debug os = (Inr p, os')" and "ce_daemon C = se_daemon S"
    and "\<And>path os. po_uid (se_priv S) (snd (se_open_log S path os)) = po_uid (se_priv S) os"
  shows "\<exists>config h cs ps. load_config (se_daemon S) config_path = Inr config \<and>
    resolve_control_socket_path C config_path None = Inr h \<and>
    normalize_lexical (path_components (config_chroot_dir config)) = abs_path cs \<and> path_components h = abs_path (cs @ ps) \<and>
    (if po_uid (se_priv S) os = 0 then path_components (rp_control_path p) = abs_path ps else rp_control_path p = h)"
proof -
  have ok: "\<not> (\<exists>e. Inr p = Inl e \<and> early_error e)" by simp
  from run_daemon_steps [OF assms(1) ok] obtain config yaml sinks os1 os2 where
    c: "load_config (se_daemon S) config_path = Inr config"
    and log: "init_logging (se_open_log S) (xc_logging (se_extra S yaml)) debug os = (Inr sinks, os1)"
    and run: "run_confined S config yaml (po_uid (se_priv S) os1 = 0) sinks os2 = (Inr p, os')"
    by metis
  have "po_uid (se_priv S) (snd (init_logging (se_open_log S) (xc_logging (se_extra S yaml)) debug os)) = po_uid (se_priv S) os"
    by (rule init_logging_view) (rule assms(3))
  then have uid: "po_uid (se_priv S) os1 = po_uid (se_priv S) os" unfolding log by simp
  have path: "runtime_path (po_uid (se_priv S) os = 0) (socket_path config) (config_chroot_dir config) = Inr (rp_control_path p)"
    using run unfolding uid by (elim run_confined_Inr start_servers_Inr)
  from runtime_path_host [OF path] obtain h where h: "resolve_path_for_chroot_host (socket_path config) (config_chroot_dir config) = Inr h"
    by blast
  obtain cs ps where p: "normalize_lexical (path_components (config_chroot_dir config)) = abs_path cs" "list_all part_ok (cs @ ps)"
      "h = render_path (abs_path (cs @ ps))" "parse_chroot_dir (config_chroot_dir config) = Inr (abs_path cs)"
      "resolve_scoped_host_path (socket_path config) (abs_path cs) = Inr (abs_path (cs @ ps))"
    by (rule resolve_host_parts [OF h])
  from resolve_runtime_parts [OF p(4,5)] path h
  have "if po_uid (se_priv S) os = 0 then rp_control_path p = render_path (abs_path ps) else rp_control_path p = h"
    by (auto simp: runtime_path_def)
  then have "if po_uid (se_priv S) os = 0 then path_components (rp_control_path p) = abs_path ps else rp_control_path p = h"
    using path_components_render [of ps] p(2) by (simp split: if_splits)
  moreover have "path_components h = abs_path (cs @ ps)" using path_components_render p(2,3) by simp
  moreover have "resolve_control_socket_path C config_path None = Inr h" by (simp add: resolve_control_socket_path_def assms(2) c h)
  ultimately show ?thesis using c p(1) by blast
qed

text \<open>
  The other end of the socket: a server in its loop, which answers the request of one connection. Responses are printed on
  one line.
\<close>

definition daemon_exchange ::
  "(control_response \<Rightarrow> string) \<Rightarrow> (string \<Rightarrow> string option) \<Rightarrow> string option \<Rightarrow> string \<Rightarrow> control_state \<Rightarrow>
   (client_error + string) \<times> control_state" where
  "daemon_exchange show_response parse status request st =
     (case handle_connection parse status (Some request) st of
        (_, st') \<Rightarrow>
          (Inr (case drop (length (ct_responses st)) (ct_responses st') of
             [] \<Rightarrow> [] | r # _ \<Rightarrow> show_response r @ [CHR 0x0A]), st'))"

definition control_replies :: "string option \<Rightarrow> control_response set" where
  "control_replies status =
     {ok_with_message ''reload triggered'', error_response ''reload channel closed'', ok_with_message ''shutdown initiated''} \<union>
     (case status of Some data \<Rightarrow> {ok_with_data data} | None \<Rightarrow> {error_response ''status unavailable in this build''})"

text \<open>The client is connected to a server, each reads what the other prints.\<close>

definition connected :: "('c, 'x, 'k, 'r, control_state) cli_env \<Rightarrow> string \<Rightarrow> (control_response \<Rightarrow> string) \<Rightarrow> (string \<Rightarrow> string option) \<Rightarrow> string option \<Rightarrow> bool" where
  "connected C path show_response parse status \<longleftrightarrow>
     ce_exchange C path = daemon_exchange show_response parse status \<and> reads_requests parse \<and>
     (\<forall>r\<in>control_replies status. ce_parse_response C (trim (show_response r @ [CHR 0x0A])) = Some r)"

lemma client_command_connected:
  assumes "connected C path show_response parse status" and "c \<in> {''reload'', ''stop'', ''status''}"
  shows "client_command C path c st =
    (case run_command status c st of ((response, stop), st) \<Rightarrow> (Inr response, respond_with response st))"
proof -
  obtain response stop st1 where run: "run_command status c st = ((response, stop), st1)" by (metis surj_pair)
  have same: "ct_responses st1 = ct_responses st" using run by (auto simp: run_command_def split: if_splits option.splits)
  have "handle_connection parse status (Some (control_request c)) st = (Inr stop, respond_with response st1)"
    using client_commands_run [of parse c status st] assms run by (simp add: connected_def)
  moreover have "response \<in> control_replies status" using run assms(2)
    by (auto simp: run_command_def control_replies_def split: if_splits option.splits)
  ultimately show ?thesis using assms(1) run same
    by (simp add: client_command_def connected_def daemon_exchange_def send_command_def respond_with_def)
qed

text \<open>
  The socket leads to the server, but the exchange may also end with an error (a refused connection, a time limit of
  either side), and then the server may or may not have carried the command out.
\<close>

definition linked :: "('c, 'x, 'k, 'r, control_state) cli_env \<Rightarrow> string \<Rightarrow> (control_response \<Rightarrow> string) \<Rightarrow> (string \<Rightarrow> string option) \<Rightarrow> string option \<Rightarrow> bool" where
  "linked C path show_response parse status \<longleftrightarrow>
     (\<forall>request st. ce_exchange C path request st = daemon_exchange show_response parse status request st \<or>
        (\<exists>e. ce_exchange C path request st = (Inl e, st) \<or>
           ce_exchange C path request st = (Inl e, snd (daemon_exchange show_response parse status request st)))) \<and>
     reads_requests parse \<and>
     (\<forall>r\<in>control_replies status. ce_parse_response C (trim (show_response r @ [CHR 0x0A])) = Some r)"

lemma connected_linked: "connected C path show_response parse status \<Longrightarrow> linked C path show_response parse status"
  by (simp add: connected_def linked_def)

lemma client_command_linked:
  assumes "linked C path show_response parse status" and "c \<in> {''reload'', ''stop'', ''status''}"
    and "run_command status c st = ((response, stop), st1)" and "client_command C path c st = (r, st')"
  shows "r = Inr response \<and> st' = respond_with response st1 \<or>
    (\<exists>e. r = Inl e \<and> (st' = st \<or> st' = respond_with response st1))"
proof -
  define D where "D = C\<lparr>ce_exchange := (\<lambda>_. daemon_exchange show_response parse status)\<rparr>"
  have "connected D path show_response parse status" using assms(1) by (simp add: connected_def linked_def D_def)
  from client_command_connected [OF this assms(2), of st] assms(3)
  have full: "client_command D path c st = (Inr response, respond_with response st1)" by simp
  then have "snd (daemon_exchange show_response parse status (control_request c) st) = respond_with response st1"
    by (simp add: client_command_def D_def split: prod.splits)
  then show ?thesis using assms(1,4) full
    by (auto simp: linked_def client_command_def send_command_def D_def split: prod.splits
        dest!: spec [where x = "control_request c"] spec [where x = st])
qed

text \<open>
  C35. Commands do what they say. When \<open>stop\<close> reports success, the shutdown has been requested; when \<open>reload\<close> reports
  success, exactly one reload request has been put into the queue of the server. Whether that reload then succeeds is
  not part of the report. An error means that the server no longer accepts reloads, or that the exchange with it failed,
  for instance at a time limit; then the command has been carried out once or not at all. If the exchange is not
  interrupted, \<open>stop\<close> always succeeds, and \<open>reload\<close> does, with exit status zero, exactly when the server accepts reloads.
\<close>

theorem commands_reach_daemon:
  assumes "resolve_control_socket_path C config_path socket_override = Inr path"
    and "linked C path show_response parse status"
  shows "(case run_stop_command C config_path socket_override direct st of (r, st') \<Rightarrow>
      ct_reloads_sent st' = ct_reloads_sent st \<and>
      (case r of Inr out \<Rightarrow> out = [''shutdown initiated''] \<and> ct_shutdown st'
       | Inl e \<Rightarrow> (\<exists>x. e = ClientFailed x) \<and> (ct_shutdown st \<longrightarrow> ct_shutdown st'))) \<and>
    (case run_control_command C config_path socket_override ''reload'' st of (r, st') \<Rightarrow>
      ct_shutdown st' = ct_shutdown st \<and> (r = Inr [''reload triggered''] \<and> ct_reloads_sent st' = Suc (ct_reloads_sent st) \<or>
        r = Inl (DaemonError ''reload channel closed'') \<and> ct_reloads_sent st' = ct_reloads_sent st \<and> \<not> ct_reload_open st \<or>
        (\<exists>x. r = Inl (ClientFailed x)) \<and> ct_reloads_sent st' \<in> {ct_reloads_sent st, Suc (ct_reloads_sent st)})) \<and>
    (connected C path show_response parse status \<longrightarrow> (\<exists>st'. run_stop_command C config_path socket_override direct st = (Inr [''shutdown initiated''], st') \<and> ct_shutdown st' \<and>
      ct_reloads_sent st' = ct_reloads_sent st) \<and>
    (\<exists>r st'. run_control_command C config_path socket_override ''reload'' st = (r, st') \<and> ct_shutdown st' = ct_shutdown st \<and>
      (if ct_reload_open st then r = Inr [''reload triggered''] \<and> ct_reloads_sent st' = Suc (ct_reloads_sent st)
       else r = Inl (DaemonError ''reload channel closed'') \<and> ct_reloads_sent st' = ct_reloads_sent st) \<and>
      (exit_code r = 0 \<longleftrightarrow> ct_reload_open st)))"
proof (intro conjI impI)
  note run = run_stop_command_def run_control_command_def then_do_def run_command_def respond_with_def ok_with_message_def
    error_response_def
  obtain r1 st1 where stop: "client_command C path ''stop'' st = (r1, st1)" by fastforce
  obtain r2 st2 where reload: "client_command C path ''reload'' st = (r2, st2)" by fastforce
  obtain x1 y1 s1 where x1: "run_command status ''stop'' st = ((x1, y1), s1)" by (metis surj_pair)
  obtain x2 y2 s2 where x2: "run_command status ''reload'' st = ((x2, y2), s2)" by (metis surj_pair)
  show "case run_stop_command C config_path socket_override direct st of (r, st') \<Rightarrow>
      ct_reloads_sent st' = ct_reloads_sent st \<and>
      (case r of Inr out \<Rightarrow> out = [''shutdown initiated''] \<and> ct_shutdown st'
       | Inl e \<Rightarrow> (\<exists>x. e = ClientFailed x) \<and> (ct_shutdown st \<longrightarrow> ct_shutdown st'))"
    using client_command_linked [OF assms(2) _ x1 stop] x1 assms(1) stop by (auto simp: run)
  show "case run_control_command C config_path socket_override ''reload'' st of (r, st') \<Rightarrow>
      ct_shutdown st' = ct_shutdown st \<and> (r = Inr [''reload triggered''] \<and> ct_reloads_sent st' = Suc (ct_reloads_sent st) \<or>
        r = Inl (DaemonError ''reload channel closed'') \<and> ct_reloads_sent st' = ct_reloads_sent st \<and> \<not> ct_reload_open st \<or>
        (\<exists>x. r = Inl (ClientFailed x)) \<and> ct_reloads_sent st' \<in> {ct_reloads_sent st, Suc (ct_reloads_sent st)})"
    using client_command_linked [OF assms(2) _ x2 reload] x2 assms(1) reload by (auto simp: run split: if_splits)
next
  assume c: "connected C path show_response parse status"
  show "\<exists>st'. run_stop_command C config_path socket_override direct st = (Inr [''shutdown initiated''], st') \<and> ct_shutdown st' \<and>
        ct_reloads_sent st' = ct_reloads_sent st"
    using client_command_connected [OF c, of "''stop''" st] assms(1)
    by (simp add: run_stop_command_def run_control_command_def then_do_def run_command_def respond_with_def ok_with_message_def
        error_response_def)
  show "\<exists>r st'. run_control_command C config_path socket_override ''reload'' st = (r, st') \<and> ct_shutdown st' = ct_shutdown st \<and>
        (if ct_reload_open st then r = Inr [''reload triggered''] \<and> ct_reloads_sent st' = Suc (ct_reloads_sent st)
         else r = Inl (DaemonError ''reload channel closed'') \<and> ct_reloads_sent st' = ct_reloads_sent st) \<and>
        (exit_code r = 0 \<longleftrightarrow> ct_reload_open st)"
    using client_command_connected [OF c, of "''reload''" st] assms(1)
    by (simp add: run_control_command_def then_do_def run_command_def respond_with_def ok_with_message_def
        error_response_def)
qed

lemma status_payload_read:
  assumes "sn_queries_total (take_snapshot (w_metrics (dm_world d))) < 2 ^ 64"
    and "sn_queries_blocked (take_snapshot (w_metrics (dm_world d))) < 2 ^ 64"
    and "sn_queries_allowed (take_snapshot (w_metrics (dm_world d))) < 2 ^ 64"
    and "sn_queries_passthrough (take_snapshot (w_metrics (dm_world d))) < 2 ^ 64"
  shows "status_payload_of (status_provider up now d) =
    (let s = take_snapshot (w_metrics (dm_world d)) in
     Inr \<lparr>sp_uptime_seconds = unat now - unat (so_start_time (dm_ops d)), sp_filtering_enabled = so_filtering_enabled (dm_ops d),
       sp_queries_total = sn_queries_total s, sp_queries_blocked = sn_queries_blocked s, sp_queries_allowed = sn_queries_allowed s,
       sp_queries_passthrough = sn_queries_passthrough s, sp_lists = map li_name (list_names (so_domain_filter (dm_ops d)))\<rparr>)"
proof -
  have "unat now < 2 ^ LENGTH(64)" by (rule unsigned_less)
  then have "unat now - unat (so_start_time (dm_ops d)) < 2 ^ 64" by (simp add: less_imp_diff_less)
  moreover have "res_map_list status_list_info (map list_info_json ls) = Inr (map li_name ls)" for ls
    by (induction ls) (simp_all add: status_list_info_def json_field_def list_info_json_def json_string_def)
  ultimately show ?thesis using assms
    by (simp add: status_payload_of_def status_provider_def json_field_def json_u64_def json_bool_def Let_def)
qed


text \<open>
  A merge writes nothing but its result: the file is only written if it was asked for and the merge succeeded, once, with
  the merged text.
\<close>

theorem merge_writes_result:
  assumes "run_merge_config C config_path overwrite os = (r, os')"
  shows "os' = os \<or> overwrite \<and> (\<exists>user merged. ce_read C config_path os = Inr user \<and>
    merge_with_example (ce_yaml_from_str C) (ce_yaml_to_string C) (ce_example C) user = Inr merged \<and>
    os' = snd (ce_write C config_path merged os))"
  using assms by (auto simp: run_merge_config_def then_do_def split: sum.splits prod.splits if_splits)

text \<open>The flag \<open>--direct\<close> changes nothing: the server is always started and stopped directly.\<close>

theorem direct_ignored:
  "run_start_command S config_path debug True os' = run_start_command S config_path debug False os' \<and>
   run_stop_command C config_path socket_override True os = run_stop_command C config_path socket_override False os"
  by (simp add: run_start_command_def run_stop_command_def)


section \<open>Instances\<close>

text \<open>A client of the example server.\<close>

definition example_cli :: "json \<Rightarrow> (connect_target, nat, nat, nat, control_state) cli_env" where
  "example_cli report =
     \<lparr>ce_daemon = example_daemon_env, ce_try_parse = (\<lambda>args. Inl []), ce_exchange = (\<lambda>path. daemon_exchange brief_response read_request (Some ''report'')),
      ce_parse_response = (\<lambda>line. List.find (\<lambda>r. trim (brief_response r @ [CHR 0x0A]) = line) example_replies),
      ce_parse_value = (\<lambda>text. Some report), ce_read = (\<lambda>path st. Inl []), ce_write = (\<lambda>path text st. (Inl [], st)),
      ce_yaml_from_str = (\<lambda>text. Inl []), ce_yaml_to_string = (\<lambda>v. Inl []), ce_example = [], ce_version = ''1''\<rparr>"

lemma example_cli_connected:
  "connected (example_cli report) path brief_response read_request (Some ''report'')"
proof -
  have "control_replies (Some ''report'') = set example_replies"
    by (simp add: control_replies_def example_replies_def insert_commute)
  then show ?thesis using read_request_reads example_replies_read by (simp add: connected_def example_cli_def)
qed

theorem commands_reach_daemon_witness:
  "\<exists>st'. run_stop_command (example_cli JNull) [] (Some ''/run/s'') False running_control = (Inr [''shutdown initiated''], st') \<and>
     ct_shutdown st'"
proof -
  have "resolve_control_socket_path (example_cli JNull) [] (Some ''/run/s'') = Inr ''/run/s''"
    by (simp add: resolve_control_socket_path_def)
  from commands_reach_daemon [OF this connected_linked [OF example_cli_connected], of running_control False]
  show ?thesis using example_cli_connected by blast
qed


theorem client_finds_socket_witness:
  "\<exists>p os' h cs ps. run_daemon example_startup [] False first_process = (Inr p, os') \<and>
     resolve_control_socket_path (example_cli JNull) [] None = Inr h \<and> path_components h = abs_path (cs @ ps) \<and>
     path_components (rp_control_path p) = abs_path ps"
proof -
  obtain p os' where run: "run_daemon example_startup [] False first_process = (Inr p, os')" by (rule example_starts)
  have "ce_daemon (example_cli JNull) = se_daemon example_startup" by (simp add: example_cli_def example_startup_parts)
  moreover have "po_uid (se_priv example_startup) (snd (se_open_log example_startup path os)) = po_uid (se_priv example_startup) os"
    for path os by (simp add: example_startup_parts)
  moreover have "po_uid (se_priv example_startup) first_process = 0"
    by (simp add: example_startup_parts obedient_os_def first_process_def root_process_def)
  ultimately show ?thesis using client_finds_socket [OF run, of "example_cli JNull"] run by auto
qed

end
