(* ===== verification/Spec2Isabelle.thy ===== *)
theory Spec2Isabelle
  imports CommandLine
begin

text \<open>
  A verification of the DNS filter server: a daemon that answers DNS queries over several transports, blocks names by
  downloaded lists, forwards the rest to upstream resolvers or to zones of its own, and is administered at run time.

  \<^bold>\<open>How the program works.\<close> \<open>main.rs\<close> loads a YAML file, imports it once into a SQLite database
  (\<open>seed.rs\<close>), and from then on takes lists, servers and zones from the database (\<open>config_from_db.rs\<close>).
  \<open>config_bootstrap.rs\<close> validates the configuration and builds a list filter (\<open>filtering/\<close>), upstream
  resolvers (\<open>upstream_resolver.rs\<close> over the clients of \<open>frameworks/upstream/\<close>) and zone entries
  (\<open>zone_forwarding.rs\<close>, \<open>zone_authority.rs\<close>, \<open>zone_discovery.rs\<close>), and composes them into a chain
  of stages (\<open>request_pipeline.rs\<close>). Listeners hand every query to that chain (\<open>listeners/handler.rs\<close>).
  Management calls (\<open>server_operations.rs\<close>) change the database through the repositories
  (\<open>frameworks/database/\<close>) and ask for a reload (\<open>reload.rs\<close>), which builds everything anew and installs it.
  They arrive over an HTTP interface (\<open>listeners/http.rs\<close>, \<open>admin.rs\<close>), as tool calls
  (\<open>listeners/mcp.rs\<close>) or as commands on a local socket (\<open>control_socket.rs\<close>). The process gives up its
  privileges at start (\<open>privileges.rs\<close>), and its certificates may come from an ACME authority
  (\<open>frameworks/acme/\<close>).

  \<^bold>\<open>The theories\<close>, in the order in which they build on one another:

  \<^item> \<open>Prelude\<close>: results (\<open>res_bind\<close>, \<open>res_map_list\<close>), association lists with the order of a hash map's
    insertions, shared lemmas.
  \<^item> \<open>RustStd\<close>, \<open>RustNet\<close>: the standard-library functions that the sources call on strings, numbers and
    socket addresses, on UTF-8 byte strings, with the round trips of printing and parsing.
  \<^item> \<open>DnsLib\<close>: DNS messages as the sources see them. The codec of the DNS library is the parameter
    \<open>dns_lib\<close>; \<open>codec_ok\<close> says that what it encodes it decodes again.
  \<^item> \<open>ConfigSchema\<close>: \<open>frameworks/config/schema.rs\<close>, the records of the configuration.
  \<^item> \<open>Metrics\<close>: \<open>frameworks/metrics/mod.rs\<close> and \<open>entities/query_log.rs\<close>; the counters stay balanced,
    the log keeps the latest entries.
  \<^item> \<open>FilterLists\<close>: \<open>filtering/\<close> parsers of the five list formats and the matching of names; matching is
    coverage by a listed domain, entries are normal and valid, lists are read back as written.
  \<^item> \<open>FilterEngine\<close>, \<open>FilterConcurrency\<close>: \<open>filtering/mod.rs\<close>, the engine with its runtimes, snapshot,
    refreshes and cache; decisions follow the enabled lists after any sequence of calls that run one after the other.
    When calls overlap (a step relation on the shared state) the lists loaded last are kept, and only lists flagged as
    disabled at some moment of the run may be left out.
  \<^item> \<open>UpstreamResolver\<close>: \<open>upstream_resolver.rs\<close>, the response cache, the strategies and the metrics around a
    resolver, over an explicit world (network, caches, round-robin counters, clock, metrics).
  \<^item> \<open>UpstreamClients\<close>: the clients for plain DNS, TLS, HTTPS and QUIC, with kept connections, bootstrap
    lookups and outbound routing. Sockets and connections are the parameter \<open>net_lib\<close>.
  \<^item> \<open>RecursiveResolver\<close>: root hints, options and answers of \<open>recursive_resolver.rs\<close>; the recursor itself is
    a parameter.
  \<^item> \<open>RequestPipeline\<close>: the stages and response builders of \<open>request_pipeline.rs\<close>.
  \<^item> \<open>ZoneAuthority\<close>, \<open>ZoneForwarding\<close>, \<open>ZoneRegistry\<close>, \<open>ZoneDiscovery\<close>: the files of these
    names.
  \<^item> \<open>ChrootPaths\<close>, \<open>ConfigBootstrap\<close>: \<open>config_bootstrap.rs\<close>, the confinement of paths and the
    validation in the first, the construction of all parts in the second. Which paths lie inside a directory is
    specified on the text of the paths (\<open>path_names\<close>), apart from the code.
  \<^item> \<open>Database\<close>, \<open>ConfigDb\<close>: the repositories on tables with the constraints of the schema, the zones of which
    implement a map from names; the import of the configuration file and the configuration read from the tables
    (\<open>apply_db_config\<close>, which fails when one of its six reads does, and otherwise gives \<open>loaded_config\<close>).
  \<^item> \<open>ServerOperations\<close>: \<open>server_operations.rs\<close>, the management operations as state transformers that may
    fail half-way; those on lists and on zones implement maps from names.
  \<^item> \<open>Daemon\<close>: \<open>loader.rs\<close>, \<open>reload.rs\<close>, \<open>handler.rs\<close> and the parts of \<open>main.rs\<close> that start
    the server and act on a reload. A running server is the record \<open>daemon\<close>; \<open>daemon_step\<close> is one event (a
    query, a management call, the end of a refresh, a reload), \<open>daemon_run\<close> a sequence of them.
  \<^item> \<open>HttpApi\<close>, \<open>McpServer\<close>: \<open>http.rs\<close>, \<open>auth.rs\<close>, \<open>admin.rs\<close> and \<open>mcp.rs\<close>,
    the routes and tools over the operations, with their authentication; no request without the token changes
    anything, and no sequence of requests breaks the constraints of the tables.
  \<^item> \<open>ConfigMerger\<close>: \<open>merger.rs\<close> on YAML values; the user's settings win over the example.
  \<^item> \<open>Privileges\<close>: \<open>privileges.rs\<close> as a sequence of system calls; a process that returns from it is confined.
  \<^item> \<open>ControlSocket\<close>: \<open>control_socket.rs\<close> and \<open>control_client.rs\<close>, the protocol and the serving loop.
  \<^item> \<open>CertTime\<close>, \<open>Acme\<close>: \<open>frameworks/acme/\<close>, the expiry date read from a certificate, the order with
    its DNS challenges over a log of external calls and of the results that matter later (what the authority returned,
    which files were written), and the renewal task with its waits.
  \<^item> \<open>Listeners\<close>: \<open>listeners/mod.rs\<close>, \<open>tls.rs\<close>, \<open>metrics.rs\<close> and the part of \<open>main.rs\<close>
    that binds the sockets; names in generated certificates, dual-stack sockets. Of the system it is only assumed what a
    successful socket call does (\<open>sockets_act\<close>), not that calls succeed.
  \<^item> \<open>Logging\<close>: \<open>frameworks/logging/\<close>, the sinks that a configuration asks for and the sender to syslog, which
    keeps the order of messages over failures.
  \<^item> \<open>Startup\<close>: \<open>run_daemon\<close> of \<open>main.rs\<close> as a whole, composed of the parts above over one state of the
    system, with \<open>pool.rs\<close>; what is opened before and after the privileges are dropped, what is registered after a
    start, and that ACME cannot keep the server from starting.
  \<^item> \<open>CommandLine\<close>: the other commands of \<open>main.rs\<close>; the client and the server agree on the socket, commands
    reach the server, also over an exchange that may fail (\<open>linked\<close>), and the status report is read back.

  \<^bold>\<open>Interfaces.\<close> Where one component relies on another, its contract is a locale, interpreted on the model of
  the provider: the cache repository of the engine, the filter that the pipeline consults, the resolvers that keep the
  world's invariant, the stream transports of the three encrypted clients and of TCP.

  \<^bold>\<open>What is shown here.\<close> The theorems of this theory span the components: once the process has started, every query
  is answered and the state stays bounded; a blocked name does not leave the machine; a zone that bypasses the filter is
  answered without it.

  \<^bold>\<open>Bounds.\<close> No definition takes fuel: nearly every loop of the modelled code is a structural recursion or a fold
  over a list, or has a termination proof. The serving loop of the control socket may run for ever; it is a partial
  function with values in option, with a theorem on when it returns. The renewal task is counted in turns, the syslog
  sender in failures; their theorems hold for every number. Machine integers are words of their width wherever a source
  operation could wrap.
  Asynchronous code is modelled at the granularity of its awaits only where that matters (\<open>FilterConcurrency\<close>);
  elsewhere one operation is one step.

  \<^bold>\<open>Not modelled.\<close> Accept loops and handshakes of the listeners, the spawning of tasks and the final wait of
  \<open>main.rs\<close>, signal registration, the Prometheus text output, database systems other than SQLite, derived
  deserializers, and the plugin runtime, which is a stub in the source. Libraries (DNS codec, URL parser, YAML and JSON,
  HTTP client, sockets, TLS, the ACME protocol, syslog, the parser of arguments, the recursor) are parameters.
\<close>

section \<open>The whole server\<close>

subsection \<open>Every query is answered\<close>

definition query_ids :: "daemon_event list \<Rightarrow> u16 list" where
  "query_ids evs = concat (map (\<lambda>ev. case ev of Query ident _ \<Rightarrow> [ident] | _ \<Rightarrow> []) evs)"

lemma daemon_run_ok:
  "daemon_run D evs d = (answers, d') \<Longrightarrow> daemon_ok d \<Longrightarrow> map sr_id answers = query_ids evs \<and> daemon_ok d'"
proof (induction evs arbitrary: d answers d')
  case (Cons ev evs)
  obtain as d1 where s: "daemon_step D ev d = (as, d1)" by fastforce
  obtain bs d2 where r: "daemon_run D evs d1 = (bs, d2)" by fastforce
  from daemon_step_ok [OF Cons.prems(2) s] Cons.IH [OF r] Cons.prems(1) s r show ?case
    by (auto simp: query_ids_def)
qed (simp add: query_ids_def)

lemma started_process_ok:
  assumes "run_daemon S config_path debug os = (Inr p, os')" and "opt_balanced (w_metrics (se_world S))"
    and "\<And>pool os db r os'. se_migrate S pool os = (Inr (db, r), os') \<Longrightarrow> db_ok db"
  shows "daemon_ok (rp_daemon p)"
proof -
  obtain config yaml wc sinks mid where "run_confined S config yaml wc sinks mid = (Inr p, os')"
    using run_daemon_steps [OF assms(1)] by (metis sum.distinct(1))
  then obtain url os0 db r os1 t d where pool: "init_pool S url os0 = (Inr (db, r), os1)"
    and start: "start_daemon (se_daemon S) yaml db r t (se_world S) = Inr d"
    and servers: "start_servers S config (se_extra S yaml) wc (config_chroot_dir config) sinks d os1 = (Inr p, os')"
    by (rule run_confined_Inr)
  from pool have "db_ok db" unfolding init_pool_def by (auto dest: assms(3))
  then have "daemon_ok d" by (rule start_daemon_ok [OF start _ assms(2)])
  moreover from servers have "rp_daemon p = d\<lparr>dm_ops := (dm_ops d)\<lparr>so_query_log := query_log_of (xc_api (se_extra S yaml))\<rparr>\<rparr>"
    by (rule start_servers_Inr)
  ultimately show ?thesis by (simp add: daemon_ok_def ops_ok_def)
qed

text \<open>
  C1. The server as a whole: once the process has started, from whatever configuration and system, on a database that
  satisfies its constraints, every DNS query of any sequence of events (raw queries, malformed ones included, management
  calls, refreshes of lists and reloads, in any order) is answered, in order and under its own identifier; and at the end
  of the sequence the tables are consistent, the counters are balanced, every filter satisfies its invariant and every
  response cache has at most ten thousand entries.
\<close>

theorem server_answers_and_stays_bounded:
  assumes "run_daemon S config_path debug os = (Inr p, os')" and "opt_balanced (w_metrics (se_world S))"
    and "\<And>pool os db r os'. se_migrate S pool os = (Inr (db, r), os') \<Longrightarrow> db_ok db"
    and "daemon_run (se_daemon S) evs (rp_daemon p) = (answers, d')"
  shows "map sr_id answers = query_ids evs \<and> ops_ok (dm_ops d') \<and> list_all engine_inv (dm_engines d') \<and>
    opt_balanced (w_metrics (dm_world d')) \<and> (\<forall>cid. length (w_caches (dm_world d') cid) \<le> 10000)"
proof -
  have cap: "cache_cap = 10000" by code_simp
  from daemon_run_ok [OF assms(4) started_process_ok [OF assms(1-3)]]
  have "map sr_id answers = query_ids evs" and ok: "daemon_ok d'" by auto
  then show ?thesis unfolding daemon_ok_def world_ok_def cap by auto
qed

subsection \<open>What reaches the upstream\<close>

text \<open>
  C3. Through the whole pipeline, a query whose name the filter blocks never leaves the machine unless a zone that
  bypasses the filter holds its name: it is answered with the sinkhole response, and neither the network nor any
  cache changes, whatever the upstream resolvers, the other zones and the policy on ANY queries are.
\<close>

theorem blocked_query_stays_local:
  assumes "pipeline = build_dns_request_pipeline_full L resolver (engine_filter e) policy entries flag"
    and "flag \<noteq> Some False" and "engine_inv e"
    and "lib_from_vec L (rq_query req) = Inr m" and "m_queries m = q # qs"
    and "decide e (lib_name_to_ascii L (q_name q)) = DecBlock"
    and "\<forall>z\<in>set entries. ze_bypass_filter z \<longrightarrow>
      (\<forall>n. normalize_zone (lib_name_to_ascii L (q_name q)) = Some n \<longrightarrow> \<not> forward_matches_zone n (ze_zone z))"
  shows "\<exists>w'. handle_request pipeline req w =
      (Inr (Some (build_sinkhole_response L m (eng_sinkhole_v4 e) (eng_sinkhole_v6 e))), w') \<and>
    w_net w' = w_net w \<and> w_caches w' = w_caches w"
proof -
  have "matching_entry (bypass_only entries) (lib_name_to_ascii L (q_name q)) = None"
    using assms(7) by (auto simp: matching_entry_None bypass_only_def sort_entries_props)
  then have bypass: "zone_forwarding_stage L (bypass_only entries) req w = (Inr None, w)"
    using assms(4,5) by (simp add: zone_forwarding_stage_def extract_query_name_def)
  have flag: "(case flag of None \<Rightarrow> True | Some b \<Rightarrow> b)" using assms(2) by (auto split: option.split)
  have "df_decide (engine_filter e) (lib_name_to_ascii L (q_name q)) = DecBlock"
    using assms(6) by (simp add: engine_filter_def)
  from engine_df.block_stage [OF assms(3-5) this, of w] bypass flag show ?thesis
    by (auto simp: assms(1) build_dns_request_pipeline_full_def engine_filter_def)
qed

text \<open>
  C37. A zone that bypasses the filter is answered before the filter is consulted: when the query name lies in such
  a zone, the answer, and the state afterwards, do not depend on the filter, its switch or the policy on ANY
  queries, unless the zone's resolver fails and the zone falls back to the default resolvers.
\<close>

theorem bypass_zone_unfiltered:
  assumes "pipeline = build_dns_request_pipeline_full L resolver F policy entries flag"
    and "extract_query_name L (rq_query req) = Some name" and "matching_entry (bypass_only entries) name = Some z"
    and "up_resolve (ze_resolver z) (rq_query req) w = (r, w')"
    and "\<not> (isl r \<and> ze_fallback_to_default_resolvers z)"
  shows "handle_request pipeline req w =
    (Inr (Some (case r of
        Inr response \<Rightarrow> fix_response_id L response (rq_client_query_id req)
      | Inl _ \<Rightarrow> build_servfail_response L (rq_query req))), w')"
  using assms
  by (cases r) (auto simp: build_dns_request_pipeline_full_def zone_forwarding_stage_def)

subsection \<open>Instances\<close>

theorem server_answers_and_stays_bounded_witness:
  "\<exists>p os'. run_daemon example_startup [] False first_process = (Inr p, os') \<and>
     map sr_id (fst (daemon_run example_daemon_env [Query 258 [1, 2, 5], Reload, Query 7 [9]] (rp_daemon p))) = [258, 7]"
proof -
  obtain p os' where start: "run_daemon example_startup [] False first_process = (Inr p, os')" by (rule example_starts)
  obtain answers d' where run: "daemon_run (se_daemon example_startup) [Query 258 [1, 2, 5], Reload, Query 7 [9]] (rp_daemon p) = (answers, d')"
    by fastforce
  have "opt_balanced (w_metrics (se_world example_startup))" by (simp add: example_startup_parts transport_world_def opt_balanced_def)
  moreover have "db_ok db" if "se_migrate example_startup pool os = (Inr (db, r), q)" for pool os db r q
    using that initial_database_ok by (auto simp: example_startup_def)
  ultimately show ?thesis using server_answers_and_stays_bounded [OF start _ _ run] start run
    by (auto simp: query_ids_def example_startup_parts)
qed

theorem blocked_query_stays_local_witness:
  "\<exists>w'. handle_request (build_dns_request_pipeline_full ads_lib example_upstream (engine_filter (fst example_loaded))
       AnyPassthrough [] None) ads_request example_world = (Inr (Some [1, 2, 4]), w') \<and> w_net w' = 0"
proof -
  let ?q = "\<lparr>q_name = DnsName [''ads'', ''example''], q_type = TypeA, q_class = 1 :: u16\<rparr>"
  have inv: "engine_inv (fst example_loaded)" using sequential_engine_inv [OF example_reachable] .
  have qs: "m_queries ads_query = [?q]" by (simp add: ads_query_def add_query_def message_new_def)
  have dec: "decide (fst example_loaded) (lib_name_to_ascii ads_lib (q_name ?q)) = DecBlock" by code_simp
  have enc: "build_sinkhole_response ads_lib ads_query (eng_sinkhole_v4 (fst example_loaded))
      (eng_sinkhole_v6 (fst example_loaded)) = [1, 2, 4]" by code_simp
  have net: "w_net example_world = 0" by (simp add: example_world_def)
  show ?thesis
    using blocked_query_stays_local [OF refl _ inv ads_lib_facts(2) qs dec, where flag = None and entries = "[]"
        and w = example_world and resolver = example_upstream and policy = AnyPassthrough] enc net by auto
qed

text \<open>A zone for blocked names that bypasses the filter.\<close>

definition ads_zone :: "nat zone_entry" where
  "ads_zone = \<lparr>ze_zone = ''example'', ze_bypass_filter = True, ze_fallback_to_default_resolvers = True,
     ze_resolver = net_upstream ''zone'' (\<lambda>q n. (Inr [0, 9], Suc n)), ze_searchable = None\<rparr>"

theorem bypass_zone_unfiltered_witness:
  "handle_request (build_dns_request_pipeline_full ads_lib broken_upstream (engine_filter (fst example_loaded))
       AnyRefused [ads_zone] None) ads_request example_world = (Inr (Some [1, 2, 5]), example_world\<lparr>w_net := 1\<rparr>) \<and>
   decide (fst example_loaded) ''ads.example.'' = DecBlock"
proof -
  have name: "extract_query_name ads_lib (rq_query ads_request) = Some ''ads.example.''" by code_simp
  have zone: "matching_entry (bypass_only [ads_zone]) ''ads.example.'' = Some ads_zone"
  proof -
    have "normalize_zone ''ads.example.'' = Some ''ads.example'' \<and> forward_matches_zone ''ads.example'' ''example''"
      by code_simp
    then show ?thesis by (simp add: matching_entry_def bypass_only_def sort_entries_def ads_zone_def)
  qed
  have up: "up_resolve (ze_resolver ads_zone) (rq_query ads_request) example_world = (Inr [0, 9], example_world\<lparr>w_net := 1\<rparr>)"
    by (simp add: ads_zone_def net_upstream_def example_world_def)
  have fix_id: "fix_response_id ads_lib [0, 9] (rq_client_query_id ads_request) = [1, 2, 5]" by code_simp
  have "decide (fst example_loaded) ''ads.example.'' = DecBlock" by code_simp
  then show ?thesis
    using bypass_zone_unfiltered [OF refl name zone up, where resolver = broken_upstream and
        F = "engine_filter (fst example_loaded)" and policy = AnyRefused and flag = None]
      fix_id by simp
qed

end
